(* ===== verification/Prelude.thy ===== *)
theory Prelude
  imports Main "HOL-Library.Word" "HOL-Library.Char_ord" "HOL-Library.List_Lexorder"
begin

text \<open>
  The shared base of the development: the result type of every operation that can run into
  undefined behaviour of C++ (a sum with \<open>fault\<close> on the left), its sequencing operator,
  machine integer abbreviations, the operating system constants the sources use, the
  collections of simplification rules, the list lemmas the components share and the locale of
  forward simulations.
\<close>

unbundle bit_operations_syntax

section \<open>Collections\<close>

named_theorems exec_simps \<open>unfolding of the sequencing of fallible operations\<close>
named_theorems fs_defs \<open>the small accessors and updates of the file system state\<close>
named_theorems handler_frames \<open>what an operation leaves unchanged\<close>

section \<open>Faults: executions that C++ leaves undefined\<close>

text \<open>
  An operation either runs to its end (\<open>Inr\<close>) or reaches a point whose behaviour C++ leaves
  undefined or that aborts the process (\<open>Inl\<close>). POSIX errors are not faults: they are replies
  to the kernel and are recorded as values of the state.
\<close>

datatype fault =
    OutOfRange      \<comment> \<open>\<open>vector::operator[]\<close> past the end, \<open>front\<close> of an empty queue\<close>
  | NullDeref       \<comment> \<open>a member access or \<open>memcpy\<close> through a null pointer\<close>
  | BadAccess       \<comment> \<open>a read or write outside an allocated object\<close>
  | UseAfterFree    \<comment> \<open>access to an object that \<open>delete\<close> has destroyed\<close>
  | BufferOverflow  \<comment> \<open>\<open>memcpy\<close> into a fixed-size array that is too small\<close>
  | Aborted         \<comment> \<open>\<open>abort()\<close>, a failed \<open>assert\<close>, an uncaught exception\<close>

type_synonym 'a exec = "fault + 'a"

fun andThen :: "'a exec \<Rightarrow> ('a \<Rightarrow> 'b exec) \<Rightarrow> 'b exec" where
  "andThen (Inl e) k = Inl e"
| "andThen (Inr x) k = k x"

declare andThen.simps [exec_simps]

lemma andThen_Inr_iff [simp]:
  "andThen m k = Inr y \<longleftrightarrow> (\<exists>x. m = Inr x \<and> k x = Inr y)"
  by (cases m) auto

lemma andThen_Inl_iff [simp]:
  "andThen m k = Inl e \<longleftrightarrow> m = Inl e \<or> (\<exists>x. m = Inr x \<and> k x = Inl e)"
  by (cases m) auto

lemma andThen_cong [fundef_cong]:
  "m = m' \<Longrightarrow> (\<And>x. m' = Inr x \<Longrightarrow> k x = k' x) \<Longrightarrow> andThen m k = andThen m' k'"
  by (cases m') auto

text \<open>A loop over a list whose body can fault, threading a state.\<close>

fun foldE :: "('a \<Rightarrow> 's \<Rightarrow> 's exec) \<Rightarrow> 'a list \<Rightarrow> 's \<Rightarrow> 's exec" where
  "foldE f [] s = Inr s"
| "foldE f (x # xs) s = andThen (f x s) (foldE f xs)"

text \<open>The same operation on every element, collecting the results, first fault first.\<close>

fun mapE :: "('a \<Rightarrow> 'b exec) \<Rightarrow> 'a list \<Rightarrow> 'b list exec" where
  "mapE f [] = Inr []"
| "mapE f (x # xs) = andThen (f x) (\<lambda>y. andThen (mapE f xs) (\<lambda>ys. Inr (y # ys)))"

lemma foldE_append: "foldE f (xs @ ys) s = andThen (foldE f xs s) (foldE f ys)"
proof (induction xs arbitrary: s)
  case (Cons x xs)
  then show ?case by (cases "f x s") simp_all
qed simp

lemma mapE_Inr:
  "(\<And>x. x \<in> set xs \<Longrightarrow> f x = Inr (g x)) \<Longrightarrow> mapE f xs = Inr (map g xs)"
  by (induction xs) auto

lemma mapE_length: "mapE f xs = Inr ys \<Longrightarrow> length ys = length xs"
  by (induction xs arbitrary: ys) auto

lemma mapE_nth:
  "mapE f xs = Inr ys \<Longrightarrow> i < length xs \<Longrightarrow> f (xs ! i) = Inr (ys ! i)"
  by (induction xs arbitrary: ys i) (auto simp: nth_Cons split: nat.splits)

lemma mapE_append: "mapE f xs = Inr a \<Longrightarrow> mapE f ys = Inr b \<Longrightarrow> mapE f (xs @ ys) = Inr (a @ b)"
  by (induction xs arbitrary: a) auto

lemma mapE_ex:
  "(\<And>x. x \<in> set xs \<Longrightarrow> \<exists>y. f x = Inr y \<and> P x y) \<Longrightarrow> \<exists>ys. mapE f xs = Inr ys \<and> list_all2 P xs ys"
proof (induction xs)
  case (Cons x xs)
  then obtain y ys where "f x = Inr y" "P x y" "mapE f xs = Inr ys" "list_all2 P xs ys" by force
  then show ?case by auto
qed simp

section \<open>Forward simulation\<close>

text \<open>A condition on every step of an abstract run.\<close>

primrec all_steps :: "('op \<Rightarrow> 'a \<Rightarrow> bool) \<Rightarrow> ('op \<Rightarrow> 'a \<Rightarrow> 'a) \<Rightarrow> 'op list \<Rightarrow> 'a \<Rightarrow> bool" where
  "all_steps ok astep [] A = True"
| "all_steps ok astep (x # xs) A = (ok x A \<and> all_steps ok astep xs (astep x A))"

lemma all_steps_append:
  "all_steps ok astep (xs @ ys) A = (all_steps ok astep xs A \<and> all_steps ok astep ys (fold astep xs A))"
  by (induction xs arbitrary: A) auto

text \<open>
  The contract between a machine that can fault and a specification that cannot: steps that end
  are simulated, and the calls in \<open>sure\<close> end.
\<close>

locale forward_simulation =
  fixes step :: "'op \<Rightarrow> 's \<Rightarrow> 's exec"
    and astep :: "'op \<Rightarrow> 'a \<Rightarrow> 'a"
    and ok :: "'op \<Rightarrow> 'a \<Rightarrow> bool"
    and sure :: "'op \<Rightarrow> bool"
    and R :: "'s \<Rightarrow> 'a \<Rightarrow> bool"
  assumes square: "R s A \<Longrightarrow> ok x A \<Longrightarrow> step x s = Inr s' \<Longrightarrow> R s' (astep x A)"
    and ends: "R s A \<Longrightarrow> ok x A \<Longrightarrow> sure x \<Longrightarrow> \<exists>s'. step x s = Inr s'"
begin

lemma run_simulated: "R s A \<Longrightarrow> all_steps ok astep xs A \<Longrightarrow> foldE step xs s = Inr s' \<Longrightarrow> R s' (fold astep xs A)"
  by (induction xs arbitrary: s A) (auto dest: square)

lemma run_ends: "R s A \<Longrightarrow> all_steps ok astep xs A \<Longrightarrow> list_all sure xs \<Longrightarrow> \<exists>s'. foldE step xs s = Inr s'"
proof (induction xs arbitrary: s A)
  case (Cons x xs)
  then obtain s1 where s1: "step x s = Inr s1" using ends by fastforce
  moreover have "R s1 (astep x A)" using square [OF Cons.prems(1) _ s1] Cons.prems(2) by simp
  ultimately show ?case using Cons.IH [of s1 "astep x A"] Cons.prems by simp
qed simp

end

section \<open>Machine integers and system constants\<close>

type_synonym fuse_ino_t = "64 word"
type_synonym u32 = "32 word"
type_synonym u64 = "64 word"
type_synonym timespec = "int \<times> int"

text \<open>
  Constants of POSIX, Linux and libfuse that the sources name (\<^verbatim>\<open>sys/stat.h\<close>,
  \<^verbatim>\<open>fcntl.h\<close>, \<^verbatim>\<open>sys/xattr.h\<close>, \<^verbatim>\<open>unistd.h\<close>, \<^verbatim>\<open>fuse_lowlevel.h\<close>) with their documented values.
\<close>

abbreviation (input) "S_IFMT \<equiv> (0xF000 :: u32)"
abbreviation (input) "S_IFDIR \<equiv> (0x4000 :: u32)"
abbreviation (input) "S_IFREG \<equiv> (0x8000 :: u32)"
abbreviation (input) "S_IFLNK \<equiv> (0xA000 :: u32)"
abbreviation (input) "mode_0777 \<equiv> (0x1FF :: u32)"
abbreviation (input) "mode_0755 \<equiv> (0x1ED :: u32)"
abbreviation (input) "O_WRONLY \<equiv> (1 :: u32)"
abbreviation (input) "O_TRUNC \<equiv> (0x200 :: u32)"
abbreviation (input) "XATTR_CREATE \<equiv> (1 :: u32)"
abbreviation (input) "XATTR_REPLACE \<equiv> (2 :: u32)"
abbreviation (input) "F_OK \<equiv> (0 :: u32)"
abbreviation (input) "FUSE_SET_ATTR_MODE \<equiv> (1 :: u32)"
abbreviation (input) "FUSE_SET_ATTR_UID \<equiv> (2 :: u32)"
abbreviation (input) "FUSE_SET_ATTR_GID \<equiv> (4 :: u32)"
abbreviation (input) "FUSE_SET_ATTR_SIZE \<equiv> (8 :: u32)"
abbreviation (input) "FUSE_SET_ATTR_ATIME \<equiv> (16 :: u32)"
abbreviation (input) "FUSE_SET_ATTR_MTIME \<equiv> (32 :: u32)"
abbreviation (input) "FUSE_SET_ATTR_CTIME \<equiv> (1024 :: u32)"

text \<open>The macros \<open>S_ISDIR\<close> and \<open>S_ISREG\<close> and the C test \<open>flags & bits\<close>.\<close>

definition S_ISDIR :: "u32 \<Rightarrow> bool" where
  "S_ISDIR mode \<longleftrightarrow> mode AND S_IFMT = S_IFDIR"

definition S_ISREG :: "u32 \<Rightarrow> bool" where
  "S_ISREG mode \<longleftrightarrow> mode AND S_IFMT = S_IFREG"

definition has_flag :: "u32 \<Rightarrow> u32 \<Rightarrow> bool" where
  "has_flag flags bits \<longleftrightarrow> flags AND bits \<noteq> 0"

text \<open>\<open>ESUCCESS\<close> stands for the 0 that \<open>fuse_reply_err\<close> takes for success.\<close>

datatype errno =
    ESUCCESS | ENOENT | EISDIR | ENOTDIR | EPERM | EEXIST | EACCES | ENAMETOOLONG
  | ENODATA | ERANGE | E2BIG | EIO

section \<open>List lemmas\<close>

lemma nth_list_update_if:
  "i < length xs \<Longrightarrow> (xs[i := x]) ! j = (if i = j then x else xs ! j)"
  by auto

lemma list_all_update:
  "\<forall>y\<in>set xs. P y \<Longrightarrow> P x \<Longrightarrow> \<forall>y\<in>set (xs[i := x]). P y"
  using set_update_subset_insert [of xs i x] by auto

lemma sum_list_map_update:
  fixes f :: "'a \<Rightarrow> 'b::ab_group_add"
  shows "i < length xs \<Longrightarrow>
    sum_list (map f (xs[i := x])) = sum_list (map f xs) - f (xs ! i) + f x"
  by (induction xs arbitrary: i) (auto simp: nth_Cons algebra_simps split: nat.splits)

text \<open>Fixed-width pieces of a list: the shape of every message buffer.\<close>

lemma length_concat_width:
  "\<forall>x\<in>set xs. length x = w \<Longrightarrow> length (concat xs) = w * length xs"
  by (induction xs) auto

lemma take_concat_width:
  "\<forall>x\<in>set xs. length x = w \<Longrightarrow> take (w * k) (concat xs) = concat (take k xs)"
proof (induction xs arbitrary: k)
  case (Cons x xs)
  then show ?case by (cases k) auto
qed simp

lemma drop_concat_width:
  "\<forall>x\<in>set xs. length x = w \<Longrightarrow> drop (w * k) (concat xs) = concat (drop k xs)"
proof (induction xs arbitrary: k)
  case (Cons x xs)
  then show ?case by (cases k) auto
qed simp

lemma piece_concat_width:
  assumes "\<forall>x\<in>set xs. length x = w" and "i < length xs"
  shows "take w (drop (i * w) (concat xs)) = xs ! i"
proof -
  have "drop (i * w) (concat xs) = concat (drop i xs)"
    using drop_concat_width [OF assms(1), of i] by (simp add: mult.commute)
  also have "\<dots> = xs ! i @ concat (drop (Suc i) xs)"
    using assms(2) by (metis Cons_nth_drop_Suc concat.simps(2))
  finally show ?thesis using assms by simp
qed

text \<open>The number of blocks of a size that cover a number of bytes.\<close>

lemma round_up:
  fixes n k :: nat
  assumes "0 < k"
  shows "n \<le> k * (n div k + (if n mod k \<noteq> 0 then 1 else 0))"
    and "k * (n div k + (if n mod k \<noteq> 0 then 1 else 0)) < n + k"
proof -
  have n: "n = k * (n div k) + n mod k" "n mod k < k" using assms by simp_all
  have "n \<le> k * m \<and> k * m < n + k" if "m = n div k + (if n mod k \<noteq> 0 then 1 else 0)" for m
  proof -
    have "k * m = k * (n div k) + (if n mod k \<noteq> 0 then k else 0)" by (simp add: that add_mult_distrib2)
    then show ?thesis using n by (split if_split_asm) linarith+
  qed
  then show "n \<le> k * (n div k + (if n mod k \<noteq> 0 then 1 else 0))"
    and "k * (n div k + (if n mod k \<noteq> 0 then 1 else 0)) < n + k" by blast+
qed

text \<open>Cutting a list into pieces of width \<open>w\<close> and joining them again.\<close>

definition pieces :: "nat \<Rightarrow> nat \<Rightarrow> 'a list \<Rightarrow> 'a list list" where
  "pieces w n xs = map (\<lambda>i. take w (drop (i * w) xs)) [0..<n]"

lemma length_pieces [simp]: "length (pieces w n xs) = n"
  by (simp add: pieces_def)

lemma nth_pieces [simp]: "i < n \<Longrightarrow> pieces w n xs ! i = take w (drop (i * w) xs)"
  by (simp add: pieces_def)

lemma pieces_Suc: "pieces w (Suc n) xs = pieces w n xs @ [take w (drop (n * w) xs)]"
  by (simp add: pieces_def)

lemma concat_pieces: "concat (pieces w n xs) = take (n * w) xs"
proof (induction n)
  case 0
  show ?case by (simp add: pieces_def)
next
  case (Suc n)
  then show ?case using take_add [of "n * w" w xs] by (simp add: pieces_Suc add.commute)
qed

lemma pieces_concat:
  assumes "\<forall>x\<in>set xs. length x = w"
  shows "pieces w (length xs) (concat xs) = xs"
  by (rule nth_equalityI) (simp_all add: piece_concat_width [OF assms])

lemma pieces_width:
  "n * w \<le> length xs \<Longrightarrow> \<forall>p\<in>set (pieces w n xs). length p = w"
proof
  fix p assume n: "n * w \<le> length xs" and "p \<in> set (pieces w n xs)"
  then obtain i where i: "i < n" "p = take w (drop (i * w) xs)"
    by (auto simp: pieces_def)
  from i(1) have "Suc i * w \<le> n * w" by (intro mult_le_mono1) simp
  with n i show "length p = w" by simp
qed

section \<open>Decimal numbers\<close>

text \<open>\<open>std::to_string\<close> of an unsigned number.\<close>

definition digit :: "nat \<Rightarrow> char" where
  "digit n = char_of (48 + n)"

fun to_string :: "nat \<Rightarrow> string" where
  "to_string n = (if n < 10 then [digit n] else to_string (n div 10) @ [digit (n mod 10)])"

declare to_string.simps [simp del]

end
