(* ===== verification/OrderedMap.thy ===== *)
theory OrderedMap
  imports Prelude
begin

text \<open>
  \<^verbatim>\<open>std::map\<close> as the sources use it: an association list kept sorted by key, so that iteration
  visits the keys in ascending order (for \<^verbatim>\<open>std::string\<close> keys the lexicographic order of the
  character codes). The interface is the locale \<open>std_map\<close>; the list implementation interprets
  it, and every component that keeps a map uses the locale's facts.
\<close>

section \<open>The interface\<close>

locale std_map =
  fixes lookup :: "'m \<Rightarrow> 'k \<Rightarrow> 'v option"
    and assign :: "'m \<Rightarrow> 'k \<Rightarrow> 'v \<Rightarrow> 'm"
    and remove :: "'m \<Rightarrow> 'k \<Rightarrow> 'm"
    and valid :: "'m \<Rightarrow> bool"
  assumes lookup_assign: "valid m \<Longrightarrow> lookup (assign m k v) = (lookup m)(k \<mapsto> v)"
    and lookup_remove: "valid m \<Longrightarrow> lookup (remove m k) = (lookup m)(k := None)"
    and valid_assign: "valid m \<Longrightarrow> valid (assign m k v)"
    and valid_remove: "valid m \<Longrightarrow> valid (remove m k)"
begin

lemma lookup_assign_same: "valid m \<Longrightarrow> lookup (assign m k v) k = Some v"
  by (simp add: lookup_assign)

lemma lookup_assign_other: "valid m \<Longrightarrow> j \<noteq> k \<Longrightarrow> lookup (assign m k v) j = lookup m j"
  by (simp add: lookup_assign)

lemma lookup_remove_same: "valid m \<Longrightarrow> lookup (remove m k) k = None"
  by (simp add: lookup_remove)

lemma lookup_remove_other: "valid m \<Longrightarrow> j \<noteq> k \<Longrightarrow> lookup (remove m k) j = lookup m j"
  by (simp add: lookup_remove)

lemma lookup_assign_then_remove:
  "valid m \<Longrightarrow> lookup (remove (assign m k v) k') =
     (if k = k' then (lookup m)(k := None) else ((lookup m)(k' := None))(k \<mapsto> v))"
  by (auto simp: lookup_remove lookup_assign valid_assign)

lemma ran_assign: "valid m \<Longrightarrow> ran (lookup (assign m k v)) \<subseteq> insert v (ran (lookup m))"
  by (auto simp: lookup_assign ran_def split: if_splits)

lemma ran_remove: "valid m \<Longrightarrow> ran (lookup (remove m k)) \<subseteq> ran (lookup m)"
  by (auto simp: lookup_remove ran_def split: if_splits)

end

section \<open>The implementation\<close>

type_synonym ('k, 'v) omap = "('k \<times> 'v) list"

text \<open>\<open>find\<close>, \<open>operator[] =\<close> and \<open>erase\<close>.\<close>

definition map_find :: "('k::linorder, 'v) omap \<Rightarrow> 'k \<Rightarrow> 'v option" where
  "map_find m k = map_of m k"

fun map_assign :: "('k::linorder, 'v) omap \<Rightarrow> 'k \<Rightarrow> 'v \<Rightarrow> ('k, 'v) omap" where
  "map_assign [] k v = [(k, v)]"
| "map_assign ((a, b) # m) k v =
     (if k < a then (k, v) # (a, b) # m
      else if k = a then (k, v) # m
      else (a, b) # map_assign m k v)"

fun map_erase :: "('k::linorder, 'v) omap \<Rightarrow> 'k \<Rightarrow> ('k, 'v) omap" where
  "map_erase [] k = []"
| "map_erase ((a, b) # m) k = (if k = a then m else (a, b) # map_erase m k)"

definition map_ok :: "('k::linorder, 'v) omap \<Rightarrow> bool" where
  "map_ok m \<longleftrightarrow> sorted_wrt (<) (map fst m)"

lemma map_ok_Nil [simp]: "map_ok []"
  by (simp add: map_ok_def)

lemma map_ok_Cons [simp]:
  "map_ok ((a, b) # m) \<longleftrightarrow> (\<forall>k \<in> fst ` set m. a < k) \<and> map_ok m"
  by (auto simp: map_ok_def)

lemma map_find_Nil [simp]: "map_find [] k = None"
  by (simp add: map_find_def)

lemma map_find_Cons [simp]:
  "map_find ((a, b) # m) k = (if k = a then Some b else map_find m k)"
  by (simp add: map_find_def)

lemma keys_assign [simp]: "fst ` set (map_assign m k v) = insert k (fst ` set m)"
  by (induction m k v rule: map_assign.induct) auto

lemma keys_erase: "map_ok m \<Longrightarrow> fst ` set (map_erase m k) = fst ` set m - {k}"
  by (induction m k rule: map_erase.induct) (auto 0 3)

lemma map_find_None_iff: "map_find m k = None \<longleftrightarrow> k \<notin> fst ` set m"
  by (simp add: map_find_def map_of_eq_None_iff)

lemma map_find_assign: "map_find (map_assign m k v) = (map_find m)(k \<mapsto> v)"
  by (induction m k v rule: map_assign.induct) (auto simp: fun_eq_iff)

lemma map_find_erase: "map_ok m \<Longrightarrow> map_find (map_erase m k) = (map_find m)(k := None)"
proof (induction m k rule: map_erase.induct)
  case (2 a b m k)
  then have "k = a \<Longrightarrow> map_find m a = None"
    by (auto simp: map_find_None_iff)
  with 2 show ?case by (auto simp: fun_eq_iff)
qed (simp add: fun_eq_iff)

lemma map_ok_assign: "map_ok m \<Longrightarrow> map_ok (map_assign m k v)"
  by (induction m k v rule: map_assign.induct) auto

lemma map_ok_erase: "map_ok m \<Longrightarrow> map_ok (map_erase m k)"
proof (induction m k rule: map_erase.induct)
  case (2 a b m k)
  then show ?case by (auto simp: keys_erase)
qed simp

interpretation om: std_map map_find map_assign map_erase map_ok
  by unfold_locales (simp_all add: map_find_assign map_find_erase map_ok_assign map_ok_erase)

lemma map_find_in_set: "map_find m k = Some v \<Longrightarrow> (k, v) \<in> set m"
  by (simp add: map_find_def map_of_SomeD)

lemma in_set_map_find: "map_ok m \<Longrightarrow> (k, v) \<in> set m \<Longrightarrow> map_find m k = Some v"
proof (induction m)
  case (Cons p m)
  then show ?case by (cases p) force
qed simp

text \<open>The values stored in a map after an assignment or an erasure.\<close>

lemma snd_set_assign: "snd ` set (map_assign m k v) \<subseteq> insert v (snd ` set m)"
  by (induction m k v rule: map_assign.induct) auto

lemma set_erase: "set (map_erase m k) \<subseteq> set m"
  by (induction m k rule: map_erase.induct) auto

end
