(* ===== verification/CMem.thy ===== *)
theory CMem
  imports Prelude
begin

text \<open>
  The memory the sources handle through \<open>void *\<close>: byte cells that can be indeterminate (fresh
  from \<open>malloc\<close> or \<open>realloc\<close>) or a fragment of a stored pointer, buffers with the bounds of
  their allocation, the block heap of one process, and the \<open>PointerPacket\<close> arrays that are sent
  through MPI as plain bytes.
\<close>

section \<open>Cells and buffers\<close>

type_synonym addr = nat   \<comment> \<open>0 is \<open>nullptr\<close>\<close>

datatype cell =
    Byte "8 word"
  | Frag addr nat     \<comment> \<open>byte \<open>i\<close> of the representation of a pointer\<close>
  | Indet             \<comment> \<open>allocated but never written\<close>

text \<open>
  A buffer variable (\<open>void *m_buf\<close>) is null or owns an allocation; the length of the list is the
  size of the allocation. \<open>realloc\<close> of a null pointer is \<open>malloc\<close>.
\<close>

type_synonym buffer = "cell list option"

definition buffer_cells :: "buffer \<Rightarrow> cell list" where
  "buffer_cells p = (case p of None \<Rightarrow> [] | Some b \<Rightarrow> b)"

definition realloc :: "buffer \<Rightarrow> nat \<Rightarrow> cell list" where
  "realloc p n = (let old = buffer_cells p in take n old @ replicate (n - length old) Indet)"

definition memcpy_to :: "buffer \<Rightarrow> nat \<Rightarrow> cell list \<Rightarrow> buffer exec" where
  "memcpy_to p off src =
     (if src = [] then Inr p
      else case p of
        None \<Rightarrow> Inl NullDeref
      | Some b \<Rightarrow>
          if off + length src \<le> length b
          then Inr (Some (take off b @ src @ drop (off + length src) b))
          else Inl BadAccess)"

definition read_from :: "buffer \<Rightarrow> nat \<Rightarrow> nat \<Rightarrow> cell list exec" where
  "read_from p off n =
     (if n = 0 then Inr []
      else case p of
        None \<Rightarrow> Inl NullDeref
      | Some b \<Rightarrow> if off + n \<le> length b then Inr (take n (drop off b)) else Inl BadAccess)"

lemma length_realloc [simp]: "length (realloc p n) = n"
  by (simp add: realloc_def Let_def)

lemma realloc_prefix: "n \<le> length (buffer_cells p) \<Longrightarrow> n \<le> m \<Longrightarrow>
    take n (realloc p m) = take n (buffer_cells p)"
  by (simp add: realloc_def Let_def)

lemma memcpy_to_Some:
  "off + length src \<le> length b \<Longrightarrow>
     memcpy_to (Some b) off src = Inr (Some (take off b @ src @ drop (off + length src) b))"
  by (simp add: memcpy_to_def)

lemma read_after_memcpy:
  "off + length src \<le> length b \<Longrightarrow>
     read_from (Some (take off b @ src @ drop (off + length src) b)) off (length src) = Inr src"
  by (auto simp: read_from_def)

section \<open>The block heap of a process\<close>

text \<open>
  Blocks that a process allocates with \<open>malloc\<close> and never frees: the address of a block is its
  position counted from 1. The same address can be in use on several processes, as virtual addresses
  are, and then stands for unrelated blocks.
\<close>

type_synonym heap = "cell list list"

definition heap_alloc :: "heap \<Rightarrow> cell list \<Rightarrow> heap \<times> addr" where
  "heap_alloc h b = (h @ [b], Suc (length h))"

definition heap_read :: "heap \<Rightarrow> addr \<Rightarrow> nat \<Rightarrow> cell list exec" where
  "heap_read h a n =
     (if n = 0 then Inr []
      else if a = 0 then Inl NullDeref
      else if a \<le> length h \<and> n \<le> length (h ! (a - 1)) then Inr (take n (h ! (a - 1)))
      else Inl BadAccess)"

lemma heap_read_old:
  "heap_read h a n = Inr b \<Longrightarrow> heap_read (h @ h') a n = Inr b"
  by (auto simp: heap_read_def nth_append split: if_splits)

lemma heap_read_new:
  "i < length bs \<Longrightarrow> length (bs ! i) = n \<Longrightarrow>
     heap_read (h @ bs) (Suc (length h + i)) n = Inr (bs ! i)"
  by (auto simp: heap_read_def nth_append)

section \<open>Pointers as bytes\<close>

text \<open>\<open>sizeof(PointerPacket)\<close>: one pointer of a 64-bit platform.\<close>

definition sizeof_PointerPacket :: nat where
  "sizeof_PointerPacket = 8"

definition ptr_cells :: "addr \<Rightarrow> cell list" where
  "ptr_cells a = map (Frag a) [0..<sizeof_PointerPacket]"

definition load_ptr :: "cell list \<Rightarrow> addr exec" where
  "load_ptr cs =
     (case cs of
        Frag a i # _ \<Rightarrow> if cs = ptr_cells a then Inr a else Inl BadAccess
      | _ \<Rightarrow> Inl BadAccess)"

lemma length_ptr_cells [simp]: "length (ptr_cells a) = sizeof_PointerPacket"
  by (simp add: ptr_cells_def)

lemma load_ptr_cells [simp]: "load_ptr (ptr_cells a) = Inr a"
  by (simp add: load_ptr_def ptr_cells_def sizeof_PointerPacket_def upt_rec split: list.split)

text \<open>An array of \<open>n\<close> \<open>PointerPacket\<close>s read back from its bytes.\<close>

definition load_ptrs :: "nat \<Rightarrow> cell list \<Rightarrow> addr list exec" where
  "load_ptrs n cs = mapE load_ptr (pieces sizeof_PointerPacket n cs)"

definition store_ptrs :: "addr list \<Rightarrow> cell list" where
  "store_ptrs as = concat (map ptr_cells as)"

lemma store_ptrs_width: "\<forall>x\<in>set (map ptr_cells as). length x = sizeof_PointerPacket"
  by simp

lemma length_store_ptrs [simp]: "length (store_ptrs as) = sizeof_PointerPacket * length as"
  using length_concat_width [OF store_ptrs_width, of as] by (simp add: store_ptrs_def)

lemma store_ptrs_append: "store_ptrs (as @ bs) = store_ptrs as @ store_ptrs bs"
  by (simp add: store_ptrs_def)

lemma load_store_ptrs: "load_ptrs (length as) (store_ptrs as) = Inr as"
proof -
  have "load_ptrs (length as) (store_ptrs as) = mapE load_ptr (map ptr_cells as)"
    using pieces_concat [OF store_ptrs_width, of as] by (simp add: load_ptrs_def store_ptrs_def)
  also have "\<dots> = Inr as"
    by (induction as) simp_all
  finally show ?thesis .
qed

lemma slice_store_ptrs:
  "take (k * sizeof_PointerPacket) (drop (d * sizeof_PointerPacket) (store_ptrs as)) =
     store_ptrs (take k (drop d as))"
proof -
  have "drop (d * sizeof_PointerPacket) (store_ptrs as) = store_ptrs (drop d as)"
    using drop_concat_width [OF store_ptrs_width, of d as]
    by (simp add: store_ptrs_def mult.commute drop_map)
  moreover have "take (k * sizeof_PointerPacket) (store_ptrs bs) = store_ptrs (take k bs)" for bs
    using take_concat_width [OF store_ptrs_width, of k bs]
    by (simp add: store_ptrs_def mult.commute take_map)
  ultimately show ?thesis by simp
qed

end
