(* ===== verification/DataBlocks.thy ===== *)
theory DataBlocks
  imports OrderedMap CMem
begin

text \<open>
  The block metadata: \<open>DataBlock\<close> (\<^verbatim>\<open>blocks/DataBlock.cpp\<close>), the per-inode block lists of
  \<open>Blocks\<close> (\<^verbatim>\<open>blocks/Blocks.cpp\<close>) and the block list growth of \<open>DataBlockManager\<close>
  (\<^verbatim>\<open>mpi/DataBlockManager.cpp\<close>). A \<open>DataBlock *\<close> is held by exactly one position of one
  vector, so the vectors hold the blocks themselves.
\<close>

section \<open>DataBlock\<close>

definition FILE_SYSTEM_SINGLE_BLOCK_SIZE :: nat where
  "FILE_SYSTEM_SINGLE_BLOCK_SIZE = 512"

lemma block_size_pos [simp]: "0 < FILE_SYSTEM_SINGLE_BLOCK_SIZE"
  by (simp add: FILE_SYSTEM_SINGLE_BLOCK_SIZE_def)

record data_block =
  db_inode :: fuse_ino_t
  dataBlockAddress :: addr
  usedBytes :: u32
  absoluteBytes :: u32
  processRank :: u32
  progressiveNumber :: u32

definition new_DataBlock :: "fuse_ino_t \<Rightarrow> data_block" where
  "new_DataBlock ino = \<lparr>db_inode = ino, dataBlockAddress = 0, usedBytes = 0, absoluteBytes = 0,
     processRank = 0, progressiveNumber = 0\<rparr>"

definition new_DataBlock_at :: "fuse_ino_t \<Rightarrow> addr \<Rightarrow> u32 \<Rightarrow> data_block" where
  "new_DataBlock_at ino a absBytes = \<lparr>db_inode = ino, dataBlockAddress = a, usedBytes = 0,
     absoluteBytes = absBytes, processRank = 0, progressiveNumber = 0\<rparr>"

definition setData :: "data_block \<Rightarrow> addr \<Rightarrow> data_block" where
  "setData b a = b\<lparr>dataBlockAddress := a\<rparr>"

definition getFreeBytes :: "data_block \<Rightarrow> u32" where
  "getFreeBytes b = of_nat FILE_SYSTEM_SINGLE_BLOCK_SIZE - usedBytes b"

definition isFull :: "data_block \<Rightarrow> bool" where
  "isFull b \<longleftrightarrow> usedBytes b = of_nat FILE_SYSTEM_SINGLE_BLOCK_SIZE"

text \<open>\<open>calloc\<close>: a zeroed block of the process's heap.\<close>

definition allocateBlock :: "heap \<Rightarrow> data_block \<Rightarrow> heap \<times> data_block" where
  "allocateBlock h b =
     (let (h', a) = heap_alloc h (replicate FILE_SYSTEM_SINGLE_BLOCK_SIZE (Byte 0))
      in (h', b\<lparr>dataBlockAddress := a\<rparr>))"

section \<open>Blocks\<close>

type_synonym blocks = "(fuse_ino_t, data_block list) omap"

definition createEmptyBlockListForInode :: "blocks \<Rightarrow> fuse_ino_t \<Rightarrow> blocks" where
  "createEmptyBlockListForInode m ino =
     (if map_find m ino = None then map_assign m ino [] else m)"

definition setBlockListForInode :: "blocks \<Rightarrow> fuse_ino_t \<Rightarrow> data_block list \<Rightarrow> blocks" where
  "setBlockListForInode m ino bl = map_assign m ino bl"

text \<open>The source compares with \<open>==\<close>: the answer is true when there is no list.\<close>

definition blockListExistForInode :: "blocks \<Rightarrow> fuse_ino_t \<Rightarrow> bool" where
  "blockListExistForInode m ino \<longleftrightarrow> map_find m ino = None"

text \<open>\<open>operator[]\<close> inserts an empty vector under a new key; the list and the map are returned.\<close>

definition getDataBlockListOfInode :: "blocks \<Rightarrow> fuse_ino_t \<Rightarrow> blocks \<times> data_block list" where
  "getDataBlockListOfInode m ino =
     (case map_find m ino of
        Some bl \<Rightarrow> (m, bl)
      | None \<Rightarrow> (map_assign m ino [], []))"

definition addDataBlockToInode :: "blocks \<Rightarrow> fuse_ino_t \<Rightarrow> blocks \<times> data_block" where
  "addDataBlockToInode m ino =
     (let (m1, bl) = getDataBlockListOfInode m ino;
          newBlock =
            (if bl \<noteq> []
             then (new_DataBlock ino)\<lparr>absoluteBytes :=
                     absoluteBytes (last bl) + of_nat FILE_SYSTEM_SINGLE_BLOCK_SIZE\<rparr>
             else new_DataBlock ino)
      in (map_assign m1 ino (bl @ [newBlock]), newBlock))"

definition addDataBlockToInode_block :: "blocks \<Rightarrow> fuse_ino_t \<Rightarrow> data_block \<Rightarrow> blocks" where
  "addDataBlockToInode_block m ino b =
     (let (m1, bl) = getDataBlockListOfInode m ino in map_assign m1 ino (bl @ [b]))"

definition getNumberOfUsedBlocksOfInode :: "blocks \<Rightarrow> fuse_ino_t \<Rightarrow> blocks \<times> u32" where
  "getNumberOfUsedBlocksOfInode m ino =
     (let (m1, bl) = getDataBlockListOfInode m ino in (m1, of_nat (length bl)))"

definition getTotalBlockBytesOfInode :: "blocks \<Rightarrow> fuse_ino_t \<Rightarrow> blocks \<times> u32" where
  "getTotalBlockBytesOfInode m ino =
     (let (m1, totalBytes) = getNumberOfUsedBlocksOfInode m ino
      in (m1, totalBytes * of_nat FILE_SYSTEM_SINGLE_BLOCK_SIZE))"

definition hasNoBlocks :: "blocks \<Rightarrow> fuse_ino_t \<Rightarrow> blocks \<times> bool" where
  "hasNoBlocks m ino = (let (m1, bl) = getDataBlockListOfInode m ino in (m1, bl = []))"

text \<open>The block list of an inode, the empty list standing for an absent key.\<close>

definition block_list :: "blocks \<Rightarrow> fuse_ino_t \<Rightarrow> data_block list" where
  "block_list m ino = (case map_find m ino of Some bl \<Rightarrow> bl | None \<Rightarrow> [])"

lemma getDataBlockListOfInode_block_list:
  "getDataBlockListOfInode m ino = (m1, bl) \<Longrightarrow>
     bl = block_list m ino \<and> (\<forall>j. block_list m1 j = block_list m j) \<and> (map_ok m \<longrightarrow> map_ok m1)"
  by (auto simp: getDataBlockListOfInode_def block_list_def map_find_assign map_ok_assign
      split: option.splits if_splits)

lemma block_list_assign:
  "block_list (map_assign m ino bl) j = (if j = ino then bl else block_list m j)"
  by (simp add: block_list_def map_find_assign)

lemma createEmptyBlockList_keeps:
  "block_list (createEmptyBlockListForInode m ino) j = block_list m j"
  by (simp add: createEmptyBlockListForInode_def block_list_def map_find_assign)

section \<open>DataBlockManager: growing a block list\<close>

text \<open>
  The loop of \<open>addDataBlocksTo\<close>, with the block size \<open>e\<close> of the version (the macro
  \<open>FILE_SYSTEM_SINGLE_BLOCK_SIZE\<close>): \<open>k\<close> blocks remain, the next one has index \<open>i\<close> and the rank
  \<open>rank_i\<close>; \<open>++rank_i\<close> wraps at the world size \<open>w\<close>.
\<close>

fun addDataBlocks_loop ::
  "nat \<Rightarrow> nat \<Rightarrow> nat \<Rightarrow> nat \<Rightarrow> nat \<Rightarrow> fuse_ino_t \<Rightarrow> data_block list \<Rightarrow> data_block list" where
  "addDataBlocks_loop e 0 i rank_i w ino bl = bl"
| "addDataBlocks_loop e (Suc k) i rank_i w ino bl =
     (let dataBlock = (new_DataBlock ino)\<lparr>processRank := of_nat rank_i,
            progressiveNumber := of_nat i,
            absoluteBytes := of_nat (i * e)\<rparr>
      in addDataBlocks_loop e k (Suc i) (if Suc rank_i = w then 0 else Suc rank_i) w ino
           (bl @ [dataBlock]))"

definition addDataBlocksTo ::
  "nat \<Rightarrow> nat \<Rightarrow> data_block list \<Rightarrow> int \<Rightarrow> fuse_ino_t \<Rightarrow> nat \<Rightarrow> data_block list" where
  "addDataBlocksTo e mpi_world_size blockList nblocks ino startingRank =
     (let startingIndex = length blockList;
          newSize = int (length blockList) + nblocks;
          lastRank = (if length blockList = 0 then 0
                      else unat (processRank (blockList ! (startingIndex - 1))))
      in addDataBlocks_loop e (nat (newSize - int startingIndex)) startingIndex lastRank
           mpi_world_size ino blockList)"

text \<open>The block that the loop creates at index \<open>i\<close> when it starts with rank \<open>r\<close> at index \<open>i0\<close>.\<close>

definition grown_block :: "nat \<Rightarrow> nat \<Rightarrow> fuse_ino_t \<Rightarrow> nat \<Rightarrow> nat \<Rightarrow> nat \<Rightarrow> data_block" where
  "grown_block e w ino r i0 i = \<lparr>db_inode = ino, dataBlockAddress = 0, usedBytes = 0,
     absoluteBytes = of_nat (i * e),
     processRank = of_nat ((r + (i - i0)) mod w), progressiveNumber = of_nat i\<rparr>"

lemma addDataBlocks_loop_grows:
  "r < w \<Longrightarrow> addDataBlocks_loop e k i r w ino bl = bl @ map (grown_block e w ino r i) [i..<i + k]"
proof (induction k arbitrary: i r bl)
  case (Suc k)
  let ?r = "if Suc r = w then 0 else Suc r"
  have wrap: "?r = Suc r mod w" using Suc.prems by auto
  have r: "?r < w" using Suc.prems by auto
  have shift: "grown_block e w ino ?r (Suc i) j = grown_block e w ino r i j" if le: "Suc i \<le> j" for j
  proof -
    obtain d where j: "j = Suc i + d" using le_Suc_ex [OF le] by blast
    have "(Suc r mod w + d) mod w = (r + Suc d) mod w"
      by (simp add: mod_add_left_eq)
    then show ?thesis by (simp add: grown_block_def wrap j)
  qed
  have "map (grown_block e w ino r i) [i..<i + Suc k] =
      grown_block e w ino r i i # map (grown_block e w ino ?r (Suc i)) [Suc i..<Suc i + k]"
    by (simp add: upt_conv_Cons shift del: upt_Suc)
  moreover have "(new_DataBlock ino)\<lparr>processRank := of_nat r, progressiveNumber := of_nat i,
      absoluteBytes := of_nat (i * e)\<rparr> = grown_block e w ino r i i"
    using Suc.prems by (simp add: new_DataBlock_def grown_block_def)
  ultimately show ?case
    using Suc.IH [OF r, of "Suc i"] by (simp add: Let_def)
qed simp

text \<open>The rank recorded last in a block list, from which the next growth starts.\<close>

definition last_rank :: "data_block list \<Rightarrow> nat" where
  "last_rank bl = (if bl = [] then 0 else unat (processRank (last bl)))"

lemma addDataBlocksTo_grows:
  assumes "last_rank bl < w" and "0 \<le> n"
  shows "addDataBlocksTo e w bl n ino sr =
    bl @ map (grown_block e w ino (last_rank bl) (length bl)) [length bl..<length bl + nat n]"
proof -
  have "(if length bl = 0 then 0 else unat (processRank (bl ! (length bl - 1)))) = last_rank bl"
    by (auto simp: last_rank_def last_conv_nth)
  with assms show ?thesis
    by (simp add: addDataBlocksTo_def Let_def addDataBlocks_loop_grows)
qed

text \<open>
  What the growth keeps: block \<open>i\<close> of the list of an inode carries number \<open>i\<close>, the offset of its
  first byte and a rank of the world.
\<close>

definition numbered_blocks :: "nat \<Rightarrow> nat \<Rightarrow> fuse_ino_t \<Rightarrow> data_block list \<Rightarrow> bool" where
  "numbered_blocks e w ino bl \<longleftrightarrow>
     (\<forall>i<length bl. db_inode (bl ! i) = ino \<and> progressiveNumber (bl ! i) = of_nat i \<and>
        absoluteBytes (bl ! i) = of_nat (i * e) \<and>
        unat (processRank (bl ! i)) < w)"

lemma numbered_last_rank: "numbered_blocks e w ino bl \<Longrightarrow> 0 < w \<Longrightarrow> last_rank bl < w"
  by (auto simp: numbered_blocks_def last_rank_def last_conv_nth)

lemma grown_block_rank:
  "0 < w \<Longrightarrow> w < 2 ^ 32 \<Longrightarrow> unat (processRank (grown_block e w ino r i0 i)) = (r + (i - i0)) mod w"
proof -
  assume w: "0 < w" "w < 2 ^ 32"
  then have "(r + (i - i0)) mod w < 2 ^ 32"
    by (meson mod_less_divisor order_less_trans)
  then show ?thesis by (simp add: grown_block_def unat_of_nat)
qed

text \<open>
  Growing a numbered block list keeps every old block, adds exactly the requested number of
  blocks and numbers them on from the old end; the recorded ranks go round the world starting from
  the rank of the last old block, so the first new block repeats that rank.
\<close>

theorem addDataBlocksTo_correct:
  assumes "numbered_blocks e w ino bl" and "0 < w" and "w < 2 ^ 32" and "0 \<le> n"
  shows "numbered_blocks e w ino (addDataBlocksTo e w bl n ino sr) \<and>
    length (addDataBlocksTo e w bl n ino sr) = length bl + nat n \<and>
    take (length bl) (addDataBlocksTo e w bl n ino sr) = bl \<and>
    (\<forall>k<nat n. unat (processRank (addDataBlocksTo e w bl n ino sr ! (length bl + k))) =
       (last_rank bl + k) mod w)"
proof -
  note grows = addDataBlocksTo_grows [OF numbered_last_rank [OF assms(1,2)] assms(4)]
  have "numbered_blocks e w ino (bl @ map (grown_block e w ino r (length bl)) [length bl..<length bl + k])"
    for r k
    using assms(1-3) grown_block_rank [OF assms(2,3)]
    by (auto simp: numbered_blocks_def nth_append) (simp_all add: grown_block_def)
  then show ?thesis
    using grown_block_rank [OF assms(2,3)] by (simp add: grows nth_append)
qed

theorem addDataBlocksTo_correct_witness:
  "unat (processRank (addDataBlocksTo 512 3 (addDataBlocksTo 512 3 [] 2 7 0) 2 7 0 ! 2)) = 1"
proof -
  let ?bl = "addDataBlocksTo 512 3 [] 2 7 0"
  have bl: "numbered_blocks 512 3 7 ?bl"
    using addDataBlocksTo_correct [of 512 3 7 "[]" 2 0] by (simp add: numbered_blocks_def)
  have len: "length ?bl = 2" and last: "last_rank ?bl = 1"
    by (simp_all add: addDataBlocksTo_def numeral_2_eq_2 last_rank_def Let_def)
  have "\<forall>k<nat 2. unat (processRank (addDataBlocksTo 512 3 ?bl 2 7 0 ! (length ?bl + k))) =
      (last_rank ?bl + k) mod 3"
    using addDataBlocksTo_correct [OF bl, of 2 0] by simp
  from this [rule_format, of 0] show ?thesis by (simp add: len last)
qed

end
