(* ===== verification/Distribution.thy ===== *)
theory Distribution
  imports DataBlocks
begin

text \<open>
  How the blocks of a file are spread over the processes: the counts and displacements that
  \<open>DAGonFS_Write\<close> and \<open>DAGonFS_Read\<close> hand to MPI (\<^verbatim>\<open>mpi/DistributedCode.cpp\<close>), the collective
  operations of MPI as a parameter with their documented behaviour, and the lemmas by which
  scattering and gathering with these vectors are inverse to each other.
\<close>

section \<open>Block counts\<close>

definition numberOfBlocks :: "u64 \<Rightarrow> nat" where
  "numberOfBlocks fileSize =
     unat fileSize div FILE_SYSTEM_SINGLE_BLOCK_SIZE +
     (if unat fileSize mod FILE_SYSTEM_SINGLE_BLOCK_SIZE > 0 then 1 else 0)"

text \<open>\<open>blockPerProcess + (rank < remainingBlocks)\<close>\<close>

definition effectiveBlocks :: "nat \<Rightarrow> nat \<Rightarrow> nat \<Rightarrow> nat" where
  "effectiveBlocks n mpiWorldSize rank =
     (let blockPerProcess = n div mpiWorldSize; remainingBlocks = n mod mpiWorldSize
      in blockPerProcess + (if rank < remainingBlocks then 1 else 0))"

text \<open>The conversion to \<open>int\<close>, and the loop that fills the two vectors.\<close>

definition to_int :: "int \<Rightarrow> int" where
  "to_int x = signed_take_bit 31 x"

fun displacements :: "int \<Rightarrow> int list \<Rightarrow> int list" where
  "displacements offset [] = []"
| "displacements offset (c # cs) = offset # displacements (to_int (offset + c)) cs"

definition countsFor :: "nat \<Rightarrow> nat \<Rightarrow> nat \<Rightarrow> int list" where
  "countsFor elementSize n mpiWorldSize =
     map (\<lambda>i. to_int (int (effectiveBlocks n mpiWorldSize i * elementSize))) [0..<mpiWorldSize]"

definition displsFor :: "nat \<Rightarrow> nat \<Rightarrow> nat \<Rightarrow> int list" where
  "displsFor elementSize n mpiWorldSize = displacements 0 (countsFor elementSize n mpiWorldSize)"

section \<open>The partition of the blocks\<close>

text \<open>The first block of a rank.\<close>

definition first_block :: "nat \<Rightarrow> nat \<Rightarrow> nat \<Rightarrow> nat" where
  "first_block n w r = r * (n div w) + min r (n mod w)"

lemma first_block_0 [simp]: "first_block n w 0 = 0"
  by (simp add: first_block_def)

lemma first_block_Suc: "first_block n w (Suc r) = first_block n w r + effectiveBlocks n w r"
  by (auto simp: first_block_def effectiveBlocks_def Let_def min_def)

lemma first_block_all: "0 < w \<Longrightarrow> first_block n w w = n"
  by (simp add: first_block_def min_def) (metis mod_less_divisor mult_div_mod_eq less_le_not_le)

lemma first_block_mono: "r \<le> r' \<Longrightarrow> first_block n w r \<le> first_block n w r'"
  by (induction rule: dec_induct) (simp_all add: first_block_Suc)

lemma first_block_le: "r \<le> w \<Longrightarrow> 0 < w \<Longrightarrow> first_block n w r \<le> n"
  by (metis first_block_all first_block_mono)

lemma first_block_end: "r < w \<Longrightarrow> first_block n w r + effectiveBlocks n w r \<le> n"
  using first_block_le [of "Suc r" w n] by (simp add: first_block_Suc)

lemma effectiveBlocks_le: "r < w \<Longrightarrow> effectiveBlocks n w r \<le> n"
  using first_block_end [of r w n] by linarith

text \<open>A list of \<open>n\<close> blocks cut into one chunk per rank.\<close>

definition rank_chunks :: "nat \<Rightarrow> nat \<Rightarrow> 'a list \<Rightarrow> 'a list list" where
  "rank_chunks n w xs = map (\<lambda>r. take (effectiveBlocks n w r) (drop (first_block n w r) xs)) [0..<w]"

lemma length_rank_chunks [simp]: "length (rank_chunks n w xs) = w"
  by (simp add: rank_chunks_def)

lemma nth_rank_chunks:
  "r < w \<Longrightarrow> rank_chunks n w xs ! r = take (effectiveBlocks n w r) (drop (first_block n w r) xs)"
  by (simp add: rank_chunks_def)

lemma length_rank_chunk:
  "r < w \<Longrightarrow> n \<le> length xs \<Longrightarrow> length (rank_chunks n w xs ! r) = effectiveBlocks n w r"
  using first_block_end [of r w n] by (simp add: nth_rank_chunks)

lemma concat_rank_chunks:
  assumes "0 < w" and "length xs = n"
  shows "concat (rank_chunks n w xs) = xs"
proof -
  have "concat (map (\<lambda>r. take (effectiveBlocks n w r) (drop (first_block n w r) xs)) [0..<k]) =
      take (first_block n w k) xs" for k
    by (induction k) (simp_all add: first_block_Suc take_add)
  then show ?thesis using assms by (simp add: rank_chunks_def first_block_all)
qed

lemma rank_chunks_concat:
  assumes "length xss = w" and "\<And>r. r < w \<Longrightarrow> length (xss ! r) = effectiveBlocks n w r"
  shows "rank_chunks n w (concat xss) = xss"
proof (rule nth_equalityI)
  fix r assume "r < length (rank_chunks n w (concat xss))"
  then have r: "r < w" by simp
  have pre: "length (concat (take k xss)) = first_block n w k" if "k \<le> w" for k
    using that
  proof (induction k)
    case (Suc k)
    then show ?case using assms by (simp add: take_Suc_conv_app_nth first_block_Suc)
  qed simp
  have "concat xss = concat (take r xss) @ xss ! r @ concat (drop (Suc r) xss)"
    by (metis append_take_drop_id assms(1) concat.simps(2) concat_append r Cons_nth_drop_Suc)
  then show "rank_chunks n w (concat xss) ! r = xss ! r"
    using pre [of r] r assms(2) [OF r] by (simp add: nth_rank_chunks)
qed (simp add: assms(1))

section \<open>The vectors as MPI sees them\<close>

lemma to_int_small: "0 \<le> x \<Longrightarrow> x < 2 ^ 31 \<Longrightarrow> to_int x = x"
  by (simp add: to_int_def signed_take_bit_int_eq_self)

lemma fits_int:
  assumes "n * e < 2 ^ 31" and "k \<le> n"
  shows "to_int (int (k * e)) = int (k * e)"
proof -
  have "k * e \<le> n * e" using assms(2) by simp
  then have "k * e < 2 ^ 31" using assms(1) by (rule order_le_less_trans)
  then have "int (k * e) < int (2 ^ 31)" by (simp only: of_nat_less_iff)
  then have "int (k * e) < 2 ^ 31" by simp
  then show ?thesis by (intro to_int_small of_nat_0_le_iff)
qed

lemma length_displacements [simp]: "length (displacements off cs) = length cs"
  by (induction cs arbitrary: off) simp_all

lemma hd_displacements: "cs \<noteq> [] \<Longrightarrow> displacements off cs ! 0 = off"
  by (cases cs) simp_all

lemma nth_displacements_Suc:
  "Suc i < length cs \<Longrightarrow>
     displacements off cs ! Suc i = to_int (displacements off cs ! i + cs ! i)"
  by (induction cs arbitrary: off i) (auto simp: nth_Cons hd_displacements split: nat.splits)

lemma length_vectors [simp]:
  "length (countsFor e n w) = w" "length (displsFor e n w) = w"
  by (simp_all add: countsFor_def displsFor_def)

lemma nth_countsFor:
  "n * e < 2 ^ 31 \<Longrightarrow> r < w \<Longrightarrow> countsFor e n w ! r = int (effectiveBlocks n w r * e)"
  by (simp add: countsFor_def fits_int [OF _ effectiveBlocks_le] del: of_nat_mult)

lemma nth_displsFor:
  assumes "n * e < 2 ^ 31" and "r < w"
  shows "displsFor e n w ! r = int (first_block n w r * e)"
  using assms(2)
proof (induction r)
  case 0
  then have "countsFor e n w \<noteq> []" by (metis length_vectors(1) list.size(3) not_less0)
  then show ?case by (simp add: displsFor_def hd_displacements)
next
  case (Suc r)
  have "displsFor e n w ! Suc r = to_int (displsFor e n w ! r + countsFor e n w ! r)"
    using Suc.prems by (simp add: displsFor_def nth_displacements_Suc)
  also have "\<dots> = to_int (int (first_block n w (Suc r) * e))"
    using Suc assms(1) by (simp add: nth_countsFor first_block_Suc algebra_simps)
  also have "\<dots> = int (first_block n w (Suc r) * e)"
    using Suc.prems by (intro fits_int [OF assms(1)] first_block_le) simp_all
  finally show ?case .
qed

text \<open>What MPI asks of the vectors: every window lies in the buffer, and no two overlap.\<close>

definition windows_ok :: "int list \<Rightarrow> int list \<Rightarrow> nat \<Rightarrow> bool" where
  "windows_ok counts displs len \<longleftrightarrow>
     length displs = length counts \<and>
     (\<forall>i<length counts. 0 \<le> counts ! i \<and> 0 \<le> displs ! i \<and> displs ! i + counts ! i \<le> int len) \<and>
     (\<forall>j<length counts. \<forall>i<j. displs ! i + counts ! i \<le> displs ! j)"

lemma windows_ok_vectors:
  assumes "n * e < 2 ^ 31" and "n * e \<le> len"
  shows "windows_ok (countsFor e n w) (displsFor e n w) len"
proof -
  have bound: "displsFor e n w ! i + countsFor e n w ! i = int (first_block n w (Suc i) * e)"
    if "i < w" for i
    using that assms(1) by (simp add: nth_countsFor nth_displsFor first_block_Suc algebra_simps)
  have "first_block n w (Suc i) * e \<le> len" if "i < w" for i
  proof -
    have "first_block n w (Suc i) * e \<le> n * e"
      using that by (intro mult_le_mono1 first_block_le) simp_all
    then show ?thesis using assms(2) by linarith
  qed
  then have "displsFor e n w ! i + countsFor e n w ! i \<le> int len" if "i < w" for i
    using that by (simp only: bound of_nat_le_iff)
  moreover have "displsFor e n w ! i + countsFor e n w ! i \<le> displsFor e n w ! j"
    if "j < w" "i < j" for i j
  proof -
    have "first_block n w (Suc i) * e \<le> first_block n w j * e"
      using that(2) by (intro mult_le_mono1 first_block_mono) simp
    then have "int (first_block n w (Suc i) * e) \<le> displsFor e n w ! j"
      using that(1) by (simp only: nth_displsFor [OF assms(1)] of_nat_le_iff)
    then show ?thesis using that bound [of i] by simp
  qed
  ultimately show ?thesis
    using assms(1) by (simp add: windows_ok_def nth_countsFor nth_displsFor)
qed

section \<open>The collective operations of MPI\<close>

text \<open>
  The collectives as the call sites use them, every process calling with the same counts,
  displacements and root: \<open>MPI_Scatterv\<close> takes the send buffer of the root and yields what each
  process receives; \<open>MPI_Gatherv\<close> takes what each process sends and the receive buffer of the root
  before the call; \<open>MPI_Allgatherv\<close> the same with a receive buffer per process.
\<close>

record mpi =
  MPI_Scatterv :: "cell list \<Rightarrow> int list \<Rightarrow> int list \<Rightarrow> nat \<Rightarrow> cell list list exec"
  MPI_Gatherv :: "cell list list \<Rightarrow> int list \<Rightarrow> int list \<Rightarrow> cell list \<Rightarrow> nat \<Rightarrow> cell list exec"
  MPI_Allgatherv :: "cell list list \<Rightarrow> int list \<Rightarrow> int list \<Rightarrow> cell list list \<Rightarrow> cell list list exec"

definition window :: "int list \<Rightarrow> int list \<Rightarrow> nat \<Rightarrow> cell list \<Rightarrow> cell list" where
  "window counts displs i buf = take (nat (counts ! i)) (drop (nat (displs ! i)) buf)"

text \<open>The documented behaviour for vectors that are in order.\<close>

definition scatterv_documented :: "mpi \<Rightarrow> bool" where
  "scatterv_documented m \<longleftrightarrow>
     (\<forall>buf counts displs root. windows_ok counts displs (length buf) \<longrightarrow> root < length counts \<longrightarrow>
        MPI_Scatterv m buf counts displs root =
          Inr (map (\<lambda>i. window counts displs i buf) [0..<length counts]))"

definition filled :: "cell list list \<Rightarrow> int list \<Rightarrow> int list \<Rightarrow> cell list \<Rightarrow> cell list \<Rightarrow> bool" where
  "filled sent counts displs before after \<longleftrightarrow> length after = length before \<and>
     (\<forall>i<length counts. window counts displs i after = sent ! i)"

definition sizes_match :: "cell list list \<Rightarrow> int list \<Rightarrow> bool" where
  "sizes_match sent counts \<longleftrightarrow> length sent = length counts \<and>
     (\<forall>i<length counts. int (length (sent ! i)) = counts ! i)"

definition gatherv_documented :: "mpi \<Rightarrow> bool" where
  "gatherv_documented m \<longleftrightarrow>
     (\<forall>sent counts displs buf root.
        windows_ok counts displs (length buf) \<longrightarrow> sizes_match sent counts \<longrightarrow> root < length counts \<longrightarrow>
        (\<exists>buf'. MPI_Gatherv m sent counts displs buf root = Inr buf' \<and>
           filled sent counts displs buf buf'))"

definition allgatherv_documented :: "mpi \<Rightarrow> bool" where
  "allgatherv_documented m \<longleftrightarrow>
     (\<forall>sent counts displs bufs.
        length bufs = length counts \<longrightarrow> (\<forall>b\<in>set bufs. windows_ok counts displs (length b)) \<longrightarrow>
        sizes_match sent counts \<longrightarrow>
        (\<exists>bufs'. MPI_Allgatherv m sent counts displs bufs = Inr bufs' \<and> length bufs' = length bufs \<and>
           (\<forall>k<length bufs. filled sent counts displs (bufs ! k) (bufs' ! k))))"

definition mpi_documented :: "mpi \<Rightarrow> bool" where
  "mpi_documented m \<longleftrightarrow> scatterv_documented m \<and> gatherv_documented m \<and> allgatherv_documented m"

text \<open>Scattering with the vectors gives every rank its chunk, in units of \<open>e\<close> cells.\<close>

lemma window_chunk:
  assumes "n * e < 2 ^ 31" and "r < w" and "length xs = n" and "\<forall>x\<in>set xs. length x = e"
  shows "window (countsFor e n w) (displsFor e n w) r (concat xs @ rest) =
    concat (rank_chunks n w xs ! r)"
proof -
  let ?k = "effectiveBlocks n w r" and ?d = "first_block n w r"
  have nats: "nat (countsFor e n w ! r) = e * ?k" "nat (displsFor e n w ! r) = e * ?d"
    using assms(1,2) by (simp_all only: nth_countsFor nth_displsFor nat_int mult.commute)
  have bound: "?d + ?k \<le> length xs" using first_block_end [OF assms(2)] assms(3) by simp
  have len: "length (concat xs) = e * length xs" by (rule length_concat_width [OF assms(4)])
  have "e * ?d \<le> length (concat xs)" and "e * ?k \<le> length (concat xs) - e * ?d"
    using bound by (simp_all only: len flip: diff_mult_distrib2) (intro mult_le_mono2; simp)+
  then have "window (countsFor e n w) (displsFor e n w) r (concat xs @ rest) =
      take (e * ?k) (drop (e * ?d) (concat xs))"
    by (simp add: window_def nats)
  also have "\<dots> = take (e * ?k) (concat (drop ?d xs))"
    by (simp only: drop_concat_width [OF assms(4)])
  also have "\<dots> = concat (take ?k (drop ?d xs))"
    using assms(4) by (intro take_concat_width) (auto dest: in_set_dropD)
  finally show ?thesis by (simp add: nth_rank_chunks [OF assms(2)])
qed

lemma scatterv_chunks:
  assumes "mpi_documented m" and "n * e < 2 ^ 31" and "root < w"
    and "length xs = n" and "\<forall>x\<in>set xs. length x = e"
  shows "MPI_Scatterv m (concat xs @ rest) (countsFor e n w) (displsFor e n w) root =
    Inr (map concat (rank_chunks n w xs))"
proof -
  have "length (concat xs) = n * e"
    using length_concat_width [OF assms(5)] assms(4) by (simp add: mult.commute)
  then have "windows_ok (countsFor e n w) (displsFor e n w) (length (concat xs @ rest))"
    by (intro windows_ok_vectors assms(2)) simp
  with assms(1,3) have "MPI_Scatterv m (concat xs @ rest) (countsFor e n w) (displsFor e n w) root =
      Inr (map (\<lambda>i. window (countsFor e n w) (displsFor e n w) i (concat xs @ rest)) [0..<w])"
    by (simp add: mpi_documented_def scatterv_documented_def)
  also have "\<dots> = Inr (map concat (rank_chunks n w xs))"
    by (auto intro!: nth_equalityI simp: window_chunk [OF assms(2) _ assms(4,5)])
  finally show ?thesis .
qed

text \<open>A receive buffer of exactly \<open>n\<close> elements ends up holding the chunks one after the other.\<close>

lemma filled_concat:
  assumes "n * e < 2 ^ 31" and "0 < w" and "length before = n * e" and "length sent = w"
    and "filled sent (countsFor e n w) (displsFor e n w) before after"
  shows "after = concat sent"
proof -
  have nats: "nat (countsFor e n w ! r) = effectiveBlocks n w r * e"
    "nat (displsFor e n w ! r) = first_block n w r * e" if "r < w" for r
    using that assms(1) by (simp_all only: nth_countsFor nth_displsFor nat_int)
  have piece: "take (effectiveBlocks n w r * e) (drop (first_block n w r * e) after) = sent ! r"
    if "r < w" for r
    using that assms(5) nats by (simp add: filled_def window_def)
  have "take (first_block n w k * e) after = concat (take k sent)" if "k \<le> w" for k
    using that
  proof (induction k)
    case (Suc k)
    then show ?case
      using piece [of k] assms(4)
      by (simp add: first_block_Suc add_mult_distrib take_add take_Suc_conv_app_nth)
  qed simp
  from this [of w] show ?thesis
    using assms by (simp add: first_block_all filled_def)
qed

lemma sizes_match_vectors:
  assumes "n * e < 2 ^ 31" and "length sent = w"
    and "\<And>r. r < w \<Longrightarrow> length (sent ! r) = effectiveBlocks n w r * e"
  shows "sizes_match sent (countsFor e n w)"
  using assms by (simp add: sizes_match_def nth_countsFor)

lemma gatherv_concat:
  assumes "mpi_documented m" and "n * e < 2 ^ 31" and "root < w" and "length buf = n * e"
    and "length sent = w" and "\<And>r. r < w \<Longrightarrow> length (sent ! r) = effectiveBlocks n w r * e"
  shows "MPI_Gatherv m sent (countsFor e n w) (displsFor e n w) buf root = Inr (concat sent)"
proof -
  have "windows_ok (countsFor e n w) (displsFor e n w) (length buf)"
    using assms(2,4) by (intro windows_ok_vectors) simp_all
  then obtain buf' where "MPI_Gatherv m sent (countsFor e n w) (displsFor e n w) buf root = Inr buf'"
    and "filled sent (countsFor e n w) (displsFor e n w) buf buf'"
    using assms(1,3) sizes_match_vectors [OF assms(2,5,6)]
    unfolding mpi_documented_def gatherv_documented_def by (metis length_vectors(1))
  with filled_concat [OF assms(2) _ assms(4,5)] assms(3) show ?thesis by simp
qed

lemma allgatherv_concat:
  assumes "mpi_documented m" and "n * e < 2 ^ 31" and "0 < w"
    and "length bufs = w" and "\<forall>b\<in>set bufs. length b = n * e"
    and "length sent = w" and "\<And>r. r < w \<Longrightarrow> length (sent ! r) = effectiveBlocks n w r * e"
  shows "MPI_Allgatherv m sent (countsFor e n w) (displsFor e n w) bufs =
    Inr (replicate w (concat sent))"
proof -
  have "\<forall>b\<in>set bufs. windows_ok (countsFor e n w) (displsFor e n w) (length b)"
    using assms(2,5) by (auto intro: windows_ok_vectors)
  then obtain bufs' where all: "MPI_Allgatherv m sent (countsFor e n w) (displsFor e n w) bufs = Inr bufs'"
    and "length bufs' = w"
    and fill: "\<forall>k<w. filled sent (countsFor e n w) (displsFor e n w) (bufs ! k) (bufs' ! k)"
    using assms(1,4) sizes_match_vectors [OF assms(2,6,7)]
    unfolding mpi_documented_def allgatherv_documented_def by (metis length_vectors(1))
  have "bufs' ! k = concat sent" if "k < w" for k
    using filled_concat [OF assms(2,3) _ assms(6), of "bufs ! k" "bufs' ! k"] that fill assms(4,5)
    by simp
  with \<open>length bufs' = w\<close> have "bufs' = replicate w (concat sent)"
    by (intro nth_equalityI) simp_all
  with all show ?thesis by simp
qed

section \<open>A concrete implementation of the collectives\<close>

text \<open>An MPI with the documented behaviour, on which the theorems are exercised.\<close>

definition put :: "nat \<Rightarrow> cell list \<Rightarrow> cell list \<Rightarrow> cell list" where
  "put d piece buf = take d buf @ piece @ drop (d + length piece) buf"

definition put_all :: "cell list list \<Rightarrow> int list \<Rightarrow> nat \<Rightarrow> cell list \<Rightarrow> cell list" where
  "put_all sent displs k buf = foldl (\<lambda>b i. put (nat (displs ! i)) (sent ! i) b) buf [0..<k]"

definition plain_mpi :: mpi where
  "plain_mpi = \<lparr>
     MPI_Scatterv = (\<lambda>buf counts displs root.
       Inr (map (\<lambda>i. window counts displs i buf) [0..<length counts])),
     MPI_Gatherv = (\<lambda>sent counts displs buf root. Inr (put_all sent displs (length counts) buf)),
     MPI_Allgatherv = (\<lambda>sent counts displs bufs.
       Inr (map (put_all sent displs (length counts)) bufs))\<rparr>"

lemma length_put: "d + length p \<le> length b \<Longrightarrow> length (put d p b) = length b"
  by (simp add: put_def)

lemma put_same: "d + length p \<le> length b \<Longrightarrow> take (length p) (drop d (put d p b)) = p"
  by (simp add: put_def)

lemma put_later:
  assumes "e + c \<le> d" and "d + length p \<le> length b"
  shows "take c (drop e (put d p b)) = take c (drop e b)"
proof -
  have "drop e (put d p b) = take (d - e) (drop e b) @ p @ drop (d + length p) b"
    using assms by (simp add: put_def drop_take)
  moreover have "length (take (d - e) (drop e b)) = d - e" and "c \<le> d - e"
    using assms by simp_all
  ultimately show ?thesis by (simp add: min_absorb1)
qed

lemma put_all_fills:
  assumes ok: "windows_ok counts displs (length buf)" and sizes: "sizes_match sent counts"
    and k: "k \<le> length counts"
  shows "length (put_all sent displs k buf) = length buf \<and>
    (\<forall>i<k. window counts displs i (put_all sent displs k buf) = sent ! i)"
  using k
proof (induction k)
  case (Suc k)
  let ?b = "put_all sent displs k buf" and ?d = "nat (displs ! k)" and ?p = "sent ! k"
  have step: "put_all sent displs (Suc k) buf = put ?d ?p ?b" by (simp add: put_all_def)
  have bounds: "0 \<le> counts ! i" "0 \<le> displs ! i" "displs ! i + counts ! i \<le> int (length buf)"
    if "i < length counts" for i
    using ok that by (simp_all add: windows_ok_def)
  have len: "int (length (sent ! i)) = counts ! i" if "i < length counts" for i
    using sizes that by (simp add: sizes_match_def)
  have kb: "?d + length ?p \<le> length ?b"
    using bounds [of k] len [of k] Suc by linarith
  have "window counts displs i (put ?d ?p ?b) = sent ! i" if "i < Suc k" for i
  proof (cases "i = k")
    case True
    have "nat (counts ! k) = length ?p" using len [of k] Suc.prems by simp
    then show ?thesis using put_same [OF kb] True by (simp add: window_def)
  next
    case False
    with that have i: "i < k" by simp
    then have "displs ! i + counts ! i \<le> displs ! k"
      using ok Suc.prems by (simp add: windows_ok_def)
    then have "nat (displs ! i) + nat (counts ! i) \<le> ?d"
      using bounds [of i] bounds [of k] i Suc.prems by linarith
    then show ?thesis using put_later [OF _ kb] Suc i by (simp add: window_def)
  qed
  then show ?case using step length_put [OF kb] Suc by simp
qed (simp add: put_all_def)

lemma plain_mpi_documented: "mpi_documented plain_mpi"
proof -
  have "filled sent counts displs buf (put_all sent displs (length counts) buf)"
    if "windows_ok counts displs (length buf)" "sizes_match sent counts" for sent counts displs buf
    using put_all_fills [OF that order_refl] by (simp add: filled_def)
  then show ?thesis
    by (simp add: mpi_documented_def scatterv_documented_def gatherv_documented_def
        allgatherv_documented_def plain_mpi_def)
qed

end
