(* ===== verification/INodeObjects.thy ===== *)
theory INodeObjects
  imports DataBlocks
begin

text \<open>
  The inode objects: \<open>INode\<close> with its metadata and extended attributes (\<^verbatim>\<open>nodes/INode.cpp\<close>) and
  its four subclasses \<open>File\<close>, \<open>Directory\<close>, \<open>SymbolicLink\<close> and \<open>SpecialINode\<close>. An object of a
  subclass is an \<open>inode\<close> record whose last field holds the subclass's own members;
  \<open>dynamic_cast\<close> is the projection on that field.
\<close>

section \<open>Data\<close>

datatype INodeType = REGULAR_FILE | DIRECTORY | SYMBOLIC_LINK | SPECIAL_INODE_TYPE_NO_BLOCK

text \<open>The fields of \<open>struct stat\<close> and \<open>struct fuse_entry_param\<close> that the sources touch.\<close>

record stat =
  st_mode :: u32
  st_nlink :: u64
  st_uid :: u32
  st_gid :: u32
  st_size :: u64      \<comment> \<open>\<open>off_t\<close>, read as signed where the source compares it as such\<close>
  st_blksize :: u64
  st_blocks :: u64
  st_atim :: timespec
  st_mtim :: timespec
  st_ctim :: timespec

record entry_param =
  e_ino :: fuse_ino_t
  e_attr :: stat
  attr_timeout :: nat      \<comment> \<open>seconds; the sources only store 1.0\<close>
  entry_timeout :: nat

definition zero_stat :: stat where
  "zero_stat = \<lparr>st_mode = 0, st_nlink = 0, st_uid = 0, st_gid = 0, st_size = 0, st_blksize = 0,
     st_blocks = 0, st_atim = (0, 0), st_mtim = (0, 0), st_ctim = (0, 0)\<rparr>"

definition zero_entry_param :: entry_param where
  "zero_entry_param = \<lparr>e_ino = 0, e_attr = zero_stat, attr_timeout = 0, entry_timeout = 0\<rparr>"

record file_data =
  m_buf :: buffer
  isWaitingForDistributedWrite :: bool

text \<open>\<open>parentDir\<close> is the inode number of the directory object the pointer was set to.\<close>

record directory =
  dir_name :: string
  parentDir :: "fuse_ino_t option"
  m_children :: "(string, fuse_ino_t) omap"

datatype node_class =
    File file_data
  | Directory directory
  | SymbolicLink string
  | SpecialINode INodeType

record inode =
  m_nlookup :: u64
  markedForDeletion :: bool
  inodeNumber :: fuse_ino_t
  m_fuseEntryParam :: entry_param
  m_xattr :: "(string, cell list) omap"   \<comment> \<open>pointer and size: the cells and their number\<close>
  node_class :: node_class

text \<open>
  The constructor leaves \<open>inodeNumber\<close> and \<open>m_fuseEntryParam\<close> unset; every inode passes through
  \<open>InitializeINode\<close>, which zeroes them, before anything reads them.
\<close>

definition new_INode :: "node_class \<Rightarrow> inode" where
  "new_INode c = \<lparr>m_nlookup = 0, markedForDeletion = False, inodeNumber = 0,
     m_fuseEntryParam = zero_entry_param, m_xattr = [], node_class = c\<rparr>"

definition new_File :: file_data where
  "new_File = \<lparr>m_buf = None, isWaitingForDistributedWrite = False\<rparr>"

definition new_Directory :: directory where
  "new_Directory = \<lparr>dir_name = '''', parentDir = None, m_children = []\<rparr>"

text \<open>\<open>dynamic_cast\<close> to the subclasses: \<open>None\<close> is \<open>nullptr\<close>.\<close>

definition as_File :: "inode \<Rightarrow> file_data option" where
  "as_File nd = (case node_class nd of File f \<Rightarrow> Some f | _ \<Rightarrow> None)"

definition as_Directory :: "inode \<Rightarrow> directory option" where
  "as_Directory nd = (case node_class nd of Directory d \<Rightarrow> Some d | _ \<Rightarrow> None)"

definition as_SymbolicLink :: "inode \<Rightarrow> string option" where
  "as_SymbolicLink nd = (case node_class nd of SymbolicLink l \<Rightarrow> Some l | _ \<Rightarrow> None)"

definition as_SpecialINode :: "inode \<Rightarrow> INodeType option" where
  "as_SpecialINode nd = (case node_class nd of SpecialINode t \<Rightarrow> Some t | _ \<Rightarrow> None)"

text \<open>Assignments through a pointer of the subclass and to the attributes.\<close>

definition set_File :: "(file_data \<Rightarrow> file_data) \<Rightarrow> inode \<Rightarrow> inode" where
  "set_File g nd = (case node_class nd of File f \<Rightarrow> nd\<lparr>node_class := File (g f)\<rparr> | _ \<Rightarrow> nd)"

definition set_Directory :: "(directory \<Rightarrow> directory) \<Rightarrow> inode \<Rightarrow> inode" where
  "set_Directory g nd =
     (case node_class nd of Directory d \<Rightarrow> nd\<lparr>node_class := Directory (g d)\<rparr> | _ \<Rightarrow> nd)"

definition set_SymbolicLink :: "string \<Rightarrow> inode \<Rightarrow> inode" where
  "set_SymbolicLink l nd =
     (case node_class nd of SymbolicLink _ \<Rightarrow> nd\<lparr>node_class := SymbolicLink l\<rparr> | _ \<Rightarrow> nd)"

definition attr :: "inode \<Rightarrow> stat" where
  "attr nd = e_attr (m_fuseEntryParam nd)"

definition set_attr :: "(stat \<Rightarrow> stat) \<Rightarrow> inode \<Rightarrow> inode" where
  "set_attr g nd = nd\<lparr>m_fuseEntryParam :=
     (m_fuseEntryParam nd)\<lparr>e_attr := g (e_attr (m_fuseEntryParam nd))\<rparr>\<rparr>"

section \<open>Reference and link counts\<close>

definition UsedBlocks :: "inode \<Rightarrow> u64" where
  "UsedBlocks nd = st_blocks (attr nd)"

definition Lookup :: "inode \<Rightarrow> inode" where
  "Lookup nd = nd\<lparr>m_nlookup := m_nlookup nd + 1\<rparr>"

definition Forget :: "u64 \<Rightarrow> inode \<Rightarrow> inode" where
  "Forget nlookup nd = nd\<lparr>m_nlookup := m_nlookup nd - nlookup\<rparr>"

definition Forgotten :: "inode \<Rightarrow> bool" where
  "Forgotten nd \<longleftrightarrow> m_nlookup nd = 0"

definition HasNoLinks :: "inode \<Rightarrow> bool" where
  "HasNoLinks nd \<longleftrightarrow> st_nlink (attr nd) = 0"

definition markForDeletion :: "inode \<Rightarrow> inode" where
  "markForDeletion nd = nd\<lparr>markedForDeletion := True\<rparr>"

definition unmarkForDeletion :: "inode \<Rightarrow> inode" where
  "unmarkForDeletion nd = nd\<lparr>markedForDeletion := False\<rparr>"

definition isDeleted :: "inode \<Rightarrow> bool" where
  "isDeleted nd \<longleftrightarrow> markedForDeletion nd"

definition AddHardLink :: "inode \<Rightarrow> inode" where
  "AddHardLink = set_attr (\<lambda>a. a\<lparr>st_nlink := st_nlink a + 1\<rparr>)"

definition RemoveHardLink :: "inode \<Rightarrow> inode" where
  "RemoveHardLink nd =
     (let nd' = set_attr (\<lambda>a. a\<lparr>st_nlink := st_nlink a - 1\<rparr>) nd
      in if st_nlink (attr nd') \<le> 0 then markForDeletion nd' else nd')"

section \<open>Extended attributes\<close>

text \<open>
  \<open>SetXAttr\<close>: the tests on \<open>flags\<close> as the source has them; \<open>m_xattr[name]\<close> creates an empty
  value for a new name before the allocation can fail; the value is never shortened. The value
  is the list of the bytes at \<open>value\<close>, \<open>size\<close> of them.
\<close>

definition SetXAttr ::
  "bool \<Rightarrow> inode \<Rightarrow> string \<Rightarrow> cell list \<Rightarrow> u32 \<Rightarrow> u32 \<Rightarrow> (inode \<times> errno) exec" where
  "SetXAttr alloc_ok nd name val flags position =
     (if map_find (m_xattr nd) name = None \<and> has_flag flags XATTR_CREATE then Inr (nd, EEXIST)
      else if map_find (m_xattr nd) name \<noteq> None \<and> has_flag flags XATTR_REPLACE
      then Inr (nd, ENODATA)
      else
        let newExtent = (length val + unat position) mod 2 ^ 64;
            cur = (case map_find (m_xattr nd) name of None \<Rightarrow> [] | Some v \<Rightarrow> v);
            nd1 = nd\<lparr>m_xattr := map_assign (m_xattr nd) name cur\<rparr>
        in if length cur < newExtent \<and> \<not> alloc_ok then Inr (nd1, E2BIG)
           else
             let cur1 = (if length cur < newExtent then realloc (Some cur) newExtent else cur)
             in andThen (memcpy_to (Some cur1) (unat position) val) (\<lambda>buf.
                Inr (nd1\<lparr>m_xattr := map_assign (m_xattr nd1) name (buffer_cells buf)\<rparr>, ESUCCESS)))"

definition GetXAttr :: "inode \<Rightarrow> (string, cell list) omap" where
  "GetXAttr nd = m_xattr nd"

definition RemoveXAttr :: "inode \<Rightarrow> string \<Rightarrow> inode \<times> errno" where
  "RemoveXAttr nd name =
     (if map_find (m_xattr nd) name = None then (nd, ENODATA)
      else (nd\<lparr>m_xattr := map_erase (m_xattr nd) name\<rparr>, ESUCCESS))"

section \<open>Directories\<close>

definition ChildINodeNumberWithName :: "directory \<Rightarrow> string \<Rightarrow> fuse_ino_t" where
  "ChildINodeNumberWithName d name =
     (case map_find (m_children d) name of None \<Rightarrow> -1 | Some i \<Rightarrow> i)"

text \<open>Both return the old number, 0 when \<open>operator[]\<close> has just created the entry.\<close>

definition UpdateChild :: "string \<Rightarrow> fuse_ino_t \<Rightarrow> directory \<Rightarrow> directory \<times> fuse_ino_t" where
  "UpdateChild name ino d =
     (let ino_ret = (case map_find (m_children d) name of None \<Rightarrow> 0 | Some i \<Rightarrow> i)
      in (d\<lparr>m_children := map_assign (m_children d) name ino\<rparr>, ino_ret))"

definition DeleteChild :: "string \<Rightarrow> directory \<Rightarrow> directory \<times> fuse_ino_t" where
  "DeleteChild name d =
     (let ino_ret = (case map_find (m_children d) name of None \<Rightarrow> 0 | Some i \<Rightarrow> i)
      in (d\<lparr>m_children := map_erase (m_children d) name\<rparr>, ino_ret))"

definition hasChildren :: "directory \<Rightarrow> bool" where
  "hasChildren d \<longleftrightarrow> list_ex (\<lambda>(name, _). name \<noteq> ''.'' \<and> name \<noteq> ''..'') (m_children d)"

definition GetChildrenNumber :: "directory \<Rightarrow> nat" where
  "GetChildrenNumber d = length (m_children d)"

definition setDirName :: "string \<Rightarrow> directory \<Rightarrow> directory" where
  "setDirName name d = d\<lparr>dir_name := name\<rparr>"

definition setParent :: "fuse_ino_t \<Rightarrow> directory \<Rightarrow> directory" where
  "setParent p d = d\<lparr>parentDir := Some p\<rparr>"

subsection \<open>The contract of a child table\<close>

text \<open>
  What the file system operations rely on: a map with a lookup that answers \<open>-1\<close> for an absent
  name.
\<close>

locale child_table = std_map lookup assign remove valid
  for lookup :: "'m \<Rightarrow> 'k \<Rightarrow> 'v::{one, uminus} option"
    and assign :: "'m \<Rightarrow> 'k \<Rightarrow> 'v \<Rightarrow> 'm"
    and remove :: "'m \<Rightarrow> 'k \<Rightarrow> 'm"
    and valid :: "'m \<Rightarrow> bool" +
  fixes child :: "'m \<Rightarrow> 'k \<Rightarrow> 'v"
  assumes child_lookup: "child m k = (case lookup m k of None \<Rightarrow> - 1 | Some v \<Rightarrow> v)"
begin

lemma child_assign: "valid m \<Longrightarrow> child (assign m k v) j = (if j = k then v else child m j)"
  by (simp add: child_lookup lookup_assign)

lemma child_remove: "valid m \<Longrightarrow> child (remove m k) j = (if j = k then - 1 else child m j)"
  by (simp add: child_lookup lookup_remove)

lemma child_present: "child m k \<noteq> - 1 \<Longrightarrow> lookup m k = Some (child m k)"
  by (simp add: child_lookup split: option.splits)

text \<open>Storing under a new name and then removing the old one loses the entry if they are equal.\<close>

lemma child_move:
  "valid m \<Longrightarrow> child (remove (assign m new v) old) j =
     (if j = old then - 1 else if j = new then v else child m j)"
  by (simp add: child_remove child_assign valid_assign)

end

definition dir_ok :: "directory \<Rightarrow> bool" where
  "dir_ok d \<longleftrightarrow> map_ok (m_children d)"

interpretation dir: child_table
  "\<lambda>d. map_find (m_children d)" "\<lambda>d name ino. fst (UpdateChild name ino d)"
  "\<lambda>d name. fst (DeleteChild name d)" dir_ok ChildINodeNumberWithName
  by unfold_locales
    (simp_all add: UpdateChild_def DeleteChild_def dir_ok_def Let_def map_find_assign
      map_find_erase map_ok_assign map_ok_erase ChildINodeNumberWithName_def)

lemma hasChildren_iff:
  "hasChildren d \<longleftrightarrow> (\<exists>name ino. (name, ino) \<in> set (m_children d) \<and> name \<noteq> ''.'' \<and> name \<noteq> ''..'')"
  by (auto simp: hasChildren_def list_ex_iff)

section \<open>Field lemmas\<close>

lemma set_attr_simps [simp]:
  "attr (set_attr g nd) = g (attr nd)"
  "node_class (set_attr g nd) = node_class nd"
  "m_nlookup (set_attr g nd) = m_nlookup nd"
  "inodeNumber (set_attr g nd) = inodeNumber nd"
  "m_xattr (set_attr g nd) = m_xattr nd"
  "markedForDeletion (set_attr g nd) = markedForDeletion nd"
  "e_ino (m_fuseEntryParam (set_attr g nd)) = e_ino (m_fuseEntryParam nd)"
  by (simp_all add: attr_def set_attr_def)

lemma count_ops_simps [simp]:
  "node_class (Lookup nd) = node_class nd" "attr (Lookup nd) = attr nd"
  "node_class (Forget n nd) = node_class nd" "attr (Forget n nd) = attr nd"
  "node_class (AddHardLink nd) = node_class nd"
  "node_class (RemoveHardLink nd) = node_class nd"
  "node_class (markForDeletion nd) = node_class nd" "attr (markForDeletion nd) = attr nd"
  "m_nlookup (Lookup nd) = m_nlookup nd + 1"
  "m_nlookup (Forget n nd) = m_nlookup nd - n"
  "m_nlookup (AddHardLink nd) = m_nlookup nd"
  "m_nlookup (RemoveHardLink nd) = m_nlookup nd"
  "m_nlookup (markForDeletion nd) = m_nlookup nd"
  "inodeNumber (Lookup nd) = inodeNumber nd" "inodeNumber (Forget n nd) = inodeNumber nd"
  "inodeNumber (AddHardLink nd) = inodeNumber nd"
  "inodeNumber (RemoveHardLink nd) = inodeNumber nd"
  "inodeNumber (markForDeletion nd) = inodeNumber nd"
  by (simp_all add: Lookup_def Forget_def AddHardLink_def RemoveHardLink_def markForDeletion_def
      attr_def Let_def)

lemma set_class_simps [simp]:
  "attr (set_File f nd) = attr nd" "m_nlookup (set_File f nd) = m_nlookup nd"
  "attr (set_Directory g nd) = attr nd" "m_nlookup (set_Directory g nd) = m_nlookup nd"
  "attr (set_SymbolicLink l nd) = attr nd" "m_nlookup (set_SymbolicLink l nd) = m_nlookup nd"
  "inodeNumber (set_File f nd) = inodeNumber nd"
  "inodeNumber (set_Directory g nd) = inodeNumber nd"
  "inodeNumber (set_SymbolicLink l nd) = inodeNumber nd"
  "m_fuseEntryParam (set_File f nd) = m_fuseEntryParam nd"
  "m_fuseEntryParam (set_Directory g nd) = m_fuseEntryParam nd"
  "m_fuseEntryParam (set_SymbolicLink l nd) = m_fuseEntryParam nd"
  "node_class nd = Directory d \<Longrightarrow> node_class (set_Directory g nd) = Directory (g d)"
  "node_class nd = File f' \<Longrightarrow> node_class (set_File f nd) = File (f f')"
  "node_class nd = SymbolicLink l' \<Longrightarrow> node_class (set_SymbolicLink l nd) = SymbolicLink l"
  by (auto simp: set_File_def set_Directory_def set_SymbolicLink_def attr_def
      split: node_class.split)

lemma cast_iff:
  "as_Directory nd = Some d \<longleftrightarrow> node_class nd = Directory d"
  "as_File nd = Some f \<longleftrightarrow> node_class nd = File f"
  "as_SymbolicLink nd = Some l \<longleftrightarrow> node_class nd = SymbolicLink l"
  "as_SpecialINode nd = Some t \<longleftrightarrow> node_class nd = SpecialINode t"
  by (auto simp: as_Directory_def as_File_def as_SymbolicLink_def as_SpecialINode_def
      split: node_class.splits)

lemma cast_None:
  "as_Directory nd = None \<longleftrightarrow> (\<forall>d. node_class nd \<noteq> Directory d)"
  "as_File nd = None \<longleftrightarrow> (\<forall>f. node_class nd \<noteq> File f)"
  "as_SymbolicLink nd = None \<longleftrightarrow> (\<forall>l. node_class nd \<noteq> SymbolicLink l)"
  "as_SpecialINode nd = None \<longleftrightarrow> (\<forall>t. node_class nd \<noteq> SpecialINode t)"
  by (auto simp: as_Directory_def as_File_def as_SymbolicLink_def as_SpecialINode_def
      split: node_class.splits)

lemma AddHardLink_nlink [simp]: "st_nlink (attr (AddHardLink nd)) = st_nlink (attr nd) + 1"
  by (simp add: AddHardLink_def)

lemma RemoveHardLink_nlink [simp]: "st_nlink (attr (RemoveHardLink nd)) = st_nlink (attr nd) - 1"
  by (simp add: RemoveHardLink_def Let_def)

lemma RemoveHardLink_marks:
  "markedForDeletion (RemoveHardLink nd) \<longleftrightarrow> markedForDeletion nd \<or> st_nlink (attr nd) = 1"
  by (auto simp: RemoveHardLink_def Let_def markForDeletion_def)

lemma link_size_blocks [simp]:
  "st_size (attr (AddHardLink nd)) = st_size (attr nd)"
  "st_blocks (attr (AddHardLink nd)) = st_blocks (attr nd)"
  "st_size (attr (RemoveHardLink nd)) = st_size (attr nd)"
  "st_blocks (attr (RemoveHardLink nd)) = st_blocks (attr nd)"
  by (simp_all add: AddHardLink_def RemoveHardLink_def Let_def)

end
