(* ===== verification/Nodes.thy ===== *)
theory Nodes
  imports INodeObjects
begin

text \<open>
  \<open>Nodes\<close> (\<^verbatim>\<open>nodes/Nodes.cpp\<close>): the vector of all inodes, indexed by inode number, and the queue of
  the numbers that may be reused. Each \<open>INode *\<close> is held by one slot of the vector, so the
  vector holds the objects.
\<close>

record nodes =
  INodes :: "inode list"
  DeletedINodes :: "fuse_ino_t list"

definition new_Nodes :: nodes where
  "new_Nodes = \<lparr>INodes = [], DeletedINodes = []\<rparr>"

text \<open>Both counts are returned as \<open>int\<close>, so they are narrowed to 32 bits.\<close>

definition getNumberOfINodes :: "nodes \<Rightarrow> u32" where
  "getNumberOfINodes ns = of_nat (length (INodes ns))"

definition getNumberOfDeletedINodes :: "nodes \<Rightarrow> u32" where
  "getNumberOfDeletedINodes ns = of_nat (length (DeletedINodes ns))"

definition getINodeByINodeNumber :: "nodes \<Rightarrow> fuse_ino_t \<Rightarrow> inode exec" where
  "getINodeByINodeNumber ns ino =
     (if unat ino < length (INodes ns) then Inr (INodes ns ! unat ino) else Inl OutOfRange)"

definition setINodeAt :: "nodes \<Rightarrow> fuse_ino_t \<Rightarrow> inode \<Rightarrow> nodes exec" where
  "setINodeAt ns ino nd =
     (if unat ino < length (INodes ns)
      then Inr (ns\<lparr>INodes := (INodes ns)[unat ino := nd]\<rparr>) else Inl OutOfRange)"

definition AddINode :: "nodes \<Rightarrow> inode \<Rightarrow> nodes \<times> fuse_ino_t" where
  "AddINode ns nd =
     (let ns' = ns\<lparr>INodes := INodes ns @ [nd]\<rparr>
      in (ns', of_nat (length (INodes ns')) - 1))"

definition createEmptyINode :: "INodeType \<Rightarrow> inode" where
  "createEmptyINode type =
     (case type of
        REGULAR_FILE \<Rightarrow> new_INode (File new_File)
      | DIRECTORY \<Rightarrow> new_INode (Directory new_Directory)
      | SYMBOLIC_LINK \<Rightarrow> new_INode (SymbolicLink '''')
      | SPECIAL_INODE_TYPE_NO_BLOCK \<Rightarrow> new_INode (SpecialINode SPECIAL_INODE_TYPE_NO_BLOCK))"

definition INodeBufBlockSize :: u64 where
  "INodeBufBlockSize = of_nat FILE_SYSTEM_SINGLE_BLOCK_SIZE"

definition InitializeINode ::
  "timespec \<Rightarrow> fuse_ino_t \<Rightarrow> u32 \<Rightarrow> u64 \<Rightarrow> u32 \<Rightarrow> u32 \<Rightarrow> inode \<Rightarrow> inode" where
  "InitializeINode ts ino mode nlink gid uid nd =
     nd\<lparr>inodeNumber := ino,
        m_fuseEntryParam := zero_entry_param
          \<lparr>e_ino := ino, attr_timeout := 1, entry_timeout := 1,
           e_attr := zero_stat\<lparr>st_mode := mode, st_gid := gid, st_uid := uid, st_nlink := nlink,
             st_blksize := INodeBufBlockSize, st_atim := ts, st_ctim := ts, st_mtim := ts\<rparr>\<rparr>\<rparr>"

definition modINodeAt :: "nodes \<Rightarrow> fuse_ino_t \<Rightarrow> (inode \<Rightarrow> inode) \<Rightarrow> nodes" where
  "modINodeAt ns ino g = ns\<lparr>INodes := (INodes ns)[unat ino := g (INodes ns ! unat ino)]\<rparr>"

definition LookupINode :: "nodes \<Rightarrow> fuse_ino_t \<Rightarrow> nodes exec" where
  "LookupINode ns ino =
     andThen (getINodeByINodeNumber ns ino) (\<lambda>_. Inr (modINodeAt ns ino Lookup))"

definition ForgetINode :: "nodes \<Rightarrow> fuse_ino_t \<Rightarrow> u64 \<Rightarrow> nodes exec" where
  "ForgetINode ns ino nlookup =
     andThen (getINodeByINodeNumber ns ino) (\<lambda>_. Inr (modINodeAt ns ino (Forget nlookup)))"

definition DeleteINode :: "nodes \<Rightarrow> fuse_ino_t \<Rightarrow> nodes" where
  "DeleteINode ns ino = ns\<lparr>DeletedINodes := DeletedINodes ns @ [ino]\<rparr>"

definition reclaimINode :: "nodes \<Rightarrow> (fuse_ino_t \<times> nodes) exec" where
  "reclaimINode ns =
     (case DeletedINodes ns of
        [] \<Rightarrow> Inl OutOfRange
      | ino # rest \<Rightarrow> Inr (ino, ns\<lparr>DeletedINodes := rest\<rparr>))"

text \<open>The non-Apple branch of \<open>SetINodeAttributes\<close>; the last step stamps the change time.\<close>

definition SetINodeAttributes :: "timespec \<Rightarrow> stat \<Rightarrow> u32 \<Rightarrow> inode \<Rightarrow> inode" where
  "SetINodeAttributes ts at to_set nd =
     (let a0 = attr nd;
          a1 = (if has_flag to_set FUSE_SET_ATTR_MODE then a0\<lparr>st_mode := st_mode at\<rparr> else a0);
          a2 = (if has_flag to_set FUSE_SET_ATTR_UID then a1\<lparr>st_uid := st_uid at\<rparr> else a1);
          a3 = (if has_flag to_set FUSE_SET_ATTR_GID then a2\<lparr>st_gid := st_gid at\<rparr> else a2);
          a4 = (if has_flag to_set FUSE_SET_ATTR_SIZE then a3\<lparr>st_size := st_size at\<rparr> else a3);
          a5 = (if has_flag to_set FUSE_SET_ATTR_ATIME then a4\<lparr>st_atim := st_atim at\<rparr> else a4);
          a6 = (if has_flag to_set FUSE_SET_ATTR_MTIME then a5\<lparr>st_mtim := st_mtim at\<rparr> else a5);
          a7 = (if has_flag to_set FUSE_SET_ATTR_CTIME then a6\<lparr>st_ctim := st_ctim at\<rparr> else a6)
      in set_attr (\<lambda>_. a7\<lparr>st_ctim := ts\<rparr>) nd)"

section \<open>Bounds of the vector\<close>

text \<open>
  \<open>ino >= getNumberOfINodes()\<close> as C++ evaluates it: the \<open>int\<close> is sign-extended to the type of
  \<open>ino\<close>.
\<close>

definition past_end :: "nodes \<Rightarrow> fuse_ino_t \<Rightarrow> bool" where
  "past_end ns ino \<longleftrightarrow> (scast (getNumberOfINodes ns) :: u64) \<le> ino"

definition count_fits :: "nodes \<Rightarrow> bool" where
  "count_fits ns \<longleftrightarrow> length (INodes ns) < 2 ^ 31"

lemma unat_int_count:
  assumes "n < 2 ^ 31"
  shows "unat (scast (of_nat n :: u32) :: u64) = n"
proof -
  have "sint (of_nat n :: u32) = int n"
    using assms by (simp add: signed_of_nat signed_take_bit_int_eq_self)
  then have "(scast (of_nat n :: u32) :: u64) = of_nat n"
    by (metis of_int_of_nat_eq of_int_sint)
  with assms show ?thesis by (simp add: unat_of_nat)
qed

lemma past_end_iff:
  "count_fits ns \<Longrightarrow> past_end ns ino \<longleftrightarrow> length (INodes ns) \<le> unat ino"
  by (simp add: past_end_def getNumberOfINodes_def word_le_nat_alt count_fits_def unat_int_count)

lemma getINode_eq:
  "getINodeByINodeNumber ns ino = Inr nd \<longleftrightarrow>
     unat ino < length (INodes ns) \<and> nd = INodes ns ! unat ino"
  by (auto simp: getINodeByINodeNumber_def)

lemma modINodeAt_simps [simp]:
  "length (INodes (modINodeAt ns ino g)) = length (INodes ns)"
  "DeletedINodes (modINodeAt ns ino g) = DeletedINodes ns"
  by (simp_all add: modINodeAt_def)

lemma nth_modINodeAt:
  "unat ino < length (INodes ns) \<Longrightarrow>
     INodes (modINodeAt ns ino g) ! i = (if i = unat ino then g (INodes ns ! i) else INodes ns ! i)"
  by (auto simp: modINodeAt_def)

lemma count_ops_modINodeAt [simp]:
  "getNumberOfINodes (modINodeAt ns ino g) = getNumberOfINodes ns"
  "getNumberOfDeletedINodes (modINodeAt ns ino g) = getNumberOfDeletedINodes ns"
  "past_end (modINodeAt ns ino g) j = past_end ns j"
  by (simp_all add: getNumberOfINodes_def getNumberOfDeletedINodes_def past_end_def)

section \<open>Setting attributes\<close>

lemma SetINodeAttributes_frame [simp]:
  "node_class (SetINodeAttributes ts at to_set nd) = node_class nd"
  "m_nlookup (SetINodeAttributes ts at to_set nd) = m_nlookup nd"
  "inodeNumber (SetINodeAttributes ts at to_set nd) = inodeNumber nd"
  "st_nlink (attr (SetINodeAttributes ts at to_set nd)) = st_nlink (attr nd)"
  "st_blocks (attr (SetINodeAttributes ts at to_set nd)) = st_blocks (attr nd)"
  by (simp_all add: SetINodeAttributes_def Let_def)

text \<open>
  \<open>SetINodeAttributes\<close> writes exactly the attributes selected by the flag bits, always stamps
  the change time, and leaves the link count, the block count and the object itself alone.
\<close>

theorem SetINodeAttributes_exact:
  "let nd' = SetINodeAttributes ts at to_set nd in
     st_mode (attr nd') = (if has_flag to_set FUSE_SET_ATTR_MODE then st_mode at else st_mode (attr nd)) \<and>
     st_uid (attr nd') = (if has_flag to_set FUSE_SET_ATTR_UID then st_uid at else st_uid (attr nd)) \<and>
     st_gid (attr nd') = (if has_flag to_set FUSE_SET_ATTR_GID then st_gid at else st_gid (attr nd)) \<and>
     st_size (attr nd') = (if has_flag to_set FUSE_SET_ATTR_SIZE then st_size at else st_size (attr nd)) \<and>
     st_atim (attr nd') = (if has_flag to_set FUSE_SET_ATTR_ATIME then st_atim at else st_atim (attr nd)) \<and>
     st_mtim (attr nd') = (if has_flag to_set FUSE_SET_ATTR_MTIME then st_mtim at else st_mtim (attr nd)) \<and>
     st_ctim (attr nd') = ts \<and>
     st_nlink (attr nd') = st_nlink (attr nd) \<and> st_blocks (attr nd') = st_blocks (attr nd) \<and>
     m_nlookup nd' = m_nlookup nd \<and> node_class nd' = node_class nd \<and> m_xattr nd' = m_xattr nd"
  by (simp add: SetINodeAttributes_def Let_def)

end
