(* ===== verification/Requests.thy ===== *)
theory Requests
  imports Prelude
begin

text \<open>
  The messages of the peer-to-peer version (\<^verbatim>\<open>mpi/mpi_data.hpp\<close>) and the functions of
  \<open>RequestSender\<close> (\<^verbatim>\<open>mpi/RequestSender.cpp\<close>), which send a request to the other processes. A
  call returns the messages it hands to \<open>MPI_Send\<close>, each with its destination rank, in order.
\<close>

section \<open>Packets\<close>

datatype RequestType =
  WRITE | READ | CREATE_FILE | DELETE_FILE | CREATE_DIR | DELETE_DIR | RENAME | TERMINATE

text \<open>The names are the 256-byte arrays of the structs. \<open>reqSize\<close> and \<open>offset\<close> are not set for a write.\<close>

record io_request =
  io_inode :: fuse_ino_t
  io_fileSize :: u64
  io_reqSize :: "u64 option"
  io_offset :: "u64 option"

datatype packet =
    RequestPacket RequestType
  | IORequestPacket io_request
  | FileCreationRequest string
  | FileDeletionRequest string
  | DirectoryCreationRequest string
  | DirectoryDeletionRequest string
  | RenameRequest string string

type_synonym outbox = "(nat \<times> packet) list"

definition name_capacity :: nat where
  "name_capacity = 256"

abbreviation NUL :: char where
  "NUL \<equiv> CHR 0x00"

text \<open>\<open>memcpy(request.name, name.c_str(), name.size())\<close> into the zeroed array.\<close>

definition fill_name :: "string \<Rightarrow> string exec" where
  "fill_name name =
     (if length name > name_capacity then Inl BufferOverflow
      else Inr (name @ replicate (name_capacity - length name) NUL))"

text \<open>The receiver reads the array as a C string; without a terminator it runs past the end.\<close>

definition c_string :: "string \<Rightarrow> string exec" where
  "c_string buf =
     (if NUL \<in> set buf then Inr (takeWhile (\<lambda>c. c \<noteq> NUL) buf) else Inl BadAccess)"

section \<open>RequestSender\<close>

definition sendWriteRequest :: "nat \<Rightarrow> nat \<Rightarrow> outbox" where
  "sendWriteRequest sourceRank mpiWorldSize =
     concat (map (\<lambda>i. if i \<noteq> sourceRank then [(i, RequestPacket WRITE)] else []) [0..<mpiWorldSize])"

definition sendReadRequest :: "nat \<Rightarrow> nat \<Rightarrow> outbox" where
  "sendReadRequest sourceRank mpiWorldSize =
     concat (map (\<lambda>i. if i \<noteq> sourceRank then [(i, RequestPacket READ)] else []) [0..<mpiWorldSize])"

text \<open>
  The loop the five name-carrying requests share: the type to every process including the
  sender, the payload to the others.
\<close>

definition send_with_payload :: "RequestType \<Rightarrow> packet \<Rightarrow> nat \<Rightarrow> nat \<Rightarrow> outbox" where
  "send_with_payload t payload sourceRank mpiWorldSize =
     concat (map (\<lambda>i. (i, RequestPacket t) # (if i \<noteq> sourceRank then [(i, payload)] else []))
       [0..<mpiWorldSize])"

definition sendCreateFileRequest :: "string \<Rightarrow> nat \<Rightarrow> nat \<Rightarrow> outbox exec" where
  "sendCreateFileRequest name sourceRank mpiWorldSize =
     andThen (fill_name name) (\<lambda>f.
       Inr (send_with_payload CREATE_FILE (FileCreationRequest f) sourceRank mpiWorldSize))"

definition sendDeleteFileRequest :: "string \<Rightarrow> nat \<Rightarrow> nat \<Rightarrow> outbox exec" where
  "sendDeleteFileRequest name sourceRank mpiWorldSize =
     andThen (fill_name name) (\<lambda>f.
       Inr (send_with_payload DELETE_FILE (FileDeletionRequest f) sourceRank mpiWorldSize))"

definition sendCreateDirectoryRequest :: "string \<Rightarrow> nat \<Rightarrow> nat \<Rightarrow> outbox exec" where
  "sendCreateDirectoryRequest dirAbsPath sourceRank mpiWorldSize =
     andThen (fill_name dirAbsPath) (\<lambda>f.
       Inr (send_with_payload CREATE_DIR (DirectoryCreationRequest f) sourceRank mpiWorldSize))"

definition sendDeleteDirectoryRequest :: "string \<Rightarrow> nat \<Rightarrow> nat \<Rightarrow> outbox exec" where
  "sendDeleteDirectoryRequest dirAbsPath sourceRank mpiWorldSize =
     andThen (fill_name dirAbsPath) (\<lambda>f.
       Inr (send_with_payload DELETE_DIR (DirectoryDeletionRequest f) sourceRank mpiWorldSize))"

definition sendRenameRequest :: "string \<Rightarrow> string \<Rightarrow> nat \<Rightarrow> nat \<Rightarrow> outbox exec" where
  "sendRenameRequest oldName newName sourceRank mpiWorldSize =
     andThen (fill_name oldName) (\<lambda>f. andThen (fill_name newName) (\<lambda>g.
       Inr (send_with_payload RENAME (RenameRequest f g) sourceRank mpiWorldSize)))"

definition sendTerminationRequest :: "nat \<Rightarrow> nat \<Rightarrow> outbox" where
  "sendTerminationRequest sourceRank mpiWorldSize =
     concat (map (\<lambda>i. [(i, RequestPacket TERMINATE)]) [0..<mpiWorldSize])"

section \<open>What arrives at one process\<close>

definition arriving :: "nat \<Rightarrow> outbox \<Rightarrow> packet list" where
  "arriving i msgs = map snd (filter (\<lambda>(d, _). d = i) msgs)"

lemma arriving_append [simp]: "arriving i (xs @ ys) = arriving i xs @ arriving i ys"
  by (simp add: arriving_def)

lemma arriving_loop:
  assumes "\<And>j. j < n \<Longrightarrow> arriving i (f j) = (if j = i then g else [])"
  shows "arriving i (concat (map f [0..<n])) = (if i < n then g else [])"
  using assms
proof (induction n)
  case (Suc n)
  then have "arriving i (concat (map f [0..<n])) = (if i < n then g else [])" by simp
  with Suc.prems [of n] show ?case by (auto simp: less_Suc_eq)
qed (simp add: arriving_def)

lemma arriving_send_with_payload:
  "i < n \<Longrightarrow> arriving i (send_with_payload t p src n) =
     (if i = src then [RequestPacket t] else [RequestPacket t, p])"
  unfolding send_with_payload_def
  by (subst arriving_loop) (auto simp: arriving_def)

lemma arriving_request_only:
  "i < n \<Longrightarrow>
     arriving i (sendWriteRequest src n) = (if i = src then [] else [RequestPacket WRITE])"
  "i < n \<Longrightarrow>
     arriving i (sendReadRequest src n) = (if i = src then [] else [RequestPacket READ])"
  unfolding sendWriteRequest_def sendReadRequest_def
  by (subst arriving_loop; auto simp: arriving_def)+

lemma fill_name_decodes:
  assumes "length name < name_capacity" and "NUL \<notin> set name"
  shows "\<exists>f. fill_name name = Inr f \<and> length f = name_capacity \<and> c_string f = Inr name"
proof -
  obtain k where k: "name_capacity - length name = Suc k"
    using assms(1) by (metis Suc_diff_Suc)
  have "takeWhile (\<lambda>c. c \<noteq> NUL) (name @ NUL # xs) = name" for xs
    using assms(2) by (subst takeWhile_append2) auto
  with k assms(1) show ?thesis
    by (simp add: fill_name_def c_string_def)
qed

text \<open>
  A request that carries a path reaches every other process as exactly two messages, the
  type and a payload that decodes to the path, and the sender itself as the type alone; the
  path has to be shorter than the 256-byte array.
\<close>

theorem sendCreateFileRequest_delivers:
  assumes "length name < name_capacity" and "NUL \<notin> set name" and "i < n"
  shows "\<exists>msgs f. sendCreateFileRequest name src n = Inr msgs \<and> c_string f = Inr name \<and>
    arriving i msgs =
      (if i = src then [RequestPacket CREATE_FILE]
       else [RequestPacket CREATE_FILE, FileCreationRequest f])"
  using fill_name_decodes [OF assms(1,2)] arriving_send_with_payload [OF assms(3)]
  by (fastforce simp: sendCreateFileRequest_def)

theorem sendCreateFileRequest_delivers_witness:
  "\<exists>msgs f. sendCreateFileRequest ''/a'' 0 3 = Inr msgs \<and> c_string f = Inr ''/a'' \<and>
     arriving 2 msgs = [RequestPacket CREATE_FILE, FileCreationRequest f]"
  using sendCreateFileRequest_delivers [of "''/a''" 2 3 0] by (simp add: name_capacity_def)

end
