(* ===== verification/FileSystemState.thy ===== *)
theory FileSystemState
  imports Nodes Requests
begin

text \<open>
  The static state of the class \<open>FileSystem\<close> (\<^verbatim>\<open>ramfs/FileSystem.hpp\<close>, \<^verbatim>\<open>ramfs/FileSystem.cpp\<close>) with
  what its handlers observe from outside, the log of the replies to the kernel and of the MPI
  messages, the file system counters, \<open>RegisterINode\<close> and \<open>FuseInit\<close>.
\<close>

section \<open>State\<close>

record statvfs =
  f_bsize :: u64
  f_frsize :: u64
  f_blocks :: u64
  f_bfree :: u64
  f_bavail :: u64
  f_files :: u64
  f_ffree :: u64
  f_favail :: u64
  f_fsid :: u64
  f_flag :: u64
  f_namemax :: u64

text \<open>One constructor per \<open>fuse_reply_*\<close> function, with the values passed at the call.\<close>

datatype reply =
    Reply_err errno
  | Reply_none
  | Reply_attr stat
  | Reply_entry entry_param
  | Reply_create entry_param
  | Reply_open
  | Reply_buf "cell list"
  | Reply_dirents "(string \<times> fuse_ino_t) list"
  | Reply_write u64
  | Reply_readlink string
  | Reply_statfs statvfs
  | Reply_xattr u64
  | Reply_names string

record fs_state =
  INodeManager :: nodes
  BlocksManager :: blocks
  m_reclaimingINodes :: bool
  m_stbuf :: statvfs
  createFileFromThread :: bool
  deleteFileFromThread :: bool
  createDirFromThread :: bool
  deleteDirFromThread :: bool
  renameFromThread :: bool
  unmountFromThread :: bool
  mpiRank :: nat
  mpiWorldSize :: nat
  dirIterators :: "string option list"  \<comment> \<open>iterators \<open>FuseReadDir\<close> has allocated; \<open>None\<close> is \<open>end()\<close>\<close>
  replies :: "reply list"
  sends :: outbox

text \<open>What one call observes of its environment: clock, credentials, allocation success.\<close>

record env =
  env_now :: timespec
  ctx_uid :: u32           \<comment> \<open>\<open>fuse_req_ctx(req)->uid\<close>\<close>
  ctx_gid :: u32
  proc_uid :: u32          \<comment> \<open>\<open>getuid()\<close>\<close>
  proc_gid :: u32
  alloc_ok :: bool         \<comment> \<open>\<open>malloc\<close> and \<open>realloc\<close> succeed\<close>

definition kTotalBlocks :: u64 where "kTotalBlocks = - 1"
definition kTotalInodes :: u64 where "kTotalInodes = - 1"
definition kFilesystemId :: u64 where "kFilesystemId = 0xc13f944870434d8f"
definition kMaxFilenameLength :: nat where "kMaxFilenameLength = 1024"
definition kINodeReclamationThreshold :: u64 where "kINodeReclamationThreshold = 256"
definition kReadDirBufSize :: nat where "kReadDirBufSize = 384"
definition kReadDirEntriesPerResponse :: nat where "kReadDirEntriesPerResponse = 255"

text \<open>The constructor \<open>FileSystem(rank, mpi_world_size)\<close> on the fresh singletons.\<close>

definition new_FileSystem :: "nat \<Rightarrow> nat \<Rightarrow> fs_state" where
  "new_FileSystem rank mpi_world_size =
     \<lparr>INodeManager = new_Nodes, BlocksManager = [], m_reclaimingINodes = False,
      m_stbuf = \<lparr>f_bsize = INodeBufBlockSize, f_frsize = INodeBufBlockSize,
        f_blocks = kTotalBlocks, f_bfree = kTotalBlocks, f_bavail = kTotalBlocks,
        f_files = kTotalInodes, f_ffree = kTotalInodes, f_favail = kTotalInodes,
        f_fsid = kFilesystemId, f_flag = 0x1FF, f_namemax = of_nat kMaxFilenameLength\<rparr>,
      createFileFromThread = False, deleteFileFromThread = False, createDirFromThread = False,
      deleteDirFromThread = False, renameFromThread = False, unmountFromThread = False,
      mpiRank = rank, mpiWorldSize = mpi_world_size, dirIterators = [], replies = [], sends = []\<rparr>"

section \<open>Small accessors\<close>

definition reply :: "reply \<Rightarrow> fs_state \<Rightarrow> fs_state" where
  "reply r s = s\<lparr>replies := replies s @ [r]\<rparr>"

abbreviation reply_err :: "errno \<Rightarrow> fs_state \<Rightarrow> fs_state" where
  "reply_err e s \<equiv> reply (Reply_err e) s"

definition sending :: "outbox \<Rightarrow> fs_state \<Rightarrow> fs_state" where
  "sending msgs s = s\<lparr>sends := sends s @ msgs\<rparr>"

definition getINode :: "fs_state \<Rightarrow> fuse_ino_t \<Rightarrow> inode exec" where
  "getINode s ino = getINodeByINodeNumber (INodeManager s) ino"

definition no_such_ino :: "fs_state \<Rightarrow> fuse_ino_t \<Rightarrow> bool" where
  "no_such_ino s ino \<longleftrightarrow> past_end (INodeManager s) ino"

text \<open>The object behind an inode pointer that the handler already holds, and its update.\<close>

definition inode_at :: "fs_state \<Rightarrow> fuse_ino_t \<Rightarrow> inode" where
  "inode_at s ino = INodes (INodeManager s) ! unat ino"

definition modINode :: "fuse_ino_t \<Rightarrow> (inode \<Rightarrow> inode) \<Rightarrow> fs_state \<Rightarrow> fs_state" where
  "modINode ino g s = s\<lparr>INodeManager := modINodeAt (INodeManager s) ino g\<rparr>"

definition UpdateUsedBlocks :: "u64 \<Rightarrow> fs_state \<Rightarrow> fs_state" where
  "UpdateUsedBlocks blocksAdded s = s\<lparr>m_stbuf := (m_stbuf s)
     \<lparr>f_bfree := f_bfree (m_stbuf s) - blocksAdded, f_bavail := f_bavail (m_stbuf s) - blocksAdded\<rparr>\<rparr>"

definition UpdateUsedINodes :: "u64 \<Rightarrow> fs_state \<Rightarrow> fs_state" where
  "UpdateUsedINodes inodesAdded s = s\<lparr>m_stbuf := (m_stbuf s)
     \<lparr>f_ffree := f_ffree (m_stbuf s) - inodesAdded, f_favail := f_favail (m_stbuf s) - inodesAdded\<rparr>\<rparr>"

section \<open>RegisterINode and FuseInit\<close>

definition RegisterINode ::
  "env \<Rightarrow> INodeType \<Rightarrow> u32 \<Rightarrow> u64 \<Rightarrow> u32 \<Rightarrow> u32 \<Rightarrow> fs_state \<Rightarrow> (fs_state \<times> fuse_ino_t) exec" where
  "RegisterINode ev type mode nlink gid uid s =
     (let s1 = (if getNumberOfDeletedINodes (INodeManager s) = 0
                then s\<lparr>m_reclaimingINodes := False\<rparr> else s);
          inode_p = createEmptyINode type
      in andThen
           (if m_reclaimingINodes s1 then
              andThen (reclaimINode (INodeManager s1)) (\<lambda>(ino, ns1).
              andThen (getINodeByINodeNumber ns1 ino) (\<lambda>del_p.
                let s2 = UpdateUsedBlocks (- UsedBlocks del_p) (s1\<lparr>INodeManager := ns1\<rparr>)
                in andThen (setINodeAt (INodeManager s2) ino inode_p) (\<lambda>ns2.
                   Inr (s2\<lparr>INodeManager := ns2\<rparr>, ino))))
            else
              let (ns1, ino) = AddINode (INodeManager s1) inode_p
              in Inr (UpdateUsedINodes 1 (s1\<lparr>INodeManager := ns1\<rparr>), ino))
           (\<lambda>(s3, ino).
              Inr (modINode ino (InitializeINode (env_now ev) ino mode nlink gid uid) s3, ino)))"

definition FuseInit :: "env \<Rightarrow> fs_state \<Rightarrow> fs_state exec" where
  "FuseInit ev s =
     (let s1 = s\<lparr>m_reclaimingINodes := False,
                 m_stbuf := (m_stbuf s)\<lparr>f_bfree := f_blocks (m_stbuf s), f_bavail := f_blocks (m_stbuf s),
                   f_ffree := f_files (m_stbuf s), f_favail := f_files (m_stbuf s), f_flag := 0x1FF\<rparr>\<rparr>;
          gid = proc_gid ev; uid = proc_uid ev
      in andThen (RegisterINode ev SPECIAL_INODE_TYPE_NO_BLOCK mode_0777 0 gid uid s1) (\<lambda>(s2, _).
         andThen (RegisterINode ev DIRECTORY (S_IFDIR OR mode_0777) 3 gid uid s2) (\<lambda>(s3, rootIno).
         andThen (getINode s3 rootIno) (\<lambda>rootNode.
           case as_Directory rootNode of
             None \<Rightarrow> Inl NullDeref
           | Some _ \<Rightarrow> Inr (modINode rootIno (set_Directory (setDirName ''/'')) s3)))))"

end
