(* ===== verification/FsNamespace.thy ===== *)
theory FsNamespace
  imports FileSystemState
begin

text \<open>
  The handlers of \<open>FileSystem\<close> that look names up and change the directory tree
  (\<^verbatim>\<open>ramfs/FileSystem.cpp\<close>, peer-to-peer version). Each handler maps the state to the state
  after the call; what it sends to the kernel and to the other processes is appended to the two
  logs of the state.
\<close>

section \<open>Shared prologue\<close>

text \<open>
  The opening of every handler that works in a directory: reply \<open>ENOENT\<close> for a number past the
  end, reply \<open>e\<close> for an inode that is not a \<open>Directory\<close>, otherwise go on with the directory.
\<close>

definition on_directory ::
  "fuse_ino_t \<Rightarrow> errno \<Rightarrow> fs_state \<Rightarrow> (directory \<Rightarrow> fs_state exec) \<Rightarrow> fs_state exec" where
  "on_directory parent e s k =
     (if no_such_ino s parent then Inr (reply_err ENOENT s)
      else andThen (getINode s parent) (\<lambda>parentInode.
        case as_Directory parentInode of
          None \<Rightarrow> Inr (reply_err e s)
        | Some dir \<Rightarrow> k dir))"

text \<open>
  \<open>RegisterINode\<close> destroys the object whose number it reuses; a handler that goes on using its
  pointer to the parent must not have destroyed it.
\<close>

definition parent_alive :: "fuse_ino_t \<Rightarrow> fuse_ino_t \<Rightarrow> unit exec" where
  "parent_alive parent ino = (if ino = parent then Inl UseAfterFree else Inr ())"

abbreviation updateChildOf :: "fuse_ino_t \<Rightarrow> string \<Rightarrow> fuse_ino_t \<Rightarrow> fs_state \<Rightarrow> fs_state" where
  "updateChildOf parent name ino \<equiv>
     modINode parent (set_Directory (\<lambda>d. fst (UpdateChild name ino d)))"

abbreviation deleteChildOf :: "fuse_ino_t \<Rightarrow> string \<Rightarrow> fs_state \<Rightarrow> fs_state" where
  "deleteChildOf parent name \<equiv> modINode parent (set_Directory (\<lambda>d. fst (DeleteChild name d)))"

section \<open>Lookup and forget\<close>

definition FuseLookup :: "fuse_ino_t \<Rightarrow> string \<Rightarrow> fs_state \<Rightarrow> fs_state exec" where
  "FuseLookup parent name s =
     on_directory parent ENOENT s (\<lambda>dir.
       let ino = ChildINodeNumberWithName dir name
       in if ino = -1 then Inr (reply_err ENOENT s)
          else andThen (getINode s ino) (\<lambda>_.
            let s1 = modINode ino Lookup s
            in Inr (reply (Reply_entry (m_fuseEntryParam (inode_at s1 ino))) s1)))"

definition FuseForget :: "fuse_ino_t \<Rightarrow> u64 \<Rightarrow> fs_state \<Rightarrow> fs_state exec" where
  "FuseForget ino nlookup s =
     andThen (getINode s ino) (\<lambda>_.
       let s1 = reply Reply_none (modINode ino (Forget nlookup) s);
           nd = inode_at s1 ino
       in if Forgotten nd \<and> HasNoLinks nd then
            let s2 = s1\<lparr>INodeManager := DeleteINode (INodeManager s1) ino\<rparr>
            in if (scast (getNumberOfDeletedINodes (INodeManager s2)) :: u64) > kINodeReclamationThreshold
               then Inr (s2\<lparr>m_reclaimingINodes := True\<rparr>) else Inr s2
          else Inr s1)"

section \<open>Creating nodes\<close>

definition FuseMknod :: "env \<Rightarrow> fuse_ino_t \<Rightarrow> string \<Rightarrow> u32 \<Rightarrow> fs_state \<Rightarrow> fs_state exec" where
  "FuseMknod ev parent name mode s =
     on_directory parent EISDIR s (\<lambda>_.
       if length name > kMaxFilenameLength then Inr (reply_err ENAMETOOLONG s)
       else if \<not> S_ISDIR mode \<and> \<not> S_ISREG mode then Inr (reply_err ENOENT s)
       else
         let s1 = (if S_ISDIR mode then modINode parent AddHardLink s else s);
             (inode_type, nlink, mode') =
               (if S_ISDIR mode then (DIRECTORY, 2, S_IFDIR) else (REGULAR_FILE, 1, S_IFREG))
         in andThen (RegisterINode ev inode_type (mode' OR mode_0777) nlink (ctx_uid ev) (ctx_gid ev) s1)
              (\<lambda>(s2, ino).
            andThen (parent_alive parent ino) (\<lambda>_.
              let s3 = modINode ino Lookup (updateChildOf parent name ino s2)
              in Inr (reply (Reply_entry (m_fuseEntryParam (inode_at s3 ino))) s3))))"

definition FuseMkdir :: "env \<Rightarrow> fuse_ino_t \<Rightarrow> string \<Rightarrow> fs_state \<Rightarrow> fs_state exec" where
  "FuseMkdir ev parent name s =
     on_directory parent EISDIR s (\<lambda>parentDir_p.
       andThen (RegisterINode ev DIRECTORY (S_IFDIR OR mode_0777) 2 (proc_gid ev) (proc_uid ev) s)
         (\<lambda>(s1, ino).
       andThen (parent_alive parent ino) (\<lambda>_.
         let s2 = modINode parent AddHardLink (updateChildOf parent name ino s1);
             dirName = dir_name parentDir_p @ name @ ''/'';
             s3 = modINode ino (set_Directory (\<lambda>d. setDirName dirName (setParent parent d))) s2;
             s4 = modINode ino Lookup s3;
             s5 = reply (Reply_entry (m_fuseEntryParam (inode_at s4 ino))) s4
         in andThen
              (if createDirFromThread s5 then Inr s5
               else andThen (sendCreateDirectoryRequest dirName (mpiRank s5) (mpiWorldSize s5))
                      (\<lambda>msgs. Inr (sending msgs s5)))
              (\<lambda>s6. Inr (s6\<lparr>createDirFromThread := False\<rparr>)))))"

definition FuseSymlink :: "env \<Rightarrow> string \<Rightarrow> fuse_ino_t \<Rightarrow> string \<Rightarrow> fs_state \<Rightarrow> fs_state exec" where
  "FuseSymlink ev link parent name s =
     on_directory parent EISDIR s (\<lambda>_.
       andThen (RegisterINode ev SYMBOLIC_LINK (S_IFLNK OR mode_0755) 1 (ctx_gid ev) (ctx_uid ev) s)
         (\<lambda>(s1, ino).
       andThen (parent_alive parent ino) (\<lambda>_.
         let s2 = modINode ino (set_SymbolicLink link) s1;
             s3 = modINode ino Lookup (updateChildOf parent name ino s2)
         in Inr (reply (Reply_entry (m_fuseEntryParam (inode_at s3 ino))) s3))))"

text \<open>\<open>flags\<close> is \<open>fi->flags\<close>; the handler does not use the mode it is given.\<close>

definition FuseCreate :: "env \<Rightarrow> fuse_ino_t \<Rightarrow> string \<Rightarrow> u32 \<Rightarrow> fs_state \<Rightarrow> fs_state exec" where
  "FuseCreate ev parent name flags s =
     on_directory parent ENOENT s (\<lambda>parentDir_p.
       if length name > kMaxFilenameLength then Inr (reply_err ENAMETOOLONG s)
       else
         andThen (RegisterINode ev REGULAR_FILE (S_IFREG OR mode_0777) 1 (ctx_gid ev) (ctx_uid ev) s)
           (\<lambda>(s1, ino).
         andThen (parent_alive parent ino) (\<lambda>_.
           let s2 = s1\<lparr>BlocksManager := createEmptyBlockListForInode (BlocksManager s1) ino\<rparr>;
               s3 = modINode ino Lookup (updateChildOf parent name ino s2);
               s4 = (if has_flag flags (O_WRONLY OR O_TRUNC) \<and> as_File (inode_at s3 ino) \<noteq> None
                     then modINode ino (set_attr (\<lambda>a. a\<lparr>st_size := 0, st_blocks := 0\<rparr>)) s3 else s3);
               s5 = reply (Reply_create (m_fuseEntryParam (inode_at s4 ino))) s4;
               fileName = dir_name parentDir_p @ name
           in andThen
                (if createFileFromThread s5 then Inr s5
                 else andThen (sendCreateFileRequest fileName (mpiRank s5) (mpiWorldSize s5))
                        (\<lambda>msgs. Inr (sending msgs s5)))
                (\<lambda>s6. Inr (s6\<lparr>createFileFromThread := False\<rparr>)))))"

section \<open>Removing nodes\<close>

definition FuseUnlink :: "fuse_ino_t \<Rightarrow> string \<Rightarrow> fs_state \<Rightarrow> fs_state exec" where
  "FuseUnlink parent name s =
     on_directory parent EISDIR s (\<lambda>parentDir_p.
       let ino = ChildINodeNumberWithName parentDir_p name
       in if ino = -1 then Inr (reply_err ENOENT s)
          else andThen (getINode s ino) (\<lambda>_.
            let s1 = deleteChildOf parent name (modINode ino RemoveHardLink s);
                s2 = reply_err ESUCCESS s1;
                fileName = dir_name parentDir_p @ name
            in andThen
                 (if deleteFileFromThread s2 then Inr s2
                  else andThen (sendDeleteFileRequest fileName (mpiRank s2) (mpiWorldSize s2))
                         (\<lambda>msgs. Inr (sending msgs s2)))
                 (\<lambda>s3. Inr (s3\<lparr>deleteFileFromThread := False\<rparr>))))"

text \<open>The loop \<open>while (!dir_p->HasNoLinks()) dir_p->RemoveHardLink();\<close>\<close>

function RemoveAllHardLinks :: "inode \<Rightarrow> inode" where
  "RemoveAllHardLinks nd = (if HasNoLinks nd then nd else RemoveAllHardLinks (RemoveHardLink nd))"
  by pat_completeness auto
termination
proof (relation "measure (\<lambda>nd. unat (st_nlink (attr nd)))")
  fix nd assume "\<not> HasNoLinks nd"
  then have "unat (st_nlink (attr nd) - 1) < unat (st_nlink (attr nd))"
    by (simp add: HasNoLinks_def unat_minus_one unat_gt_0)
  then show "(RemoveHardLink nd, nd) \<in> measure (\<lambda>nd. unat (st_nlink (attr nd)))"
    by simp
qed simp

declare RemoveAllHardLinks.simps [simp del]

definition FuseRmdir :: "fuse_ino_t \<Rightarrow> string \<Rightarrow> fs_state \<Rightarrow> fs_state exec" where
  "FuseRmdir parent name s =
     on_directory parent EISDIR s (\<lambda>parentDir_p.
       let ino = ChildINodeNumberWithName parentDir_p name
       in if ino = -1 then Inr (reply_err ENOENT s)
          else andThen (getINode s ino) (\<lambda>inode_p.
            case as_Directory inode_p of
              None \<Rightarrow> Inr (reply_err EISDIR s)
            | Some dir_p \<Rightarrow>
                if hasChildren dir_p then Inr (reply_err EPERM s)
                else
                  let s1 = modINode parent RemoveHardLink s;
                      s2 = modINode ino RemoveAllHardLinks s1;
                      s3 = reply_err ESUCCESS (deleteChildOf parent name s2)
                  in andThen
                       (if deleteDirFromThread s3 then Inr s3
                        else andThen (sendDeleteDirectoryRequest (dir_name dir_p) (mpiRank s3) (mpiWorldSize s3))
                               (\<lambda>msgs. Inr (sending msgs s3)))
                       (\<lambda>s4. Inr (s4\<lparr>deleteDirFromThread := False\<rparr>))))"

section \<open>Renaming and linking\<close>

definition FuseRename ::
  "fuse_ino_t \<Rightarrow> string \<Rightarrow> fuse_ino_t \<Rightarrow> string \<Rightarrow> fs_state \<Rightarrow> fs_state exec" where
  "FuseRename parent name newparent newname s =
     on_directory parent EISDIR s (\<lambda>parentDir.
       let ino = ChildINodeNumberWithName parentDir name
       in if ino = -1 then Inr (reply_err ENOENT s)
          else on_directory newparent EISDIR s (\<lambda>newParentDir.
            let existingIno = ChildINodeNumberWithName newParentDir newname
            in andThen
                 (if existingIno \<noteq> -1 \<and> existingIno > 0 then
                    andThen (getINode s existingIno) (\<lambda>existing.
                      if as_Directory existing \<noteq> None
                      then Inr (modINode newparent AddHardLink (modINode parent RemoveHardLink s))
                      else Inr s)
                  else Inr s)
                 (\<lambda>s1.
                   let s2 = deleteChildOf parent name (updateChildOf newparent newname ino s1);
                       s3 = reply_err ESUCCESS s2
                   in if renameFromThread s3 then Inr (s3\<lparr>renameFromThread := False\<rparr>)
                      else andThen (sendRenameRequest (dir_name parentDir @ name)
                             (dir_name newParentDir @ newname) (mpiRank s3) (mpiWorldSize s3))
                           (\<lambda>msgs. Inr (sending msgs s3)))))"

text \<open>After \<open>EEXIST\<close> the source goes on: there is no \<open>return\<close>.\<close>

definition FuseLink :: "fuse_ino_t \<Rightarrow> fuse_ino_t \<Rightarrow> string \<Rightarrow> fs_state \<Rightarrow> fs_state exec" where
  "FuseLink ino newparent newname s =
     on_directory newparent EISDIR s (\<lambda>newParentDir_p.
       if no_such_ino s ino then Inr (reply_err ENOENT s)
       else andThen (getINode s ino) (\<lambda>_.
         let existingIno = ChildINodeNumberWithName newParentDir_p newname;
             s1 = (if existingIno \<noteq> -1 \<and> existingIno > 0 then reply_err EEXIST s else s);
             s2 = modINode ino AddHardLink (updateChildOf newparent newname ino s1);
             s3 = modINode ino Lookup s2
         in Inr (reply (Reply_entry (m_fuseEntryParam (inode_at s3 ino))) s3)))"

end
