(* ===== verification/FsAttributes.thy ===== *)
theory FsAttributes
  imports FsNamespace
begin

text \<open>
  The handlers of \<open>FileSystem\<close> that read and set metadata, extended attributes and permissions,
  and those that list directories (\<^verbatim>\<open>ramfs/FileSystem.cpp\<close>).
\<close>

section \<open>Attributes, links and permissions\<close>

text \<open>There is no \<open>return\<close> after the \<open>ENOENT\<close> of \<open>FuseGetAttr\<close> and \<open>FuseSetAttr\<close>.\<close>

definition FuseGetAttr :: "fuse_ino_t \<Rightarrow> fs_state \<Rightarrow> fs_state exec" where
  "FuseGetAttr ino s =
     (let s1 = (if no_such_ino s ino then reply_err ENOENT s else s)
      in andThen (getINode s1 ino) (\<lambda>inode. Inr (reply (Reply_attr (attr inode)) s1)))"

definition FuseSetAttr :: "env \<Rightarrow> fuse_ino_t \<Rightarrow> stat \<Rightarrow> u32 \<Rightarrow> fs_state \<Rightarrow> fs_state exec" where
  "FuseSetAttr ev ino at to_set s =
     (let s1 = (if no_such_ino s ino then reply_err ENOENT s else s)
      in andThen (getINode s1 ino) (\<lambda>_.
           let s2 = modINode ino (SetINodeAttributes (env_now ev) at to_set) s1
           in Inr (reply (Reply_attr (attr (inode_at s2 ino))) s2)))"

definition FuseReadLink :: "fuse_ino_t \<Rightarrow> fs_state \<Rightarrow> fs_state exec" where
  "FuseReadLink ino s =
     (if no_such_ino s ino then Inr (reply_err ENOENT s)
      else andThen (getINode s ino) (\<lambda>inode_p.
        case as_SymbolicLink inode_p of
          None \<Rightarrow> Inr (reply_err EPERM s)
        | Some link \<Rightarrow> Inr (reply (Reply_readlink link) s)))"

definition FuseStatfs :: "fuse_ino_t \<Rightarrow> fs_state \<Rightarrow> fs_state exec" where
  "FuseStatfs ino s = Inr (reply (Reply_statfs (m_stbuf s)) s)"

definition FuseAccess :: "env \<Rightarrow> fuse_ino_t \<Rightarrow> u32 \<Rightarrow> fs_state \<Rightarrow> fs_state exec" where
  "FuseAccess ev ino amask s =
     (if no_such_ino s ino then Inr (reply_err ENOENT s)
      else andThen (getINode s ino) (\<lambda>inode_p.
        let mode = st_mode (attr inode_p);
            mask3 = push_bit 3 amask;
            mask6 = push_bit 3 mask3
        in if isDeleted inode_p then Inr (reply_err ENOENT s)
           else if amask = F_OK then Inr (reply_err ESUCCESS s)
           else if mode AND amask = amask then Inr (reply_err ESUCCESS s)
           else if mode AND mask3 = mask3 \<and> ctx_gid ev = st_gid (attr inode_p)
           then Inr (reply_err ESUCCESS s)
           else if ctx_uid ev = st_uid (attr inode_p) \<and> mode AND mask6 = mask6
           then Inr (reply_err ESUCCESS s)
           else Inr (reply_err EACCES s)))"

text \<open>Locking is not implemented: past the bound check the handler sends no reply.\<close>

definition FuseGetLock :: "fuse_ino_t \<Rightarrow> fs_state \<Rightarrow> fs_state exec" where
  "FuseGetLock ino s =
     (if no_such_ino s ino then Inr (reply_err ENOENT s)
      else andThen (getINode s ino) (\<lambda>_. Inr s))"

definition FuseFsync :: "fuse_ino_t \<Rightarrow> fs_state \<Rightarrow> fs_state exec" where
  "FuseFsync ino s =
     (if no_such_ino s ino then Inr (reply_err ENOENT s) else Inr (reply_err ESUCCESS s))"

section \<open>Extended attributes\<close>

definition FuseSetXAttr ::
  "env \<Rightarrow> fuse_ino_t \<Rightarrow> string \<Rightarrow> cell list \<Rightarrow> u32 \<Rightarrow> fs_state \<Rightarrow> fs_state exec" where
  "FuseSetXAttr ev ino name val flags s =
     (if no_such_ino s ino then Inr (reply_err ENOENT s)
      else andThen (getINode s ino) (\<lambda>inode_p.
        let position = 0
        in andThen (SetXAttr (alloc_ok ev) inode_p name val flags position) (\<lambda>(nd, ret_val).
             Inr (reply_err ret_val (modINode ino (\<lambda>_. nd) s)))))"

definition FuseGetXAttr :: "fuse_ino_t \<Rightarrow> string \<Rightarrow> u64 \<Rightarrow> fs_state \<Rightarrow> fs_state exec" where
  "FuseGetXAttr ino name sz s =
     (if no_such_ino s ino then Inr (reply_err ENOENT s)
      else andThen (getINode s ino) (\<lambda>inode_p.
        case map_find (GetXAttr inode_p) name of
          None \<Rightarrow> Inr (reply_err ENODATA s)
        | Some val \<Rightarrow>
            if sz = 0 then Inr (reply (Reply_xattr (of_nat (length val))) s)
            else
              let position = 0; newExtent = sz + position
              in if of_nat (length val) < newExtent then Inr (reply_err ERANGE s)
                 else andThen (read_from (Some val) (unat position) (unat sz)) (\<lambda>b.
                      Inr (reply (Reply_buf b) s))))"

definition FuseListXAttr :: "env \<Rightarrow> fuse_ino_t \<Rightarrow> u64 \<Rightarrow> fs_state \<Rightarrow> fs_state exec" where
  "FuseListXAttr ev ino sz s =
     (if no_such_ino s ino then Inr (reply_err ENOENT s)
      else andThen (getINode s ino) (\<lambda>inode_p.
        let xattrs = GetXAttr inode_p;
            listSize = (of_nat (sum_list (map (\<lambda>(name, _). length name + 1) xattrs)) :: u64);
            s1 = (if sz = 0 then reply (Reply_xattr listSize) s else s)
        in if sz < listSize then Inr (reply_err ERANGE s1)
           else if \<not> alloc_ok ev then Inr (reply_err EIO s1)
           else Inr (reply (Reply_names (concat (map (\<lambda>(name, _). name @ [NUL]) xattrs))) s1)))"

definition FuseRemoveXAttr :: "fuse_ino_t \<Rightarrow> string \<Rightarrow> fs_state \<Rightarrow> fs_state exec" where
  "FuseRemoveXAttr ino name s =
     (if no_such_ino s ino then Inr (reply_err ENOENT s)
      else andThen (getINode s ino) (\<lambda>inode_p.
        let (nd, ret_val) = RemoveXAttr inode_p name
        in Inr (reply_err ret_val (modINode ino (\<lambda>_. nd) s))))"

section \<open>Directory streams\<close>

definition FuseOpenDir :: "fuse_ino_t \<Rightarrow> fs_state \<Rightarrow> fs_state exec" where
  "FuseOpenDir ino s =
     (if no_such_ino s ino then Inr (reply_err ENOENT s)
      else andThen (getINode s ino) (\<lambda>inode.
        if as_File inode \<noteq> None then Inr (reply_err ENOTDIR s)
        else Inr (reply Reply_open s)))"

definition FuseReleaseDir :: "fuse_ino_t \<Rightarrow> fs_state \<Rightarrow> fs_state exec" where
  "FuseReleaseDir ino s =
     (if no_such_ino s ino then Inr (reply_err ENOENT s)
      else andThen (getINode s ino) (\<lambda>inode.
        if as_File inode \<noteq> None then Inr (reply_err ENOTDIR s)
        else Inr (reply_err ESUCCESS s)))"

definition FuseFsyncDir :: "fuse_ino_t \<Rightarrow> fs_state \<Rightarrow> fs_state exec" where
  "FuseFsyncDir ino s =
     (if no_such_ino s ino then Inr (reply_err ENOENT s) else Inr (reply_err ESUCCESS s))"

text \<open>
  The loop of \<open>FuseReadDir\<close> from the iterator's position on. \<open>prev\<close> is the key before the
  iterator (\<open>None\<close> at \<open>begin()\<close>), \<open>esz\<close> what \<open>fuse_add_direntry\<close> returns for a name: the bytes
  the entry needs, whether or not it still fits. An entry that does not fit moves the iterator one
  step back. The result is the list of entries in the buffer and the iterator's last position.
\<close>

fun readdir_loop ::
  "(string \<Rightarrow> nat) \<Rightarrow> nat \<Rightarrow> nat \<Rightarrow> nat \<Rightarrow> (string \<times> fuse_ino_t) list \<Rightarrow> string option \<Rightarrow>
   (string \<times> fuse_ino_t) list \<Rightarrow> ((string \<times> fuse_ino_t) list \<times> string option) exec" where
  "readdir_loop esz bufSize bytesAdded entriesAdded acc prev [] = Inr (acc, None)"
| "readdir_loop esz bufSize bytesAdded entriesAdded acc prev ((name, ino) # rest) =
     (if entriesAdded \<ge> kReadDirEntriesPerResponse then Inr (acc, Some name)
      else if bytesAdded + esz name > bufSize then
        (case prev of None \<Rightarrow> Inl BadAccess | Some p \<Rightarrow> Inr (acc, Some p))
      else readdir_loop esz bufSize (bytesAdded + esz name) (Suc entriesAdded)
             (acc @ [(name, ino)]) (Some name) rest)"

text \<open>Where an iterator stands: the entries before it and those from it on.\<close>

definition iter_split ::
  "(string, fuse_ino_t) omap \<Rightarrow> string option \<Rightarrow>
   ((string \<times> fuse_ino_t) list \<times> (string \<times> fuse_ino_t) list) exec" where
  "iter_split m it =
     (case it of
        None \<Rightarrow> Inr (m, [])
      | Some k \<Rightarrow>
          if map_find m k = None then Inl BadAccess
          else Inr (takeWhile (\<lambda>(a, _). a \<noteq> k) m, dropWhile (\<lambda>(a, _). a \<noteq> k) m))"

text \<open>
  \<open>off\<close> is 0 on the first call and afterwards the address of the iterator allocated then, here its
  position in \<open>dirIterators\<close> counted from 1.
\<close>

definition FuseReadDir ::
  "(string \<Rightarrow> nat) \<Rightarrow> env \<Rightarrow> fuse_ino_t \<Rightarrow> nat \<Rightarrow> nat \<Rightarrow> fs_state \<Rightarrow> fs_state exec" where
  "FuseReadDir esz ev ino sz off s =
     (if no_such_ino s ino then Inr (reply_err ENOENT s)
      else andThen (getINode s ino) (\<lambda>inode.
        case as_Directory inode of
          None \<Rightarrow> Inr (reply_err ENOTDIR s)
        | Some dir \<Rightarrow>
            let m = m_children dir in
            if off > length (dirIterators s) then Inl BadAccess
            else if off \<noteq> 0 \<and> dirIterators s ! (off - 1) = None
            then Inr (reply (Reply_buf []) s)
            else if \<not> alloc_ok ev then Inl Aborted
            else
              let bufSize = (if kReadDirBufSize < sz then kReadDirBufSize else sz);
                  its = (if off = 0 then dirIterators s @ [map_option fst (case m of [] \<Rightarrow> None | e # _ \<Rightarrow> Some e)]
                         else dirIterators s);
                  slot = (if off = 0 then length (dirIterators s) else off - 1);
                  dots = (if off = 0 then [(''.'', ino), (''..'', ino)] else []);
                  bytes = sum_list (map (\<lambda>(name, _). esz name) dots)
              in if bytes > bufSize then Inl BadAccess
                 else
                   andThen (iter_split m (its ! slot)) (\<lambda>(before, from).
                   andThen (readdir_loop esz bufSize bytes (length dots) dots
                             (if before = [] then None else Some (fst (last before))) from)
                     (\<lambda>(entries, it').
                       Inr (reply (Reply_dirents entries) (s\<lparr>dirIterators := its[slot := it']\<rparr>))))))"

end
