(* ===== verification/FsData.thy ===== *)
theory FsData
  imports FsAttributes
begin

text \<open>
  The handlers of \<open>FileSystem\<close> on file contents that work on one process alone: \<open>FuseRead\<close>,
  \<open>FuseWrite\<close> and \<open>FuseRelease\<close> (\<^verbatim>\<open>ramfs/FileSystem.cpp\<close>). \<open>FuseOpen\<close> and \<open>FuseFlush\<close>, which move
  the contents between the processes, are in the theory of the distributed operations.
\<close>

definition set_buf :: "fuse_ino_t \<Rightarrow> buffer \<Rightarrow> fs_state \<Rightarrow> fs_state" where
  "set_buf ino b = modINode ino (set_File (\<lambda>f. f\<lparr>m_buf := b\<rparr>))"

text \<open>
  \<open>off > st_size\<close> compares two \<open>off_t\<close>; \<open>off + size > st_size\<close> and the subtraction are done in
  \<open>size_t\<close>. The reply to a read behind the end is not followed by a \<open>return\<close>: the handler goes on with
  the state after it. The two parts have names of their own because a fault in the second keeps no
  state, while the reply of the first has been sent.
\<close>

definition FuseRead_past_end :: "u64 \<Rightarrow> inode \<Rightarrow> fs_state \<Rightarrow> fs_state" where
  "FuseRead_past_end off inode_p s =
     (if sint (st_size (attr inode_p)) < sint off then reply (Reply_buf []) s else s)"

definition FuseRead_copy ::
  "env \<Rightarrow> fuse_ino_t \<Rightarrow> u64 \<Rightarrow> u64 \<Rightarrow> inode \<Rightarrow> file_data \<Rightarrow> fs_state \<Rightarrow> fs_state exec" where
  "FuseRead_copy ev ino sz off inode_p file_p s1 =
     (let size0 = st_size (attr inode_p);
          s2 = modINode ino (set_attr (\<lambda>a. a\<lparr>st_atim := env_now ev\<rparr>)) s1;
          bytesRead = (if off + sz > size0 then size0 - off else sz)
      in andThen (read_from (m_buf file_p) (unat off) (unat bytesRead)) (\<lambda>b.
           Inr (reply (Reply_buf b) s2)))"

definition FuseRead :: "env \<Rightarrow> fuse_ino_t \<Rightarrow> u64 \<Rightarrow> u64 \<Rightarrow> fs_state \<Rightarrow> fs_state exec" where
  "FuseRead ev ino sz off s =
     (if no_such_ino s ino then Inr (reply_err ENOENT s)
      else andThen (getINode s ino) (\<lambda>inode_p.
        case node_class inode_p of
          Directory _ \<Rightarrow> Inr (reply_err EISDIR s)
        | SpecialINode _ \<Rightarrow> Inr (reply_err ENOENT s)
        | SymbolicLink _ \<Rightarrow> Inr (reply_err EISDIR s)
        | File file_p \<Rightarrow> FuseRead_copy ev ino sz off inode_p file_p (FuseRead_past_end off inode_p s)))"

lemma FuseRead_unfold:
  "FuseRead ev ino sz off s =
     (if no_such_ino s ino then Inr (reply_err ENOENT s)
      else andThen (getINode s ino) (\<lambda>inode_p.
        case node_class inode_p of
          Directory _ \<Rightarrow> Inr (reply_err EISDIR s)
        | SpecialINode _ \<Rightarrow> Inr (reply_err ENOENT s)
        | SymbolicLink _ \<Rightarrow> Inr (reply_err EISDIR s)
        | File file_p \<Rightarrow>
            let size0 = st_size (attr inode_p);
                s1 = (if sint size0 < sint off then reply (Reply_buf []) s else s);
                s2 = modINode ino (set_attr (\<lambda>a. a\<lparr>st_atim := env_now ev\<rparr>)) s1;
                bytesRead = (if off + sz > size0 then size0 - off else sz)
            in andThen (read_from (m_buf file_p) (unat off) (unat bytesRead)) (\<lambda>b.
                 Inr (reply (Reply_buf b) s2))))"
  unfolding FuseRead_def FuseRead_copy_def FuseRead_past_end_def Let_def by (rule refl)

text \<open>\<open>buf\<close> is \<open>None\<close> for a null pointer, otherwise the \<open>size\<close> bytes at it.\<close>

definition FuseWrite ::
  "env \<Rightarrow> fuse_ino_t \<Rightarrow> cell list option \<Rightarrow> u64 \<Rightarrow> fs_state \<Rightarrow> fs_state exec" where
  "FuseWrite ev ino buf off s =
     (case buf of
        None \<Rightarrow> Inr (reply_err EPERM s)
      | Some data \<Rightarrow>
          if no_such_ino s ino then Inr (reply_err ENOENT s)
          else andThen (getINode s ino) (\<lambda>inode_p.
            case node_class inode_p of
              Directory _ \<Rightarrow> Inr (reply_err EISDIR s)
            | SymbolicLink _ \<Rightarrow> Inr (reply_err ENOENT s)
            | SpecialINode _ \<Rightarrow> Inr (reply_err EISDIR s)
            | File file_p \<Rightarrow>
                let sz = (of_nat (length data) :: u64);
                    s1 = (if isWaitingForDistributedWrite file_p then s
                          else modINode ino (set_File (\<lambda>f. f\<lparr>isWaitingForDistributedWrite := True\<rparr>)) s);
                    newSize = off + sz;
                    blocks0 = st_blocks (attr inode_p);
                    originalCapacity = INodeBufBlockSize * blocks0;
                    newBlocks = newSize div INodeBufBlockSize +
                      (if newSize mod INodeBufBlockSize \<noteq> 0 then 1 else 0);
                    (newBuf, s2) =
                      (if newSize > originalCapacity then
                         let newBuf = (if alloc_ok ev
                               then Some (realloc (m_buf file_p) (unat (newBlocks * INodeBufBlockSize)))
                               else None);
                             s1' = (if newBuf = None then reply (Reply_write 0) s1 else s1)
                         in (newBuf,
                             modINode ino (set_attr (\<lambda>a. a\<lparr>st_blocks := newBlocks\<rparr>))
                               (UpdateUsedBlocks (newBlocks - blocks0) s1'))
                       else (m_buf file_p, s1))
                in andThen (memcpy_to newBuf (unat off) data) (\<lambda>b.
                     let s3 = set_buf ino b s2;
                         s4 = (if newSize > st_size (attr inode_p)
                               then modINode ino (set_attr (\<lambda>a. a\<lparr>st_size := newSize\<rparr>)) s3 else s3);
                         s5 = modINode ino (set_attr (\<lambda>a.
                                a\<lparr>st_ctim := env_now ev, st_mtim := env_now ev\<rparr>)) s4
                     in Inr (reply (Reply_write sz) s5))))"

definition FuseRelease :: "fuse_ino_t \<Rightarrow> fs_state \<Rightarrow> fs_state exec" where
  "FuseRelease ino s =
     (if no_such_ino s ino then Inr (reply_err ENOENT s)
      else andThen (getINode s ino) (\<lambda>inode_p.
        if as_Directory inode_p \<noteq> None then Inr (reply_err EISDIR s)
        else
          let s1 = (if as_File inode_p \<noteq> None then set_buf ino None s else s)
          in Inr (reply_err ESUCCESS s1)))"

end
