(* ===== verification/DistIO.thy ===== *)
theory DistIO
  imports Distribution FsData
begin

text \<open>
  The distributed write and read of the peer-to-peer version and the two handlers that start them,
  \<open>FuseFlush\<close> and \<open>FuseOpen\<close> (\<^verbatim>\<open>mpi/DistributedCode.cpp\<close>, \<^verbatim>\<open>ramfs/FileSystem.cpp\<close>). The state
  is the list of all processes, indexed by rank. A distributed operation is one that every process
  takes part in: the caller through its handler, the others through their receiver loops; the
  collectives of MPI synchronise them, so the operation is a function on the whole list.
\<close>

section \<open>Processes\<close>

record peer =
  peer_fs :: fs_state
  peer_heap :: heap          \<comment> \<open>the blocks this process has allocated for \<open>DAGonFS_Write\<close>\<close>

type_synonym world = "peer list"

definition mod_fs :: "nat \<Rightarrow> (fs_state \<Rightarrow> fs_state) \<Rightarrow> world \<Rightarrow> world" where
  "mod_fs r g W = W[r := (W ! r)\<lparr>peer_fs := g (peer_fs (W ! r))\<rparr>]"

text \<open>A handler that concerns one process only.\<close>

definition at_peer :: "nat \<Rightarrow> (fs_state \<Rightarrow> fs_state exec) \<Rightarrow> world \<Rightarrow> world exec" where
  "at_peer r handler W =
     andThen (handler (peer_fs (W ! r))) (\<lambda>s. Inr (mod_fs r (\<lambda>_. s) W))"

text \<open>The \<open>MPI_Send\<close> of the request parameters to every other process.\<close>

definition send_io_request :: "nat \<Rightarrow> nat \<Rightarrow> io_request \<Rightarrow> outbox" where
  "send_io_request sourceRank w r =
     concat (map (\<lambda>i. if i \<noteq> sourceRank then [(i, IORequestPacket r)] else []) [0..<w])"

section \<open>DAGonFS_Write\<close>

text \<open>
  The loop that copies each block of the scattered data into a block of its own and records its
  address for the gather; \<open>blockSize\<close> is the macro \<open>FILE_SYSTEM_SINGLE_BLOCK_SIZE\<close>, which the two
  versions of the program define differently.
\<close>

fun store_blocks :: "nat \<Rightarrow> heap \<Rightarrow> nat \<Rightarrow> cell list \<Rightarrow> heap \<times> addr list" where
  "store_blocks blockSize h 0 localScatBuf = (h, [])"
| "store_blocks blockSize h (Suc k) localScatBuf =
     (let (h1, data_p) = heap_alloc h (take blockSize localScatBuf);
          (h2, rest) = store_blocks blockSize h1 k (drop blockSize localScatBuf)
      in (h2, data_p # rest))"

text \<open>The loop \<open>dataBlockList[i]->setData(addresses[i].address)\<close>.\<close>

fun set_addresses :: "data_block list \<Rightarrow> nat \<Rightarrow> addr list \<Rightarrow> data_block list exec" where
  "set_addresses dataBlockList i [] = Inr dataBlockList"
| "set_addresses dataBlockList i (a # as) =
     (if i < length dataBlockList
      then set_addresses (dataBlockList[i := setData (dataBlockList ! i) a]) (Suc i) as
      else Inl OutOfRange)"

text \<open>
  What a process does once it has all addresses: it grows the block list of the inode, stores the
  addresses and, when it is not the source, sets the size attributes.
\<close>

definition install_addresses ::
  "nat \<Rightarrow> nat \<Rightarrow> nat \<Rightarrow> fuse_ino_t \<Rightarrow> u64 \<Rightarrow> addr list \<Rightarrow> fs_state \<Rightarrow> fs_state exec" where
  "install_addresses w rank sourceRank ino fileSize addresses s =
     (let (bm, dataBlockList) = getDataBlockListOfInode (BlocksManager s) ino;
          additionBlocks = to_int (int (length addresses) - int (length dataBlockList));
          grown = (if additionBlocks > 0
                   then addDataBlocksTo FILE_SYSTEM_SINGLE_BLOCK_SIZE w dataBlockList additionBlocks ino sourceRank
                   else dataBlockList)
      in andThen (set_addresses grown 0 addresses) (\<lambda>stored.
         let s1 = s\<lparr>BlocksManager := map_assign bm ino stored\<rparr>
         in if rank \<noteq> sourceRank then
              andThen (getINode s1 ino) (\<lambda>_.
                Inr (modINode ino (set_attr (\<lambda>a. a\<lparr>st_size := fileSize,
                       st_blocks := of_nat (length stored)\<rparr>)) s1))
            else Inr s1))"

text \<open>
  \<open>buffer\<close> is the source's; the scatter and the gather use windows of 512 bytes and of one pointer
  per block.
\<close>

definition DAGonFS_Write ::
  "mpi \<Rightarrow> nat \<Rightarrow> buffer \<Rightarrow> fuse_ino_t \<Rightarrow> u64 \<Rightarrow> world \<Rightarrow> world exec" where
  "DAGonFS_Write m sourceRank buffer ino fileSize W =
     (let w = length W;
          W0 = mod_fs sourceRank (sending (send_io_request sourceRank w
                 \<lparr>io_inode = ino, io_fileSize = fileSize, io_reqSize = None, io_offset = None\<rparr>)) W;
          numberOfBlocksForRequest = numberOfBlocks fileSize;
          scatterCounts = countsFor FILE_SYSTEM_SINGLE_BLOCK_SIZE numberOfBlocksForRequest w;
          scatterDispls = displsFor FILE_SYSTEM_SINGLE_BLOCK_SIZE numberOfBlocksForRequest w;
          gatherCounts = countsFor sizeof_PointerPacket numberOfBlocksForRequest w;
          gatherDispls = displsFor sizeof_PointerPacket numberOfBlocksForRequest w
      in andThen (MPI_Scatterv m (buffer_cells buffer) scatterCounts scatterDispls sourceRank)
           (\<lambda>localScatBufs.
         let stored = map (\<lambda>r. store_blocks FILE_SYSTEM_SINGLE_BLOCK_SIZE (peer_heap (W0 ! r))
                              (effectiveBlocks numberOfBlocksForRequest w r)
                              (localScatBufs ! r)) [0..<w];
             localGathBufs = map (\<lambda>(_, as). store_ptrs as) stored
         in andThen (MPI_Allgatherv m localGathBufs gatherCounts gatherDispls
                (replicate w
                  (replicate (numberOfBlocksForRequest * sizeof_PointerPacket) Indet)))
              (\<lambda>addresses.
            mapE (\<lambda>r. andThen (load_ptrs numberOfBlocksForRequest (addresses ! r)) (\<lambda>as.
                    andThen (install_addresses w r sourceRank ino fileSize as
                               (peer_fs (W0 ! r)))
                      (\<lambda>s. Inr \<lparr>peer_fs = s, peer_heap = fst (stored ! r)\<rparr>)))
              [0..<w])))"

section \<open>DAGonFS_Read\<close>

text \<open>The loop over \<open>memcpy(localGathBuf + i * 512, localScatBuf[i].address, 512)\<close>.\<close>

definition fetch_blocks :: "nat \<Rightarrow> heap \<Rightarrow> addr list \<Rightarrow> cell list exec" where
  "fetch_blocks blockSize h as =
     andThen (mapE (\<lambda>a. heap_read h a blockSize) as) (\<lambda>bs. Inr (concat bs))"

text \<open>The addresses the source looks up; \<open>dataBlockList[i]\<close> past the end is undefined.\<close>

definition addresses_to_scatter :: "nat \<Rightarrow> data_block list \<Rightarrow> addr list exec" where
  "addresses_to_scatter n dataBlockList =
     (if n \<le> length dataBlockList then Inr (map dataBlockAddress (take n dataBlockList))
      else Inl OutOfRange)"

text \<open>The result is the world and the buffer returned to the source.\<close>

definition DAGonFS_Read ::
  "mpi \<Rightarrow> bool \<Rightarrow> nat \<Rightarrow> fuse_ino_t \<Rightarrow> u64 \<Rightarrow> u64 \<Rightarrow> u64 \<Rightarrow> world \<Rightarrow> (world \<times> buffer) exec" where
  "DAGonFS_Read m malloc_ok sourceRank ino fileSize reqSize offset W =
     (let w = length W;
          W0 = mod_fs sourceRank (sending (send_io_request sourceRank w
                 \<lparr>io_inode = ino, io_fileSize = fileSize, io_reqSize = Some reqSize,
                  io_offset = Some offset\<rparr>)) W
      in if fileSize = 0 then Inr (W0, None)
         else
           let numberOfBlocksForRequest =
                 (if reqSize > fileSize then numberOfBlocks fileSize else numberOfBlocks reqSize)
           in if \<not> malloc_ok then Inl Aborted
              else
                let readBuff = replicate (numberOfBlocksForRequest * FILE_SYSTEM_SINGLE_BLOCK_SIZE) Indet;
                    src = peer_fs (W0 ! sourceRank);
                    (bm, dataBlockList) = getDataBlockListOfInode (BlocksManager src) ino;
                    W1 = mod_fs sourceRank (\<lambda>s. s\<lparr>BlocksManager := bm\<rparr>) W0;
                    scatterCounts = countsFor sizeof_PointerPacket numberOfBlocksForRequest w;
                    scatterDispls = displsFor sizeof_PointerPacket numberOfBlocksForRequest w;
                    gatherCounts = countsFor FILE_SYSTEM_SINGLE_BLOCK_SIZE numberOfBlocksForRequest w;
                    gatherDispls = displsFor FILE_SYSTEM_SINGLE_BLOCK_SIZE numberOfBlocksForRequest w
                in andThen (addresses_to_scatter numberOfBlocksForRequest dataBlockList) (\<lambda>addressesToScat.
                   andThen (MPI_Scatterv m (store_ptrs addressesToScat) scatterCounts scatterDispls sourceRank)
                     (\<lambda>localScatBufs.
                   andThen (mapE (\<lambda>r.
                       andThen (load_ptrs (effectiveBlocks numberOfBlocksForRequest w r)
                                  (localScatBufs ! r)) (\<lambda>as.
                         fetch_blocks FILE_SYSTEM_SINGLE_BLOCK_SIZE (peer_heap (W1 ! r)) as)) [0..<w])
                     (\<lambda>localGathBufs.
                   andThen (MPI_Gatherv m localGathBufs gatherCounts gatherDispls readBuff sourceRank)
                     (\<lambda>buf. Inr (W1, Some buf))))))"

section \<open>FuseOpen and FuseFlush\<close>

text \<open>\<open>rank\<close> is the process whose kernel makes the call; \<open>flags\<close> is \<open>fi->flags\<close>.\<close>

definition FuseOpen :: "mpi \<Rightarrow> env \<Rightarrow> nat \<Rightarrow> fuse_ino_t \<Rightarrow> u32 \<Rightarrow> world \<Rightarrow> world exec" where
  "FuseOpen m ev rank ino flags W =
     (let s = peer_fs (W ! rank)
      in if no_such_ino s ino then Inr (mod_fs rank (reply_err ENOENT) W)
         else andThen (getINode s ino) (\<lambda>inode.
           if as_Directory inode \<noteq> None then Inr (mod_fs rank (reply_err EISDIR) W)
           else if as_File inode = None then Inr (mod_fs rank (reply_err EPERM) W)
           else if has_flag flags (O_WRONLY OR O_TRUNC) then
             Inr (mod_fs rank (\<lambda>s. reply Reply_open
               (modINode ino (set_attr (\<lambda>a. a\<lparr>st_size := 0, st_blocks := 0\<rparr>)) s)) W)
           else
             let W1 = mod_fs rank (sending (sendReadRequest rank (mpiWorldSize s))) W;
                 size0 = st_size (attr inode)
             in andThen (DAGonFS_Read m (alloc_ok ev) rank ino size0 size0 0 W1) (\<lambda>(W2, buf).
                  Inr (mod_fs rank (\<lambda>s. reply Reply_open (set_buf ino buf s)) W2))))"

text \<open>The handler dereferences the result of the cast to \<open>File\<close> without a check.\<close>

definition FuseFlush :: "mpi \<Rightarrow> nat \<Rightarrow> fuse_ino_t \<Rightarrow> world \<Rightarrow> world exec" where
  "FuseFlush m rank ino W =
     (let s = peer_fs (W ! rank)
      in if no_such_ino s ino then Inr (mod_fs rank (reply_err ENOENT) W)
         else andThen (getINode s ino) (\<lambda>inode.
           case as_File inode of
             None \<Rightarrow> Inl NullDeref
           | Some file_p \<Rightarrow>
               if m_buf file_p = None then Inr (mod_fs rank (reply_err ESUCCESS) W)
               else
                 andThen
                   (if isWaitingForDistributedWrite file_p then
                      andThen (DAGonFS_Write m rank (m_buf file_p) ino (st_size (attr inode))
                                 (mod_fs rank (sending (sendWriteRequest rank (mpiWorldSize s))) W))
                        (\<lambda>W1. Inr (mod_fs rank (modINode ino
                           (set_File (\<lambda>f. f\<lparr>isWaitingForDistributedWrite := False\<rparr>))) W1))
                    else Inr W)
                   (\<lambda>W2. Inr (mod_fs rank (\<lambda>s. reply_err ESUCCESS (set_buf ino None s)) W2))))"

end
