(* ===== verification/FsInvariant.thy ===== *)
theory FsInvariant
  imports FsData
begin

text \<open>
  The well-formedness invariant of the file system state, the lemmas by which the single updates
  keep it, and the behaviour of \<open>RegisterINode\<close> on well-formed states.
\<close>

section \<open>Well-formed states\<close>

text \<open>
  A directory is a sorted map whose entries point into the vector; slot \<open>i\<close> of the vector holds
  inode \<open>i\<close>; the queue of reusable numbers points into the vector; the free inode counters are the
  total less the slots in use.
\<close>

definition node_wf :: "nat \<Rightarrow> inode \<Rightarrow> bool" where
  "node_wf n nd \<longleftrightarrow>
     (case node_class nd of
        Directory d \<Rightarrow> dir_ok d \<and> (\<forall>i\<in>snd ` set (m_children d). unat i < n)
      | _ \<Rightarrow> True)"

definition nodes_wf :: "nodes \<Rightarrow> bool" where
  "nodes_wf ns \<longleftrightarrow>
     (\<forall>nd\<in>set (INodes ns). node_wf (length (INodes ns)) nd) \<and>
     (\<forall>i<length (INodes ns). inodeNumber (INodes ns ! i) = of_nat i \<and>
        e_ino (m_fuseEntryParam (INodes ns ! i)) = of_nat i) \<and>
     (\<forall>i\<in>set (DeletedINodes ns). unat i < length (INodes ns))"

definition n_inodes :: "fs_state \<Rightarrow> nat" where
  "n_inodes s = length (INodes (INodeManager s))"

definition fs_wf :: "fs_state \<Rightarrow> bool" where
  "fs_wf s \<longleftrightarrow> nodes_wf (INodeManager s) \<and>
     f_ffree (m_stbuf s) = f_files (m_stbuf s) - of_nat (n_inodes s) \<and>
     f_favail (m_stbuf s) = f_files (m_stbuf s) - of_nat (n_inodes s)"

section \<open>Fields under the small updates\<close>

lemma reply_simps [simp]:
  "INodeManager (reply r s) = INodeManager s" "BlocksManager (reply r s) = BlocksManager s"
  "m_reclaimingINodes (reply r s) = m_reclaimingINodes s" "m_stbuf (reply r s) = m_stbuf s"
  "createFileFromThread (reply r s) = createFileFromThread s"
  "deleteFileFromThread (reply r s) = deleteFileFromThread s"
  "createDirFromThread (reply r s) = createDirFromThread s"
  "deleteDirFromThread (reply r s) = deleteDirFromThread s"
  "renameFromThread (reply r s) = renameFromThread s"
  "mpiRank (reply r s) = mpiRank s" "mpiWorldSize (reply r s) = mpiWorldSize s"
  "dirIterators (reply r s) = dirIterators s"
  "replies (reply r s) = replies s @ [r]" "sends (reply r s) = sends s"
  by (simp_all add: reply_def)

lemma sending_simps [simp]:
  "INodeManager (sending m s) = INodeManager s" "BlocksManager (sending m s) = BlocksManager s"
  "m_reclaimingINodes (sending m s) = m_reclaimingINodes s" "m_stbuf (sending m s) = m_stbuf s"
  "createFileFromThread (sending m s) = createFileFromThread s"
  "deleteFileFromThread (sending m s) = deleteFileFromThread s"
  "createDirFromThread (sending m s) = createDirFromThread s"
  "deleteDirFromThread (sending m s) = deleteDirFromThread s"
  "renameFromThread (sending m s) = renameFromThread s"
  "mpiRank (sending m s) = mpiRank s" "mpiWorldSize (sending m s) = mpiWorldSize s"
  "dirIterators (sending m s) = dirIterators s"
  "replies (sending m s) = replies s" "sends (sending m s) = sends s @ m"
  by (simp_all add: sending_def)

lemma modINode_simps [simp]:
  "INodeManager (modINode ino g s) = modINodeAt (INodeManager s) ino g"
  "BlocksManager (modINode ino g s) = BlocksManager s"
  "m_reclaimingINodes (modINode ino g s) = m_reclaimingINodes s"
  "m_stbuf (modINode ino g s) = m_stbuf s"
  "createFileFromThread (modINode ino g s) = createFileFromThread s"
  "deleteFileFromThread (modINode ino g s) = deleteFileFromThread s"
  "createDirFromThread (modINode ino g s) = createDirFromThread s"
  "deleteDirFromThread (modINode ino g s) = deleteDirFromThread s"
  "renameFromThread (modINode ino g s) = renameFromThread s"
  "mpiRank (modINode ino g s) = mpiRank s" "mpiWorldSize (modINode ino g s) = mpiWorldSize s"
  "dirIterators (modINode ino g s) = dirIterators s"
  "replies (modINode ino g s) = replies s" "sends (modINode ino g s) = sends s"
  by (simp_all add: modINode_def)

lemma UpdateUsedBlocks_simps [simp]:
  "INodeManager (UpdateUsedBlocks k s) = INodeManager s"
  "BlocksManager (UpdateUsedBlocks k s) = BlocksManager s"
  "f_ffree (m_stbuf (UpdateUsedBlocks k s)) = f_ffree (m_stbuf s)"
  "f_favail (m_stbuf (UpdateUsedBlocks k s)) = f_favail (m_stbuf s)"
  "f_files (m_stbuf (UpdateUsedBlocks k s)) = f_files (m_stbuf s)"
  "f_blocks (m_stbuf (UpdateUsedBlocks k s)) = f_blocks (m_stbuf s)"
  "f_bfree (m_stbuf (UpdateUsedBlocks k s)) = f_bfree (m_stbuf s) - k"
  "f_bavail (m_stbuf (UpdateUsedBlocks k s)) = f_bavail (m_stbuf s) - k"
  "replies (UpdateUsedBlocks k s) = replies s" "sends (UpdateUsedBlocks k s) = sends s"
  "mpiRank (UpdateUsedBlocks k s) = mpiRank s" "mpiWorldSize (UpdateUsedBlocks k s) = mpiWorldSize s"
  by (simp_all add: UpdateUsedBlocks_def)

lemma n_inodes_simps [simp]:
  "n_inodes (reply r s) = n_inodes s" "n_inodes (sending m s) = n_inodes s"
  "n_inodes (modINode ino g s) = n_inodes s" "n_inodes (UpdateUsedBlocks k s) = n_inodes s"
  "n_inodes (s\<lparr>BlocksManager := b\<rparr>) = n_inodes s"
  "n_inodes (s\<lparr>m_reclaimingINodes := x\<rparr>) = n_inodes s"
  "n_inodes (s\<lparr>dirIterators := its\<rparr>) = n_inodes s"
  "n_inodes (s\<lparr>createFileFromThread := x\<rparr>) = n_inodes s"
  "n_inodes (s\<lparr>deleteFileFromThread := x\<rparr>) = n_inodes s"
  "n_inodes (s\<lparr>createDirFromThread := x\<rparr>) = n_inodes s"
  "n_inodes (s\<lparr>deleteDirFromThread := x\<rparr>) = n_inodes s"
  "n_inodes (s\<lparr>renameFromThread := x\<rparr>) = n_inodes s"
  by (simp_all add: n_inodes_def)

lemma fs_wf_simps [simp]:
  "fs_wf (reply r s) = fs_wf s" "fs_wf (sending m s) = fs_wf s"
  "fs_wf (UpdateUsedBlocks k s) = fs_wf s"
  "fs_wf (s\<lparr>BlocksManager := b\<rparr>) = fs_wf s"
  "fs_wf (s\<lparr>m_reclaimingINodes := x\<rparr>) = fs_wf s"
  "fs_wf (s\<lparr>dirIterators := its\<rparr>) = fs_wf s"
  "fs_wf (s\<lparr>createFileFromThread := x\<rparr>) = fs_wf s"
  "fs_wf (s\<lparr>deleteFileFromThread := x\<rparr>) = fs_wf s"
  "fs_wf (s\<lparr>createDirFromThread := x\<rparr>) = fs_wf s"
  "fs_wf (s\<lparr>deleteDirFromThread := x\<rparr>) = fs_wf s"
  "fs_wf (s\<lparr>renameFromThread := x\<rparr>) = fs_wf s"
  by (simp_all add: fs_wf_def n_inodes_def)

lemma getINode_iff: "getINode s ino = Inr nd \<longleftrightarrow> unat ino < n_inodes s \<and> nd = inode_at s ino"
  by (simp add: getINode_def getINode_eq n_inodes_def inode_at_def)

lemma getINode_total: "unat ino < n_inodes s \<Longrightarrow> getINode s ino = Inr (inode_at s ino)"
  by (simp add: getINode_iff)

lemma inode_at_simps [simp]:
  "inode_at (reply r s) = inode_at s" "inode_at (sending m s) = inode_at s"
  "inode_at (UpdateUsedBlocks k s) = inode_at s"
  "inode_at (s\<lparr>BlocksManager := b\<rparr>) = inode_at s"
  "inode_at (s\<lparr>m_reclaimingINodes := x\<rparr>) = inode_at s"
  "inode_at (s\<lparr>dirIterators := its\<rparr>) = inode_at s"
  "inode_at (s\<lparr>createFileFromThread := x\<rparr>) = inode_at s"
  "inode_at (s\<lparr>deleteFileFromThread := x\<rparr>) = inode_at s"
  "inode_at (s\<lparr>createDirFromThread := x\<rparr>) = inode_at s"
  "inode_at (s\<lparr>deleteDirFromThread := x\<rparr>) = inode_at s"
  "inode_at (s\<lparr>renameFromThread := x\<rparr>) = inode_at s"
  by (simp_all add: inode_at_def fun_eq_iff)

lemma inode_at_modINode:
  "unat ino < n_inodes s \<Longrightarrow>
     inode_at (modINode ino g s) j = (if j = ino then g (inode_at s ino) else inode_at s j)"
  by (auto simp: inode_at_def n_inodes_def nth_modINodeAt word_unat_eq_iff)

lemma no_such_ino_iff: "n_inodes s < 2 ^ 31 \<Longrightarrow> no_such_ino s ino \<longleftrightarrow> n_inodes s \<le> unat ino"
  by (simp add: no_such_ino_def past_end_iff count_fits_def n_inodes_def)

section \<open>Updates of one inode\<close>

text \<open>An update of an inode object that keeps its number and, for a directory, valid entries.\<close>

definition keeps_node :: "nat \<Rightarrow> (inode \<Rightarrow> inode) \<Rightarrow> bool" where
  "keeps_node n g \<longleftrightarrow>
     (\<forall>nd. node_wf n nd \<longrightarrow> node_wf n (g nd) \<and> inodeNumber (g nd) = inodeNumber nd \<and>
        e_ino (m_fuseEntryParam (g nd)) = e_ino (m_fuseEntryParam nd))"

named_theorems keeps \<open>updates of one inode that keep it well-formed\<close>

lemma keeps_same_class:
  assumes "\<And>nd. node_class (g nd) = node_class nd" and "\<And>nd. inodeNumber (g nd) = inodeNumber nd"
    and "\<And>nd. e_ino (m_fuseEntryParam (g nd)) = e_ino (m_fuseEntryParam nd)"
  shows "keeps_node n g"
  using assms by (simp add: keeps_node_def node_wf_def)

lemma count_ops_e_ino [simp]:
  "e_ino (m_fuseEntryParam (Lookup nd)) = e_ino (m_fuseEntryParam nd)"
  "e_ino (m_fuseEntryParam (Forget k nd)) = e_ino (m_fuseEntryParam nd)"
  "e_ino (m_fuseEntryParam (AddHardLink nd)) = e_ino (m_fuseEntryParam nd)"
  "e_ino (m_fuseEntryParam (RemoveHardLink nd)) = e_ino (m_fuseEntryParam nd)"
  by (simp_all add: Lookup_def Forget_def AddHardLink_def RemoveHardLink_def markForDeletion_def
      Let_def)

lemma keeps_counts [keeps]:
  "keeps_node n Lookup" "keeps_node n (Forget k)" "keeps_node n AddHardLink"
  "keeps_node n RemoveHardLink" "keeps_node n (set_attr h)"
  "keeps_node n (SetINodeAttributes ts at to_set)"
  by (rule keeps_same_class; simp add: SetINodeAttributes_def Let_def)+

lemma RemoveAllHardLinks_stop: "st_nlink (attr nd) = 0 \<Longrightarrow> RemoveAllHardLinks nd = nd"
  by (subst RemoveAllHardLinks.simps) (simp add: HasNoLinks_def)

lemma RemoveAllHardLinks_step:
  "st_nlink (attr nd) \<noteq> 0 \<Longrightarrow> RemoveAllHardLinks nd = RemoveAllHardLinks (RemoveHardLink nd)"
  by (subst RemoveAllHardLinks.simps) (simp add: HasNoLinks_def)

lemma RemoveAllHardLinks_spec:
  "node_class (RemoveAllHardLinks nd) = node_class nd \<and>
   inodeNumber (RemoveAllHardLinks nd) = inodeNumber nd \<and>
   e_ino (m_fuseEntryParam (RemoveAllHardLinks nd)) = e_ino (m_fuseEntryParam nd) \<and>
   m_nlookup (RemoveAllHardLinks nd) = m_nlookup nd \<and>
   st_blocks (attr (RemoveAllHardLinks nd)) = st_blocks (attr nd) \<and>
   st_nlink (attr (RemoveAllHardLinks nd)) = 0 \<and>
   (st_nlink (attr nd) \<noteq> 0 \<longrightarrow> markedForDeletion (RemoveAllHardLinks nd))"
proof (induction nd rule: RemoveAllHardLinks.induct)
  case (1 nd)
  show ?case
  proof (cases "st_nlink (attr nd) = 0")
    case True
    then show ?thesis by (simp add: RemoveAllHardLinks_stop)
  next
    case False
    then have "\<not> HasNoLinks nd" by (simp add: HasNoLinks_def)
    note IH = 1 [OF this]
    show ?thesis
    proof (cases "st_nlink (attr nd) = 1")
      case True
      then show ?thesis
        by (simp add: RemoveAllHardLinks_step RemoveAllHardLinks_stop RemoveHardLink_marks)
    next
      case other: False
      with False IH show ?thesis by (simp add: RemoveAllHardLinks_step [OF False])
    qed
  qed
qed

lemma keeps_RemoveAllHardLinks [keeps]: "keeps_node n RemoveAllHardLinks"
  by (rule keeps_same_class) (simp_all add: RemoveAllHardLinks_spec)

lemma keeps_set_File [keeps]: "keeps_node n (set_File h)"
  by (auto simp: keeps_node_def node_wf_def set_File_def split: node_class.splits)

lemma keeps_set_SymbolicLink [keeps]: "keeps_node n (set_SymbolicLink l)"
  by (auto simp: keeps_node_def node_wf_def set_SymbolicLink_def split: node_class.splits)

lemma keeps_set_Directory:
  assumes "\<And>d. dir_ok d \<Longrightarrow> dir_ok (h d)"
    and "\<And>d. snd ` set (m_children (h d)) \<subseteq> insert ino (snd ` set (m_children d))"
    and "unat ino < n"
  shows "keeps_node n (set_Directory h)"
proof -
  have "dir_ok (h d) \<and> (\<forall>i\<in>snd ` set (m_children (h d)). unat i < n)"
    if "dir_ok d" "\<forall>i\<in>snd ` set (m_children d). unat i < n" for d
    using assms(1) [OF that(1)] assms(2) [of d] assms(3) that(2) by blast
  then show ?thesis
    by (auto simp: keeps_node_def node_wf_def set_Directory_def split: node_class.splits)
qed

lemma keeps_UpdateChild [keeps]:
  "unat ino < n \<Longrightarrow> keeps_node n (set_Directory (\<lambda>d. fst (UpdateChild name ino d)))"
  by (rule keeps_set_Directory [of _ ino])
    (simp_all add: UpdateChild_def Let_def dir_ok_def map_ok_assign snd_set_assign)

lemma keeps_same_children:
  assumes "\<And>d. m_children (h d) = m_children d"
  shows "keeps_node n (set_Directory h)"
  using assms
  by (auto simp: keeps_node_def node_wf_def set_Directory_def dir_ok_def split: node_class.splits)

lemma keeps_DeleteChild [keeps]: "keeps_node n (set_Directory (\<lambda>d. fst (DeleteChild name d)))"
proof -
  have "dir_ok (fst (DeleteChild name d)) \<and>
      (\<forall>i\<in>snd ` set (m_children (fst (DeleteChild name d))). unat i < n)"
    if "dir_ok d" "\<forall>i\<in>snd ` set (m_children d). unat i < n" for d
    using that set_erase [of "m_children d" name]
    by (auto simp: DeleteChild_def Let_def dir_ok_def map_ok_erase)
  then show ?thesis
    by (auto simp: keeps_node_def node_wf_def set_Directory_def split: node_class.splits)
qed

lemma keeps_dir_header [keeps]:
  "keeps_node n (set_Directory (\<lambda>d. setDirName nm (setParent p d)))"
  "keeps_node n (set_Directory (setDirName nm))"
  by (rule keeps_same_children; simp add: setDirName_def setParent_def)+

lemma fs_wf_modINode:
  assumes "fs_wf s" and "unat ino < n_inodes s" and "keeps_node (n_inodes s) g"
  shows "fs_wf (modINode ino g s)"
proof -
  let ?ns = "INodeManager s"
  have nd: "node_wf (n_inodes s) (INodes ?ns ! unat ino)"
    using assms(1,2) by (simp add: fs_wf_def nodes_wf_def n_inodes_def)
  have "\<forall>nd\<in>set (INodes (modINodeAt ?ns ino g)). node_wf (n_inodes s) nd"
    using assms nd
    by (auto simp: modINodeAt_def fs_wf_def nodes_wf_def n_inodes_def keeps_node_def
        dest!: set_update_subset_insert [THEN subsetD])
  moreover have "\<forall>i<n_inodes s. inodeNumber (INodes (modINodeAt ?ns ino g) ! i) = of_nat i \<and>
      e_ino (m_fuseEntryParam (INodes (modINodeAt ?ns ino g) ! i)) = of_nat i"
    using assms nd
    by (auto simp: nth_modINodeAt n_inodes_def fs_wf_def nodes_wf_def keeps_node_def)
  ultimately show ?thesis
    using assms(1) by (simp add: fs_wf_def nodes_wf_def n_inodes_def)
qed

lemma fs_wf_child:
  assumes "fs_wf s" and "unat parent < n_inodes s"
    and "as_Directory (inode_at s parent) = Some d" and "ChildINodeNumberWithName d name \<noteq> -1"
  shows "unat (ChildINodeNumberWithName d name) < n_inodes s"
proof -
  have "node_wf (n_inodes s) (inode_at s parent)"
    using assms(1,2) by (simp add: fs_wf_def nodes_wf_def n_inodes_def inode_at_def)
  then have "\<forall>i\<in>snd ` set (m_children d). unat i < n_inodes s"
    using assms(3) by (simp add: node_wf_def cast_iff)
  moreover have "ChildINodeNumberWithName d name \<in> snd ` set (m_children d)"
    using dir.child_present [OF assms(4)] by (force dest: map_find_in_set)
  ultimately show ?thesis by blast
qed

lemma fs_wf_dir_ok:
  assumes "fs_wf s" and "unat parent < n_inodes s" and "as_Directory (inode_at s parent) = Some d"
  shows "dir_ok d"
proof -
  have "node_wf (n_inodes s) (inode_at s parent)"
    using assms(1,2) by (simp add: fs_wf_def nodes_wf_def n_inodes_def inode_at_def)
  with assms(3) show ?thesis by (simp add: node_wf_def cast_iff)
qed

section \<open>RegisterINode on well-formed states\<close>

definition registered_inode ::
  "env \<Rightarrow> INodeType \<Rightarrow> fuse_ino_t \<Rightarrow> u32 \<Rightarrow> u64 \<Rightarrow> u32 \<Rightarrow> u32 \<Rightarrow> inode" where
  "registered_inode ev type ino mode nlink gid uid =
     InitializeINode (env_now ev) ino mode nlink gid uid (createEmptyINode type)"

definition reclaiming :: "fs_state \<Rightarrow> bool" where
  "reclaiming s \<longleftrightarrow> getNumberOfDeletedINodes (INodeManager s) \<noteq> 0 \<and> m_reclaimingINodes s"

text \<open>The number the next registration hands out, and the state after it.\<close>

definition next_ino :: "fs_state \<Rightarrow> fuse_ino_t" where
  "next_ino s = (if reclaiming s then hd (DeletedINodes (INodeManager s)) else of_nat (n_inodes s))"

definition register_in :: "inode \<Rightarrow> fs_state \<Rightarrow> fs_state" where
  "register_in nd s =
     (if reclaiming s
      then UpdateUsedBlocks (- UsedBlocks (inode_at s (next_ino s)))
             (s\<lparr>INodeManager := \<lparr>INodes = (INodes (INodeManager s))[unat (next_ino s) := nd],
                                DeletedINodes = tl (DeletedINodes (INodeManager s))\<rparr>\<rparr>)
      else UpdateUsedINodes 1
             (s\<lparr>m_reclaimingINodes := False,
                INodeManager := (INodeManager s)\<lparr>INodes := INodes (INodeManager s) @ [nd]\<rparr>\<rparr>))"

lemma reclaiming_nonempty:
  "reclaiming s \<Longrightarrow> DeletedINodes (INodeManager s) = next_ino s # tl (DeletedINodes (INodeManager s))"
  by (cases "DeletedINodes (INodeManager s)")
    (auto simp: reclaiming_def next_ino_def getNumberOfDeletedINodes_def)

lemma next_ino_reuse:
  assumes "fs_wf s" and "reclaiming s"
  shows "unat (next_ino s) < n_inodes s"
proof -
  have "next_ino s \<in> set (DeletedINodes (INodeManager s))"
    by (metis reclaiming_nonempty [OF assms(2)] list.set_intros(1))
  then show ?thesis
    using assms(1) by (simp add: fs_wf_def nodes_wf_def n_inodes_def)
qed

lemma next_ino_fresh:
  "n_inodes s < 2 ^ 63 \<Longrightarrow> \<not> reclaiming s \<Longrightarrow> unat (next_ino s) = n_inodes s"
  by (simp add: next_ino_def unat_of_nat)

lemma RegisterINode_eq:
  assumes "fs_wf s" and "n_inodes s < 2 ^ 63"
  shows "RegisterINode ev type mode nlink gid uid s =
    Inr (register_in (registered_inode ev type (next_ino s) mode nlink gid uid) s, next_ino s)"
proof (cases "reclaiming s")
  case True
  note bound = next_ino_reuse [OF assms(1) True] and del = reclaiming_nonempty [OF True]
  have flags: "getNumberOfDeletedINodes (INodeManager s) \<noteq> 0" "m_reclaimingINodes s"
    using True by (simp_all add: reclaiming_def)
  have "reclaimINode (INodeManager s) =
      Inr (next_ino s, (INodeManager s)\<lparr>DeletedINodes := tl (DeletedINodes (INodeManager s))\<rparr>)"
    by (subst reclaimINode_def, subst del) simp
  with flags bound True show ?thesis
    by (simp add: RegisterINode_def Let_def getINodeByINodeNumber_def setINodeAt_def
        n_inodes_def register_in_def inode_at_def UpdateUsedBlocks_def modINode_def modINodeAt_def
        registered_inode_def)
next
  case False
  note bound = next_ino_fresh [OF assms(2) False]
  have ino: "next_ino s = (of_nat (length (INodes (INodeManager s))) :: fuse_ino_t)"
    using False by (simp add: next_ino_def n_inodes_def)
  have flag: "m_reclaimingINodes (if getNumberOfDeletedINodes (INodeManager s) = 0
      then s\<lparr>m_reclaimingINodes := False\<rparr> else s) = False"
    using False by (auto simp: reclaiming_def)
  have s1: "(if getNumberOfDeletedINodes (INodeManager s) = 0
      then s\<lparr>m_reclaimingINodes := False\<rparr> else s) = s\<lparr>m_reclaimingINodes := False\<rparr>"
    using False by (auto simp: reclaiming_def)
  show ?thesis
    unfolding RegisterINode_def Let_def s1
    using False bound ino
    by (simp add: AddINode_def Let_def register_in_def UpdateUsedINodes_def modINode_def
        modINodeAt_def registered_inode_def n_inodes_def list_update_append)
qed

lemma register_in_simps [simp]:
  "BlocksManager (register_in nd s) = BlocksManager s"
  "createFileFromThread (register_in nd s) = createFileFromThread s"
  "deleteFileFromThread (register_in nd s) = deleteFileFromThread s"
  "createDirFromThread (register_in nd s) = createDirFromThread s"
  "deleteDirFromThread (register_in nd s) = deleteDirFromThread s"
  "renameFromThread (register_in nd s) = renameFromThread s"
  "mpiRank (register_in nd s) = mpiRank s" "mpiWorldSize (register_in nd s) = mpiWorldSize s"
  "dirIterators (register_in nd s) = dirIterators s"
  "replies (register_in nd s) = replies s" "sends (register_in nd s) = sends s"
  by (simp_all add: register_in_def UpdateUsedBlocks_def UpdateUsedINodes_def)

lemma n_inodes_register_in:
  "n_inodes (register_in nd s) = (if reclaiming s then n_inodes s else Suc (n_inodes s))"
  by (simp add: register_in_def n_inodes_def UpdateUsedINodes_def UpdateUsedBlocks_def)

lemma next_ino_bound:
  assumes "fs_wf s" and "n_inodes s < 2 ^ 63"
  shows "unat (next_ino s) < n_inodes (register_in nd s)"
  using next_ino_reuse [OF assms(1)] next_ino_fresh [OF assms(2)]
  by (simp add: n_inodes_register_in)

lemma inode_at_register_in:
  assumes "fs_wf s" and "n_inodes s < 2 ^ 63" and "j = next_ino s \<or> unat j < n_inodes s"
  shows "inode_at (register_in nd s) j = (if j = next_ino s then nd else inode_at s j)"
proof (cases "reclaiming s")
  case True
  note next_ino_reuse [OF assms(1) True]
  with True assms(3) show ?thesis
    by (auto simp: register_in_def inode_at_def n_inodes_def nth_list_update word_unat_eq_iff
        UpdateUsedBlocks_def)
next
  case False
  note next_ino_fresh [OF assms(2) False]
  with False assms(3) show ?thesis
    by (auto simp: register_in_def inode_at_def n_inodes_def UpdateUsedINodes_def nth_append)
qed

lemma node_wf_mono: "node_wf n nd \<Longrightarrow> n \<le> m \<Longrightarrow> node_wf m nd"
  by (auto simp: node_wf_def split: node_class.splits dest: order_less_le_trans)

lemma createEmptyINode_class [simp]:
  "node_class (createEmptyINode REGULAR_FILE) = File new_File"
  "node_class (createEmptyINode DIRECTORY) = Directory new_Directory"
  "node_class (createEmptyINode SYMBOLIC_LINK) = SymbolicLink ''''"
  "node_class (createEmptyINode SPECIAL_INODE_TYPE_NO_BLOCK) =
     SpecialINode SPECIAL_INODE_TYPE_NO_BLOCK"
  by (simp_all add: createEmptyINode_def new_INode_def)

lemma registered_inode_facts [simp]:
  "inodeNumber (registered_inode ev t ino m nl g u) = ino"
  "e_ino (m_fuseEntryParam (registered_inode ev t ino m nl g u)) = ino"
  "node_class (registered_inode ev t ino m nl g u) = node_class (createEmptyINode t)"
  "m_nlookup (registered_inode ev t ino m nl g u) = 0"
  "markedForDeletion (registered_inode ev t ino m nl g u) = False"
  "m_xattr (registered_inode ev t ino m nl g u) = []"
  "attr (registered_inode ev t ino m nl g u) = zero_stat\<lparr>st_mode := m, st_gid := g, st_uid := u,
     st_nlink := nl, st_blksize := INodeBufBlockSize, st_atim := env_now ev, st_ctim := env_now ev,
     st_mtim := env_now ev\<rparr>"
  by (simp_all add: registered_inode_def InitializeINode_def attr_def createEmptyINode_def
      new_INode_def split: INodeType.split)

lemma node_wf_registered: "node_wf n (registered_inode ev t ino m nl g u)"
  by (cases t) (simp_all add: node_wf_def new_Directory_def dir_ok_def)

lemma fs_wf_register_in:
  assumes wf: "fs_wf s" and n: "n_inodes s < 2 ^ 63"
    and nd: "\<And>k. node_wf k nd" "inodeNumber nd = next_ino s"
      "e_ino (m_fuseEntryParam nd) = next_ino s"
  shows "fs_wf (register_in nd s)"
proof (cases "reclaiming s")
  case True
  note bound = next_ino_reuse [OF wf True] and del = reclaiming_nonempty [OF True]
  have "set (tl (DeletedINodes (INodeManager s))) \<subseteq> set (DeletedINodes (INodeManager s))"
    by (metis del set_subset_Cons)
  with True bound wf nd show ?thesis
    by (auto simp: register_in_def fs_wf_def nodes_wf_def n_inodes_def nth_list_update
        dest!: set_update_subset_insert [THEN subsetD])
next
  case False
  note bound = next_ino_fresh [OF n False]
  have ino: "next_ino s = of_nat (n_inodes s)" using False by (simp add: next_ino_def)
  let ?ns = "(INodeManager s)\<lparr>INodes := INodes (INodeManager s) @ [nd]\<rparr>"
  have "nodes_wf ?ns"
    using wf nd ino
    by (auto simp: fs_wf_def nodes_wf_def n_inodes_def nth_append less_Suc_eq
        intro: node_wf_mono [OF _ le_SucI] less_SucI)
  with False wf show ?thesis
    by (simp add: register_in_def fs_wf_def n_inodes_def UpdateUsedINodes_def)
qed

lemma fs_wf_registered:
  "fs_wf s \<Longrightarrow> n_inodes s < 2 ^ 63 \<Longrightarrow>
     fs_wf (register_in (registered_inode ev t (next_ino s) m nl g u) s)"
  by (rule fs_wf_register_in) (simp_all add: node_wf_registered)

end
