(* ===== verification/FsBoot.thy ===== *)
theory FsBoot
  imports FsInvariant
begin

text \<open>
  The views of a state that the specifications of the handlers use (the entries of a directory,
  the inodes an operation leaves alone), the state after \<open>FuseInit\<close>, and one booted file system
  on which the theorems are exercised.
\<close>

section \<open>Views of a state\<close>

text \<open>The entry of a name in a directory, \<open>-1\<close> if there is none.\<close>

definition child_of :: "fs_state \<Rightarrow> fuse_ino_t \<Rightarrow> string \<Rightarrow> fuse_ino_t" where
  "child_of s parent name =
     (case as_Directory (inode_at s parent) of
        None \<Rightarrow> -1
      | Some d \<Rightarrow> ChildINodeNumberWithName d name)"

definition is_dir :: "fs_state \<Rightarrow> fuse_ino_t \<Rightarrow> directory \<Rightarrow> bool" where
  "is_dir s ino d \<longleftrightarrow> unat ino < n_inodes s \<and> as_Directory (inode_at s ino) = Some d"

lemma as_Directory_set_Directory [simp]:
  "as_Directory (set_Directory h nd) = map_option h (as_Directory nd)"
  by (simp add: as_Directory_def set_Directory_def split: node_class.split)

lemma as_Directory_same [simp]:
  "as_Directory (Lookup nd) = as_Directory nd" "as_Directory (Forget k nd) = as_Directory nd"
  "as_Directory (AddHardLink nd) = as_Directory nd"
  "as_Directory (RemoveHardLink nd) = as_Directory nd"
  "as_Directory (set_attr g nd) = as_Directory nd"
  "as_Directory (RemoveAllHardLinks nd) = as_Directory nd"
  by (simp_all add: as_Directory_def RemoveAllHardLinks_spec)

lemma as_Directory_registered [simp]:
  "as_Directory (registered_inode ev t ino m nl g u) =
     (if t = DIRECTORY then Some new_Directory else None)"
  by (cases t) (simp_all add: as_Directory_def)

text \<open>The inodes outside \<open>X\<close> are the same objects in both states.\<close>

definition same_outside :: "fuse_ino_t set \<Rightarrow> fs_state \<Rightarrow> fs_state \<Rightarrow> bool" where
  "same_outside X s s' \<longleftrightarrow> (\<forall>j. unat j < n_inodes s \<longrightarrow> j \<notin> X \<longrightarrow> inode_at s' j = inode_at s j)"

section \<open>FuseInit\<close>

text \<open>The state that \<open>FuseInit\<close> leaves when it is called on a fresh file system.\<close>

definition init_counters :: "fs_state \<Rightarrow> fs_state" where
  "init_counters s = s\<lparr>m_reclaimingINodes := False,
     m_stbuf := (m_stbuf s)\<lparr>f_bfree := f_blocks (m_stbuf s), f_bavail := f_blocks (m_stbuf s),
       f_ffree := f_files (m_stbuf s), f_favail := f_files (m_stbuf s), f_flag := 0x1FF\<rparr>\<rparr>"

definition fresh_root :: "env \<Rightarrow> inode" where
  "fresh_root ev = set_Directory (setDirName ''/'')
     (registered_inode ev DIRECTORY 1 (S_IFDIR OR mode_0777) 3 (proc_gid ev) (proc_uid ev))"

definition booted :: "env \<Rightarrow> nat \<Rightarrow> nat \<Rightarrow> fs_state" where
  "booted ev r w =
     (let s0 = init_counters (new_FileSystem r w);
          s1 = register_in (registered_inode ev SPECIAL_INODE_TYPE_NO_BLOCK 0 mode_0777 0
                 (proc_gid ev) (proc_uid ev)) s0;
          s2 = register_in (registered_inode ev DIRECTORY 1 (S_IFDIR OR mode_0777) 3
                 (proc_gid ev) (proc_uid ev)) s1
      in modINode 1 (set_Directory (setDirName ''/'')) s2)"

lemma fresh_nodes:
  "INodeManager (init_counters (new_FileSystem r w)) = \<lparr>INodes = [], DeletedINodes = []\<rparr>"
  by (simp add: init_counters_def new_FileSystem_def new_Nodes_def)

lemma not_reclaiming: "DeletedINodes (INodeManager s) = [] \<Longrightarrow> \<not> reclaiming s"
  by (simp add: reclaiming_def getNumberOfDeletedINodes_def)

lemma register_fresh_nodes:
  "DeletedINodes (INodeManager s) = [] \<Longrightarrow>
     INodeManager (register_in nd s) = \<lparr>INodes = INodes (INodeManager s) @ [nd], DeletedINodes = []\<rparr>"
  by (simp add: register_in_def not_reclaiming UpdateUsedINodes_def)

lemma FuseInit_eq: "FuseInit ev (new_FileSystem r w) = Inr (booted ev r w)"
proof -
  let ?s0 = "init_counters (new_FileSystem r w)"
  let ?special = "registered_inode ev SPECIAL_INODE_TYPE_NO_BLOCK 0 mode_0777 0
    (proc_gid ev) (proc_uid ev)"
  let ?s1 = "register_in ?special ?s0"
  have wf0: "fs_wf ?s0" and n0: "n_inodes ?s0 = 0"
    by (simp_all add: fs_wf_def nodes_wf_def n_inodes_def fresh_nodes)
      (simp_all add: init_counters_def)
  have next0: "next_ino ?s0 = 0"
    by (simp add: next_ino_def not_reclaiming fresh_nodes n0)
  have wf1: "fs_wf ?s1"
    using fs_wf_registered [OF wf0, of ev SPECIAL_INODE_TYPE_NO_BLOCK] n0 next0 by simp
  have ns1: "INodeManager ?s1 = \<lparr>INodes = [?special], DeletedINodes = []\<rparr>"
    by (simp add: register_fresh_nodes fresh_nodes)
  then have n1: "n_inodes ?s1 = 1" and next1: "next_ino ?s1 = 1"
    by (simp_all add: n_inodes_def next_ino_def not_reclaiming)
  show ?thesis
    unfolding FuseInit_def init_counters_def [symmetric] Let_def
    using RegisterINode_eq [OF wf0] RegisterINode_eq [OF wf1] n0 n1 next0 next1
    by (simp add: getINode_def getINodeByINodeNumber_def register_fresh_nodes ns1 booted_def Let_def
        as_Directory_def)
qed

lemma booted_nodes:
  "INodeManager (booted ev r w) =
     \<lparr>INodes = [registered_inode ev SPECIAL_INODE_TYPE_NO_BLOCK 0 mode_0777 0
                  (proc_gid ev) (proc_uid ev), fresh_root ev], DeletedINodes = []\<rparr>"
  by (simp add: booted_def Let_def register_fresh_nodes fresh_nodes modINodeAt_def fresh_root_def)

lemma booted_simps [simp]:
  "n_inodes (booted ev r w) = 2" "DeletedINodes (INodeManager (booted ev r w)) = []"
  "inode_at (booted ev r w) 1 = fresh_root ev"
  "mpiRank (booted ev r w) = r" "mpiWorldSize (booted ev r w) = w"
  "replies (booted ev r w) = []" "sends (booted ev r w) = []"
  "BlocksManager (booted ev r w) = []" "m_reclaimingINodes (booted ev r w) = False"
  by (simp_all add: booted_nodes n_inodes_def inode_at_def)
    (simp_all add: booted_def Let_def init_counters_def new_FileSystem_def register_in_def
      reclaiming_def getNumberOfDeletedINodes_def new_Nodes_def UpdateUsedINodes_def)

lemma booted_flags [simp]:
  "createFileFromThread (booted ev r w) = False" "deleteFileFromThread (booted ev r w) = False"
  "createDirFromThread (booted ev r w) = False" "deleteDirFromThread (booted ev r w) = False"
  "renameFromThread (booted ev r w) = False"
  by (simp_all add: booted_def Let_def init_counters_def new_FileSystem_def)

lemma booted_process [simp]: "unmountFromThread (booted ev r w) = False" "dirIterators (booted ev r w) = []"
  by (simp_all add: booted_def Let_def init_counters_def new_FileSystem_def register_in_def reclaiming_def
      getNumberOfDeletedINodes_def new_Nodes_def UpdateUsedINodes_def modINode_def)

lemma fs_wf_booted [simp]: "fs_wf (booted ev r w)"
proof -
  let ?s0 = "init_counters (new_FileSystem r w)"
  have "f_ffree (m_stbuf (booted ev r w)) = f_files (m_stbuf (booted ev r w)) - 2 \<and>
      f_favail (m_stbuf (booted ev r w)) = f_files (m_stbuf (booted ev r w)) - 2"
    by (simp add: booted_def Let_def register_in_def reclaiming_def getNumberOfDeletedINodes_def
        init_counters_def new_FileSystem_def new_Nodes_def UpdateUsedINodes_def)
  moreover have "nodes_wf (INodeManager (booted ev r w))"
    by (simp add: booted_nodes nodes_wf_def node_wf_def fresh_root_def new_Directory_def dir_ok_def
        setDirName_def less_Suc_eq numeral_2_eq_2)
  ultimately show ?thesis by (simp add: fs_wf_def)
qed

lemma next_ino_booted [simp]: "next_ino (booted ev r w) = 2"
  by (simp add: next_ino_def not_reclaiming)

lemma is_dir_booted [simp]:
  "is_dir (booted ev r w) 1 \<lparr>dir_name = ''/'', parentDir = parentDir new_Directory, m_children = []\<rparr>"
  by (simp add: is_dir_def fresh_root_def new_Directory_def setDirName_def)

text \<open>
  \<open>FuseInit\<close> on a fresh \<open>FileSystem\<close> leaves exactly two inodes, the reserved number 0 and the
  root directory 1, which is empty, is called \<open>/\<close> and has three links, and a state that satisfies
  the invariant of all handlers.
\<close>

theorem FuseInit_creates_root:
  "\<exists>s. FuseInit ev (new_FileSystem r w) = Inr s \<and> fs_wf s \<and> n_inodes s = 2 \<and>
     as_SpecialINode (inode_at s 0) = Some SPECIAL_INODE_TYPE_NO_BLOCK \<and>
     is_dir s 1 \<lparr>dir_name = ''/'', parentDir = None, m_children = []\<rparr> \<and>
     st_nlink (attr (inode_at s 1)) = 3 \<and> st_mode (attr (inode_at s 1)) = S_IFDIR OR mode_0777 \<and>
     (\<forall>name. child_of s 1 name = -1) \<and>
     f_ffree (m_stbuf s) = kTotalInodes - 2 \<and> replies s = [] \<and> sends s = []"
proof (intro exI conjI)
  show "FuseInit ev (new_FileSystem r w) = Inr (booted ev r w)" by (rule FuseInit_eq)
  show "as_SpecialINode (inode_at (booted ev r w) 0) = Some SPECIAL_INODE_TYPE_NO_BLOCK"
    by (simp add: inode_at_def booted_nodes as_SpecialINode_def)
  show "is_dir (booted ev r w) 1 \<lparr>dir_name = ''/'', parentDir = None, m_children = []\<rparr>"
    using is_dir_booted [of ev r w] by (simp add: new_Directory_def)
  show "\<forall>name. child_of (booted ev r w) 1 name = -1"
    by (simp add: child_of_def fresh_root_def new_Directory_def setDirName_def
        ChildINodeNumberWithName_def)
  show "f_ffree (m_stbuf (booted ev r w)) = kTotalInodes - 2"
    by (simp add: booted_def Let_def register_in_def reclaiming_def getNumberOfDeletedINodes_def
        init_counters_def new_FileSystem_def new_Nodes_def UpdateUsedINodes_def)
qed (simp_all add: fresh_root_def)

section \<open>A concrete file system\<close>

definition demo_env :: env where
  "demo_env = \<lparr>env_now = (7, 0), ctx_uid = 1000, ctx_gid = 100, proc_uid = 0, proc_gid = 0,
     alloc_ok = True\<rparr>"

definition demo_fs :: fs_state where
  "demo_fs = booted demo_env 0 2"

lemma demo_fs_facts [simp]:
  "fs_wf demo_fs" "n_inodes demo_fs = 2" "DeletedINodes (INodeManager demo_fs) = []"
  "is_dir demo_fs 1 \<lparr>dir_name = ''/'', parentDir = parentDir new_Directory, m_children = []\<rparr>"
  by (simp_all add: demo_fs_def)

text \<open>A tree with a directory \<open>/d/\<close> (inode 2) and a file \<open>/f\<close> (inode 3), each referenced once.\<close>

definition demo_root :: inode where
  "demo_root = set_Directory (\<lambda>d. d\<lparr>m_children := [(''d'', 2), (''f'', 3)]\<rparr>) (fresh_root demo_env)"

definition demo_dir :: inode where
  "demo_dir = Lookup (set_Directory (\<lambda>d. setDirName ''/d/'' (setParent 1 d))
     (registered_inode demo_env DIRECTORY 2 (S_IFDIR OR mode_0777) 2 0 0))"

definition demo_file :: inode where
  "demo_file = Lookup (registered_inode demo_env REGULAR_FILE 3 (S_IFREG OR mode_0777) 1 100 1000)"

definition demo_tree :: fs_state where
  "demo_tree = demo_fs
     \<lparr>INodeManager := \<lparr>INodes = [registered_inode demo_env SPECIAL_INODE_TYPE_NO_BLOCK 0 mode_0777 0 0 0,
        demo_root, demo_dir, demo_file], DeletedINodes = []\<rparr>,
      BlocksManager := [(3, [])],
      m_stbuf := (m_stbuf demo_fs)\<lparr>f_ffree := f_files (m_stbuf demo_fs) - 4,
        f_favail := f_files (m_stbuf demo_fs) - 4\<rparr>\<rparr>"

lemma demo_tree_nodes [simp]:
  "n_inodes demo_tree = 4" "DeletedINodes (INodeManager demo_tree) = []"
  "inode_at demo_tree 1 = demo_root" "inode_at demo_tree 2 = demo_dir"
  "inode_at demo_tree 3 = demo_file"
  "replies demo_tree = []" "sends demo_tree = []"
  "deleteFileFromThread demo_tree = False" "deleteDirFromThread demo_tree = False"
  by (simp_all add: demo_tree_def n_inodes_def inode_at_def demo_fs_def)

lemma demo_tree_classes [simp]:
  "node_class demo_root = Directory \<lparr>dir_name = ''/'', parentDir = None,
     m_children = [(''d'', 2), (''f'', 3)]\<rparr>"
  "node_class demo_dir = Directory \<lparr>dir_name = ''/d/'', parentDir = Some 1, m_children = []\<rparr>"
  "node_class demo_file = File \<lparr>m_buf = None, isWaitingForDistributedWrite = False\<rparr>"
  "st_nlink (attr demo_root) = 3" "st_nlink (attr demo_dir) = 2" "st_nlink (attr demo_file) = 1"
  "m_nlookup demo_file = 1"
  by (simp_all add: demo_root_def demo_dir_def demo_file_def fresh_root_def new_Directory_def
      setDirName_def setParent_def new_File_def)

lemma fs_wf_demo_tree [simp]: "fs_wf demo_tree"
proof -
  have "nodes_wf (INodeManager demo_tree)"
    by (simp add: demo_tree_def nodes_wf_def node_wf_def demo_root_def demo_dir_def demo_file_def
        fresh_root_def new_Directory_def dir_ok_def map_ok_def setDirName_def setParent_def
        All_less_Suc2)
  then show ?thesis by (simp add: fs_wf_def) (simp add: demo_tree_def)
qed

end
