(* ===== verification/DistSpec.thy ===== *)
theory DistSpec
  imports DistIO FsBoot
begin

text \<open>
  What the distributed operations promise: after a write every process knows the same addresses
  and holds its chunk of the blocks, and a read of the same number of blocks, from any process,
  returns the bytes that were written.
\<close>

section \<open>Storing and fetching blocks\<close>

lemma store_blocks_eq:
  "\<forall>d\<in>set ds. length d = e \<Longrightarrow>
     store_blocks e h (length ds) (concat ds) =
       (h @ ds, map Suc [length h..<length h + length ds])"
proof (induction ds arbitrary: h)
  case (Cons d ds)
  then show ?case
    using Cons.IH [of "h @ [d]"] by (simp add: heap_alloc_def upt_conv_Cons del: upt_Suc)
qed simp

lemma fetch_new_blocks:
  assumes "\<forall>d\<in>set ds. length d = e"
  shows "fetch_blocks e (h @ ds) (map Suc [length h..<length h + length ds]) = Inr (concat ds)"
proof -
  have len: "length ds = length [length h..<length h + length ds]" by simp
  have "mapE (\<lambda>a. heap_read (h @ ds) a e)
      (map Suc [length h..<length h + length ds]) =
      Inr (map (\<lambda>a. ds ! (a - Suc (length h))) (map Suc [length h..<length h + length ds]))"
  proof (rule mapE_Inr)
    fix a assume "a \<in> set (map Suc [length h..<length h + length ds])"
    then have "a \<in> Suc ` {length h..<length h + length ds}" by (simp only: set_map set_upt)
    then obtain b where b: "length h \<le> b" "b < length h + length ds" "a = Suc b"
      by (elim imageE) simp
    define i where "i = b - length h"
    have i: "i < length ds" "a = Suc (length h + i)" using b by (simp_all add: i_def)
    then show "heap_read (h @ ds) a e = Inr (ds ! (a - Suc (length h)))"
      using assms heap_read_new [of i ds e h] by simp
  qed
  moreover have "map (\<lambda>a. ds ! (a - Suc (length h))) (map Suc [length h..<length h + length ds]) = ds"
    by (rule nth_equalityI) simp_all
  ultimately show ?thesis by (simp add: fetch_blocks_def)
qed

lemma fetch_old_blocks:
  assumes "fetch_blocks e h as = Inr b"
  shows "fetch_blocks e (h @ h') as = Inr b"
proof -
  obtain bs where bs: "mapE (\<lambda>a. heap_read h a e) as = Inr bs" "b = concat bs"
    using assms by (auto simp: fetch_blocks_def)
  have "mapE (\<lambda>a. heap_read (h @ h') a e) as = Inr bs"
    using bs(1) by (induction as arbitrary: bs) (auto dest: heap_read_old)
  with bs(2) show ?thesis by (simp add: fetch_blocks_def)
qed

lemma heap_read_length: "heap_read h a n = Inr b \<Longrightarrow> length b = n"
  by (auto simp: heap_read_def split: if_splits)

lemma length_fetch_blocks:
  "fetch_blocks e h as = Inr b \<Longrightarrow> length b = length as * e"
proof -
  assume "fetch_blocks e h as = Inr b"
  then obtain bs where bs: "mapE (\<lambda>a. heap_read h a e) as = Inr bs" "b = concat bs"
    by (auto simp: fetch_blocks_def)
  have "length bs = length as" by (rule mapE_length [OF bs(1)])
  moreover have "\<forall>x\<in>set bs. length x = e"
    using mapE_nth [OF bs(1)] mapE_length [OF bs(1)]
    by (metis heap_read_length in_set_conv_nth)
  ultimately show ?thesis
    using length_concat_width bs(2) by (metis mult.commute)
qed

section \<open>Installing the addresses\<close>

lemma set_addresses_eq:
  "i + length as \<le> length bl \<Longrightarrow> set_addresses bl i as =
     Inr (take i bl @ map2 setData (take (length as) (drop i bl)) as @ drop (i + length as) bl)"
proof (induction as arbitrary: i bl)
  case (Cons a as)
  let ?bl = "bl[i := setData (bl ! i) a]"
  have i: "i < length bl" using Cons.prems by simp
  have parts: "take (Suc i) ?bl = take i bl @ [setData (bl ! i) a]"
    "drop (Suc i) ?bl = drop (Suc i) bl" "drop (Suc i + length as) ?bl = drop (Suc i + length as) bl"
    "drop i bl = bl ! i # drop (Suc i) bl"
    using i by (simp_all add: take_Suc_conv_app_nth Cons_nth_drop_Suc)
  have "set_addresses bl i (a # as) = set_addresses ?bl (Suc i) as"
    using i by simp
  also have "\<dots> = Inr (take (Suc i) ?bl @ map2 setData (take (length as) (drop (Suc i) ?bl)) as @
      drop (Suc i + length as) ?bl)"
    using Cons.prems by (intro Cons.IH) simp
  finally show ?case
    unfolding parts by simp
qed simp

lemma addDataBlocks_loop_prefix:
  "length (addDataBlocks_loop e k i r w ino bl) = length bl + k \<and>
   take (length bl) (addDataBlocks_loop e k i r w ino bl) = bl"
proof (induction k arbitrary: i r bl)
  case (Suc k)
  let ?bl = "bl @ [(new_DataBlock ino)\<lparr>processRank := of_nat r, progressiveNumber := of_nat i,
    absoluteBytes := of_nat (i * e)\<rparr>]"
  let ?X = "addDataBlocks_loop e k (Suc i) (if Suc r = w then 0 else Suc r) w ino ?bl"
  have IH: "length ?X = Suc (length bl) + k" "take (Suc (length bl)) ?X = ?bl"
    using Suc.IH [where bl = ?bl and i = "Suc i" and r = "if Suc r = w then 0 else Suc r"] by simp_all
  have "take (length bl) ?X = take (length bl) (take (Suc (length bl)) ?X)" by (simp add: min_def)
  also have "\<dots> = bl" unfolding IH(2) by simp
  finally show ?case using IH(1) by (simp add: Let_def)
qed simp

lemma length_addDataBlocksTo: "0 \<le> k \<Longrightarrow> length (addDataBlocksTo e w bl k ino src) = length bl + nat k"
  using addDataBlocks_loop_prefix by (simp add: addDataBlocksTo_def Let_def)

text \<open>The block list after the addresses are installed.\<close>

definition grown_list :: "nat \<Rightarrow> nat \<Rightarrow> nat \<Rightarrow> fuse_ino_t \<Rightarrow> nat \<Rightarrow> data_block list \<Rightarrow> data_block list" where
  "grown_list e w src ino n bl =
     (if length bl < n then addDataBlocksTo e w bl (int n - int (length bl)) ino src else bl)"

definition installed_list ::
  "nat \<Rightarrow> nat \<Rightarrow> nat \<Rightarrow> fuse_ino_t \<Rightarrow> addr list \<Rightarrow> data_block list \<Rightarrow> data_block list" where
  "installed_list e w src ino as bl =
     (let g = grown_list e w src ino (length as) bl
      in map2 setData (take (length as) g) as @ drop (length as) g)"

lemma length_grown_list [simp]: "length (grown_list e w src ino n bl) = max (length bl) n"
  by (simp add: grown_list_def length_addDataBlocksTo) linarith

lemma length_installed_list [simp]:
  "length (installed_list e w src ino as bl) = max (length bl) (length as)"
  by (simp add: installed_list_def Let_def)

lemma installed_addresses:
  "take (length as) (map dataBlockAddress (installed_list e w src ino as bl)) = as"
  by (rule nth_equalityI) (simp_all add: installed_list_def Let_def nth_append setData_def)

definition installed ::
  "nat \<Rightarrow> nat \<Rightarrow> nat \<Rightarrow> fuse_ino_t \<Rightarrow> u64 \<Rightarrow> addr list \<Rightarrow> fs_state \<Rightarrow> fs_state" where
  "installed w rank src ino fileSize as s =
     (let stored = installed_list FILE_SYSTEM_SINGLE_BLOCK_SIZE w src ino as (block_list (BlocksManager s) ino);
          s1 = s\<lparr>BlocksManager := map_assign (fst (getDataBlockListOfInode (BlocksManager s) ino)) ino stored\<rparr>
      in if rank \<noteq> src
         then modINode ino (set_attr (\<lambda>a. a\<lparr>st_size := fileSize, st_blocks := of_nat (length stored)\<rparr>)) s1
         else s1)"

lemma install_addresses_eq:
  assumes "length as < 2 ^ 31" and "length (block_list (BlocksManager s) ino) < 2 ^ 31"
    and "rank \<noteq> src \<longrightarrow> unat ino < n_inodes s"
  shows "install_addresses w rank src ino fileSize as s = Inr (installed w rank src ino fileSize as s)"
proof -
  obtain bm bl where get: "getDataBlockListOfInode (BlocksManager s) ino = (bm, bl)" by force
  then have bl: "bl = block_list (BlocksManager s) ino"
    using getDataBlockListOfInode_block_list by blast
  let ?k = "int (length as) - int (length bl)"
  have "to_int ?k = ?k"
    using assms(1,2) bl by (simp add: to_int_def signed_take_bit_int_eq_self)
  then have grown: "(if 0 < to_int ?k then addDataBlocksTo FILE_SYSTEM_SINGLE_BLOCK_SIZE w bl (to_int ?k) ino src else bl) =
      grown_list FILE_SYSTEM_SINGLE_BLOCK_SIZE w src ino (length as) bl"
    by (simp add: grown_list_def)
  have "set_addresses (grown_list FILE_SYSTEM_SINGLE_BLOCK_SIZE w src ino (length as) bl) 0 as =
      Inr (installed_list FILE_SYSTEM_SINGLE_BLOCK_SIZE w src ino as bl)"
    using set_addresses_eq [of 0 as "grown_list FILE_SYSTEM_SINGLE_BLOCK_SIZE w src ino (length as) bl"]
    by (simp add: installed_list_def Let_def)
  then show ?thesis
    using assms(3) unfolding install_addresses_def get
    by (simp add: grown Let_def installed_def bl [symmetric] get getINode_total)
qed

section \<open>The distributed write\<close>

lemma length_mod_fs [simp]: "length (mod_fs r g W) = length W"
  by (simp add: mod_fs_def)

lemma peer_fs_mod_fs:
  "r < length W \<Longrightarrow> peer_fs (mod_fs r g W ! k) = (if k = r then g (peer_fs (W ! r)) else peer_fs (W ! k))"
  by (simp add: mod_fs_def nth_list_update)

lemma peer_heap_mod_fs: "peer_heap (mod_fs r g W ! k) = peer_heap (W ! k)"
  by (cases "k = r"; cases "r < length W") (simp_all add: mod_fs_def list_update_beyond)

text \<open>The addresses every process learns, and the world after the write.\<close>

definition chunk_addresses :: "'a list list \<Rightarrow> world \<Rightarrow> nat \<Rightarrow> addr list" where
  "chunk_addresses chunks W r =
     map Suc [length (peer_heap (W ! r))..<length (peer_heap (W ! r)) + length (chunks ! r)]"

definition written_addresses :: "cell list list \<Rightarrow> world \<Rightarrow> addr list" where
  "written_addresses ds W =
     concat (map (chunk_addresses (rank_chunks (length ds) (length W) ds) W) [0..<length W])"

definition write_request :: "nat \<Rightarrow> fuse_ino_t \<Rightarrow> u64 \<Rightarrow> world \<Rightarrow> world" where
  "write_request src ino fileSize W =
     mod_fs src (sending (send_io_request src (length W)
       \<lparr>io_inode = ino, io_fileSize = fileSize, io_reqSize = None, io_offset = None\<rparr>)) W"

definition written :: "nat \<Rightarrow> fuse_ino_t \<Rightarrow> u64 \<Rightarrow> cell list list \<Rightarrow> world \<Rightarrow> world" where
  "written src ino fileSize ds W =
     map (\<lambda>r. \<lparr>peer_fs = installed (length W) r src ino fileSize (written_addresses ds W)
                (peer_fs (write_request src ino fileSize W ! r)),
              peer_heap = peer_heap (W ! r) @ rank_chunks (length ds) (length W) ds ! r\<rparr>) [0..<length W]"

definition block_addresses :: "peer \<Rightarrow> fuse_ino_t \<Rightarrow> addr list" where
  "block_addresses p ino = map dataBlockAddress (block_list (BlocksManager (peer_fs p)) ino)"

text \<open>Every process knows the inode and its block list is not too long for an \<open>int\<close>.\<close>

definition world_ready :: "fuse_ino_t \<Rightarrow> world \<Rightarrow> bool" where
  "world_ready ino W \<longleftrightarrow>
     (\<forall>p\<in>set W. unat ino < n_inodes (peer_fs p) \<and>
        length (block_list (BlocksManager (peer_fs p)) ino) < 2 ^ 31)"

lemma length_written_addresses:
  assumes "W \<noteq> []"
  shows "length (written_addresses ds W) = length ds"
proof -
  let ?c = "rank_chunks (length ds) (length W) ds"
  have "length (written_addresses ds W) = sum_list (map length (map (\<lambda>r. ?c ! r) [0..<length W]))"
    by (simp add: written_addresses_def length_concat chunk_addresses_def comp_def)
  also have "map (\<lambda>r. ?c ! r) [0..<length W] = ?c"
    by (rule nth_equalityI) simp_all
  also have "sum_list (map length ?c) = length (concat ?c)" by (simp add: length_concat)
  finally show ?thesis using assms by (simp add: concat_rank_chunks)
qed

lemma length_chunk_addresses:
  "r < length W \<Longrightarrow> length ds = n \<Longrightarrow>
     length (chunk_addresses (rank_chunks n (length W) ds) W r) = effectiveBlocks n (length W) r"
  by (simp add: chunk_addresses_def length_rank_chunk)

lemma load_ptrs_store:
  "n = length as \<Longrightarrow> load_ptrs n (store_ptrs as) = Inr as"
  by (simp add: load_store_ptrs)

lemma blocks_fit_pointers:
  "n * FILE_SYSTEM_SINGLE_BLOCK_SIZE < 2 ^ 31 \<Longrightarrow> n * sizeof_PointerPacket < 2 ^ 31"
  by (simp add: FILE_SYSTEM_SINGLE_BLOCK_SIZE_def sizeof_PointerPacket_def)

lemma DAGonFS_Write_eq:
  assumes doc: "mpi_documented m" and n: "numberOfBlocks fileSize = n"
    and small: "n * FILE_SYSTEM_SINGLE_BLOCK_SIZE < 2 ^ 31"
    and src: "src < length W" and buf: "n * FILE_SYSTEM_SINGLE_BLOCK_SIZE \<le> length b"
    and ready: "world_ready ino W"
  defines "ds \<equiv> pieces FILE_SYSTEM_SINGLE_BLOCK_SIZE n b"
  shows "DAGonFS_Write m src (Some b) ino fileSize W = Inr (written src ino fileSize ds W)"
proof -
  let ?w = "length W" and ?e = FILE_SYSTEM_SINGLE_BLOCK_SIZE
  let ?c = "rank_chunks n ?w ds"
  let ?W0 = "write_request src ino fileSize W"
  let ?addrs = "chunk_addresses ?c W"
  have ds: "length ds = n" "\<forall>d\<in>set ds. length d = ?e"
    using buf by (simp_all add: ds_def pieces_width)
  have split: "b = concat ds @ drop (n * ?e) b"
    by (simp add: ds_def concat_pieces)
  have scat: "MPI_Scatterv m b (countsFor ?e n ?w) (displsFor ?e n ?w) src = Inr (map concat ?c)"
    by (subst split) (rule scatterv_chunks [OF doc small src ds])
  have stored: "store_blocks FILE_SYSTEM_SINGLE_BLOCK_SIZE (peer_heap (?W0 ! r)) (effectiveBlocks n ?w r) (concat (?c ! r)) =
      (peer_heap (W ! r) @ ?c ! r, ?addrs r)" if "r < ?w" for r
  proof -
    have "\<forall>d\<in>set (?c ! r). length d = ?e"
      using ds(2) that by (auto simp: nth_rank_chunks dest: in_set_takeD in_set_dropD)
    then show ?thesis
      using store_blocks_eq [of "?c ! r" ?e "peer_heap (W ! r)"] that ds(1)
      by (simp add: length_rank_chunk chunk_addresses_def write_request_def peer_heap_mod_fs)
  qed
  have sent: "map (\<lambda>(_, as). store_ptrs as) (map (\<lambda>r. store_blocks FILE_SYSTEM_SINGLE_BLOCK_SIZE (peer_heap (?W0 ! r))
      (effectiveBlocks n ?w r) (map concat ?c ! r)) [0..<?w]) = map (store_ptrs \<circ> ?addrs) [0..<?w]"
    by (rule nth_equalityI) (simp_all add: stored)
  have all: "MPI_Allgatherv m (map (store_ptrs \<circ> ?addrs) [0..<?w]) (countsFor sizeof_PointerPacket n ?w)
      (displsFor sizeof_PointerPacket n ?w) (replicate ?w (replicate (n * sizeof_PointerPacket) Indet)) =
      Inr (replicate ?w (store_ptrs (written_addresses ds W)))"
  proof -
    have "MPI_Allgatherv m (map (store_ptrs \<circ> ?addrs) [0..<?w]) (countsFor sizeof_PointerPacket n ?w)
        (displsFor sizeof_PointerPacket n ?w) (replicate ?w (replicate (n * sizeof_PointerPacket) Indet)) =
        Inr (replicate ?w (concat (map (store_ptrs \<circ> ?addrs) [0..<?w])))"
      using src ds(1) length_chunk_addresses
      by (intro allgatherv_concat [OF doc blocks_fit_pointers [OF small]]) (auto simp: mult.commute)
    moreover have "concat (map (store_ptrs \<circ> ?addrs) rs) = store_ptrs (concat (map ?addrs rs))" for rs
      by (induction rs) (simp_all add: store_ptrs_append, simp add: store_ptrs_def)
    ultimately show ?thesis by (simp add: written_addresses_def ds(1))
  qed
  have len: "length (written_addresses ds W) = n"
    using length_written_addresses [of W ds] src ds(1) by force
  have "n \<le> n * ?e" by (simp add: FILE_SYSTEM_SINGLE_BLOCK_SIZE_def)
  then have "n < 2 ^ 31" using small by linarith
  have inst: "install_addresses ?w r src ino fileSize (written_addresses ds W) (peer_fs (?W0 ! r)) =
      Inr (installed ?w r src ino fileSize (written_addresses ds W) (peer_fs (?W0 ! r)))"
    if "r < ?w" for r
    using ready that src \<open>n < 2 ^ 31\<close> len
    by (intro install_addresses_eq) (auto simp: world_ready_def write_request_def peer_fs_mod_fs)
  have load: "load_ptrs n (store_ptrs (written_addresses ds W)) = Inr (written_addresses ds W)"
    by (rule load_ptrs_store) (simp add: len)
  show ?thesis
    unfolding DAGonFS_Write_def Let_def write_request_def [symmetric] n buffer_cells_def option.case
      scat andThen.simps sent all
    by (subst mapE_Inr [where g = "\<lambda>r. \<lparr>peer_fs = installed ?w r src ino fileSize
          (written_addresses ds W) (peer_fs (?W0 ! r)), peer_heap = peer_heap (W ! r) @ ?c ! r\<rparr>"])
      (simp_all add: load inst stored written_def ds(1) andThen.simps del: andThen_Inr_iff)
qed

section \<open>What a stored file is\<close>

text \<open>
  All processes know the same addresses for the first blocks of the inode, and each process can
  read, at the addresses of its chunk, the contents of that chunk.
\<close>

definition file_stored :: "world \<Rightarrow> fuse_ino_t \<Rightarrow> cell list list \<Rightarrow> bool" where
  "file_stored W ino ds \<longleftrightarrow> W \<noteq> [] \<and>
     (\<exists>as. length as = length ds \<and>
        (\<forall>r<length W. take (length ds) (block_addresses (W ! r) ino) = as) \<and>
        (\<forall>r<length W. fetch_blocks FILE_SYSTEM_SINGLE_BLOCK_SIZE (peer_heap (W ! r)) (rank_chunks (length ds) (length W) as ! r) =
           Inr (concat (rank_chunks (length ds) (length W) ds ! r))))"

lemma block_list_installed:
  "block_list (BlocksManager (installed w r src ino fileSize as s)) j =
     (if j = ino then installed_list FILE_SYSTEM_SINGLE_BLOCK_SIZE w src ino as (block_list (BlocksManager s) ino)
      else block_list (BlocksManager s) j)"
proof -
  have "block_list (fst (getDataBlockListOfInode (BlocksManager s) ino)) j =
      block_list (BlocksManager s) j"
    using getDataBlockListOfInode_block_list [of "BlocksManager s" ino] by (metis prod.collapse)
  then show ?thesis by (simp add: installed_def Let_def block_list_assign)
qed

lemma BlocksManager_write_request [simp]:
  "src < length W \<Longrightarrow> BlocksManager (peer_fs (write_request src ino fileSize W ! r)) =
     BlocksManager (peer_fs (W ! r))"
  by (simp add: write_request_def peer_fs_mod_fs)

lemma length_written [simp]: "length (written src ino fileSize ds W) = length W"
  by (simp add: written_def)

lemma written_Nil [simp]: "written src ino fileSize ds W = [] \<longleftrightarrow> W = []"
  by (simp add: written_def)

lemma written_heap:
  "r < length W \<Longrightarrow> peer_heap (written src ino fileSize ds W ! r) =
     peer_heap (W ! r) @ rank_chunks (length ds) (length W) ds ! r"
  by (simp add: written_def)

lemma inode_at_written:
  assumes "src < length W" and "r < length W" and "unat ino < n_inodes (peer_fs (W ! r))"
    and "length (written_addresses ds W) = length ds"
  shows "inode_at (peer_fs (written src ino fileSize ds W ! r)) j =
    (if j = ino \<and> r \<noteq> src
     then set_attr (\<lambda>a. a\<lparr>st_size := fileSize, st_blocks := of_nat
            (max (length (block_list (BlocksManager (peer_fs (W ! r))) ino)) (length ds))\<rparr>)
            (inode_at (peer_fs (W ! r)) j)
     else inode_at (peer_fs (W ! r)) j)"
proof -
  have "inode_at (peer_fs (write_request src ino fileSize W ! k)) = inode_at (peer_fs (W ! k))"
    "n_inodes (peer_fs (write_request src ino fileSize W ! k)) = n_inodes (peer_fs (W ! k))" for k
    using assms(1) by (simp_all add: write_request_def peer_fs_mod_fs)
  with assms show ?thesis
    by (simp add: written_def installed_def Let_def inode_at_modINode)
qed

lemma written_frame:
  assumes "src < length W" and "r < length W"
  shows "n_inodes (peer_fs (written src ino fileSize ds W ! r)) = n_inodes (peer_fs (W ! r))"
    and "replies (peer_fs (written src ino fileSize ds W ! r)) = replies (peer_fs (W ! r))"
    and "mpiWorldSize (peer_fs (written src ino fileSize ds W ! r)) = mpiWorldSize (peer_fs (W ! r))"
  using assms by (simp_all add: written_def installed_def Let_def write_request_def peer_fs_mod_fs)

lemma rank_chunks_written:
  "r < length W \<Longrightarrow> rank_chunks (length ds) (length W) (written_addresses ds W) ! r =
     chunk_addresses (rank_chunks (length ds) (length W) ds) W r"
proof -
  let ?c = "map (chunk_addresses (rank_chunks (length ds) (length W) ds) W) [0..<length W]"
  assume r: "r < length W"
  have "rank_chunks (length ds) (length W) (concat ?c) = ?c"
    by (rule rank_chunks_concat) (simp_all add: length_chunk_addresses)
  with r show ?thesis by (simp add: written_addresses_def)
qed

lemma file_stored_written:
  assumes "src < length W" and "\<forall>d\<in>set ds. length d = FILE_SYSTEM_SINGLE_BLOCK_SIZE"
  shows "file_stored (written src ino fileSize ds W) ino ds"
proof -
  have ne: "W \<noteq> []" using assms(1) by auto
  have len: "length (written_addresses ds W) = length ds" by (rule length_written_addresses [OF ne])
  have addrs: "take (length ds) (block_addresses (written src ino fileSize ds W ! r) ino) =
      written_addresses ds W" if "r < length W" for r
    using installed_addresses [of "written_addresses ds W" _ "length W" src ino] len that assms(1)
    by (simp add: block_addresses_def written_def block_list_installed)
  have fetch: "fetch_blocks FILE_SYSTEM_SINGLE_BLOCK_SIZE (peer_heap (written src ino fileSize ds W ! r))
      (rank_chunks (length ds) (length W) (written_addresses ds W) ! r) =
      Inr (concat (rank_chunks (length ds) (length W) ds ! r))" if "r < length W" for r
  proof -
    have "\<forall>d\<in>set (rank_chunks (length ds) (length W) ds ! r). length d = FILE_SYSTEM_SINGLE_BLOCK_SIZE"
      using assms(2) that by (auto simp: nth_rank_chunks dest: in_set_takeD in_set_dropD)
    then show ?thesis
      using fetch_new_blocks that
      by (simp add: rank_chunks_written chunk_addresses_def written_def)
  qed
  show ?thesis
    unfolding file_stored_def using ne len addrs fetch by auto
qed

text \<open>A write of another inode only adds blocks to the heaps and leaves the addresses alone.\<close>

lemma file_stored_other:
  assumes "file_stored W j ds'" and "j \<noteq> ino" and "src < length W"
  shows "file_stored (written src ino fileSize ds W) j ds'"
proof -
  have "block_addresses (written src ino fileSize ds W ! r) j = block_addresses (W ! r) j"
    if "r < length W" for r
    using that assms(2,3) by (simp add: block_addresses_def written_def block_list_installed)
  moreover obtain as where as: "length as = length ds'"
      "\<forall>r<length W. take (length ds') (block_addresses (W ! r) j) = as"
      "\<forall>r<length W. fetch_blocks FILE_SYSTEM_SINGLE_BLOCK_SIZE (peer_heap (W ! r)) (rank_chunks (length ds') (length W) as ! r) =
         Inr (concat (rank_chunks (length ds') (length W) ds' ! r))" and ne: "W \<noteq> []"
    using assms(1) by (auto simp: file_stored_def)
  ultimately show ?thesis
    unfolding file_stored_def by (intro conjI exI [of _ as]) (auto simp: written_heap fetch_old_blocks)
qed

section \<open>The distributed read\<close>

definition read_world :: "nat \<Rightarrow> fuse_ino_t \<Rightarrow> u64 \<Rightarrow> u64 \<Rightarrow> u64 \<Rightarrow> world \<Rightarrow> world" where
  "read_world src ino fileSize reqSize off W =
     mod_fs src (\<lambda>s. s\<lparr>BlocksManager := fst (getDataBlockListOfInode (BlocksManager s) ino)\<rparr>)
       (mod_fs src (sending (send_io_request src (length W)
          \<lparr>io_inode = ino, io_fileSize = fileSize, io_reqSize = Some reqSize, io_offset = Some off\<rparr>)) W)"

lemma scatterv_ptrs:
  assumes "mpi_documented m" and "n * sizeof_PointerPacket < 2 ^ 31" and "src < w" and "length as = n"
  shows "MPI_Scatterv m (store_ptrs as) (countsFor sizeof_PointerPacket n w) (displsFor sizeof_PointerPacket n w) src =
    Inr (map store_ptrs (rank_chunks n w as))"
proof -
  have "MPI_Scatterv m (concat (map ptr_cells as) @ []) (countsFor sizeof_PointerPacket n w)
      (displsFor sizeof_PointerPacket n w) src = Inr (map concat (rank_chunks n w (map ptr_cells as)))"
    using assms(4) by (intro scatterv_chunks [OF assms(1-3)]) auto
  moreover have "map concat (rank_chunks n w (map ptr_cells as)) = map store_ptrs (rank_chunks n w as)"
    by (simp add: rank_chunks_def store_ptrs_def take_map drop_map)
  ultimately show ?thesis by (simp add: store_ptrs_def)
qed

text \<open>
  Whatever the processes hold: the source's addresses are cut into chunks by the number of blocks
  of this request, every process copies from its own memory, and the copies are joined.
\<close>

lemma DAGonFS_Read_eq:
  assumes doc: "mpi_documented m" and src: "src < length W" and pos: "fileSize \<noteq> 0"
    and req: "reqSize \<ge> fileSize" and n: "numberOfBlocks fileSize = n"
    and small: "n * FILE_SYSTEM_SINGLE_BLOCK_SIZE < 2 ^ 31"
    and as: "n \<le> length (block_addresses (W ! src) ino)"
      "take n (block_addresses (W ! src) ino) = as"
    and fetch: "\<And>r. r < length W \<Longrightarrow>
      fetch_blocks FILE_SYSTEM_SINGLE_BLOCK_SIZE (peer_heap (W ! r)) (rank_chunks n (length W) as ! r) = Inr (bs ! r)"
    and bs: "length bs = length W"
  shows "DAGonFS_Read m True src ino fileSize reqSize off W =
    Inr (read_world src ino fileSize reqSize off W, Some (concat bs))"
proof -
  let ?w = "length W" and ?e = FILE_SYSTEM_SINGLE_BLOCK_SIZE
  let ?W0 = "mod_fs src (sending (send_io_request src ?w
    \<lparr>io_inode = ino, io_fileSize = fileSize, io_reqSize = Some reqSize, io_offset = Some off\<rparr>)) W"
  let ?s = "peer_fs (W ! src)"
  have n': "(if reqSize > fileSize then numberOfBlocks fileSize else numberOfBlocks reqSize) = n"
    using req n by (cases "reqSize = fileSize") auto
  obtain bm bl where get: "getDataBlockListOfInode (BlocksManager ?s) ino = (bm, bl)" by force
  then have bl: "bl = block_list (BlocksManager ?s) ino"
    using getDataBlockListOfInode_block_list by blast
  have get0: "getDataBlockListOfInode (BlocksManager (peer_fs (?W0 ! src))) ino = (bm, bl)"
    using src get by (simp add: peer_fs_mod_fs)
  have W1: "mod_fs src (\<lambda>s. s\<lparr>BlocksManager := bm\<rparr>) ?W0 = read_world src ino fileSize reqSize off W"
    using src get by (simp add: read_world_def mod_fs_def)
  have addrs: "addresses_to_scatter n bl = Inr as"
    using as by (simp add: addresses_to_scatter_def block_addresses_def bl take_map)
  have las: "length as = n" using as by auto
  have scat: "MPI_Scatterv m (store_ptrs as) (countsFor sizeof_PointerPacket n ?w)
      (displsFor sizeof_PointerPacket n ?w) src = Inr (map store_ptrs (rank_chunks n ?w as))"
    by (rule scatterv_ptrs [OF doc blocks_fit_pointers [OF small] src las])
  have local: "mapE (\<lambda>r. andThen (load_ptrs (effectiveBlocks n ?w r) (map store_ptrs (rank_chunks n ?w as) ! r))
      (\<lambda>as. fetch_blocks FILE_SYSTEM_SINGLE_BLOCK_SIZE (peer_heap (read_world src ino fileSize reqSize off W ! r)) as)) [0..<?w] = Inr bs"
  proof -
    have heap: "peer_heap (read_world src ino fileSize reqSize off W ! r) = peer_heap (W ! r)" for r
      by (simp add: read_world_def peer_heap_mod_fs)
    have "andThen (load_ptrs (effectiveBlocks n ?w r) (map store_ptrs (rank_chunks n ?w as) ! r))
        (\<lambda>as. fetch_blocks FILE_SYSTEM_SINGLE_BLOCK_SIZE (peer_heap (read_world src ino fileSize reqSize off W ! r)) as) = Inr (bs ! r)"
      if "r < ?w" for r
    proof -
      have "load_ptrs (effectiveBlocks n ?w r) (store_ptrs (rank_chunks n ?w as ! r)) =
          Inr (rank_chunks n ?w as ! r)"
        using that las by (intro load_ptrs_store) (simp add: length_rank_chunk)
      then show ?thesis using fetch [OF that] that by (simp add: heap)
    qed
    then have "mapE (\<lambda>r. andThen (load_ptrs (effectiveBlocks n ?w r) (map store_ptrs (rank_chunks n ?w as) ! r))
        (\<lambda>as. fetch_blocks FILE_SYSTEM_SINGLE_BLOCK_SIZE (peer_heap (read_world src ino fileSize reqSize off W ! r)) as)) [0..<?w] =
        Inr (map (\<lambda>r. bs ! r) [0..<?w])"
      by (intro mapE_Inr) simp
    also have "map (\<lambda>r. bs ! r) [0..<?w] = bs" by (simp add: bs [symmetric] map_nth)
    finally show ?thesis .
  qed
  have sizes: "length (bs ! r) = effectiveBlocks n ?w r * ?e" if "r < ?w" for r
    using length_fetch_blocks [OF fetch [OF that]] that las by (simp add: length_rank_chunk)
  have gat: "MPI_Gatherv m bs (countsFor ?e n ?w) (displsFor ?e n ?w) (replicate (n * ?e) Indet) src =
      Inr (concat bs)"
    by (rule gatherv_concat [OF doc small src _ bs sizes]) simp_all
  show ?thesis
    unfolding DAGonFS_Read_def Let_def n' get0 prod.case W1 addrs andThen.simps scat local gat
    using pos by simp
qed

lemma concat_map_concat: "concat (map concat xss) = concat (concat xss)"
  by (induction xss) simp_all

lemma DAGonFS_Read_stored:
  assumes "mpi_documented m" and "src < length W" and "fileSize \<noteq> 0" and "reqSize \<ge> fileSize"
    and "numberOfBlocks fileSize = length ds"
    and "length ds * FILE_SYSTEM_SINGLE_BLOCK_SIZE < 2 ^ 31"
    and "file_stored W ino ds"
  shows "DAGonFS_Read m True src ino fileSize reqSize off W =
    Inr (read_world src ino fileSize reqSize off W, Some (concat ds))"
proof -
  let ?w = "length W"
  obtain as where as: "length as = length ds"
      "\<forall>r<?w. take (length ds) (block_addresses (W ! r) ino) = as"
      "\<forall>r<?w. fetch_blocks FILE_SYSTEM_SINGLE_BLOCK_SIZE (peer_heap (W ! r)) (rank_chunks (length ds) ?w as ! r) =
         Inr (concat (rank_chunks (length ds) ?w ds ! r))"
    using assms(7) by (auto simp: file_stored_def)
  have "concat (map concat (rank_chunks (length ds) ?w ds)) = concat (concat (rank_chunks (length ds) ?w ds))"
    by (rule concat_map_concat)
  also have "\<dots> = concat ds" using assms(2) by (subst concat_rank_chunks) auto
  finally have joined: "concat (map concat (rank_chunks (length ds) ?w ds)) = concat ds" .
  have "length ds \<le> length (block_addresses (W ! src) ino)"
    using as(1,2) assms(2) by (metis length_take min.cobounded1)
  then show ?thesis
    using DAGonFS_Read_eq [OF assms(1-6), of ino as "map concat (rank_chunks (length ds) ?w ds)" off]
      as assms(2) joined by simp
qed

end
