(* ===== verification/DistProps.thy ===== *)
theory DistProps
  imports DistSpec
begin

text \<open>
  The contract of the distributed file contents: a store that all processes share, in which every
  inode holds what was last written to it, whoever wrote and whoever reads. The contract is the
  locale \<open>replicated_store\<close>; \<open>DAGonFS_Write\<close> interprets it.
\<close>

section \<open>The contract\<close>

text \<open>The value of the last write to a key, or the value from before.\<close>

definition last_value :: "('r \<times> 'k \<times> 'v) list \<Rightarrow> ('k \<Rightarrow> 'v option) \<Rightarrow> 'k \<Rightarrow> 'v option" where
  "last_value ops m = foldl (\<lambda>m (r, k, v). m(k \<mapsto> v)) m ops"

locale replicated_store =
  fixes member :: "'r \<Rightarrow> 'w \<Rightarrow> bool"            \<comment> \<open>who may write\<close>
    and usable :: "'k \<Rightarrow> 'w \<Rightarrow> bool"            \<comment> \<open>the key can be written\<close>
    and fits :: "'v \<Rightarrow> bool"                    \<comment> \<open>the value can be written\<close>
    and store :: "'r \<Rightarrow> 'k \<Rightarrow> 'v \<Rightarrow> 'w \<Rightarrow> 'w exec"
    and holds :: "'w \<Rightarrow> 'k \<Rightarrow> 'v \<Rightarrow> bool"
  assumes write_total: "member r w \<Longrightarrow> usable k w \<Longrightarrow> fits v \<Longrightarrow> \<exists>w'. store r k v w = Inr w'"
    and write_holds: "member r w \<Longrightarrow> usable k w \<Longrightarrow> fits v \<Longrightarrow> store r k v w = Inr w' \<Longrightarrow> holds w' k v"
    and write_keeps: "member r w \<Longrightarrow> usable k w \<Longrightarrow> fits v \<Longrightarrow> store r k v w = Inr w' \<Longrightarrow>
          j \<noteq> k \<Longrightarrow> holds w j u \<Longrightarrow> holds w' j u"
    and write_usable: "member r w \<Longrightarrow> usable k w \<Longrightarrow> fits v \<Longrightarrow> store r k v w = Inr w' \<Longrightarrow>
          usable j w \<Longrightarrow> usable j w'"
    and write_member: "member r w \<Longrightarrow> usable k w \<Longrightarrow> fits v \<Longrightarrow> store r k v w = Inr w' \<Longrightarrow>
          member q w \<Longrightarrow> member q w'"
begin

lemma write_all_holds:
  assumes "\<forall>(r, k, v)\<in>set ops. member r w \<and> usable k w \<and> fits v"
    and "\<forall>k v. m k = Some v \<longrightarrow> holds w k v"
  shows "\<exists>w'. foldE (\<lambda>(r, k, v). store r k v) ops w = Inr w' \<and> (\<forall>k v. last_value ops m k = Some v \<longrightarrow> holds w' k v) \<and>
    (\<forall>q. member q w \<longrightarrow> member q w')"
  using assms
proof (induction ops arbitrary: w m)
  case Nil
  then show ?case by (simp add: last_value_def)
next
  case (Cons op ops)
  obtain r k v where op: "op = (r, k, v)" by (cases op)
  have pre: "member r w" "usable k w" "fits v" using Cons.prems(1) op by auto
  obtain w1 where w1: "store r k v w = Inr w1" using write_total [OF pre] by blast
  have all: "\<forall>(r, k, v)\<in>set ops. member r w1 \<and> usable k w1 \<and> fits v"
    using Cons.prems(1) write_usable [OF pre w1] write_member [OF pre w1] by auto
  have holds1: "\<forall>j u. (m(k \<mapsto> v)) j = Some u \<longrightarrow> holds w1 j u"
    using write_holds [OF pre w1] write_keeps [OF pre w1] Cons.prems(2) by auto
  from Cons.IH [OF all holds1] show ?case
    using w1 write_member [OF pre w1] by (auto simp: op last_value_def fun_upd_def)
qed

end

section \<open>The interpretation\<close>

definition dist_write :: "mpi \<times> nat \<Rightarrow> fuse_ino_t \<Rightarrow> u64 \<times> cell list \<Rightarrow> world \<Rightarrow> world exec" where
  "dist_write = (\<lambda>(m, src) ino (fileSize, b). DAGonFS_Write m src (Some b) ino fileSize)"

definition dist_member :: "mpi \<times> nat \<Rightarrow> world \<Rightarrow> bool" where
  "dist_member = (\<lambda>(m, src) W. mpi_documented m \<and> src < length W)"

text \<open>The buffer covers the blocks of the file, and the blocks fit the \<open>int\<close> counts of MPI.\<close>

definition dist_fits :: "u64 \<times> cell list \<Rightarrow> bool" where
  "dist_fits = (\<lambda>(fileSize, b).
     numberOfBlocks fileSize * FILE_SYSTEM_SINGLE_BLOCK_SIZE < 2 ^ 31 \<and>
     numberOfBlocks fileSize * FILE_SYSTEM_SINGLE_BLOCK_SIZE \<le> length b)"

definition file_blocks :: "u64 \<Rightarrow> cell list \<Rightarrow> cell list list" where
  "file_blocks fileSize b = pieces FILE_SYSTEM_SINGLE_BLOCK_SIZE (numberOfBlocks fileSize) b"

definition dist_holds :: "world \<Rightarrow> fuse_ino_t \<Rightarrow> u64 \<times> cell list \<Rightarrow> bool" where
  "dist_holds W ino = (\<lambda>(fileSize, b). file_stored W ino (file_blocks fileSize b))"

lemma dist_write_eq:
  assumes "dist_member (m, src) W" and "world_ready ino W" and "dist_fits (fileSize, b)"
  shows "dist_write (m, src) ino (fileSize, b) W = Inr (written src ino fileSize (file_blocks fileSize b) W)"
  using assms DAGonFS_Write_eq [of m fileSize _ src W b ino]
  by (simp add: dist_write_def dist_member_def dist_fits_def file_blocks_def)

lemma file_blocks_width:
  "dist_fits (fileSize, b) \<Longrightarrow> \<forall>d\<in>set (file_blocks fileSize b). length d = FILE_SYSTEM_SINGLE_BLOCK_SIZE"
  unfolding file_blocks_def by (rule pieces_width) (simp add: dist_fits_def)

lemma installed_simps [simp]:
  "n_inodes (installed w r src ino fileSize as s) = n_inodes s"
  by (simp add: installed_def Let_def)

lemma write_request_n_inodes [simp]:
  "src < length W \<Longrightarrow> n_inodes (peer_fs (write_request src ino fileSize W ! r)) = n_inodes (peer_fs (W ! r))"
  by (simp add: write_request_def peer_fs_mod_fs)

lemma world_ready_written:
  assumes "world_ready j W" and "src < length W"
    and "length ds * FILE_SYSTEM_SINGLE_BLOCK_SIZE < 2 ^ 31"
  shows "world_ready j (written src ino fileSize ds W)"
proof -
  have "W \<noteq> []" using assms(2) by auto
  then have len: "length (written_addresses ds W) = length ds" by (rule length_written_addresses)
  have "length ds \<le> length ds * FILE_SYSTEM_SINGLE_BLOCK_SIZE"
    by (simp add: FILE_SYSTEM_SINGLE_BLOCK_SIZE_def)
  then have "length ds < 2 ^ 31" using assms(3) by linarith
  with assms(1,2) len show ?thesis
    by (auto simp: world_ready_def written_def block_list_installed)
qed

interpretation dist: replicated_store dist_member world_ready dist_fits dist_write dist_holds
proof
  fix r :: "mpi \<times> nat" and w k and v :: "u64 \<times> cell list" and w'
  obtain m src where r: "r = (m, src)" by (cases r)
  obtain fileSize b where v: "v = (fileSize, b)" by (cases v)
  assume pre: "dist_member r w" "world_ready k w" "dist_fits v"
  then have src: "src < length w" by (simp add: r dist_member_def)
  have small: "length (file_blocks fileSize b) * FILE_SYSTEM_SINGLE_BLOCK_SIZE < 2 ^ 31"
    using pre(3) by (simp add: v dist_fits_def file_blocks_def)
  note eq = dist_write_eq [OF pre [unfolded r v]]
  note width = file_blocks_width [OF pre(3) [unfolded v]]
  show "\<exists>w'. dist_write r k v w = Inr w'" by (simp add: r v eq)
  assume "dist_write r k v w = Inr w'"
  then have w': "w' = written src k fileSize (file_blocks fileSize b) w" by (simp add: r v eq)
  show "dist_holds w' k v" by (simp add: w' v dist_holds_def file_stored_written [OF src width])
  show "dist_holds w' j u" if "j \<noteq> k" "dist_holds w j u" for j u
    using that by (auto simp: w' dist_holds_def intro: file_stored_other src)
  show "world_ready j w'" if "world_ready j w" for j
    unfolding w' by (rule world_ready_written [OF that src small])
  show "dist_member q w'" if "dist_member q w" for q
    using that by (auto simp: w' dist_member_def)
qed

section \<open>Two processes to exercise the theorems\<close>

definition demo_world :: world where
  "demo_world = [\<lparr>peer_fs = demo_tree, peer_heap = []\<rparr>,
     \<lparr>peer_fs = demo_tree\<lparr>mpiRank := 1\<rparr>, peer_heap = []\<rparr>]"

lemma demo_world_ready [simp]: "world_ready 3 demo_world"
  by (simp add: demo_world_def world_ready_def n_inodes_def demo_tree_def block_list_def map_find_def)

lemma length_demo_world [simp]: "length demo_world = 2"
  by (simp add: demo_world_def)

section \<open>Writing and reading\<close>

lemma file_blocks_cells:
  "concat (file_blocks fileSize b) = take (numberOfBlocks fileSize * FILE_SYSTEM_SINGLE_BLOCK_SIZE) b"
  by (simp add: file_blocks_def concat_pieces)

lemma length_file_blocks [simp]: "length (file_blocks fileSize b) = numberOfBlocks fileSize"
  by (simp add: file_blocks_def)

lemma numberOfBlocks_covers:
  "unat fileSize \<le> numberOfBlocks fileSize * FILE_SYSTEM_SINGLE_BLOCK_SIZE"
  "numberOfBlocks fileSize * FILE_SYSTEM_SINGLE_BLOCK_SIZE < unat fileSize + FILE_SYSTEM_SINGLE_BLOCK_SIZE"
proof -
  let ?e = FILE_SYSTEM_SINGLE_BLOCK_SIZE
  have split: "unat fileSize = unat fileSize div ?e * ?e + unat fileSize mod ?e" by simp
  have mod: "unat fileSize mod ?e < ?e" by simp
  have "unat fileSize \<le> numberOfBlocks fileSize * ?e \<and>
      numberOfBlocks fileSize * ?e < unat fileSize + ?e"
  proof (cases "unat fileSize mod ?e > 0")
    case True
    then have "numberOfBlocks fileSize * ?e = unat fileSize div ?e * ?e + ?e"
      by (simp add: numberOfBlocks_def)
    with split mod True show ?thesis by linarith
  next
    case False
    then have "numberOfBlocks fileSize * ?e = unat fileSize div ?e * ?e"
      by (simp add: numberOfBlocks_def)
    with split mod False show ?thesis by linarith
  qed
  then show "unat fileSize \<le> numberOfBlocks fileSize * ?e"
    "numberOfBlocks fileSize * ?e < unat fileSize + ?e" by simp_all
qed

lemma read_from_stored:
  assumes "mpi_documented m" and "r < length W" and "fileSize \<noteq> 0" and "dist_fits (fileSize, b)"
    and "dist_holds W ino (fileSize, b)"
  shows "DAGonFS_Read m True r ino fileSize fileSize off W =
    Inr (read_world r ino fileSize fileSize off W,
         Some (take (numberOfBlocks fileSize * FILE_SYSTEM_SINGLE_BLOCK_SIZE) b))"
  using DAGonFS_Read_stored [OF assms(1-3) order_refl, of "file_blocks fileSize b" ino off] assms(4,5)
  by (simp add: dist_fits_def dist_holds_def file_blocks_cells)

text \<open>
  What \<open>DAGonFS_Write\<close> stores, \<open>DAGonFS_Read\<close> of the same size returns, byte for byte up to the
  end of the last block, whichever process writes and whichever process reads afterwards.
\<close>

theorem DAGonFS_write_then_read:
  assumes mpi: "mpi_documented m" and src: "src < length W" and ready: "world_ready ino W"
    and pos: "fileSize \<noteq> 0"
    and small: "numberOfBlocks fileSize * FILE_SYSTEM_SINGLE_BLOCK_SIZE < 2 ^ 31"
    and buf: "numberOfBlocks fileSize * FILE_SYSTEM_SINGLE_BLOCK_SIZE \<le> length b"
  shows "\<exists>W'. DAGonFS_Write m src (Some b) ino fileSize W = Inr W' \<and> length W' = length W \<and>
    (\<forall>r<length W. \<exists>W'' c. DAGonFS_Read m True r ino fileSize fileSize 0 W' = Inr (W'', Some c) \<and>
       length c = numberOfBlocks fileSize * FILE_SYSTEM_SINGLE_BLOCK_SIZE \<and>
       take (unat fileSize) c = take (unat fileSize) b)"
proof -
  have member: "dist_member (m, src) W" and fits: "dist_fits (fileSize, b)"
    using mpi src small buf by (simp_all add: dist_member_def dist_fits_def)
  note eq = dist_write_eq [OF member ready fits]
  note holds = dist.write_holds [OF member ready fits eq]
  show ?thesis
    using eq read_from_stored [OF mpi _ pos fits holds, of _ 0] numberOfBlocks_covers(1) [of fileSize] buf
    by (simp add: dist_write_def min_def)
qed

theorem DAGonFS_write_then_read_witness:
  "\<exists>W'. DAGonFS_Write plain_mpi 1 (Some (replicate 1024 (Byte 7))) 3 600 demo_world = Inr W' \<and>
     (\<exists>W'' c. DAGonFS_Read plain_mpi True 0 3 600 600 0 W' = Inr (W'', Some c) \<and>
        take 600 c = replicate 600 (Byte 7))"
proof -
  have n: "numberOfBlocks 600 = 2" by (simp add: numberOfBlocks_def FILE_SYSTEM_SINGLE_BLOCK_SIZE_def)
  obtain W' where W': "DAGonFS_Write plain_mpi 1 (Some (replicate 1024 (Byte 7))) 3 600 demo_world = Inr W'"
    "\<forall>r<2. \<exists>W'' c. DAGonFS_Read plain_mpi True r 3 600 600 0 W' = Inr (W'', Some c) \<and>
       length c = 1024 \<and> take 600 c = replicate 600 (Byte 7)"
    using DAGonFS_write_then_read [OF plain_mpi_documented, of 1 demo_world 3 600 "replicate 1024 (Byte 7)"]
    by (auto simp: n FILE_SYSTEM_SINGLE_BLOCK_SIZE_def)
  have "\<exists>W'' c. DAGonFS_Read plain_mpi True 0 3 600 600 0 W' = Inr (W'', Some c) \<and>
      take 600 c = replicate 600 (Byte 7)"
    using W'(2) [rule_format, of 0] by fastforce
  with W'(1) show ?thesis by blast
qed

text \<open>
  C7. After any sequence of distributed writes, of any files and from any processes, every file
  that was written reads back, on every process, as what was last written to it: later writes of
  other files do not disturb it.
\<close>

theorem DAGonFS_last_write_wins:
  assumes mpi: "mpi_documented m"
    and ops: "\<forall>((m', src), ino, fileSize, b)\<in>set ops.
      m' = m \<and> src < length W \<and> world_ready ino W \<and> dist_fits (fileSize, b)"
  shows "\<exists>W'. foldE (\<lambda>((m, src), ino, fileSize, b). DAGonFS_Write m src (Some b) ino fileSize) ops W = Inr W' \<and>
    (\<forall>ino fileSize b r.
       last_value ops (\<lambda>_. None) ino = Some (fileSize, b) \<longrightarrow> dist_fits (fileSize, b) \<longrightarrow>
       fileSize \<noteq> 0 \<longrightarrow> r < length W \<longrightarrow>
       (\<exists>W''. DAGonFS_Read m True r ino fileSize fileSize 0 W' =
          Inr (W'', Some (take (numberOfBlocks fileSize * FILE_SYSTEM_SINGLE_BLOCK_SIZE) b))))"
proof -
  have pre: "\<forall>(r, k, v)\<in>set ops. dist_member r W \<and> world_ready k W \<and> dist_fits v"
    using ops mpi by (auto simp: dist_member_def)
  have none: "\<forall>k v. (\<lambda>_. None) k = Some v \<longrightarrow> dist_holds W k v" by simp
  have run: "(\<lambda>(r, k, v). dist_write r k v) =
      (\<lambda>((m, src), ino, fileSize, b). DAGonFS_Write m src (Some b) ino fileSize)"
    by (simp add: dist_write_def fun_eq_iff)
  from dist.write_all_holds [OF pre none] obtain W' where W':
    "foldE (\<lambda>((m, src), ino, fileSize, b). DAGonFS_Write m src (Some b) ino fileSize) ops W = Inr W'"
    "\<forall>k v. last_value ops (\<lambda>_. None) k = Some v \<longrightarrow> dist_holds W' k v"
    "\<forall>q. dist_member q W \<longrightarrow> dist_member q W'"
    unfolding run by blast
  have "r < length W'" if "r < length W" for r
    using W'(3) [rule_format, of "(m, r)"] that mpi by (simp add: dist_member_def)
  then show ?thesis
    using W'(1,2) read_from_stored [OF mpi] by (intro exI [of _ W']) auto
qed

theorem DAGonFS_last_write_wins_witness:
  "\<exists>W' W''. foldE (\<lambda>((m, src), ino, fileSize, b). DAGonFS_Write m src (Some b) ino fileSize)
      [((plain_mpi, 0), 3, 600, replicate 1024 (Byte 7)), ((plain_mpi, 1), 3, 512, replicate 512 (Byte 8))]
      demo_world = Inr W' \<and>
     DAGonFS_Read plain_mpi True 0 3 512 512 0 W' = Inr (W'', Some (replicate 512 (Byte 8)))"
proof -
  let ?ops = "[((plain_mpi, 0::nat), 3::fuse_ino_t, 600::u64, replicate 1024 (Byte 7)),
    ((plain_mpi, 1), 3, 512, replicate 512 (Byte 8))]"
  have n: "numberOfBlocks 600 = 2" "numberOfBlocks 512 = 1"
    by (simp_all add: numberOfBlocks_def FILE_SYSTEM_SINGLE_BLOCK_SIZE_def)
  have fits: "dist_fits (600, replicate 1024 (Byte 7))" "dist_fits (512, replicate 512 (Byte 8))"
    by (simp_all add: dist_fits_def n FILE_SYSTEM_SINGLE_BLOCK_SIZE_def)
  have ops: "\<forall>((m', src), ino, fileSize, b)\<in>set ?ops.
      m' = plain_mpi \<and> src < length demo_world \<and> world_ready ino demo_world \<and> dist_fits (fileSize, b)"
    using fits by simp
  have last: "last_value ?ops (\<lambda>_. None) 3 = Some (512, replicate 512 (Byte 8))"
    by (simp add: last_value_def)
  obtain W' where W': "foldE (\<lambda>((m, src), ino, fileSize, b). DAGonFS_Write m src (Some b) ino fileSize) ?ops
      demo_world = Inr W'"
    "\<forall>ino fileSize b r. last_value ?ops (\<lambda>_. None) ino = Some (fileSize, b) \<longrightarrow> dist_fits (fileSize, b) \<longrightarrow>
       fileSize \<noteq> 0 \<longrightarrow> r < length demo_world \<longrightarrow>
       (\<exists>W''. DAGonFS_Read plain_mpi True r ino fileSize fileSize 0 W' =
          Inr (W'', Some (take (numberOfBlocks fileSize * FILE_SYSTEM_SINGLE_BLOCK_SIZE) b)))"
    using DAGonFS_last_write_wins [OF plain_mpi_documented ops] by blast
  from W'(2) [rule_format, OF last fits(2), of 0] obtain W'' where
    "DAGonFS_Read plain_mpi True 0 3 512 512 0 W' = Inr (W'', Some (replicate 512 (Byte 8)))"
    by (auto simp: n FILE_SYSTEM_SINGLE_BLOCK_SIZE_def)
  with W'(1) show ?thesis by blast
qed

section \<open>What the other processes learn\<close>

text \<open>
  C8. After a distributed write all processes record the same addresses for the blocks of the file;
  on every process but the writer the size of the inode becomes that of the write and its block
  count the length of the block list, which never shrinks; no other inode changes anywhere, and the
  writer's own inode is left to the caller.
\<close>

theorem DAGonFS_Write_replicates:
  assumes mpi: "mpi_documented m" and src: "src < length W" and ready: "world_ready ino W"
    and fits: "dist_fits (fileSize, b)"
  shows "\<exists>W' as. DAGonFS_Write m src (Some b) ino fileSize W = Inr W' \<and>
    length as = numberOfBlocks fileSize \<and>
    (\<forall>r<length W. let s = peer_fs (W ! r); s' = peer_fs (W' ! r) in
       take (numberOfBlocks fileSize) (block_addresses (W' ! r) ino) = as \<and>
       length (block_list (BlocksManager s') ino) =
         max (length (block_list (BlocksManager s) ino)) (numberOfBlocks fileSize) \<and>
       (\<forall>j. j \<noteq> ino \<longrightarrow> block_list (BlocksManager s') j = block_list (BlocksManager s) j) \<and>
       (\<forall>j. unat j < n_inodes s \<longrightarrow> inode_at s' j =
          (if j = ino \<and> r \<noteq> src
           then set_attr (\<lambda>a. a\<lparr>st_size := fileSize,
                  st_blocks := of_nat (length (block_list (BlocksManager s') ino))\<rparr>) (inode_at s j)
           else inode_at s j)))"
proof -
  let ?ds = "file_blocks fileSize b" and ?n = "numberOfBlocks fileSize"
  let ?as = "written_addresses ?ds W" and ?W' = "written src ino fileSize ?ds W"
  have member: "dist_member (m, src) W" using mpi src by (simp add: dist_member_def)
  have eq: "DAGonFS_Write m src (Some b) ino fileSize W = Inr ?W'"
    using dist_write_eq [OF member ready fits] by (simp add: dist_write_def)
  have "W \<noteq> []" using src by auto
  then have len: "length ?as = ?n" using length_written_addresses [of W ?ds] by simp
  have fs: "peer_fs (?W' ! r) = installed (length W) r src ino fileSize ?as
      (peer_fs (write_request src ino fileSize W ! r))" if "r < length W" for r
    using that by (simp add: written_def)
  have addrs: "take ?n (block_addresses (?W' ! r) ino) = ?as" if "r < length W" for r
    using installed_addresses [of ?as _ "length W" src ino] len that src
    by (simp add: block_addresses_def fs block_list_installed)
  have lens: "length (block_list (BlocksManager (peer_fs (?W' ! r))) ino) =
      max (length (block_list (BlocksManager (peer_fs (W ! r))) ino)) ?n" if "r < length W" for r
    using that src len by (simp add: fs block_list_installed)
  have others: "block_list (BlocksManager (peer_fs (?W' ! r))) j = block_list (BlocksManager (peer_fs (W ! r))) j"
    if "r < length W" "j \<noteq> ino" for r j
    using that src by (simp add: fs block_list_installed)
  have nodes: "inode_at (peer_fs (?W' ! r)) j =
      (if j = ino \<and> r \<noteq> src
       then set_attr (\<lambda>a. a\<lparr>st_size := fileSize,
              st_blocks := of_nat (length (block_list (BlocksManager (peer_fs (?W' ! r))) ino))\<rparr>)
              (inode_at (peer_fs (W ! r)) j)
       else inode_at (peer_fs (W ! r)) j)" if "r < length W" for r j
    using inode_at_written [OF src that, of ino ?ds] ready that len lens [OF that]
    by (simp add: world_ready_def)
  show ?thesis
    using eq len addrs lens others nodes by (intro exI [of _ ?W'] exI [of _ ?as]) (simp add: Let_def)
qed

theorem DAGonFS_Write_replicates_witness:
  "\<exists>W'. DAGonFS_Write plain_mpi 0 (Some (replicate 1024 (Byte 7))) 3 600 demo_world = Inr W' \<and>
     st_size (attr (inode_at (peer_fs (W' ! 1)) 3)) = 600 \<and>
     inode_at (peer_fs (W' ! 0)) 3 = demo_file"
proof -
  have fits: "dist_fits (600, replicate 1024 (Byte 7))"
    by (simp add: dist_fits_def numberOfBlocks_def FILE_SYSTEM_SINGLE_BLOCK_SIZE_def)
  obtain W' where W': "DAGonFS_Write plain_mpi 0 (Some (replicate 1024 (Byte 7))) 3 600 demo_world = Inr W'"
    "\<forall>r<length demo_world. \<forall>j. unat j < n_inodes (peer_fs (demo_world ! r)) \<longrightarrow>
       inode_at (peer_fs (W' ! r)) j =
          (if j = 3 \<and> r \<noteq> 0
           then set_attr (\<lambda>a. a\<lparr>st_size := 600,
                  st_blocks := of_nat (length (block_list (BlocksManager (peer_fs (W' ! r))) 3))\<rparr>)
                  (inode_at (peer_fs (demo_world ! r)) j)
           else inode_at (peer_fs (demo_world ! r)) j)"
    using DAGonFS_Write_replicates [OF plain_mpi_documented _ demo_world_ready fits, of 0]
    by (auto simp: Let_def)
  have n: "n_inodes (peer_fs (demo_world ! 1)) = 4" "n_inodes (peer_fs (demo_world ! 0)) = 4"
    by (simp_all add: demo_world_def) (simp add: n_inodes_def demo_tree_def)
  show ?thesis
    using W'(1) W'(2) [rule_format, of 1 3] W'(2) [rule_format, of 0 3] n
    by (auto simp: demo_world_def)
qed

end
