(* ===== verification/DistLimits.thy ===== *)
theory DistLimits
  imports DistProps
begin

text \<open>
  The vectors of the distributed operations and their limits: the partition they describe, the
  file size from which the \<open>int\<close> counts no longer hold it, the ranks recorded in the block list
  against the processes that really hold the blocks, and reads of another size than was written.
\<close>

section \<open>The partition\<close>

text \<open>
  C31. The counts and displacements describe a partition: each process gets a whole number of
  elements, the shares differ by at most one and do not grow with the rank, they start where the
  previous one ends, and together they cover all \<open>n\<close> elements, as long as \<open>n\<close> elements fit an \<open>int\<close>.
\<close>

theorem distribution_is_partition:
  assumes w: "0 < w" and fit: "n * e < 2 ^ 31"
  shows "(\<Sum>r<w. effectiveBlocks n w r) = n \<and>
    (\<forall>r<w. effectiveBlocks n w r \<in> {n div w, Suc (n div w)}) \<and>
    (\<forall>r. effectiveBlocks n w (Suc r) \<le> effectiveBlocks n w r) \<and>
    (\<forall>r<w. countsFor e n w ! r = int (effectiveBlocks n w r * e)) \<and>
    (\<forall>r<w. displsFor e n w ! r = int ((\<Sum>q<r. effectiveBlocks n w q) * e))"
proof -
  have sum: "(\<Sum>q<r. effectiveBlocks n w q) = first_block n w r" for r
    by (induction r) (simp_all add: first_block_Suc)
  have "(\<Sum>r<w. effectiveBlocks n w r) = n" by (simp only: sum first_block_all [OF w])
  moreover have "effectiveBlocks n w (Suc r) \<le> effectiveBlocks n w r"
    "effectiveBlocks n w r \<in> {n div w, Suc (n div w)}" for r
    by (auto simp: effectiveBlocks_def Let_def)
  ultimately show ?thesis
    using nth_countsFor [OF fit, of _ w] nth_displsFor [OF fit, of _ w] unfolding sum by simp
qed

theorem distribution_is_partition_witness:
  "(\<Sum>r<3. effectiveBlocks 7 3 r) = 7 \<and> displsFor 512 7 3 ! 2 = 2560"
proof -
  have "(\<Sum>q<2. int (effectiveBlocks 7 3 q)) = 5"
    by (simp add: effectiveBlocks_def Let_def numeral_2_eq_2)
  then show ?thesis using distribution_is_partition [of 3 7 512] by simp
qed

lemma to_int_overflow:
  assumes "2 ^ 31 \<le> k" and "k < 2 ^ 32"
  shows "to_int (int k) = int k - 2 ^ 32 \<and> int k - 2 ^ 32 < 0"
proof -
  have k: "2 ^ 31 \<le> int k" "int k < 2 ^ 32"
    using assms by simp_all
  have "to_int (int k) = signed_take_bit 31 (int k - 2 ^ 32)"
    by (simp add: to_int_def signed_take_bit_eq_iff_take_bit_eq take_bit_eq_mod)
  also have "\<dots> = int k - 2 ^ 32" using k by (intro signed_take_bit_int_eq_self) simp_all
  finally show ?thesis using k by simp
qed

text \<open>
  The limit of the \<open>int\<close> counts: when the share of every process is at least 2 GiB (and below
  4 GiB), every count that is handed to MPI is negative, so such a file cannot be distributed.
\<close>

theorem counts_overflow:
  assumes "r < w" and "2 ^ 31 \<le> effectiveBlocks n w r * e" and "effectiveBlocks n w r * e < 2 ^ 32"
  shows "countsFor e n w ! r = int (effectiveBlocks n w r * e) - 2 ^ 32 \<and> countsFor e n w ! r < 0"
  using assms to_int_overflow [of "effectiveBlocks n w r * e"] by (simp add: countsFor_def)

theorem counts_overflow_witness:
  "countsFor 512 (numberOfBlocks 0x80000000) 1 ! 0 = - (2 ^ 31)"
proof -
  have "numberOfBlocks 0x80000000 = 4194304"
    by (simp add: numberOfBlocks_def FILE_SYSTEM_SINGLE_BLOCK_SIZE_def)
  then show ?thesis
    using counts_overflow [of 0 1 4194304 512] by (simp add: effectiveBlocks_def)
qed

section \<open>Recorded ranks\<close>

text \<open>Block \<open>i\<close> of the file in the memory of the process whose chunk it is in.\<close>

lemma written_block_at:
  assumes src: "src < length W" and r: "r < length W"
    and width: "\<forall>d\<in>set ds. length d = FILE_SYSTEM_SINGLE_BLOCK_SIZE"
    and i: "i < effectiveBlocks (length ds) (length W) r"
  defines "k \<equiv> first_block (length ds) (length W) r + i"
  shows "k < length ds \<and> written_addresses ds W ! k = Suc (length (peer_heap (W ! r)) + i) \<and>
    heap_read (peer_heap (written src ino fileSize ds W ! r)) (written_addresses ds W ! k)
      FILE_SYSTEM_SINGLE_BLOCK_SIZE = Inr (ds ! k)"
proof -
  let ?n = "length ds" and ?w = "length W"
  let ?c = "rank_chunks ?n ?w ds"
  have k: "k < ?n" using first_block_end [OF r, of ?n] i by (simp add: k_def)
  have ne: "W \<noteq> []" using r by auto
  have lc: "length (?c ! r) = effectiveBlocks ?n ?w r" using r by (simp add: length_rank_chunk)
  have "written_addresses ds W ! k = rank_chunks ?n ?w (written_addresses ds W) ! r ! i"
    using k i r length_written_addresses [OF ne, of ds] by (simp add: nth_rank_chunks k_def)
  also have "\<dots> = Suc (length (peer_heap (W ! r)) + i)"
    using i r lc by (simp add: rank_chunks_written chunk_addresses_def)
  finally have addr: "written_addresses ds W ! k = Suc (length (peer_heap (W ! r)) + i)" .
  have blk: "?c ! r ! i = ds ! k" using i r k by (simp add: nth_rank_chunks k_def)
  have "heap_read (peer_heap (W ! r) @ ?c ! r) (Suc (length (peer_heap (W ! r)) + i))
      FILE_SYSTEM_SINGLE_BLOCK_SIZE = Inr (?c ! r ! i)"
    using i lc width k blk by (intro heap_read_new) auto
  with k addr blk r show ?thesis by (simp add: written_heap)
qed

lemma processRank_installed:
  assumes "i < length bl \<or> i < length as"
  shows "processRank (installed_list FILE_SYSTEM_SINGLE_BLOCK_SIZE w src ino as bl ! i) = processRank (grown_list FILE_SYSTEM_SINGLE_BLOCK_SIZE w src ino (length as) bl ! i)"
  using assms by (auto simp: installed_list_def Let_def nth_append setData_def)

text \<open>
  The first write of a file records for block \<open>k\<close> the rank \<open>k mod w\<close> on every process, while the
  block is in the memory of the process in whose contiguous share it falls; the two differ as soon
  as a share has more than one block.
\<close>

theorem recorded_rank_is_not_owner:
  assumes mpi: "mpi_documented m" and src: "src < length W" and ready: "world_ready ino W"
    and fits: "dist_fits (fileSize, b)" and w: "length W < 2 ^ 32"
    and fresh: "\<forall>p\<in>set W. block_list (BlocksManager (peer_fs p)) ino = []"
    and r: "r < length W" and i: "i < effectiveBlocks (numberOfBlocks fileSize) (length W) r"
  shows "\<exists>W'. DAGonFS_Write m src (Some b) ino fileSize W = Inr W' \<and>
    (let k = first_block (numberOfBlocks fileSize) (length W) r + i in
      heap_read (peer_heap (W' ! r)) (block_addresses (W' ! r) ino ! k) FILE_SYSTEM_SINGLE_BLOCK_SIZE =
        Inr (file_blocks fileSize b ! k) \<and>
      (\<forall>q<length W. unat (processRank (block_list (BlocksManager (peer_fs (W' ! q))) ino ! k)) =
         k mod length W))"
proof -
  let ?ds = "file_blocks fileSize b" and ?n = "numberOfBlocks fileSize" and ?w = "length W"
  let ?as = "written_addresses ?ds W" and ?W' = "written src ino fileSize ?ds W"
  let ?k = "first_block ?n ?w r + i"
  have ne: "W \<noteq> []" using src by auto
  have eq: "DAGonFS_Write m src (Some b) ino fileSize W = Inr ?W'"
    using dist_write_eq [of m src W ino fileSize b] mpi src ready fits
    by (simp add: dist_write_def dist_member_def)
  have len: "length ?as = ?n" using length_written_addresses [OF ne, of ?ds] by simp
  note block = written_block_at [OF src r file_blocks_width [OF fits], of i ino fileSize]
  have k: "?k < ?n" using block i by simp
  have list: "block_list (BlocksManager (peer_fs (?W' ! q))) ino = installed_list FILE_SYSTEM_SINGLE_BLOCK_SIZE ?w src ino ?as []"
    if "q < ?w" for q
    using that src fresh by (simp add: written_def block_list_installed)
  have at: "block_addresses (?W' ! r) ino ! ?k = ?as ! ?k"
  proof -
    have "take ?n (map dataBlockAddress (installed_list FILE_SYSTEM_SINGLE_BLOCK_SIZE ?w src ino ?as [])) = ?as"
      using installed_addresses [of ?as _ ?w src ino "[]"] len by simp
    then show ?thesis using k len r by (simp add: block_addresses_def list)
  qed
  have read: "heap_read (peer_heap (?W' ! r)) (block_addresses (?W' ! r) ino ! ?k)
      FILE_SYSTEM_SINGLE_BLOCK_SIZE = Inr (?ds ! ?k)"
    unfolding at using block i unfolding length_file_blocks by blast
  have "unat (processRank (block_list (BlocksManager (peer_fs (?W' ! q))) ino ! ?k)) = ?k mod ?w"
    if "q < ?w" for q
  proof -
    have "processRank (installed_list FILE_SYSTEM_SINGLE_BLOCK_SIZE ?w src ino ?as [] ! ?k) = processRank (grown_list FILE_SYSTEM_SINGLE_BLOCK_SIZE ?w src ino ?n [] ! ?k)"
      using processRank_installed [of ?k "[]" ?as] k len by simp
    also have "grown_list FILE_SYSTEM_SINGLE_BLOCK_SIZE ?w src ino ?n [] = map (grown_block FILE_SYSTEM_SINGLE_BLOCK_SIZE ?w ino 0 0) [0..<?n]"
      using ne addDataBlocksTo_grows [of "[]" ?w "int ?n" _ ino src]
      by (auto simp: grown_list_def last_rank_def)
    finally show ?thesis
      using k ne w grown_block_rank [of ?w _ ino 0 0 ?k] by (simp add: list [OF that])
  qed
  with eq read show ?thesis by (intro exI [of _ ?W']) (simp add: Let_def)
qed

theorem recorded_rank_is_not_owner_witness:
  "\<exists>W'. DAGonFS_Write plain_mpi 0 (Some (replicate 2048 (Byte 7))) 3 2048 demo_world = Inr W' \<and>
     heap_read (peer_heap (W' ! 0)) (block_addresses (W' ! 0) 3 ! 1) 512 = Inr (replicate 512 (Byte 7)) \<and>
     unat (processRank (block_list (BlocksManager (peer_fs (W' ! 0))) 3 ! 1)) = 1"
proof -
  have n: "numberOfBlocks 2048 = 4"
    by (simp add: numberOfBlocks_def FILE_SYSTEM_SINGLE_BLOCK_SIZE_def)
  have fits: "dist_fits (2048, replicate 2048 (Byte 7))"
    by (simp add: dist_fits_def n FILE_SYSTEM_SINGLE_BLOCK_SIZE_def)
  have fresh: "\<forall>p\<in>set demo_world. block_list (BlocksManager (peer_fs p)) 3 = []"
    by (simp add: demo_world_def demo_tree_def block_list_def map_find_def)
  have blk: "file_blocks 2048 (replicate 2048 (Byte 7)) ! 1 = replicate 512 (Byte 7)"
    by (simp add: file_blocks_def n FILE_SYSTEM_SINGLE_BLOCK_SIZE_def)
  show ?thesis
    using recorded_rank_is_not_owner [OF plain_mpi_documented _ demo_world_ready fits _ fresh, of 0 0 1] blk
    by (auto simp: n effectiveBlocks_def Let_def FILE_SYSTEM_SINGLE_BLOCK_SIZE_def)
qed

section \<open>Reading another size than was written\<close>

text \<open>A process that is sent an address at which it has nothing faults.\<close>

lemma DAGonFS_Read_foreign:
  assumes doc: "mpi_documented m" and src: "src < length W" and pos: "fileSize \<noteq> 0"
    and n: "numberOfBlocks fileSize = n" and small: "n * FILE_SYSTEM_SINGLE_BLOCK_SIZE < 2 ^ 31"
    and as: "length as = n" "addresses_to_scatter n (block_list (BlocksManager (peer_fs (W ! src))) ino) = Inr as"
    and p: "p < length W" "i < effectiveBlocks n (length W) p"
    and foreign: "length (peer_heap (W ! p)) < rank_chunks n (length W) as ! p ! i"
  shows "\<exists>e. DAGonFS_Read m True src ino fileSize fileSize off W = Inl e"
proof (cases "DAGonFS_Read m True src ino fileSize fileSize off W")
  case (Inr V)
  let ?w = "length W" and ?chunk = "rank_chunks n (length W) as ! p"
  define W0 where "W0 = mod_fs src (sending (send_io_request src ?w
    \<lparr>io_inode = ino, io_fileSize = fileSize, io_reqSize = Some fileSize, io_offset = Some off\<rparr>)) W"
  obtain bm bl where get: "getDataBlockListOfInode (BlocksManager (peer_fs (W0 ! src))) ino = (bm, bl)" by force
  have "bl = block_list (BlocksManager (peer_fs (W0 ! src))) ino"
    using getDataBlockListOfInode_block_list [of _ ino] get by blast
  then have addrs: "addresses_to_scatter n bl = Inr as" using as(2) src by (simp add: W0_def peer_fs_mod_fs)
  have scat: "MPI_Scatterv m (store_ptrs as) (countsFor sizeof_PointerPacket n ?w)
      (displsFor sizeof_PointerPacket n ?w) src = Inr (map store_ptrs (rank_chunks n ?w as))"
    by (rule scatterv_ptrs [OF doc blocks_fit_pointers [OF small] src as(1)])
  obtain outs where outs: "mapE (\<lambda>r. andThen (load_ptrs (effectiveBlocks n ?w r) (map store_ptrs (rank_chunks n ?w as) ! r))
      (\<lambda>as. fetch_blocks FILE_SYSTEM_SINGLE_BLOCK_SIZE (peer_heap (mod_fs src (\<lambda>s. s\<lparr>BlocksManager := bm\<rparr>) W0 ! r)) as))
      [0..<?w] = Inr outs"
    using Inr pos unfolding DAGonFS_Read_def Let_def W0_def [symmetric] by (auto simp: get n addrs scat)
  have len: "length ?chunk = effectiveBlocks n ?w p" using p as(1) by (simp add: length_rank_chunk)
  then have load: "load_ptrs (effectiveBlocks n ?w p) (store_ptrs ?chunk) = Inr ?chunk" by (simp add: load_ptrs_store)
  have "fetch_blocks FILE_SYSTEM_SINGLE_BLOCK_SIZE (peer_heap (W ! p)) ?chunk = Inr (outs ! p)"
    using mapE_nth [OF outs, of p] p load by (simp add: W0_def peer_heap_mod_fs)
  then obtain bs where "mapE (\<lambda>a. heap_read (peer_heap (W ! p)) a FILE_SYSTEM_SINGLE_BLOCK_SIZE) ?chunk = Inr bs"
    by (auto simp: fetch_blocks_def)
  from mapE_nth [OF this, of i] len p(2) foreign show ?thesis
    by (auto simp: heap_read_def FILE_SYSTEM_SINGLE_BLOCK_SIZE_def split: if_splits)
qed auto

text \<open>
  C32. The source of a read cuts the addresses into shares by the number of blocks it asks for, not by
  the number that was written. Let \<open>fileSize\<close> be written and a smaller \<open>size'\<close> be read (the size after
  a \<open>truncate\<close>), and let block \<open>k\<close> be number \<open>j\<close> of the share of \<open>q\<close> in the write but number \<open>i\<close> of the
  share of another process \<open>p\<close> in the read: \<open>p\<close> is then sent, as the address to copy from, the pointer
  that \<open>malloc\<close> has returned on \<open>q\<close>. When \<open>p\<close> has no block at this address, the read faults on \<open>p\<close>.
\<close>

theorem truncated_read_misroutes:
  fixes fileSize size' :: u64 and W :: world
  defines "w \<equiv> length W" and "N \<equiv> numberOfBlocks fileSize" and "n \<equiv> numberOfBlocks size'"
  assumes mpi: "mpi_documented m" and src: "src < w" and ready: "world_ready ino W"
    and fits: "dist_fits (fileSize, b)" and size: "size' \<noteq> 0" "n \<le> N"
    and r: "r < w" and p: "p < w" "i < effectiveBlocks n w p" and q: "q < w" "j < effectiveBlocks N w q"
    and k: "k = first_block n w p + i" "k = first_block N w q + j" and "p \<noteq> q"
  shows "\<exists>W' addressesToScat localScatBufs as.
    DAGonFS_Write m src (Some b) ino fileSize W = Inr W' \<and>
    addresses_to_scatter n (block_list (BlocksManager (peer_fs (W' ! r))) ino) = Inr addressesToScat \<and>
    MPI_Scatterv m (store_ptrs addressesToScat) (countsFor sizeof_PointerPacket n w)
      (displsFor sizeof_PointerPacket n w) r = Inr localScatBufs \<and>
    load_ptrs (effectiveBlocks n w p) (localScatBufs ! p) = Inr as \<and>
    as ! i = Suc (length (peer_heap (W ! q)) + j) \<and>
    heap_read (peer_heap (W' ! q)) (as ! i) FILE_SYSTEM_SINGLE_BLOCK_SIZE = Inr (file_blocks fileSize b ! k) \<and>
    length (peer_heap (W' ! p)) = length (peer_heap (W ! p)) + effectiveBlocks N w p \<and>
    (length (peer_heap (W' ! p)) < as ! i \<longrightarrow> (\<exists>e. DAGonFS_Read m True r ino size' size' 0 W' = Inl e))"
proof -
  let ?ds = "file_blocks fileSize b" and ?W' = "written src ino fileSize (file_blocks fileSize b) W"
  let ?all = "written_addresses (file_blocks fileSize b) W"
  let ?as = "take n ?all"
  have eq: "DAGonFS_Write m src (Some b) ino fileSize W = Inr ?W'"
    using dist_write_eq [of m src W ino fileSize b] mpi src ready fits
    by (simp add: dist_write_def dist_member_def w_def)
  have small: "N * FILE_SYSTEM_SINGLE_BLOCK_SIZE < 2 ^ 31" using fits by (simp add: dist_fits_def N_def)
  then have small': "n * FILE_SYSTEM_SINGLE_BLOCK_SIZE < 2 ^ 31" using size(2) by (meson le_less_trans mult_le_mono1)
  have "W \<noteq> []" using r by (auto simp: w_def)
  then have lall: "length ?all = N" by (simp add: length_written_addresses N_def)
  then have las: "length ?as = n" using size(2) by simp
  have list: "block_list (BlocksManager (peer_fs (?W' ! r))) ino =
      installed_list FILE_SYSTEM_SINGLE_BLOCK_SIZE w src ino ?all (block_list (BlocksManager (peer_fs (W ! r))) ino)"
    using r src by (simp add: written_def block_list_installed w_def)
  have "take N (map dataBlockAddress (block_list (BlocksManager (peer_fs (?W' ! r))) ino)) = ?all"
    using installed_addresses [of ?all] lall by (simp add: list)
  then have "?as = take n (map dataBlockAddress (block_list (BlocksManager (peer_fs (?W' ! r))) ino))"
    using size(2) by (metis min.absorb1 take_take)
  then have addrs: "addresses_to_scatter n (block_list (BlocksManager (peer_fs (?W' ! r))) ino) = Inr ?as"
    using lall size(2) by (simp add: addresses_to_scatter_def take_map list)
  have scat: "MPI_Scatterv m (store_ptrs ?as) (countsFor sizeof_PointerPacket n w) (displsFor sizeof_PointerPacket n w) r =
      Inr (map store_ptrs (rank_chunks n w ?as))"
    by (rule scatterv_ptrs [OF mpi blocks_fit_pointers [OF small'] r las])
  let ?chunk = "rank_chunks n w ?as ! p"
  have lc: "length ?chunk = effectiveBlocks n w p" using p las by (simp add: length_rank_chunk)
  then have load: "load_ptrs (effectiveBlocks n w p) (map store_ptrs (rank_chunks n w ?as) ! p) = Inr ?chunk"
    using p(1) by (simp add: load_ptrs_store)
  note block = written_block_at [OF _ q(1) [unfolded w_def] file_blocks_width [OF fits], of src j ino fileSize]
  have at: "k < N" "?all ! k = Suc (length (peer_heap (W ! q)) + j)"
    "heap_read (peer_heap (?W' ! q)) (?all ! k) FILE_SYSTEM_SINGLE_BLOCK_SIZE = Inr (?ds ! k)"
    using block src q(2) unfolding w_def N_def k(2) length_file_blocks by auto
  have "k < n" using first_block_end [OF p(1), of n] p(2) k(1) by simp
  then have nth: "?chunk ! i = ?all ! k" using p las k(1) by (simp add: nth_rank_chunks)
  have "\<exists>e. DAGonFS_Read m True r ino size' size' 0 ?W' = Inl e" if "length (peer_heap (?W' ! p)) < ?chunk ! i"
    using that r p las addrs
    by (intro DAGonFS_Read_foreign [OF mpi _ size(1) n_def [symmetric, THEN meta_eq_to_obj_eq] small', where as = ?as and p = p and i = i])
      (simp_all add: w_def)
  moreover have "length (peer_heap (?W' ! p)) = length (peer_heap (W ! p)) + effectiveBlocks N w p"
    using p(1) by (simp add: written_heap w_def N_def length_rank_chunk)
  ultimately show ?thesis using eq addrs scat load at nth by (intro exI [of _ ?W'] exI [of _ ?as] exI conjI) auto
qed

theorem truncated_read_misroutes_witness:
  fixes W :: world and b :: "cell list"
  defines "W \<equiv> [\<lparr>peer_fs = demo_tree, peer_heap = replicate 5 []\<rparr>, \<lparr>peer_fs = demo_tree, peer_heap = []\<rparr>]"
    and "b \<equiv> replicate 2048 (Byte 7)"
  shows "\<exists>W' as e. DAGonFS_Write plain_mpi 0 (Some b) 3 2048 W = Inr W' \<and> as ! 0 = Suc (5 + 1) \<and>
     heap_read (peer_heap (W' ! 0)) (as ! 0) 512 = Inr (file_blocks 2048 b ! 1) \<and>
     length (peer_heap (W' ! 1)) = 2 \<and> DAGonFS_Read plain_mpi True 1 3 1024 1024 0 W' = Inl e"
proof -
  have n: "numberOfBlocks 2048 = 4" "numberOfBlocks 1024 = 2"
    by (simp_all add: numberOfBlocks_def FILE_SYSTEM_SINGLE_BLOCK_SIZE_def)
  have fits: "dist_fits (2048, b)"
    by (simp add: dist_fits_def n FILE_SYSTEM_SINGLE_BLOCK_SIZE_def b_def)
  have W: "length W = 2" "length (peer_heap (W ! 0)) = 5" "length (peer_heap (W ! 1)) = 0" by (simp_all add: W_def)
  have ready: "world_ready 3 W"
    using demo_world_ready by (simp add: world_ready_def demo_world_def W_def)
  have shares: "effectiveBlocks 2 2 1 = 1" "effectiveBlocks 4 2 0 = 2" "effectiveBlocks 4 2 1 = 2"
    "first_block 2 2 1 = 1" "first_block 4 2 0 = 0"
    by (simp_all add: effectiveBlocks_def first_block_def)
  obtain W' as where "DAGonFS_Write plain_mpi 0 (Some b) 3 2048 W = Inr W'"
    "as ! 0 = Suc (5 + 1)" "heap_read (peer_heap (W' ! 0)) (as ! 0) 512 = Inr (file_blocks 2048 b ! 1)"
    "length (peer_heap (W' ! 1)) = 2"
    "length (peer_heap (W' ! 1)) < as ! 0 \<longrightarrow> (\<exists>e. DAGonFS_Read plain_mpi True 1 3 1024 1024 0 W' = Inl e)"
    using truncated_read_misroutes [OF plain_mpi_documented _ ready fits, where size' = 1024 and src = 0 and r = 1
        and p = 1 and i = 0 and q = 0 and j = 1 and k = 1]
    unfolding W n shares FILE_SYSTEM_SINGLE_BLOCK_SIZE_def by auto
  then show ?thesis by auto
qed

end
