(* ===== verification/FileContents.thy ===== *)
theory FileContents
  imports DistLimits
begin

text \<open>
  The contents of an open file: what \<open>FuseWrite\<close>, \<open>FuseRead\<close>, \<open>FuseFlush\<close> and \<open>FuseOpen\<close> do to the
  buffer of a file and its size, and the whole path from a write on one process to a read on
  another.
\<close>

section \<open>The buffer of an open file\<close>

text \<open>The buffer covers the blocks that the attributes count, and the blocks cover the size.\<close>

definition buffer_ok :: "inode \<Rightarrow> bool" where
  "buffer_ok nd \<longleftrightarrow>
     (case node_class nd of
        File f \<Rightarrow> FILE_SYSTEM_SINGLE_BLOCK_SIZE * unat (st_blocks (attr nd)) \<le> length (buffer_cells (m_buf f)) \<and>
                  unat (st_size (attr nd)) \<le> FILE_SYSTEM_SINGLE_BLOCK_SIZE * unat (st_blocks (attr nd)) \<and>
                  FILE_SYSTEM_SINGLE_BLOCK_SIZE * unat (st_blocks (attr nd)) < 2 ^ 63
      | _ \<Rightarrow> False)"

definition cells_of :: "inode \<Rightarrow> cell list" where
  "cells_of nd = (case node_class nd of File f \<Rightarrow> buffer_cells (m_buf f) | _ \<Rightarrow> [])"

definition file_bytes :: "inode \<Rightarrow> cell list" where
  "file_bytes nd = take (unat (st_size (attr nd))) (cells_of nd)"

definition blocks_for :: "nat \<Rightarrow> nat" where
  "blocks_for n = n div FILE_SYSTEM_SINGLE_BLOCK_SIZE + (if n mod FILE_SYSTEM_SINGLE_BLOCK_SIZE \<noteq> 0 then 1 else 0)"

lemma blocks_for_covers: "n \<le> FILE_SYSTEM_SINGLE_BLOCK_SIZE * blocks_for n"
  "FILE_SYSTEM_SINGLE_BLOCK_SIZE * blocks_for n < n + FILE_SYSTEM_SINGLE_BLOCK_SIZE"
  unfolding blocks_for_def by (rule round_up, simp)+

lemma numberOfBlocks_blocks_for: "numberOfBlocks k = blocks_for (unat k)"
  by (simp add: numberOfBlocks_def blocks_for_def)

lemma INodeBufBlockSize_nat: "unat INodeBufBlockSize = FILE_SYSTEM_SINGLE_BLOCK_SIZE"
  by (simp add: INodeBufBlockSize_def FILE_SYSTEM_SINGLE_BLOCK_SIZE_def)

lemma unat_newBlocks:
  "unat (k div INodeBufBlockSize + (if k mod INodeBufBlockSize \<noteq> 0 then 1 else 0)) = blocks_for (unat k)"
proof -
  have small: "unat (k div INodeBufBlockSize) < 2 ^ 63"
  proof -
    have "unat k < 2 ^ 64" using unsigned_less [of k] by simp
    then have "unat k div 512 < 2 ^ 63" by (simp add: div_less_iff_less_mult)
    then show ?thesis
      by (simp add: unat_div INodeBufBlockSize_nat FILE_SYSTEM_SINGLE_BLOCK_SIZE_def)
  qed
  have zero: "k mod INodeBufBlockSize = 0 \<longleftrightarrow> unat k mod FILE_SYSTEM_SINGLE_BLOCK_SIZE = 0"
    by (simp add: unat_eq_0 [symmetric] unat_mod INodeBufBlockSize_nat del: unat_eq_0)
  have "unat (k div INodeBufBlockSize + 1) = unat (k div INodeBufBlockSize) + 1"
    using small by (simp add: unat_word_ariths(1))
  then show ?thesis
    by (simp add: zero blocks_for_def unat_div INodeBufBlockSize_nat)
qed

lemma sint_of_nat_small: "k < 2 ^ 63 \<Longrightarrow> sint (of_nat k :: u64) = int k"
  by (simp add: signed_of_nat signed_take_bit_int_eq_self)

lemma sint_small: "unat (x::u64) < 2 ^ 63 \<Longrightarrow> sint x = int (unat x)"
  using sint_of_nat_small [of "unat x"] by simp

lemma of_nat_unat_id: "of_nat (unat x) = (x::u64)"
  by simp

lemma unat_sum: "unat (a::u64) + k < 2 ^ 64 \<Longrightarrow> unat (a + of_nat k) = unat a + k"
  by (simp add: unat_word_ariths(1) unat_of_nat)

section \<open>write\<close>

text \<open>The buffer after the copy: unchanged before and after the data, indeterminate where it grew.\<close>

definition overlay :: "cell list \<Rightarrow> nat \<Rightarrow> cell list \<Rightarrow> nat \<Rightarrow> cell list" where
  "overlay old off data n =
     (let b = take n old @ replicate (n - length old) Indet
      in take off b @ data @ drop (off + length data) b)"

text \<open>The capacity of the buffer after a write that ends at \<open>new\<close>, and the copy into it.\<close>

definition new_capacity :: "inode \<Rightarrow> nat \<Rightarrow> nat" where
  "new_capacity nd new =
     (if FILE_SYSTEM_SINGLE_BLOCK_SIZE * unat (st_blocks (attr nd)) < new
      then FILE_SYSTEM_SINGLE_BLOCK_SIZE * blocks_for new else length (cells_of nd))"

lemma buffer_okD:
  assumes "buffer_ok nd" and "node_class nd = File f"
  shows "FILE_SYSTEM_SINGLE_BLOCK_SIZE * unat (st_blocks (attr nd)) \<le> length (buffer_cells (m_buf f))"
    and "unat (st_size (attr nd)) \<le> FILE_SYSTEM_SINGLE_BLOCK_SIZE * unat (st_blocks (attr nd))"
    and "FILE_SYSTEM_SINGLE_BLOCK_SIZE * unat (st_blocks (attr nd)) < 2 ^ 63"
    and "cells_of nd = buffer_cells (m_buf f)"
  using assms by (simp_all add: buffer_ok_def cells_of_def)

lemma write_copy:
  fixes off :: nat
  assumes "buffer_ok nd" and isfile: "node_class nd = File f" and "data \<noteq> []"
  defines "new \<equiv> off + length data"
  shows "memcpy_to (if FILE_SYSTEM_SINGLE_BLOCK_SIZE * unat (st_blocks (attr nd)) < new
      then Some (realloc (m_buf f) (FILE_SYSTEM_SINGLE_BLOCK_SIZE * blocks_for new)) else m_buf f) off data =
    Inr (Some (overlay (cells_of nd) off data (new_capacity nd new)))"
proof -
  note buf = buffer_okD [OF assms(1,2)]
  show ?thesis
  proof (cases "FILE_SYSTEM_SINGLE_BLOCK_SIZE * unat (st_blocks (attr nd)) < new")
    case True
    then show ?thesis
      using blocks_for_covers(1) [of new] assms(3)
      by (simp add: memcpy_to_def overlay_def Let_def new_capacity_def buf(4) realloc_def new_def)
  next
    case False
    then obtain b where b: "m_buf f = Some b"
      using assms(3) buf(1) by (cases "m_buf f") (auto simp: buffer_cells_def new_def)
    then have "new \<le> length b" using False buf(1) by (simp add: buffer_cells_def)
    then show ?thesis
      using False b assms(3)
      by (simp add: memcpy_to_def overlay_def Let_def new_capacity_def buf(4) buffer_cells_def new_def)
  qed
qed

text \<open>The state that a write to an open file leaves, without the reply.\<close>

definition wrote :: "env \<Rightarrow> fuse_ino_t \<Rightarrow> cell list \<Rightarrow> u64 \<Rightarrow> fs_state \<Rightarrow> fs_state" where
  "wrote ev ino data off s =
     (let nd = inode_at s ino; new = unat off + length data;
          s1 = (if \<exists>f. node_class nd = File f \<and> isWaitingForDistributedWrite f then s
                else modINode ino (set_File (\<lambda>f. f\<lparr>isWaitingForDistributedWrite := True\<rparr>)) s);
          s2 = (if FILE_SYSTEM_SINGLE_BLOCK_SIZE * unat (st_blocks (attr nd)) < new
                then modINode ino (set_attr (\<lambda>a. a\<lparr>st_blocks := of_nat (blocks_for new)\<rparr>))
                       (UpdateUsedBlocks (of_nat (blocks_for new) - st_blocks (attr nd)) s1) else s1);
          s3 = set_buf ino (Some (overlay (cells_of nd) (unat off) data (new_capacity nd new))) s2;
          s4 = (if unat (st_size (attr nd)) < new
                then modINode ino (set_attr (\<lambda>a. a\<lparr>st_size := of_nat new\<rparr>)) s3 else s3)
      in modINode ino (set_attr (\<lambda>a. a\<lparr>st_ctim := env_now ev, st_mtim := env_now ev\<rparr>)) s4)"

lemma FuseWrite_eq:
  assumes n: "n_inodes s < 2 ^ 31" and ino: "unat ino < n_inodes s"
    and isfile: "node_class (inode_at s ino) = File f" and ok: "buffer_ok (inode_at s ino)"
    and data: "data \<noteq> []" "unat off + length data < 2 ^ 62" and alloc: "alloc_ok ev"
  shows "FuseWrite ev ino (Some data) off s =
    Inr (reply (Reply_write (of_nat (length data))) (wrote ev ino data off s))"
proof -
  define nd where "nd = inode_at s ino"
  define k where "k = off + (of_nat (length data) :: u64)"
  define nb where "nb = k div INodeBufBlockSize + (if k mod INodeBufBlockSize \<noteq> 0 then 1 else 0)"
  let ?e = FILE_SYSTEM_SINGLE_BLOCK_SIZE and ?blocks0 = "st_blocks (attr nd)"
  let ?new = "unat off + length data"
  have isfile': "node_class nd = File f" and ok': "buffer_ok nd"
    using isfile ok by (simp_all add: nd_def)
  have k: "unat k = ?new" using data(2) by (simp add: unat_sum k_def)
  have nb: "unat nb = blocks_for ?new" using unat_newBlocks [of k] k by (simp add: nb_def)
  have k': "k = of_nat ?new" and nb': "nb = of_nat (blocks_for ?new)"
    using of_nat_unat_id [of nb] nb by (simp_all add: k_def)
  have bytes: "unat (nb * INodeBufBlockSize) = ?e * blocks_for ?new"
    using nb blocks_for_covers(2) [of ?new] data(2)
    by (simp add: unat_word_ariths(2) INodeBufBlockSize_nat mult.commute FILE_SYSTEM_SINGLE_BLOCK_SIZE_def)
  have "unat (INodeBufBlockSize * ?blocks0) = ?e * unat ?blocks0"
    using buffer_okD(3) [OF ok' isfile'] by (simp add: unat_word_ariths(2) INodeBufBlockSize_nat)
  then have grows: "INodeBufBlockSize * ?blocks0 < k \<longleftrightarrow> ?e * unat ?blocks0 < ?new"
    by (simp add: word_less_nat_alt k)
  have larger: "st_size (attr nd) < k \<longleftrightarrow> unat (st_size (attr nd)) < ?new"
    by (simp add: word_less_nat_alt k)
  have open_file: "\<not> no_such_ino s ino" "getINode s ino = Inr nd"
    using n ino by (simp_all add: no_such_ino_iff getINode_total nd_def)
  note copy = write_copy [OF ok' isfile' data(1), of "unat off"]
  show ?thesis
    unfolding FuseWrite_def option.case Let_def open_file(2) isfile' node_class.case andThen.simps
      k_def [symmetric] nb_def [symmetric]
    using copy alloc
    by (cases "?e * unat ?blocks0 < ?new")
      (simp_all add: open_file grows larger bytes wrote_def Let_def nd_def [symmetric] isfile'
        k' [symmetric] nb' [symmetric] del: andThen_Inr_iff of_nat_add)
qed

lemma wrote_frame:
  "n_inodes (wrote ev ino data off s) = n_inodes s"
  "BlocksManager (wrote ev ino data off s) = BlocksManager s"
  "replies (wrote ev ino data off s) = replies s" "sends (wrote ev ino data off s) = sends s"
  "mpiWorldSize (wrote ev ino data off s) = mpiWorldSize s"
  by (simp_all add: wrote_def Let_def set_buf_def)

lemma wrote_same: "unat ino < n_inodes s \<Longrightarrow> same_outside {ino} s (wrote ev ino data off s)"
  by (simp add: same_outside_def wrote_def Let_def set_buf_def inode_at_modINode)

lemma wrote_node:
  fixes ev
  assumes ino: "unat ino < n_inodes s" and isfile: "node_class (inode_at s ino) = File f"
    and ok: "buffer_ok (inode_at s ino)" and small: "unat off + length data < 2 ^ 62"
  defines "nd \<equiv> inode_at s ino" and "nd' \<equiv> inode_at (wrote ev ino data off s) ino"
    and "new \<equiv> unat off + length data"
  shows "node_class nd' = File \<lparr>m_buf = Some (overlay (cells_of nd) (unat off) data (new_capacity nd new)),
      isWaitingForDistributedWrite = True\<rparr>"
    and "unat (st_size (attr nd')) = max (unat (st_size (attr nd))) new"
    and "unat (st_blocks (attr nd')) = max (unat (st_blocks (attr nd))) (blocks_for new)"
proof -
  let ?e = FILE_SYSTEM_SINGLE_BLOCK_SIZE and ?blocks0 = "unat (st_blocks (attr nd))"
  note cover = blocks_for_covers [of new]
  show "node_class nd' = File \<lparr>m_buf = Some (overlay (cells_of nd) (unat off) data (new_capacity nd new)),
      isWaitingForDistributedWrite = True\<rparr>"
    using ino isfile
    by (simp add: nd'_def wrote_def Let_def set_buf_def inode_at_modINode nd_def new_def)
  have "st_size (attr nd') = (if unat (st_size (attr nd)) < new then of_nat new else st_size (attr nd))"
    using ino by (simp add: nd'_def wrote_def Let_def set_buf_def inode_at_modINode nd_def new_def)
  then show "unat (st_size (attr nd')) = max (unat (st_size (attr nd))) new"
    using small by (simp add: unat_of_nat new_def del: of_nat_add)
  have blocks: "st_blocks (attr nd') = (if ?e * ?blocks0 < new then of_nat (blocks_for new) else st_blocks (attr nd))"
    using ino by (simp add: nd'_def wrote_def Let_def set_buf_def inode_at_modINode nd_def new_def)
  have few: "?blocks0 \<le> blocks_for new" if "?e * ?blocks0 < new"
  proof -
    have "?e * ?blocks0 < ?e * blocks_for new" using cover(1) that by linarith
    then show ?thesis by simp
  qed
  have many: "blocks_for new \<le> ?blocks0" if "\<not> ?e * ?blocks0 < new"
  proof -
    have "?e * blocks_for new < ?e * Suc ?blocks0" using cover(2) that by simp
    then show ?thesis by (simp only: mult_less_cancel1 less_Suc_eq_le)
  qed
  have "blocks_for new \<le> new" using cover(2) by (cases new) (simp_all add: FILE_SYSTEM_SINGLE_BLOCK_SIZE_def)
  then have "unat (of_nat (blocks_for new) :: u64) = blocks_for new"
    using small by (simp add: unat_of_nat new_def)
  then show "unat (st_blocks (attr nd')) = max ?blocks0 (blocks_for new)"
    using few many by (auto simp: blocks max_def)
qed

lemma length_overlay:
  assumes "off + length data \<le> n"
  shows "length (overlay old off data n) = n"
proof -
  have "length (take n old @ replicate (n - length old) Indet) = n" by simp
  with assms show ?thesis by (simp only: overlay_def Let_def length_append length_take length_drop)
qed

lemma buffer_ok_wrote:
  assumes ino: "unat ino < n_inodes s" and isfile: "node_class (inode_at s ino) = File f"
    and ok: "buffer_ok (inode_at s ino)" and small: "unat off + length data < 2 ^ 62"
  shows "buffer_ok (inode_at (wrote ev ino data off s) ino)"
proof -
  let ?new = "unat off + length data" and ?nd = "inode_at s ino"
  note node = wrote_node [OF assms, of ev]
  note buf = buffer_okD [OF ok isfile]
  note cover = blocks_for_covers [of ?new]
  have "?new \<le> new_capacity ?nd ?new"
    using buf cover by (auto simp: new_capacity_def)
  then have "length (overlay (cells_of ?nd) (unat off) data (new_capacity ?nd ?new)) = new_capacity ?nd ?new"
    by (rule length_overlay)
  moreover define B where "B = blocks_for ?new"
  ultimately show ?thesis
    using buf cover small
    by (simp add: buffer_ok_def node buffer_cells_def new_capacity_def B_def [symmetric]
        FILE_SYSTEM_SINGLE_BLOCK_SIZE_def split: if_splits)
qed

lemma nth_patch:
  "off + length d \<le> length b \<Longrightarrow> i < length b \<Longrightarrow>
     (take off b @ d @ drop (off + length d) b) ! i =
       (if off \<le> i \<and> i < off + length d then d ! (i - off) else b ! i)"
  by (auto simp: nth_append min_def)

lemma nth_overlay:
  assumes "off + length data \<le> n" and "i < n"
  shows "overlay old off data n ! i =
    (if off \<le> i \<and> i < off + length data then data ! (i - off)
     else if i < length old then old ! i else Indet)"
proof -
  let ?b = "take n old @ replicate (n - length old) Indet"
  have len: "length ?b = n" by simp
  have base: "?b ! i = (if i < length old then old ! i else Indet)"
    using assms(2) by (simp add: nth_append)
  have "overlay old off data n ! i = (if off \<le> i \<and> i < off + length data then data ! (i - off) else ?b ! i)"
    unfolding overlay_def Let_def using assms by (intro nth_patch) (simp_all only: len)
  then show ?thesis by (simp only: base)
qed

lemma new_capacity_covers:
  assumes "buffer_ok nd" and "node_class nd = File f"
  shows "new \<le> new_capacity nd new" and "unat (st_size (attr nd)) \<le> new_capacity nd new"
    and "unat (st_size (attr nd)) \<le> length (cells_of nd)"
  using buffer_okD [OF assms] blocks_for_covers [of new] by (auto simp: new_capacity_def)

text \<open>
  C9. \<open>write\<close> to an open file: the reply gives the number of bytes, the size grows to the end of the
  data if that is larger, the data is at its offset, every other byte below the old size is kept,
  and a byte of a gap beyond the old buffer is indeterminate memory rather than zero; the free block
  counters fall by the blocks added and the buffer still covers the file.
\<close>

theorem FuseWrite_stores:
  assumes n: "n_inodes s < 2 ^ 31" and ino: "unat ino < n_inodes s"
    and isfile: "node_class (inode_at s ino) = File f" and ok: "buffer_ok (inode_at s ino)"
    and data: "data \<noteq> []" "unat off + length data < 2 ^ 62" and alloc: "alloc_ok ev"
  shows "\<exists>s'. FuseWrite ev ino (Some data) off s = Inr s' \<and>
    (let nd = inode_at s ino; nd' = inode_at s' ino; new = unat off + length data;
         size0 = unat (st_size (attr nd))
     in unat (st_size (attr nd')) = max size0 new \<and> length (file_bytes nd') = max size0 new \<and>
        (\<forall>i<max size0 new. file_bytes nd' ! i =
           (if unat off \<le> i \<and> i < new then data ! (i - unat off)
            else if i < length (cells_of nd) then cells_of nd ! i else Indet)) \<and>
        (\<forall>i. i < size0 \<longrightarrow> \<not> (unat off \<le> i \<and> i < new) \<longrightarrow> file_bytes nd' ! i = file_bytes nd ! i) \<and>
        f_bfree (m_stbuf s') = f_bfree (m_stbuf s) - (st_blocks (attr nd') - st_blocks (attr nd)) \<and>
        buffer_ok nd' \<and> same_outside {ino} s s' \<and>
        replies s' = replies s @ [Reply_write (of_nat (length data))] \<and> sends s' = sends s)"
proof -
  let ?nd = "inode_at s ino" and ?s' = "wrote ev ino data off s"
  let ?nd' = "inode_at ?s' ino" and ?new = "unat off + length data"
  let ?cap = "new_capacity ?nd ?new"
  note node = wrote_node [OF ino isfile ok data(2), of ev]
  note cap = new_capacity_covers(1,2) [OF ok isfile, of ?new] new_capacity_covers(3) [OF ok isfile]
  have "cells_of ?nd' = overlay (cells_of ?nd) (unat off) data ?cap"
    using node(1) by (simp add: cells_of_def buffer_cells_def)
  then have bytes: "file_bytes ?nd' = take (max (unat (st_size (attr ?nd))) ?new) (overlay (cells_of ?nd) (unat off) data ?cap)"
    by (simp add: file_bytes_def node(2))
  have len: "length (file_bytes ?nd') = max (unat (st_size (attr ?nd))) ?new"
    using cap by (simp add: bytes length_overlay)
  have nth: "file_bytes ?nd' ! i =
      (if unat off \<le> i \<and> i < ?new then data ! (i - unat off)
       else if i < length (cells_of ?nd) then cells_of ?nd ! i else Indet)"
    if "i < max (unat (st_size (attr ?nd))) ?new" for i
    using that cap by (simp add: bytes nth_overlay)
  have old: "file_bytes ?nd ! i = cells_of ?nd ! i" if "i < unat (st_size (attr ?nd))" for i
    using that by (simp add: file_bytes_def)
  have free: "f_bfree (m_stbuf ?s') = f_bfree (m_stbuf s) - (st_blocks (attr ?nd') - st_blocks (attr ?nd))"
    using ino by (simp add: wrote_def Let_def set_buf_def inode_at_modINode)
  show ?thesis
    unfolding FuseWrite_eq [OF assms]
    using node(2) len nth old cap(3) free buffer_ok_wrote [OF ino isfile ok data(2), of ev]
      wrote_same [OF ino] by (simp add: Let_def wrote_frame same_outside_def)
qed

section \<open>read\<close>

lemma FuseRead_eq:
  assumes n: "n_inodes s < 2 ^ 31" and ino: "unat ino < n_inodes s"
    and isfile: "node_class (inode_at s ino) = File f" "m_buf f = Some b"
    and size: "unat (st_size (attr (inode_at s ino))) \<le> length b" "length b < 2 ^ 62"
    and off: "unat off \<le> unat (st_size (attr (inode_at s ino)))" and sz: "unat sz < 2 ^ 62"
  shows "FuseRead ev ino sz off s =
    Inr (reply (Reply_buf (take (unat sz) (drop (unat off) (file_bytes (inode_at s ino)))))
      (modINode ino (set_attr (\<lambda>a. a\<lparr>st_atim := env_now ev\<rparr>)) s))"
proof -
  define nd where "nd = inode_at s ino"
  let ?size = "st_size (attr nd)"
  let ?k = "if off + sz > ?size then ?size - off else sz"
  have facts: "unat ?size \<le> length b" "length b < 2 ^ 62" "unat off \<le> unat ?size"
    using size off by (simp_all add: nd_def)
  have sum: "unat (off + sz) = unat off + unat sz"
    using facts sz by (simp add: unat_word_ariths(1))
  have gt: "off + sz > ?size \<longleftrightarrow> unat ?size < unat off + unat sz"
    by (simp add: word_less_nat_alt sum)
  have diff: "unat (?size - off) = unat ?size - unat off"
    using facts(3) by (simp add: unat_sub word_le_nat_alt)
  have k: "unat ?k = min (unat sz) (unat ?size - unat off)"
    by (auto simp: gt diff)
  have "sint ?size = int (unat ?size)" "sint off = int (unat off)"
    using facts by (simp_all add: sint_small)
  then have signed: "\<not> sint ?size < sint off" using facts(3) by (simp only: not_less of_nat_le_iff)
  have bytes: "take (unat sz) (drop (unat off) (file_bytes nd)) = take (unat ?k) (drop (unat off) b)"
    unfolding k using isfile
    by (simp add: file_bytes_def cells_of_def buffer_cells_def nd_def drop_take)
  have "read_from (m_buf f) (unat off) (unat ?k) = Inr (take (unat ?k) (drop (unat off) b))"
    using facts k isfile(2) by (auto simp: read_from_def)
  moreover define q where "q = ?k"
  ultimately have q: "read_from (m_buf f) (unat off) (unat q) =
      Inr (take (unat sz) (drop (unat off) (file_bytes nd)))"
    using bytes by simp
  have open_file: "\<not> no_such_ino s ino" "getINode s ino = Inr nd" "node_class nd = File f"
    using n ino isfile by (simp_all add: no_such_ino_iff getINode_total nd_def)
  show ?thesis
    unfolding FuseRead_unfold open_file(2) andThen.simps open_file(3) node_class.case Let_def
      q_def [symmetric] q
    using open_file(1) signed by (simp add: nd_def)
qed

text \<open>
  \<open>read\<close> inside the file sends the bytes from the offset on, as many as asked for or as there
  are up to the size, stamps the access time and changes nothing else.
\<close>

theorem FuseRead_returns:
  assumes n: "n_inodes s < 2 ^ 31" and ino: "unat ino < n_inodes s"
    and isfile: "node_class (inode_at s ino) = File f" "m_buf f = Some b"
    and size: "unat (st_size (attr (inode_at s ino))) \<le> length b" "length b < 2 ^ 62"
    and off: "unat off \<le> unat (st_size (attr (inode_at s ino)))" and sz: "unat sz < 2 ^ 62"
  shows "\<exists>s'. FuseRead ev ino sz off s = Inr s' \<and>
    replies s' = replies s @ [Reply_buf (take (unat sz) (drop (unat off) (file_bytes (inode_at s ino))))] \<and>
    file_bytes (inode_at s' ino) = file_bytes (inode_at s ino) \<and>
    st_atim (attr (inode_at s' ino)) = env_now ev \<and> same_outside {ino} s s' \<and> sends s' = sends s"
  unfolding FuseRead_eq [OF assms]
  using ino by (simp add: inode_at_modINode same_outside_def file_bytes_def cells_of_def)

text \<open>
  C34. A read that starts behind the end of the file is answered with no data and, because the
  handler does not return there, goes on to copy from the buffer with a length that has wrapped
  around: with the answer already sent, an access outside the buffer, or through a null pointer when
  the file is not loaded.
\<close>

theorem FuseRead_past_end_faults:
  assumes n: "n_inodes s < 2 ^ 31" and ino: "unat ino < n_inodes s"
    and isfile: "node_class (inode_at s ino) = File f"
    and off: "unat (st_size (attr (inode_at s ino))) < unat off" "unat off + unat sz < 2 ^ 63"
  defines "s1 \<equiv> FuseRead_past_end off (inode_at s ino) s"
  shows "FuseRead ev ino sz off s = FuseRead_copy ev ino sz off (inode_at s ino) f s1 \<and>
    s1 = reply (Reply_buf []) s \<and>
    (length (buffer_cells (m_buf f)) < 2 ^ 62 \<longrightarrow>
       FuseRead_copy ev ino sz off (inode_at s ino) f s1 = Inl (if m_buf f = None then NullDeref else BadAccess))"
proof -
  define nd where "nd = inode_at s ino"
  let ?size = "st_size (attr nd)"
  have off': "unat ?size < unat off" using off(1) by (simp add: nd_def)
  have sum: "unat (off + sz) = unat off + unat sz"
    using off(2) by (simp add: unat_word_ariths(1))
  have gt: "off + sz > ?size" using off' by (simp add: word_less_nat_alt sum)
  have wrap: "unat (?size - off) = 2 ^ 64 + unat ?size - unat off"
    using off' off(2) by (simp add: unat_sub_if_size word_size)
  have huge: "2 ^ 62 < unat (?size - off)" using off(2) unfolding wrap by simp
  have "read_from (m_buf f) (unat off) (unat (?size - off)) = Inl (if m_buf f = None then NullDeref else BadAccess)"
    if "length (buffer_cells (m_buf f)) < 2 ^ 62"
    using huge that by (cases "m_buf f") (simp_all add: read_from_def buffer_cells_def)
  moreover have "sint ?size < sint off"
  proof -
    have small: "unat ?size < 2 ^ 63" "unat off < 2 ^ 63" using off' off(2) by linarith+
    show ?thesis using sint_small [OF small(1)] sint_small [OF small(2)] off' by linarith
  qed
  ultimately show ?thesis
    using n ino isfile gt
    by (simp add: s1_def FuseRead_def FuseRead_copy_def FuseRead_past_end_def no_such_ino_iff getINode_total Let_def nd_def)
qed

section \<open>Worlds\<close>

text \<open>Every process counts few inodes, and \<open>ino\<close> is one of them.\<close>

definition known_everywhere :: "fuse_ino_t \<Rightarrow> world \<Rightarrow> bool" where
  "known_everywhere ino W \<longleftrightarrow> world_ready ino W \<and> (\<forall>p\<in>set W. n_inodes (peer_fs p) < 2 ^ 31)"

lemma known_everywhereD:
  assumes "known_everywhere ino W" and "r < length W"
  shows "n_inodes (peer_fs (W ! r)) < 2 ^ 31" and "unat ino < n_inodes (peer_fs (W ! r))"
    and "world_ready ino W"
  using assms by (auto simp: known_everywhere_def world_ready_def)

lemma set_mod_fs: "r < length W \<Longrightarrow> set (mod_fs r g W) = (\<lambda>k. mod_fs r g W ! k) ` {..<length W}"
  by (auto simp: in_set_conv_nth image_iff)

lemma known_everywhere_iff:
  "known_everywhere ino W \<longleftrightarrow> (\<forall>r<length W. unat ino < n_inodes (peer_fs (W ! r)) \<and>
     n_inodes (peer_fs (W ! r)) < 2 ^ 31 \<and>
     length (block_list (BlocksManager (peer_fs (W ! r))) ino) < 2 ^ 31)"
  by (auto simp: known_everywhere_def world_ready_def all_set_conv_all_nth)

lemma known_everywhere_mod_fs [simp]:
  assumes "r < length W"
    and "\<And>s. n_inodes (g s) = n_inodes s"
    and "\<And>s. block_list (BlocksManager (g s)) ino = block_list (BlocksManager s) ino"
  shows "known_everywhere ino (mod_fs r g W) \<longleftrightarrow> known_everywhere ino W"
  using assms by (auto simp: known_everywhere_iff peer_fs_mod_fs)

lemma file_stored_mod_fs:
  assumes "r < length W"
    and "\<And>s. block_list (BlocksManager (g s)) ino = block_list (BlocksManager s) ino"
  shows "file_stored (mod_fs r g W) ino ds \<longleftrightarrow> file_stored W ino ds"
proof -
  have "block_addresses (mod_fs r g W ! k) ino = block_addresses (W ! k) ino" for k
    using assms by (simp add: block_addresses_def peer_fs_mod_fs)
  moreover have "mod_fs r g W = [] \<longleftrightarrow> W = []" by (simp add: mod_fs_def)
  ultimately show ?thesis by (simp add: file_stored_def peer_heap_mod_fs)
qed

section \<open>flush\<close>

text \<open>The world after a flush that distributes the buffer.\<close>

definition flush_sent :: "nat \<Rightarrow> world \<Rightarrow> world" where
  "flush_sent a W = mod_fs a (sending (sendWriteRequest a (mpiWorldSize (peer_fs (W ! a))))) W"

definition flushed :: "nat \<Rightarrow> fuse_ino_t \<Rightarrow> u64 \<Rightarrow> cell list \<Rightarrow> world \<Rightarrow> world" where
  "flushed a ino fileSize b W =
     mod_fs a (\<lambda>s. reply_err ESUCCESS (set_buf ino None s))
       (mod_fs a (modINode ino (set_File (\<lambda>f. f\<lparr>isWaitingForDistributedWrite := False\<rparr>)))
         (written a ino fileSize (file_blocks fileSize b) (flush_sent a W)))"

lemma flush_sent_simps [simp]:
  "length (flush_sent a W) = length W"
  "a < length W \<Longrightarrow> known_everywhere ino (flush_sent a W) = known_everywhere ino W"
  by (simp_all add: flush_sent_def)

lemma flush_sent_peer:
  "a < length W \<Longrightarrow> inode_at (peer_fs (flush_sent a W ! r)) = inode_at (peer_fs (W ! r))"
  "a < length W \<Longrightarrow> n_inodes (peer_fs (flush_sent a W ! r)) = n_inodes (peer_fs (W ! r))"
  "a < length W \<Longrightarrow> replies (peer_fs (flush_sent a W ! r)) = replies (peer_fs (W ! r))"
  "a < length W \<Longrightarrow> BlocksManager (peer_fs (flush_sent a W ! r)) = BlocksManager (peer_fs (W ! r))"
  by (simp_all add: flush_sent_def peer_fs_mod_fs)

lemma FuseFlush_eq:
  assumes mpi: "mpi_documented m" and a: "a < length W" and known: "known_everywhere ino W"
    and isfile: "node_class (inode_at (peer_fs (W ! a)) ino) = File f" "m_buf f = Some b"
      "isWaitingForDistributedWrite f"
    and fileSize: "st_size (attr (inode_at (peer_fs (W ! a)) ino)) = fileSize"
    and fits: "dist_fits (fileSize, b)"
  shows "FuseFlush m a ino W = Inr (flushed a ino fileSize b W)"
proof -
  note s = known_everywhereD [OF known a]
  have sent: "dist_member (m, a) (flush_sent a W)" "world_ready ino (flush_sent a W)"
    using mpi a known known_everywhereD(3) [of ino "flush_sent a W" a] by (simp_all add: dist_member_def)
  have "DAGonFS_Write m a (Some b) ino fileSize (flush_sent a W) =
      Inr (written a ino fileSize (file_blocks fileSize b) (flush_sent a W))"
    using dist_write_eq [OF sent fits] by (simp add: dist_write_def)
  then show ?thesis
    using s isfile fileSize
    by (simp add: FuseFlush_def no_such_ino_iff getINode_total Let_def as_File_def flushed_def
        flush_sent_def)
qed

lemma flushed_facts:
  assumes a: "a < length W" and known: "known_everywhere ino W" and fits: "dist_fits (fileSize, b)"
    and size: "st_size (attr (inode_at (peer_fs (W ! a)) ino)) = fileSize"
  defines "W' \<equiv> flushed a ino fileSize b W"
  shows "length W' = length W" and "file_stored W' ino (file_blocks fileSize b)"
    and "known_everywhere ino W'"
    and "r < length W \<Longrightarrow> st_size (attr (inode_at (peer_fs (W' ! r)) ino)) = fileSize"
    and "r < length W \<Longrightarrow> r \<noteq> a \<Longrightarrow> node_class (inode_at (peer_fs (W' ! r)) ino) =
           node_class (inode_at (peer_fs (W ! r)) ino)"
    and "node_class (inode_at (peer_fs (W ! a)) ino) = File f \<Longrightarrow>
           node_class (inode_at (peer_fs (W' ! a)) ino) =
             File \<lparr>m_buf = None, isWaitingForDistributedWrite = False\<rparr>"
    and "st_blocks (attr (inode_at (peer_fs (W' ! a)) ino)) = st_blocks (attr (inode_at (peer_fs (W ! a)) ino))"
    and "r < length W \<Longrightarrow> same_outside {ino} (peer_fs (W ! r)) (peer_fs (W' ! r))"
    and "r < length W \<Longrightarrow> replies (peer_fs (W' ! r)) =
           replies (peer_fs (W ! r)) @ (if r = a then [Reply_err ESUCCESS] else [])"
proof -
  let ?W1 = "flush_sent a W" and ?ds = "file_blocks fileSize b"
  let ?W2 = "written a ino fileSize ?ds ?W1"
  have a1: "a < length ?W1" using a by simp
  have ne: "?W1 \<noteq> []" using a1 by (metis list.size(3) not_less0)
  note len = length_written_addresses [OF ne, of ?ds]
  have ino: "unat ino < n_inodes (peer_fs (?W1 ! k))" if "k < length W" for k
    using known_everywhereD(2) [OF known that] a by (simp add: flush_sent_peer)
  have node: "inode_at (peer_fs (?W2 ! k)) j =
      (if j = ino \<and> k \<noteq> a
       then set_attr (\<lambda>at. at\<lparr>st_size := fileSize, st_blocks := of_nat
              (max (length (block_list (BlocksManager (peer_fs (?W1 ! k))) ino)) (length ?ds))\<rparr>)
              (inode_at (peer_fs (?W1 ! k)) j)
       else inode_at (peer_fs (?W1 ! k)) j)" if "k < length W" for k j
    using inode_at_written [OF a1 _ ino [OF that] len, of fileSize] that by simp
  have frame: "n_inodes (peer_fs (?W2 ! k)) = n_inodes (peer_fs (W ! k))"
    "replies (peer_fs (?W2 ! k)) = replies (peer_fs (W ! k))" if "k < length W" for k
    using written_frame [OF a1, of k] that a by (simp_all add: flush_sent_peer)
  have a2: "a < length ?W2" using a by simp
  note inoa = known_everywhereD(2) [OF known a]
  show "length W' = length W" by (simp add: W'_def flushed_def)
  show "file_stored W' ino ?ds"
    using a2 file_stored_written [OF a1 file_blocks_width [OF fits], of ino fileSize]
    by (simp add: W'_def flushed_def file_stored_mod_fs set_buf_def)
  have "world_ready ino ?W2"
    using known_everywhereD(3) [of ino ?W1 a] known a fits
    by (intro world_ready_written) (simp_all add: dist_fits_def)
  then show "known_everywhere ino W'"
    using a2 known frame(1)
    by (simp add: W'_def flushed_def set_buf_def) (simp add: known_everywhere_iff world_ready_def all_set_conv_all_nth)
  show "st_size (attr (inode_at (peer_fs (W' ! r)) ino)) = fileSize" if "r < length W"
    using that a a2 inoa size frame(1) [OF that] frame(1) [OF a]
    by (simp add: W'_def flushed_def set_buf_def peer_fs_mod_fs inode_at_modINode node flush_sent_peer)
  show "node_class (inode_at (peer_fs (W' ! r)) ino) = node_class (inode_at (peer_fs (W ! r)) ino)"
    if "r < length W" "r \<noteq> a"
    using that a a2 by (simp add: W'_def flushed_def peer_fs_mod_fs node flush_sent_peer)
  show "node_class (inode_at (peer_fs (W' ! a)) ino) =
      File \<lparr>m_buf = None, isWaitingForDistributedWrite = False\<rparr>"
    if "node_class (inode_at (peer_fs (W ! a)) ino) = File f"
    using that a a2 inoa frame(1) [OF a]
    by (simp add: W'_def flushed_def set_buf_def peer_fs_mod_fs inode_at_modINode node flush_sent_peer)
  show "st_blocks (attr (inode_at (peer_fs (W' ! a)) ino)) = st_blocks (attr (inode_at (peer_fs (W ! a)) ino))"
    using a a2 inoa frame(1) [OF a]
    by (simp add: W'_def flushed_def set_buf_def peer_fs_mod_fs inode_at_modINode node flush_sent_peer)
  show "same_outside {ino} (peer_fs (W ! r)) (peer_fs (W' ! r))" if "r < length W"
    using that a a2 inoa frame(1) [OF a]
    by (simp add: same_outside_def W'_def flushed_def set_buf_def peer_fs_mod_fs inode_at_modINode
        node flush_sent_peer)
  show "replies (peer_fs (W' ! r)) = replies (peer_fs (W ! r)) @ (if r = a then [Reply_err ESUCCESS] else [])"
    if "r < length W"
    using that a a2 frame(2) by (simp add: W'_def flushed_def set_buf_def peer_fs_mod_fs)
qed

text \<open>
  \<open>flush\<close> of a file with unsaved writes stores its blocks so that every process can read them,
  gives every process the size of the writer, frees the writer's buffer and answers 0; no other
  inode of any process changes.
\<close>

theorem FuseFlush_publishes:
  assumes mpi: "mpi_documented m" and a: "a < length W" and known: "known_everywhere ino W"
    and isfile: "node_class (inode_at (peer_fs (W ! a)) ino) = File f" "m_buf f = Some b"
      "isWaitingForDistributedWrite f"
    and fileSize: "st_size (attr (inode_at (peer_fs (W ! a)) ino)) = fileSize"
    and fits: "dist_fits (fileSize, b)"
  shows "\<exists>W'. FuseFlush m a ino W = Inr W' \<and> length W' = length W \<and>
    file_stored W' ino (file_blocks fileSize b) \<and>
    (\<forall>r<length W. st_size (attr (inode_at (peer_fs (W' ! r)) ino)) = fileSize \<and>
       same_outside {ino} (peer_fs (W ! r)) (peer_fs (W' ! r)) \<and>
       replies (peer_fs (W' ! r)) =
         replies (peer_fs (W ! r)) @ (if r = a then [Reply_err ESUCCESS] else [])) \<and>
    node_class (inode_at (peer_fs (W' ! a)) ino) = File \<lparr>m_buf = None, isWaitingForDistributedWrite = False\<rparr>"
  unfolding FuseFlush_eq [OF assms]
  using flushed_facts [OF a known fits fileSize] isfile(1) by auto

text \<open>
  C33. \<open>flush\<close> frees the buffer but keeps the block count. A descriptor is flushed whenever one of its
  duplicates is closed; the next write that fits the old blocks then copies through the null
  pointer.
\<close>

theorem write_after_flush_faults:
  assumes mpi: "mpi_documented m" and a: "a < length W" and known: "known_everywhere ino W"
    and isfile: "node_class (inode_at (peer_fs (W ! a)) ino) = File f" "m_buf f = Some b"
      "isWaitingForDistributedWrite f"
    and fileSize: "st_size (attr (inode_at (peer_fs (W ! a)) ino)) = fileSize"
    and fits: "dist_fits (fileSize, b)"
    and data: "data \<noteq> []" "unat off + length data < 2 ^ 62"
    and inside: "unat off + length data \<le>
      FILE_SYSTEM_SINGLE_BLOCK_SIZE * unat (st_blocks (attr (inode_at (peer_fs (W ! a)) ino)))"
      "FILE_SYSTEM_SINGLE_BLOCK_SIZE * unat (st_blocks (attr (inode_at (peer_fs (W ! a)) ino))) < 2 ^ 63"
  shows "\<exists>W'. FuseFlush m a ino W = Inr W' \<and>
    at_peer a (FuseWrite ev ino (Some data) off) W' = Inl NullDeref"
proof -
  let ?W' = "flushed a ino fileSize b W" and ?blocks = "st_blocks (attr (inode_at (peer_fs (W ! a)) ino))"
  note flush = flushed_facts [OF a known fits fileSize]
  have a': "a < length ?W'" using a flush(1) by simp
  note s = known_everywhereD [OF flush(3) a']
  have "unat (off + of_nat (length data)) = unat off + length data"
    using data(2) by (simp add: unat_sum)
  moreover have "unat (INodeBufBlockSize * ?blocks) = FILE_SYSTEM_SINGLE_BLOCK_SIZE * unat ?blocks"
    using inside(2) by (simp add: unat_word_ariths(2) INodeBufBlockSize_nat)
  ultimately have "\<not> INodeBufBlockSize * ?blocks < off + of_nat (length data)"
    using inside(1) by (simp add: word_less_nat_alt)
  then have "FuseWrite ev ino (Some data) off (peer_fs (?W' ! a)) = Inl NullDeref"
    using s(1,2) flush(6) [OF isfile(1)] flush(7) data(1)
    by (simp add: FuseWrite_def no_such_ino_iff getINode_total Let_def memcpy_to_def)
  then show ?thesis
    using FuseFlush_eq [OF mpi a known isfile fileSize fits] by (simp add: at_peer_def)
qed

section \<open>open\<close>

lemma FuseOpen_eq:
  assumes mpi: "mpi_documented m" and r: "r < length W" and known: "known_everywhere ino W"
    and isfile: "node_class (inode_at (peer_fs (W ! r)) ino) = File f"
    and flags: "\<not> has_flag flags (O_WRONLY OR O_TRUNC)" and alloc: "alloc_ok ev"
    and fileSize: "st_size (attr (inode_at (peer_fs (W ! r)) ino)) = fileSize" "fileSize \<noteq> 0"
    and fits: "dist_fits (fileSize, b)" and stored: "file_stored W ino (file_blocks fileSize b)"
  shows "\<exists>W'. FuseOpen m ev r ino flags W = Inr W' \<and> length W' = length W \<and>
    inode_at (peer_fs (W' ! r)) ino = set_File (\<lambda>f. f\<lparr>m_buf :=
      Some (take (numberOfBlocks fileSize * FILE_SYSTEM_SINGLE_BLOCK_SIZE) b)\<rparr>)
      (inode_at (peer_fs (W ! r)) ino) \<and>
    n_inodes (peer_fs (W' ! r)) = n_inodes (peer_fs (W ! r)) \<and>
    replies (peer_fs (W' ! r)) = replies (peer_fs (W ! r)) @ [Reply_open]"
proof -
  note s = known_everywhereD [OF known r]
  let ?W1 = "mod_fs r (sending (sendReadRequest r (mpiWorldSize (peer_fs (W ! r))))) W"
  let ?W2 = "read_world r ino fileSize fileSize 0 ?W1"
  let ?buf = "Some (take (numberOfBlocks fileSize * FILE_SYSTEM_SINGLE_BLOCK_SIZE) b)"
  have "dist_holds ?W1 ino (fileSize, b)"
    using stored r by (simp add: dist_holds_def file_stored_mod_fs)
  then have read: "DAGonFS_Read m True r ino fileSize fileSize 0 ?W1 = Inr (?W2, ?buf)"
    using r fileSize(2) fits mpi by (intro read_from_stored) simp_all
  have "FuseOpen m ev r ino flags W =
      Inr (mod_fs r (\<lambda>s. reply Reply_open (set_buf ino ?buf s)) ?W2)"
    using s isfile flags fileSize(1) alloc read
    by (simp add: FuseOpen_def no_such_ino_iff getINode_total Let_def as_File_def as_Directory_def)
  moreover have "inode_at (peer_fs (?W2 ! r)) = inode_at (peer_fs (W ! r))"
    "n_inodes (peer_fs (?W2 ! r)) = n_inodes (peer_fs (W ! r))"
    "replies (peer_fs (?W2 ! r)) = replies (peer_fs (W ! r))" "length ?W2 = length W"
    using r by (simp_all add: read_world_def peer_fs_mod_fs)
  ultimately show ?thesis
    using r s(2) by (simp add: peer_fs_mod_fs set_buf_def inode_at_modINode)
qed

section \<open>From a write on one process to a read on another\<close>

text \<open>
  The whole path: data written to an empty file through the kernel of process \<open>a\<close> and flushed
  is what a process \<open>q\<close>, any one, gets when it opens the file for reading and reads; every step
  succeeds, and the reply to the read is the requested slice of the data.
\<close>

theorem file_shared_between_processes:
  assumes mpi: "mpi_documented m" and a: "a < length W" and q: "q < length W"
    and known: "known_everywhere ino W" and alloc: "alloc_ok ev"
    and isfile: "node_class (inode_at (peer_fs (W ! a)) ino) = File fa" "m_buf fa = None"
      "node_class (inode_at (peer_fs (W ! q)) ino) = File fq"
    and empty: "st_size (attr (inode_at (peer_fs (W ! a)) ino)) = 0"
      "st_blocks (attr (inode_at (peer_fs (W ! a)) ino)) = 0"
    and data: "data \<noteq> []" "length data < 2 ^ 31 - 512"
    and flags: "\<not> has_flag flags (O_WRONLY OR O_TRUNC)"
    and off: "unat off \<le> length data" and sz: "unat sz < 2 ^ 62"
  shows "\<exists>W1 W2 W3 W4. at_peer a (FuseWrite ev ino (Some data) 0) W = Inr W1 \<and>
    FuseFlush m a ino W1 = Inr W2 \<and> FuseOpen m ev q ino flags W2 = Inr W3 \<and>
    at_peer q (FuseRead ev ino sz off) W3 = Inr W4 \<and>
    replies (peer_fs (W4 ! q)) =
      replies (peer_fs (W3 ! q)) @ [Reply_buf (take (unat sz) (drop (unat off) data))]"
proof -
  let ?e = FILE_SYSTEM_SINGLE_BLOCK_SIZE
  let ?s = "peer_fs (W ! a)" and ?new = "length data"
  note s = known_everywhereD [OF known a]
  have ok: "buffer_ok (inode_at ?s ino)" and cells: "cells_of (inode_at ?s ino) = []"
    using isfile empty by (simp_all add: buffer_ok_def cells_of_def buffer_cells_def)
  have small: "unat (0::u64) + ?new < 2 ^ 62" using data(2) by simp
  let ?s1 = "reply (Reply_write (of_nat ?new)) (wrote ev ino data 0 ?s)"
  let ?W1 = "mod_fs a (\<lambda>_. ?s1) W"
  let ?b = "overlay [] 0 data (?e * blocks_for ?new)"
  have W1: "at_peer a (FuseWrite ev ino (Some data) 0) W = Inr ?W1"
    using FuseWrite_eq [OF s(1,2) isfile(1) ok data(1) small alloc] by (simp add: at_peer_def)
  note node = wrote_node [OF s(2) isfile(1) ok small, of ev]
  have cap: "new_capacity (inode_at ?s ino) ?new = ?e * blocks_for ?new"
    using empty data(1) by (simp add: new_capacity_def)
  have class1: "node_class (inode_at ?s1 ino) = File \<lparr>m_buf = Some ?b, isWaitingForDistributedWrite = True\<rparr>"
    using node(1) cells cap by simp
  have "unat (st_size (attr (inode_at ?s1 ino))) = ?new" using node(2) empty by simp
  then obtain fileSize where size: "st_size (attr (inode_at ?s1 ino)) = fileSize" "unat fileSize = ?new"
    by simp
  then have pos: "fileSize \<noteq> 0" using data(1) by auto
  note cover = blocks_for_covers [of ?new]
  have n: "numberOfBlocks fileSize = blocks_for ?new" using size(2) by (simp add: numberOfBlocks_blocks_for)
  have lb: "length ?b = ?e * blocks_for ?new" using cover(1) by (intro length_overlay) simp
  have fits: "dist_fits (fileSize, ?b)"
    using cover(2) data(2) lb by (simp add: dist_fits_def n FILE_SYSTEM_SINGLE_BLOCK_SIZE_def)
  have prefix: "take ?new ?b = data" by (simp add: overlay_def)
  have known1: "known_everywhere ino ?W1"
    using known a by (auto simp: known_everywhere_iff peer_fs_mod_fs wrote_frame)
  have at1: "peer_fs (?W1 ! a) = ?s1" using a by (simp add: peer_fs_mod_fs)
  let ?W2 = "flushed a ino fileSize ?b ?W1"
  have a1: "a < length ?W1" and q1: "q < length ?W1" using a q by simp_all
  have class1': "node_class (inode_at (peer_fs (?W1 ! a)) ino) =
      File \<lparr>m_buf = Some ?b, isWaitingForDistributedWrite = True\<rparr>"
    and size1: "st_size (attr (inode_at (peer_fs (?W1 ! a)) ino)) = fileSize"
    by (simp_all only: at1 class1 size(1))
  have W2: "FuseFlush m a ino ?W1 = Inr ?W2"
    by (rule FuseFlush_eq [OF mpi a1 known1 class1' _ _ size1 fits]) simp_all
  note flush = flushed_facts [OF a1 known1 fits size1]
  obtain fq' where fq': "node_class (inode_at (peer_fs (?W2 ! q)) ino) = File fq'"
  proof (cases "q = a")
    case True
    then show ?thesis using that flush(6) class1 at1 by simp
  next
    case False
    then show ?thesis using that flush(5) [OF q1 False] isfile(3) a by (simp add: peer_fs_mod_fs)
  qed
  have q2: "q < length ?W2" using q flush(1) by simp
  obtain W3 where W3: "FuseOpen m ev q ino flags ?W2 = Inr W3" "length W3 = length ?W2"
    "inode_at (peer_fs (W3 ! q)) ino = set_File (\<lambda>f. f\<lparr>m_buf := Some (take (numberOfBlocks fileSize * ?e) ?b)\<rparr>)
       (inode_at (peer_fs (?W2 ! q)) ino)"
    "n_inodes (peer_fs (W3 ! q)) = n_inodes (peer_fs (?W2 ! q))"
    using FuseOpen_eq [OF mpi q2 flush(3) fq' flags alloc flush(4) [OF q1] pos fits flush(2)] by blast
  let ?nd3 = "inode_at (peer_fs (W3 ! q)) ino"
  have buf3: "take (numberOfBlocks fileSize * ?e) ?b = ?b" using lb n by (simp add: mult.commute)
  have class3: "node_class ?nd3 = File (fq'\<lparr>m_buf := Some ?b\<rparr>)"
    using W3(3) fq' buf3 by simp
  have size3: "st_size (attr ?nd3) = fileSize" using W3(3) flush(4) [OF q1] by simp
  have bytes3: "file_bytes ?nd3 = data"
    using class3 size3 size(2) prefix by (simp add: file_bytes_def cells_of_def buffer_cells_def)
  note s2 = known_everywhereD [OF flush(3) q2]
  have read: "FuseRead ev ino sz off (peer_fs (W3 ! q)) =
      Inr (reply (Reply_buf (take (unat sz) (drop (unat off) (file_bytes ?nd3))))
        (modINode ino (set_attr (\<lambda>a. a\<lparr>st_atim := env_now ev\<rparr>)) (peer_fs (W3 ! q))))"
  proof (rule FuseRead_eq [where b = ?b])
    show "n_inodes (peer_fs (W3 ! q)) < 2 ^ 31" "unat ino < n_inodes (peer_fs (W3 ! q))"
      using s2(1,2) W3(4) by (simp_all only:)
    show "node_class ?nd3 = File (fq'\<lparr>m_buf := Some ?b\<rparr>)" by (rule class3)
    show "unat (st_size (attr ?nd3)) \<le> length ?b" "unat off \<le> unat (st_size (attr ?nd3))"
      using lb cover(1) off by (simp_all only: size3 size(2))
    show "length ?b < 2 ^ 62"
      using cover(2) data(2) unfolding lb by (simp add: FILE_SYSTEM_SINGLE_BLOCK_SIZE_def)
  qed (use sz in simp_all)
  have q3: "q < length W3" using q2 W3(2) by simp
  let ?s4 = "reply (Reply_buf (take (unat sz) (drop (unat off) (file_bytes ?nd3))))
    (modINode ino (set_attr (\<lambda>a. a\<lparr>st_atim := env_now ev\<rparr>)) (peer_fs (W3 ! q)))"
  have W4: "at_peer q (FuseRead ev ino sz off) W3 = Inr (mod_fs q (\<lambda>_. ?s4) W3)"
    unfolding at_peer_def read andThen.simps ..
  have "replies (peer_fs (mod_fs q (\<lambda>_. ?s4) W3 ! q)) =
      replies (peer_fs (W3 ! q)) @ [Reply_buf (take (unat sz) (drop (unat off) data))]"
    using q3 by (simp add: peer_fs_mod_fs bytes3)
  with W1 W2 W3(1) W4 show ?thesis by blast
qed

section \<open>The theorems at work\<close>

text \<open>The file \<open>/f\<close> of the demonstration tree, open with 300 bytes in a block, not yet flushed.\<close>

definition demo_open :: fs_state where
  "demo_open = modINode 3 (\<lambda>nd. set_attr (\<lambda>a. a\<lparr>st_size := 300, st_blocks := 1\<rparr>)
     (set_File (\<lambda>f. f\<lparr>m_buf := Some (replicate 512 (Byte 7)), isWaitingForDistributedWrite := True\<rparr>) nd))
     demo_tree"

definition demo_open_world :: world where
  "demo_open_world = mod_fs 0 (\<lambda>_. demo_open) demo_world"

abbreviation demo_buffer :: file_data where
  "demo_buffer \<equiv> \<lparr>m_buf = Some (replicate 512 (Byte 7)), isWaitingForDistributedWrite = True\<rparr>"

lemma demo_open_facts:
  "n_inodes demo_open = 4" "replies demo_open = []"
  "node_class (inode_at demo_open 3) =
     File \<lparr>m_buf = Some (replicate 512 (Byte 7)), isWaitingForDistributedWrite = True\<rparr>"
  "st_size (attr (inode_at demo_open 3)) = 300" "st_blocks (attr (inode_at demo_open 3)) = 1"
  by (simp_all add: demo_open_def inode_at_modINode)

lemma demo_open_ok: "buffer_ok (inode_at demo_open 3)"
  "cells_of (inode_at demo_open 3) = replicate 512 (Byte 7)"
  "file_bytes (inode_at demo_open 3) = replicate 300 (Byte 7)"
  by (simp_all add: buffer_ok_def cells_of_def file_bytes_def demo_open_facts buffer_cells_def
      FILE_SYSTEM_SINGLE_BLOCK_SIZE_def min_def)

lemma demo_world_peers:
  "peer_fs (demo_world ! 0) = demo_tree" "n_inodes (peer_fs (demo_world ! 1)) = 4"
  "node_class (inode_at (peer_fs (demo_world ! 1)) 3) =
     File \<lparr>m_buf = None, isWaitingForDistributedWrite = False\<rparr>"
  by (simp_all add: demo_world_def n_inodes_def inode_at_def)
    (simp_all add: demo_tree_def)

lemma demo_known: "known_everywhere 3 demo_world" "known_everywhere 3 demo_open_world"
proof -
  show known: "known_everywhere 3 demo_world"
    using demo_world_ready by (auto simp: known_everywhere_def demo_world_def n_inodes_def demo_tree_def)
  have "block_list (BlocksManager demo_open) 3 = []"
    by (simp add: demo_open_def demo_tree_def block_list_def map_find_def)
  then show "known_everywhere 3 demo_open_world"
    using known by (auto simp: known_everywhere_iff demo_open_world_def peer_fs_mod_fs demo_open_facts)
qed

lemma demo_open_peer: "peer_fs (demo_open_world ! 0) = demo_open" "length demo_open_world = 2"
  by (simp_all add: demo_open_world_def peer_fs_mod_fs)

lemma demo_open_fits: "dist_fits (300, replicate 512 (Byte 7))"
  by (simp add: dist_fits_def numberOfBlocks_def FILE_SYSTEM_SINGLE_BLOCK_SIZE_def)

theorem FuseWrite_stores_witness:
  "\<exists>s'. FuseWrite demo_env 3 (Some [Byte 1, Byte 2]) 600 demo_open = Inr s' \<and>
     length (file_bytes (inode_at s' 3)) = 602 \<and> file_bytes (inode_at s' 3) ! 601 = Byte 2 \<and>
     file_bytes (inode_at s' 3) ! 5 = Byte 7 \<and> file_bytes (inode_at s' 3) ! 550 = Indet"
  using FuseWrite_stores [of demo_open 3 demo_buffer "[Byte 1, Byte 2]" 600 demo_env] demo_open_facts demo_open_ok
  by (auto simp: Let_def demo_env_def)

theorem FuseRead_returns_witness:
  "\<exists>s'. FuseRead demo_env 3 4096 298 demo_open = Inr s' \<and> replies s' = [Reply_buf [Byte 7, Byte 7]]"
proof -
  have two: "replicate 2 (Byte 7) = [Byte 7, Byte 7]" by (simp add: numeral_2_eq_2)
  show ?thesis
    using FuseRead_returns [of demo_open 3 demo_buffer "replicate 512 (Byte 7)" 298 4096 demo_env]
      demo_open_facts demo_open_ok
    by (auto simp: two)
qed

theorem FuseRead_past_end_faults_witness:
  "\<exists>s1. s1 = reply (Reply_buf []) demo_open \<and> FuseRead demo_env 3 4096 301 demo_open = Inl BadAccess \<and>
     FuseRead demo_env 3 4096 301 demo_open = FuseRead_copy demo_env 3 4096 301 (inode_at demo_open 3) demo_buffer s1"
  using FuseRead_past_end_faults [of demo_open 3 demo_buffer 301 4096 demo_env] demo_open_facts
  by (auto simp: buffer_cells_def)

theorem FuseFlush_publishes_witness:
  "\<exists>W'. FuseFlush plain_mpi 0 3 demo_open_world = Inr W' \<and>
     st_size (attr (inode_at (peer_fs (W' ! 1)) 3)) = 300"
  using FuseFlush_publishes [OF plain_mpi_documented _ demo_known(2), of 0 demo_buffer "replicate 512 (Byte 7)" 300]
    demo_open_facts demo_open_peer demo_open_fits
  by auto

theorem write_after_flush_faults_witness:
  "\<exists>W'. FuseFlush plain_mpi 0 3 demo_open_world = Inr W' \<and>
     at_peer 0 (FuseWrite demo_env 3 (Some [Byte 1]) 300) W' = Inl NullDeref"
  using write_after_flush_faults [OF plain_mpi_documented _ demo_known(2), of 0 demo_buffer "replicate 512 (Byte 7)" 300
      "[Byte 1]" 300 demo_env] demo_open_facts demo_open_peer demo_open_fits
  by (auto simp: FILE_SYSTEM_SINGLE_BLOCK_SIZE_def)

theorem file_shared_between_processes_witness:
  "\<exists>W1 W2 W3 W4. at_peer 0 (FuseWrite demo_env 3 (Some [Byte 1, Byte 2, Byte 3]) 0) demo_world = Inr W1 \<and>
     FuseFlush plain_mpi 0 3 W1 = Inr W2 \<and> FuseOpen plain_mpi demo_env 1 3 0 W2 = Inr W3 \<and>
     at_peer 1 (FuseRead demo_env 3 4096 1) W3 = Inr W4 \<and>
     replies (peer_fs (W4 ! 1)) = replies (peer_fs (W3 ! 1)) @ [Reply_buf [Byte 2, Byte 3]]"
proof -
  have empty: "st_size (attr (inode_at demo_tree 3)) = 0" "st_blocks (attr (inode_at demo_tree 3)) = 0"
    by (simp_all add: demo_file_def zero_stat_def)
  show ?thesis
    using file_shared_between_processes [OF plain_mpi_documented _ _ demo_known(1), of 0 1 demo_env _ _
        "[Byte 1, Byte 2, Byte 3]" 0 1 4096] demo_world_peers empty
    by (simp add: has_flag_def demo_env_def)
qed

end
