(* ===== verification/FsNamespaceSpec.thy ===== *)
theory FsNamespaceSpec
  imports FsBoot
begin

text \<open>
  What the namespace handlers do on a well-formed state: the effect of each on the directory
  entries, the link counts, the replies and the messages to the other processes.
\<close>

section \<open>The prologue\<close>

lemma on_directory_found:
  "n_inodes s < 2 ^ 31 \<Longrightarrow> unat parent < n_inodes s \<Longrightarrow> as_Directory (inode_at s parent) = Some d \<Longrightarrow>
     on_directory parent e s k = k d"
  by (simp add: on_directory_def no_such_ino_iff getINode_total)

lemma on_directory_absent:
  "n_inodes s < 2 ^ 31 \<Longrightarrow> n_inodes s \<le> unat parent \<Longrightarrow>
     on_directory parent e s k = Inr (reply_err ENOENT s)"
  by (simp add: on_directory_def no_such_ino_iff)

lemma on_directory_other:
  "n_inodes s < 2 ^ 31 \<Longrightarrow> unat parent < n_inodes s \<Longrightarrow> as_Directory (inode_at s parent) = None \<Longrightarrow>
     on_directory parent e s k = Inr (reply_err e s)"
  by (simp add: on_directory_def no_such_ino_iff getINode_total)

lemma on_directory_cases:
  assumes "on_directory parent e s k = Inr s'"
    and "P (reply_err ENOENT s)" and "P (reply_err e s)"
    and "\<And>d. unat parent < n_inodes s \<Longrightarrow> as_Directory (inode_at s parent) = Some d \<Longrightarrow>
           k d = Inr s' \<Longrightarrow> P s'"
  shows "P s'"
  using assms by (auto simp: on_directory_def getINode_iff split: if_splits option.splits)

text \<open>The parent of a creation is not the number that \<open>RegisterINode\<close> is about to reuse.\<close>

lemma live_not_next:
  assumes "fs_wf s" and "n_inodes s < 2 ^ 31" and "unat parent < n_inodes s"
    and "parent \<notin> set (DeletedINodes (INodeManager s))"
  shows "parent \<noteq> next_ino s"
proof (cases "reclaiming s")
  case True
  have "next_ino s \<in> set (DeletedINodes (INodeManager s))"
    by (metis reclaiming_nonempty [OF True] list.set_intros(1))
  with assms(4) show ?thesis by blast
next
  case False
  with next_ino_fresh [of s] assms(2,3) show ?thesis by auto
qed

lemma demo_path:
  "fill_name (''/'' @ ''a'' @ ''/'') = Inr (''/a/'' @ replicate 253 NUL)"
  "fill_name (''/'' @ ''a'') = Inr (''/a'' @ replicate 254 NUL)"
  by (simp_all add: fill_name_def name_capacity_def)

section \<open>mkdir\<close>

lemma FuseMkdir_eq:
  fixes ev
  assumes "fs_wf s" and "n_inodes s < 2 ^ 31" and "is_dir s parent d" and "parent \<noteq> next_ino s"
    and "createDirFromThread s \<or> length (dir_name d @ name @ ''/'') \<le> name_capacity"
  defines "ino \<equiv> next_ino s"
  defines "path \<equiv> dir_name d @ name @ ''/''"
  defines "s1 \<equiv> modINode ino Lookup (modINode ino (set_Directory (\<lambda>d. setDirName path (setParent parent d)))
      (modINode parent AddHardLink (updateChildOf parent name ino
        (register_in (registered_inode ev DIRECTORY ino (S_IFDIR OR mode_0777) 2 (proc_gid ev) (proc_uid ev)) s))))"
  shows "FuseMkdir ev parent name s =
    Inr ((sending (if createDirFromThread s then []
           else send_with_payload CREATE_DIR
             (DirectoryCreationRequest (path @ replicate (name_capacity - length path) NUL))
             (mpiRank s) (mpiWorldSize s))
         (reply (Reply_entry (m_fuseEntryParam (inode_at s1 ino))) s1))
         \<lparr>createDirFromThread := False\<rparr>)"
  using assms(1-5)
  by (auto simp: FuseMkdir_def is_dir_def on_directory_found RegisterINode_eq parent_alive_def Let_def
      s1_def ino_def path_def sendCreateDirectoryRequest_def fill_name_def sending_def)

lemma register_in_old:
  "unat j < n_inodes s \<Longrightarrow> unat j < n_inodes (register_in nd s)"
  by (simp add: n_inodes_register_in)

text \<open>
  \<open>mkdir\<close> of a name in a live directory succeeds: the name leads to a new empty directory with
  two links, one reference and the path of the parent extended by the name; the parent gains a link
  and this one entry; every other inode is unchanged; the kernel gets one reply; the other
  processes are told, unless the call came from them, in which case the flag is cleared.
\<close>

theorem FuseMkdir_creates:
  assumes wf: "fs_wf s" and n: "n_inodes s < 2 ^ 31" and d: "is_dir s parent d"
    and live: "parent \<notin> set (DeletedINodes (INodeManager s))"
    and path: "fill_name (dir_name d @ name @ ''/'') = Inr f"
  shows "\<exists>s'. FuseMkdir ev parent name s = Inr s' \<and>
    (let ino = next_ino s in
      is_dir s' ino \<lparr>dir_name = dir_name d @ name @ ''/'', parentDir = Some parent, m_children = []\<rparr> \<and>
      st_nlink (attr (inode_at s' ino)) = 2 \<and> m_nlookup (inode_at s' ino) = 1 \<and>
      (\<forall>nm. child_of s' parent nm = (if nm = name then ino else child_of s parent nm)) \<and>
      st_nlink (attr (inode_at s' parent)) = st_nlink (attr (inode_at s parent)) + 1 \<and>
      same_outside {parent, ino} s s' \<and>
      replies s' = replies s @ [Reply_entry (m_fuseEntryParam (inode_at s' ino))] \<and>
      sends s' = sends s @ (if createDirFromThread s then [] else
        send_with_payload CREATE_DIR (DirectoryCreationRequest f) (mpiRank s) (mpiWorldSize s)) \<and>
      \<not> createDirFromThread s')"
proof -
  let ?ino = "next_ino s"
  have parent: "unat parent < n_inodes s" "as_Directory (inode_at s parent) = Some d"
    using d by (simp_all add: is_dir_def)
  have ok: "dir_ok d" using fs_wf_dir_ok [OF wf parent] .
  have ne: "parent \<noteq> ?ino" using live_not_next [OF wf n parent(1) live] .
  have n63: "n_inodes s < 2 ^ 63" using n by simp
  note bounds = register_in_old [OF parent(1)] next_ino_bound [OF wf n63]
  note at = inode_at_modINode inode_at_register_in [OF wf n63]
  have len: "length (dir_name d @ name @ ''/'') \<le> name_capacity"
    and f: "f = (dir_name d @ name @ ''/'') @ replicate (name_capacity - length (dir_name d @ name @ ''/'')) NUL"
    using path by (auto simp: fill_name_def split: if_splits)
  show ?thesis
    unfolding FuseMkdir_eq [OF wf n d ne disjI2 [OF len]] f
    using ne parent ok bounds
    by (simp add: Let_def at same_outside_def child_of_def is_dir_def dir.child_assign new_Directory_def setDirName_def
        setParent_def)
qed

theorem FuseMkdir_creates_witness:
  "\<exists>s'. FuseMkdir demo_env 1 ''a'' demo_fs = Inr s' \<and> child_of s' 1 ''a'' = 2"
proof -
  have "fill_name (dir_name \<lparr>dir_name = ''/'', parentDir = parentDir new_Directory, m_children = []\<rparr>
      @ ''a'' @ ''/'') = Inr (''/a/'' @ replicate 253 NUL)"
    using demo_path(1) by simp
  from FuseMkdir_creates [OF demo_fs_facts(1) _ demo_fs_facts(4) _ this, of demo_env]
  show ?thesis
    by (auto simp: Let_def demo_fs_def)
qed

section \<open>create\<close>

lemma sends_if [simp]:
  "(if c then Inr s else Inr (sending m s)) = (Inr (sending (if c then [] else m) s) :: fs_state exec)"
  by (simp add: sending_def)

text \<open>
  \<open>create\<close> in a live directory: the name leads to a new empty regular file with one link and one
  reference, the kernel gets one reply, the other processes are told unless the call came from
  them. A block list that an earlier owner of the inode number left behind stays in place.
\<close>

theorem FuseCreate_creates:
  assumes wf: "fs_wf s" and n: "n_inodes s < 2 ^ 31" and d: "is_dir s parent d"
    and live: "parent \<notin> set (DeletedINodes (INodeManager s))"
    and short: "length name \<le> kMaxFilenameLength"
    and path: "fill_name (dir_name d @ name) = Inr f"
  shows "\<exists>s'. FuseCreate ev parent name flags s = Inr s' \<and>
    (let ino = next_ino s; nd = inode_at s' ino in
      unat ino < n_inodes s' \<and>
      node_class nd = File \<lparr>m_buf = None, isWaitingForDistributedWrite = False\<rparr> \<and>
      st_mode (attr nd) = S_IFREG OR mode_0777 \<and> st_nlink (attr nd) = 1 \<and>
      st_size (attr nd) = 0 \<and> st_blocks (attr nd) = 0 \<and> m_nlookup nd = 1 \<and>
      st_uid (attr nd) = ctx_uid ev \<and> st_gid (attr nd) = ctx_gid ev \<and>
      (\<forall>nm. child_of s' parent nm = (if nm = name then ino else child_of s parent nm)) \<and>
      same_outside {parent, ino} s s' \<and>
      (\<forall>j. block_list (BlocksManager s') j = block_list (BlocksManager s) j) \<and>
      replies s' = replies s @ [Reply_create (m_fuseEntryParam nd)] \<and>
      sends s' = sends s @ (if createFileFromThread s then [] else
        send_with_payload CREATE_FILE (FileCreationRequest f) (mpiRank s) (mpiWorldSize s)) \<and>
      \<not> createFileFromThread s')"
proof -
  let ?ino = "next_ino s"
  have parent: "unat parent < n_inodes s" "as_Directory (inode_at s parent) = Some d"
    using d by (simp_all add: is_dir_def)
  have ok: "dir_ok d" using fs_wf_dir_ok [OF wf parent] .
  have ne: "parent \<noteq> ?ino" using live_not_next [OF wf n parent(1) live] .
  have n63: "n_inodes s < 2 ^ 63" using n by simp
  note bounds = register_in_old [OF parent(1)] next_ino_bound [OF wf n63]
  note at = inode_at_modINode inode_at_register_in [OF wf n63]
  show ?thesis
    using wf n ne parent ok bounds path short
    by (simp add: FuseCreate_def on_directory_found RegisterINode_eq parent_alive_def Let_def
        sendCreateFileRequest_def at same_outside_def child_of_def dir.child_assign
        createEmptyBlockList_keeps new_File_def zero_stat_def as_File_def)
qed

theorem FuseCreate_creates_witness:
  "\<exists>s'. FuseCreate demo_env 1 ''a'' 0 demo_fs = Inr s' \<and> child_of s' 1 ''a'' = 2"
proof -
  have "fill_name (dir_name \<lparr>dir_name = ''/'', parentDir = parentDir new_Directory, m_children = []\<rparr>
      @ ''a'') = Inr (''/a'' @ replicate 254 NUL)"
    using demo_path(2) by simp
  from FuseCreate_creates [OF demo_fs_facts(1) _ demo_fs_facts(4) _ _ this, of demo_env 0]
  show ?thesis
    by (auto simp: Let_def demo_fs_def kMaxFilenameLength_def)
qed

section \<open>symlink\<close>

text \<open>
  \<open>symlink\<close> in a live directory: the name leads to a new symbolic link whose target is the given
  string, so that \<open>readlink\<close> on the new inode returns it.
\<close>

theorem FuseSymlink_creates:
  assumes wf: "fs_wf s" and n: "n_inodes s < 2 ^ 31" and d: "is_dir s parent d"
    and live: "parent \<notin> set (DeletedINodes (INodeManager s))"
  shows "\<exists>s'. FuseSymlink ev link parent name s = Inr s' \<and>
    (let ino = next_ino s in
      unat ino < n_inodes s' \<and> as_SymbolicLink (inode_at s' ino) = Some link \<and>
      (\<forall>nm. child_of s' parent nm = (if nm = name then ino else child_of s parent nm)) \<and>
      same_outside {parent, ino} s s' \<and>
      replies s' = replies s @ [Reply_entry (m_fuseEntryParam (inode_at s' ino))] \<and>
      sends s' = sends s)"
proof -
  let ?ino = "next_ino s"
  have parent: "unat parent < n_inodes s" "as_Directory (inode_at s parent) = Some d"
    using d by (simp_all add: is_dir_def)
  have ok: "dir_ok d" using fs_wf_dir_ok [OF wf parent] .
  have ne: "parent \<noteq> ?ino" using live_not_next [OF wf n parent(1) live] .
  have n63: "n_inodes s < 2 ^ 63" using n by simp
  note bounds = register_in_old [OF parent(1)] next_ino_bound [OF wf n63]
  note at = inode_at_modINode inode_at_register_in [OF wf n63]
  show ?thesis
    using wf n ne parent ok bounds
    by (simp add: FuseSymlink_def on_directory_found RegisterINode_eq parent_alive_def Let_def
        at same_outside_def child_of_def dir.child_assign as_SymbolicLink_def)
qed

theorem FuseSymlink_creates_witness:
  "\<exists>s'. FuseSymlink demo_env ''/a'' 1 ''l'' demo_fs = Inr s' \<and>
     as_SymbolicLink (inode_at s' 2) = Some ''/a''"
  using FuseSymlink_creates [OF demo_fs_facts(1) _ demo_fs_facts(4), of demo_env "''/a''" "''l''"]
  by (auto simp: Let_def demo_fs_def)

end
