(* ===== verification/FsTreeSpec.thy ===== *)
theory FsTreeSpec
  imports FsNamespaceSpec
begin

text \<open>
  What the handlers that change existing entries do on a well-formed state: \<open>mknod\<close>, \<open>unlink\<close>,
  \<open>rmdir\<close>, \<open>rename\<close>, \<open>link\<close>, \<open>lookup\<close> and \<open>forget\<close>.
\<close>

section \<open>Entries after a change of one directory\<close>

lemma child_ofI: "is_dir s p d \<Longrightarrow> child_of s p nm = ChildINodeNumberWithName d nm"
  by (simp add: child_of_def is_dir_def)

lemma child_of_simps [simp]:
  "child_of (reply r s) = child_of s" "child_of (sending m s) = child_of s"
  "child_of (s\<lparr>deleteFileFromThread := x\<rparr>) = child_of s"
  "child_of (s\<lparr>deleteDirFromThread := x\<rparr>) = child_of s"
  "child_of (s\<lparr>renameFromThread := x\<rparr>) = child_of s"
  "child_of (s\<lparr>m_reclaimingINodes := b\<rparr>) = child_of s"
  by (simp_all add: child_of_def fun_eq_iff)

lemma queued_simps [simp]:
  "INodes ns = INodes (INodeManager s) \<Longrightarrow>
     inode_at (s\<lparr>INodeManager := DeleteINode ns ino\<rparr>) = inode_at s"
  "INodes ns = INodes (INodeManager s) \<Longrightarrow>
     child_of (s\<lparr>INodeManager := DeleteINode ns ino\<rparr>) = child_of s"
  "DeletedINodes (DeleteINode ns ino) = DeletedINodes ns @ [ino]"
  by (simp_all add: child_of_def fun_eq_iff inode_at_def DeleteINode_def)

lemma child_of_same [simp]:
  "unat ino < n_inodes s \<Longrightarrow> (\<And>nd. as_Directory (g nd) = as_Directory nd) \<Longrightarrow>
     child_of (modINode ino g s) = child_of s"
  by (simp add: child_of_def inode_at_modINode fun_eq_iff)

lemma child_of_update:
  "unat p < n_inodes s \<Longrightarrow> as_Directory (inode_at s p) = Some d \<Longrightarrow> dir_ok d \<Longrightarrow>
     child_of (updateChildOf p nm ino s) q nm' =
       (if q = p \<and> nm' = nm then ino else child_of s q nm')"
  by (simp add: child_of_def inode_at_modINode dir.child_assign)

lemma child_of_delete:
  "unat p < n_inodes s \<Longrightarrow> as_Directory (inode_at s p) = Some d \<Longrightarrow> dir_ok d \<Longrightarrow>
     child_of (deleteChildOf p nm s) q nm' =
       (if q = p \<and> nm' = nm then -1 else child_of s q nm')"
  by (simp add: child_of_def inode_at_modINode dir.child_remove)

lemma demo_root_dir:
  "is_dir demo_tree 1 \<lparr>dir_name = ''/'', parentDir = None, m_children = [(''d'', 2), (''f'', 3)]\<rparr>"
  by (simp add: is_dir_def cast_iff)

lemma demo_d_dir: "is_dir demo_tree 2 \<lparr>dir_name = ''/d/'', parentDir = Some 1, m_children = []\<rparr>"
  by (simp add: is_dir_def cast_iff)

lemma demo_entries:
  "child_of demo_tree 1 nm = (if nm = ''d'' then 2 else if nm = ''f'' then 3 else -1)"
  "child_of demo_tree 2 nm = -1"
  by (simp_all add: child_ofI [OF demo_root_dir] child_ofI [OF demo_d_dir]
      ChildINodeNumberWithName_def map_find_def)

lemma demo_file_path:
  "fill_name (dir_name \<lparr>dir_name = ''/'', parentDir = None, m_children = [(''d'', 2), (''f'', 3)]\<rparr>
     @ ''f'') = Inr (''/f'' @ replicate 254 NUL)"
  by (simp add: fill_name_def name_capacity_def)

section \<open>unlink\<close>

lemma FuseUnlink_eq:
  assumes "fs_wf s" and "n_inodes s < 2 ^ 31" and d: "is_dir s parent d"
    and "child_of s parent name = ino" and "ino \<noteq> -1"
    and "deleteFileFromThread s \<or> fill_name (dir_name d @ name) = Inr f"
  shows "unat ino < n_inodes s \<and> FuseUnlink parent name s =
    Inr ((sending (if deleteFileFromThread s then []
        else send_with_payload DELETE_FILE (FileDeletionRequest f) (mpiRank s) (mpiWorldSize s))
      (reply_err ESUCCESS (deleteChildOf parent name (modINode ino RemoveHardLink s))))
      \<lparr>deleteFileFromThread := False\<rparr>)"
proof -
  have parent: "unat parent < n_inodes s" "as_Directory (inode_at s parent) = Some d"
    using d by (simp_all add: is_dir_def)
  have entry: "ChildINodeNumberWithName d name = ino" using assms(4) by (simp add: child_ofI [OF d])
  have ino: "unat ino < n_inodes s" using fs_wf_child [OF assms(1) parent] entry assms(5) by blast
  then show ?thesis
    using assms(2,5,6) parent entry
    by (auto simp: FuseUnlink_def on_directory_found getINode_total Let_def
        sendDeleteFileRequest_def sending_def)
qed

text \<open>
  \<open>unlink\<close> of a present name: the entry goes, every other entry of every directory stays, the
  inode stays in the vector with one link less (marked for deletion when that was the last one),
  the kernel gets the one reply 0, and the others are told the path unless the call came from them.
\<close>

theorem FuseUnlink_removes:
  assumes wf: "fs_wf s" and n: "n_inodes s < 2 ^ 31" and d: "is_dir s parent d"
    and child: "child_of s parent name = ino" "ino \<noteq> -1"
    and path: "fill_name (dir_name d @ name) = Inr f"
  shows "\<exists>s'. FuseUnlink parent name s = Inr s' \<and>
    (\<forall>p nm. child_of s' p nm = (if p = parent \<and> nm = name then -1 else child_of s p nm)) \<and>
    same_outside {parent, ino} s s' \<and> n_inodes s' = n_inodes s \<and>
    st_nlink (attr (inode_at s' ino)) = st_nlink (attr (inode_at s ino)) - 1 \<and>
    (st_nlink (attr (inode_at s ino)) = 1 \<longrightarrow> ino \<noteq> parent \<longrightarrow> markedForDeletion (inode_at s' ino)) \<and>
    replies s' = replies s @ [Reply_err ESUCCESS] \<and>
    sends s' = sends s @ (if deleteFileFromThread s then [] else
      send_with_payload DELETE_FILE (FileDeletionRequest f) (mpiRank s) (mpiWorldSize s)) \<and>
    \<not> deleteFileFromThread s'"
proof -
  have parent: "unat parent < n_inodes s" "as_Directory (inode_at s parent) = Some d"
    using d by (simp_all add: is_dir_def)
  have ok: "dir_ok d" using fs_wf_dir_ok [OF wf parent] .
  note ops = FuseUnlink_eq [OF wf n d child disjI2 [OF path]]
  show ?thesis
    using ops parent ok
    by (simp add: child_of_delete inode_at_modINode same_outside_def RemoveHardLink_marks)
qed

theorem FuseUnlink_removes_witness:
  "\<exists>s'. FuseUnlink 1 ''f'' demo_tree = Inr s' \<and> child_of s' 1 ''f'' = -1 \<and>
     child_of s' 1 ''d'' = 2 \<and> markedForDeletion (inode_at s' 3)"
  using FuseUnlink_removes [of demo_tree 1 _ "''f''" 3, OF fs_wf_demo_tree _ demo_root_dir
      _ _ demo_file_path]
  by (auto simp: demo_entries)

text \<open>
  C39. The flag that marks an \<open>unlink\<close> as coming from another process survives a failing one: after
  a failed \<open>unlink\<close> from the receiver thread, the next successful \<open>unlink\<close>, whoever asked for it, is
  not sent to the other processes, whose trees keep the entry.
\<close>

theorem FuseUnlink_stale_flag:
  assumes wf: "fs_wf s" and n: "n_inodes s < 2 ^ 31"
    and flag: "deleteFileFromThread s"
    and d: "is_dir s parent d" and absent: "child_of s parent name = -1"
    and d': "is_dir s parent' d'" and child: "child_of s parent' name' = ino" "ino \<noteq> -1"
  shows "\<exists>s1 s2. FuseUnlink parent name s = Inr s1 \<and> FuseUnlink parent' name' s1 = Inr s2 \<and>
    child_of s2 parent' name' = -1 \<and> sends s2 = sends s \<and>
    replies s2 = replies s @ [Reply_err ENOENT, Reply_err ESUCCESS] \<and> \<not> deleteFileFromThread s2"
proof -
  let ?s1 = "reply_err ENOENT s"
  have 1: "FuseUnlink parent name s = Inr ?s1"
    using d absent by (simp add: FuseUnlink_def is_dir_def child_of_def on_directory_found [OF n])
  have s1: "fs_wf ?s1" "n_inodes ?s1 < 2 ^ 31" "is_dir ?s1 parent' d'" "child_of ?s1 parent' name' = ino"
    "deleteFileFromThread ?s1"
    using wf n d' child flag by (simp_all add: is_dir_def)
  have parent': "unat parent' < n_inodes s" "as_Directory (inode_at s parent') = Some d'"
    using d' by (simp_all add: is_dir_def)
  have ok: "dir_ok d'" using fs_wf_dir_ok [OF wf parent'] .
  note 2 = FuseUnlink_eq [OF s1(1-4) child(2) disjI1 [OF s1(5)]]
  have "as_Directory (inode_at (modINode ino RemoveHardLink ?s1) parent') = Some d'"
    using 2 parent' by (auto simp: inode_at_modINode)
  then show ?thesis
    using 1 2 flag parent' ok by (simp add: child_of_delete [where d = d'])
qed

theorem FuseUnlink_stale_flag_witness:
  "\<exists>s1 s2. FuseUnlink 1 ''x'' (demo_tree\<lparr>deleteFileFromThread := True\<rparr>) = Inr s1 \<and>
     FuseUnlink 1 ''f'' s1 = Inr s2 \<and> sends s2 = []"
  using FuseUnlink_stale_flag [of "demo_tree\<lparr>deleteFileFromThread := True\<rparr>" 1 _ "''x''" 1 _ "''f''" 3]
    demo_root_dir
  by (auto simp: demo_entries is_dir_def)

section \<open>rmdir\<close>

text \<open>
  \<open>rmdir\<close> of an empty directory: the entry goes, the directory is left with no links and marked
  for deletion, the parent loses the link that the child held, nothing else changes, the kernel
  gets the one reply 0, and the others are told the path unless the call came from them.
\<close>

theorem FuseRmdir_removes:
  assumes wf: "fs_wf s" and n: "n_inodes s < 2 ^ 31" and d: "is_dir s parent d"
    and child: "child_of s parent name = ino" "ino \<noteq> -1" "ino \<noteq> parent"
    and c: "is_dir s ino c" "\<not> hasChildren c"
    and links: "st_nlink (attr (inode_at s ino)) \<noteq> 0"
    and path: "fill_name (dir_name c) = Inr f"
  shows "\<exists>s'. FuseRmdir parent name s = Inr s' \<and>
    (\<forall>p nm. child_of s' p nm = (if p = parent \<and> nm = name then -1 else child_of s p nm)) \<and>
    same_outside {parent, ino} s s' \<and> n_inodes s' = n_inodes s \<and>
    HasNoLinks (inode_at s' ino) \<and> markedForDeletion (inode_at s' ino) \<and>
    st_nlink (attr (inode_at s' parent)) = st_nlink (attr (inode_at s parent)) - 1 \<and>
    replies s' = replies s @ [Reply_err ESUCCESS] \<and>
    sends s' = sends s @ (if deleteDirFromThread s then [] else
      send_with_payload DELETE_DIR (DirectoryDeletionRequest f) (mpiRank s) (mpiWorldSize s)) \<and>
    \<not> deleteDirFromThread s'"
proof -
  have parent: "unat parent < n_inodes s" "as_Directory (inode_at s parent) = Some d"
    using d by (simp_all add: is_dir_def)
  have ok: "dir_ok d" using fs_wf_dir_ok [OF wf parent] .
  have entry: "ChildINodeNumberWithName d name = ino" using child(1) by (simp add: child_ofI [OF d])
  have ino: "unat ino < n_inodes s" "as_Directory (inode_at s ino) = Some c"
    using c(1) by (simp_all add: is_dir_def)
  note ops = n parent ok entry ino
  have "FuseRmdir parent name s = Inr ((sending (if deleteDirFromThread s then [] else
        send_with_payload DELETE_DIR (DirectoryDeletionRequest f) (mpiRank s) (mpiWorldSize s))
      (reply_err ESUCCESS (deleteChildOf parent name
        (modINode ino RemoveAllHardLinks (modINode parent RemoveHardLink s)))))
      \<lparr>deleteDirFromThread := False\<rparr>)"
    using ops child c path
    by (simp add: FuseRmdir_def on_directory_found getINode_total Let_def
        sendDeleteDirectoryRequest_def sending_def)
  then show ?thesis
    using ops child links
    by (simp add: child_of_delete inode_at_modINode same_outside_def RemoveAllHardLinks_spec
        HasNoLinks_def)
qed

theorem FuseRmdir_removes_witness:
  "\<exists>s'. FuseRmdir 1 ''d'' demo_tree = Inr s' \<and> child_of s' 1 ''d'' = -1 \<and>
     HasNoLinks (inode_at s' 2) \<and> st_nlink (attr (inode_at s' 1)) = 2"
proof -
  have "fill_name (dir_name \<lparr>dir_name = ''/d/'', parentDir = Some 1, m_children = []\<rparr>) =
      Inr (''/d/'' @ replicate 253 NUL)"
    by (simp add: fill_name_def name_capacity_def)
  from FuseRmdir_removes [of demo_tree 1 _ "''d''" 2, OF fs_wf_demo_tree _ demo_root_dir
      _ _ _ demo_d_dir _ _ this]
  show ?thesis by (auto simp: demo_entries hasChildren_def)
qed

text \<open>
  Every failing \<open>rmdir\<close> gives exactly one error reply and changes nothing else: \<open>ENOENT\<close> for a
  missing parent or name, \<open>EISDIR\<close> for a parent or a child that is not a directory, \<open>EPERM\<close> for a
  directory that still has entries.
\<close>

theorem FuseRmdir_fails:
  assumes n: "n_inodes s < 2 ^ 31" and wf: "fs_wf s"
  shows "(n_inodes s \<le> unat parent \<longrightarrow> FuseRmdir parent name s = Inr (reply_err ENOENT s)) \<and>
    (unat parent < n_inodes s \<and> (\<forall>d. \<not> is_dir s parent d) \<longrightarrow>
       FuseRmdir parent name s = Inr (reply_err EISDIR s)) \<and>
    (\<forall>d. is_dir s parent d \<longrightarrow>
       (child_of s parent name = -1 \<longrightarrow> FuseRmdir parent name s = Inr (reply_err ENOENT s)) \<and>
       (child_of s parent name \<noteq> -1 \<and> (\<forall>c. \<not> is_dir s (child_of s parent name) c) \<longrightarrow>
          FuseRmdir parent name s = Inr (reply_err EISDIR s)) \<and>
       (child_of s parent name \<noteq> -1 \<and>
          (\<exists>c. is_dir s (child_of s parent name) c \<and> hasChildren c) \<longrightarrow>
          FuseRmdir parent name s = Inr (reply_err EPERM s)))"
proof (intro conjI allI impI)
  assume "n_inodes s \<le> unat parent"
  then show "FuseRmdir parent name s = Inr (reply_err ENOENT s)"
    by (simp add: FuseRmdir_def on_directory_absent [OF n])
next
  assume "unat parent < n_inodes s \<and> (\<forall>d. \<not> is_dir s parent d)"
  then show "FuseRmdir parent name s = Inr (reply_err EISDIR s)"
    by (auto simp: FuseRmdir_def is_dir_def on_directory_other [OF n])
next
  fix d assume "is_dir s parent d" and "child_of s parent name = -1"
  then show "FuseRmdir parent name s = Inr (reply_err ENOENT s)"
    by (simp add: FuseRmdir_def is_dir_def child_of_def on_directory_found [OF n])
next
  fix d assume d: "is_dir s parent d"
    and c: "child_of s parent name \<noteq> -1 \<and> (\<forall>c. \<not> is_dir s (child_of s parent name) c)"
  then have parent: "unat parent < n_inodes s" "as_Directory (inode_at s parent) = Some d"
    by (simp_all add: is_dir_def)
  with c show "FuseRmdir parent name s = Inr (reply_err EISDIR s)"
    using fs_wf_child [OF wf parent, of name]
    by (auto simp: FuseRmdir_def is_dir_def child_of_def on_directory_found [OF n] getINode_total
        split: option.splits)
next
  fix d assume d: "is_dir s parent d"
    and "child_of s parent name \<noteq> -1 \<and> (\<exists>c. is_dir s (child_of s parent name) c \<and> hasChildren c)"
  then show "FuseRmdir parent name s = Inr (reply_err EPERM s)"
    by (auto simp: FuseRmdir_def is_dir_def child_of_def on_directory_found [OF n] getINode_total)
qed

theorem FuseRmdir_fails_witness:
  "FuseRmdir 1 ''x'' demo_tree = Inr (reply_err ENOENT demo_tree) \<and>
   FuseRmdir 1 ''f'' demo_tree = Inr (reply_err EISDIR demo_tree) \<and>
   FuseRmdir 9 ''f'' demo_tree = Inr (reply_err ENOENT demo_tree)"
proof -
  have "\<not> is_dir demo_tree 3 c" for c by (simp add: is_dir_def cast_iff)
  then show ?thesis
    using FuseRmdir_fails [of demo_tree 1 "''x''"] FuseRmdir_fails [of demo_tree 1 "''f''"]
      FuseRmdir_fails [of demo_tree 9 "''f''"] demo_root_dir
    by (auto simp: demo_entries)
qed

section \<open>rename\<close>

text \<open>
  \<open>rename\<close> moves the entry: afterwards the old name is gone and the new name leads to the
  inode, with the removal of the old name winning when both are the same entry; every other entry
  stays. A replaced target keeps its link count (only the two directories change, and only when
  the target is a directory is a link taken from the old parent and given to the new one).
\<close>

theorem FuseRename_moves:
  assumes wf: "fs_wf s" and n: "n_inodes s < 2 ^ 31"
    and d: "is_dir s parent d" and e: "is_dir s newparent e"
    and child: "child_of s parent name = ino" "ino \<noteq> -1"
    and old: "fill_name (dir_name d @ name) = Inr f" and new: "fill_name (dir_name e @ newname) = Inr g"
  shows "\<exists>s'. FuseRename parent name newparent newname s = Inr s' \<and>
    (\<forall>p nm. child_of s' p nm =
       (if p = parent \<and> nm = name then -1
        else if p = newparent \<and> nm = newname then ino else child_of s p nm)) \<and>
    same_outside {parent, newparent} s s' \<and> n_inodes s' = n_inodes s \<and>
    (parent \<noteq> newparent \<longrightarrow>
       st_nlink (attr (inode_at s' parent)) = st_nlink (attr (inode_at s parent)) -
         (if \<exists>c. child_of s newparent newname \<notin> {-1, 0} \<and> is_dir s (child_of s newparent newname) c
          then 1 else 0)) \<and>
    replies s' = replies s @ [Reply_err ESUCCESS] \<and>
    sends s' = sends s @ (if renameFromThread s then [] else
      send_with_payload RENAME (RenameRequest f g) (mpiRank s) (mpiWorldSize s)) \<and>
    \<not> renameFromThread s'"
proof -
  have parent: "unat parent < n_inodes s" "as_Directory (inode_at s parent) = Some d"
    and newparent: "unat newparent < n_inodes s" "as_Directory (inode_at s newparent) = Some e"
    using d e by (simp_all add: is_dir_def)
  have okd: "dir_ok d" using fs_wf_dir_ok [OF wf parent] .
  have oke: "dir_ok e" using fs_wf_dir_ok [OF wf newparent] .
  have entry: "ChildINodeNumberWithName d name = ino" using child(1) by (simp add: child_ofI [OF d])
  let ?x = "ChildINodeNumberWithName e newname"
  have x: "?x \<noteq> -1 \<Longrightarrow> unat ?x < n_inodes s" using fs_wf_child [OF wf newparent] .
  define c where "c \<longleftrightarrow> ?x \<noteq> -1 \<and> ?x \<noteq> 0 \<and> as_Directory (inode_at s ?x) \<noteq> None"
  define s1 where "s1 = (if c then modINode newparent AddHardLink (modINode parent RemoveHardLink s) else s)"
  have gt: "0 < ?x \<longleftrightarrow> ?x \<noteq> 0" by (simp add: word_gt_0)
  have s1: "n_inodes s1 = n_inodes s" "replies s1 = replies s" "sends s1 = sends s"
    "renameFromThread s1 = renameFromThread s" "mpiRank s1 = mpiRank s" "mpiWorldSize s1 = mpiWorldSize s"
    "child_of s1 = child_of s"
    using parent newparent by (simp_all add: s1_def)
  have at1: "as_Directory (inode_at s1 j) = as_Directory (inode_at s j)" for j
    using parent newparent by (simp add: s1_def inode_at_modINode)
  have eq: "FuseRename parent name newparent newname s =
      (let s3 = reply_err ESUCCESS (deleteChildOf parent name (updateChildOf newparent newname ino s1))
       in if renameFromThread s then Inr (s3\<lparr>renameFromThread := False\<rparr>)
          else Inr (sending (send_with_payload RENAME (RenameRequest f g) (mpiRank s) (mpiWorldSize s)) s3))"
    using n parent newparent entry child(2) x old new
    by (simp add: FuseRename_def on_directory_found getINode_total Let_def sendRenameRequest_def
        gt s1_def c_def)
  obtain d' where d': "as_Directory (inode_at (updateChildOf newparent newname ino s1) parent) = Some d'"
    "dir_ok d'"
    using parent newparent okd oke s1(1) at1 dir.valid_assign [OF oke]
    by (cases "parent = newparent") (simp_all add: inode_at_modINode)
  have e1: "as_Directory (inode_at s1 newparent) = Some e"
    "unat newparent < n_inodes s1" "unat parent < n_inodes s1"
    using newparent parent at1 s1(1) by simp_all
  let ?s2 = "deleteChildOf parent name (updateChildOf newparent newname ino s1)"
  have entries: "child_of ?s2 p nm = (if p = parent \<and> nm = name then -1
      else if p = newparent \<and> nm = newname then ino else child_of s p nm)" for p nm
    using e1 d' by (simp add: child_of_delete child_of_update [OF e1(2) e1(1) oke] s1(7))
  have others: "same_outside {parent, newparent} s ?s2"
    using e1 parent newparent by (simp add: same_outside_def inode_at_modINode s1_def)
  have links: "st_nlink (attr (inode_at ?s2 parent)) =
      st_nlink (attr (inode_at s parent)) - (if c then 1 else 0)" if "parent \<noteq> newparent"
    using e1 parent newparent that by (simp add: inode_at_modINode s1_def)
  have cond: "(\<exists>c. child_of s newparent newname \<notin> {-1, 0} \<and> is_dir s (child_of s newparent newname) c) \<longleftrightarrow> c"
    using x by (auto simp: c_def child_ofI [OF e] is_dir_def)
  show ?thesis
    unfolding eq Let_def cond
    using entries others links s1
    by (cases "renameFromThread s") (simp_all add: same_outside_def)
qed


theorem FuseRename_moves_witness:
  "\<exists>s'. FuseRename 1 ''f'' 2 ''g'' demo_tree = Inr s' \<and> child_of s' 1 ''f'' = -1 \<and>
     child_of s' 2 ''g'' = 3 \<and> child_of s' 1 ''d'' = 2"
proof -
  have "fill_name (dir_name \<lparr>dir_name = ''/d/'', parentDir = Some 1, m_children = []\<rparr> @ ''g'') =
      Inr (''/d/g'' @ replicate 252 NUL)"
    by (simp add: fill_name_def name_capacity_def)
  from FuseRename_moves [of demo_tree 1 _ 2 _ "''f''" 3, OF fs_wf_demo_tree _ demo_root_dir demo_d_dir
      _ _ demo_file_path this]
  show ?thesis by (auto simp: demo_entries)
qed

section \<open>link\<close>

text \<open>
  \<open>link\<close> to an existing inode stores the entry, adds one link and one reference and sends the
  entry to the kernel, whether or not the name was taken: a taken name only adds an \<open>EEXIST\<close> reply
  in front, so the same request is answered twice, and its entry is replaced although the inode it
  led to keeps its link count.
\<close>

theorem FuseLink_links:
  assumes wf: "fs_wf s" and n: "n_inodes s < 2 ^ 31" and e: "is_dir s newparent e"
    and ino: "unat ino < n_inodes s"
  shows "\<exists>s'. FuseLink ino newparent newname s = Inr s' \<and>
    (\<forall>p nm. child_of s' p nm = (if p = newparent \<and> nm = newname then ino else child_of s p nm)) \<and>
    same_outside {newparent, ino} s s' \<and>
    st_nlink (attr (inode_at s' ino)) = st_nlink (attr (inode_at s ino)) + 1 \<and>
    m_nlookup (inode_at s' ino) = m_nlookup (inode_at s ino) + 1 \<and>
    replies s' = replies s @
      (if child_of s newparent newname \<in> {-1, 0} then [] else [Reply_err EEXIST]) @
      [Reply_entry (m_fuseEntryParam (inode_at s' ino))] \<and>
    sends s' = sends s"
proof -
  have newparent: "unat newparent < n_inodes s" "as_Directory (inode_at s newparent) = Some e"
    using e by (simp_all add: is_dir_def)
  have ok: "dir_ok e" using fs_wf_dir_ok [OF wf newparent] .
  let ?x = "ChildINodeNumberWithName e newname"
  let ?r = "if ?x \<in> {-1, 0} then [] else [Reply_err EEXIST]"
  let ?s2 = "modINode ino Lookup (modINode ino AddHardLink (updateChildOf newparent newname ino
    (if ?x \<in> {-1, 0} then s else reply_err EEXIST s)))"
  have "FuseLink ino newparent newname s =
      Inr (reply (Reply_entry (m_fuseEntryParam (inode_at ?s2 ino))) ?s2)"
    using n newparent ino
    by (simp add: FuseLink_def on_directory_found no_such_ino_iff getINode_total Let_def word_gt_0)
  then show ?thesis
    using newparent ino ok
    by (simp add: inode_at_modINode same_outside_def child_of_update child_ofI [OF e])
qed

theorem FuseLink_links_witness:
  "\<exists>s'. FuseLink 3 1 ''d'' demo_tree = Inr s' \<and> child_of s' 1 ''d'' = 3 \<and>
     replies s' = [Reply_err EEXIST, Reply_entry (m_fuseEntryParam (inode_at s' 3))]"
  using FuseLink_links [of demo_tree 1 _ 3 "''d''", OF fs_wf_demo_tree _ demo_root_dir]
  by (auto simp: demo_entries)

section \<open>lookup and forget\<close>

text \<open>
  \<open>lookup\<close> of a present name answers with its inode's entry and counts one reference on it;
  of an absent name, or in something that is not a directory, it answers \<open>ENOENT\<close> and changes
  nothing.
\<close>

theorem FuseLookup_counts:
  assumes wf: "fs_wf s" and n: "n_inodes s < 2 ^ 31"
  shows "(child_of s parent name = -1 \<or> n_inodes s \<le> unat parent \<longrightarrow>
      FuseLookup parent name s = Inr (reply_err ENOENT s)) \<and>
    (unat parent < n_inodes s \<longrightarrow> child_of s parent name = ino \<longrightarrow> ino \<noteq> -1 \<longrightarrow>
      (\<exists>s'. FuseLookup parent name s = Inr s' \<and>
        e_ino (m_fuseEntryParam (inode_at s' ino)) = ino \<and>
        replies s' = replies s @ [Reply_entry (m_fuseEntryParam (inode_at s' ino))] \<and>
        inode_at s' ino = Lookup (inode_at s ino) \<and> same_outside {ino} s s' \<and>
        child_of s' = child_of s \<and> sends s' = sends s))"
proof (intro conjI impI)
  assume "child_of s parent name = -1 \<or> n_inodes s \<le> unat parent"
  then show "FuseLookup parent name s = Inr (reply_err ENOENT s)"
    by (cases "n_inodes s \<le> unat parent"; cases "as_Directory (inode_at s parent)")
      (auto simp: FuseLookup_def on_directory_absent [OF n] on_directory_other [OF n]
        on_directory_found [OF n] child_of_def)
next
  assume parent: "unat parent < n_inodes s" and child: "child_of s parent name = ino" "ino \<noteq> -1"
  then obtain d where d: "as_Directory (inode_at s parent) = Some d"
    "ChildINodeNumberWithName d name = ino"
    by (auto simp: child_of_def split: option.splits)
  have ino: "unat ino < n_inodes s" using fs_wf_child [OF wf parent d(1)] d(2) child(2) by blast
  have num: "e_ino (m_fuseEntryParam (inode_at s ino)) = ino"
    using wf ino by (simp add: fs_wf_def nodes_wf_def n_inodes_def inode_at_def)
  show "\<exists>s'. FuseLookup parent name s = Inr s' \<and>
        e_ino (m_fuseEntryParam (inode_at s' ino)) = ino \<and>
        replies s' = replies s @ [Reply_entry (m_fuseEntryParam (inode_at s' ino))] \<and>
        inode_at s' ino = Lookup (inode_at s ino) \<and> same_outside {ino} s s' \<and>
        child_of s' = child_of s \<and> sends s' = sends s"
    using parent d ino child(2) num
    by (simp add: FuseLookup_def on_directory_found [OF n] getINode_total Let_def
        inode_at_modINode same_outside_def)
qed

theorem FuseLookup_counts_witness:
  "FuseLookup 1 ''x'' demo_tree = Inr (reply_err ENOENT demo_tree) \<and>
   (\<exists>s'. FuseLookup 1 ''f'' demo_tree = Inr s' \<and> inode_at s' 3 = Lookup demo_file)"
  using FuseLookup_counts [of demo_tree 1 "''x''"] FuseLookup_counts [of demo_tree 1 "''f''" 3]
  by (auto simp: demo_entries)

text \<open>
  C38. \<open>forget\<close> takes references back and answers without a payload; the number is queued for reuse
  exactly when no reference and no link is left, and the reclaiming mode starts exactly when more
  than 256 numbers are queued.
\<close>

theorem FuseForget_reclaims:
  assumes ino: "unat ino < n_inodes s" and q: "length (DeletedINodes (INodeManager s)) < 2 ^ 30"
  shows "\<exists>s'. FuseForget ino k s = Inr s' \<and>
    (let dead = (m_nlookup (inode_at s ino) = k \<and> HasNoLinks (inode_at s ino));
         queue = DeletedINodes (INodeManager s) @ (if dead then [ino] else [])
     in inode_at s' ino = Forget k (inode_at s ino) \<and> same_outside {ino} s s' \<and>
        DeletedINodes (INodeManager s') = queue \<and>
        (m_reclaimingINodes s' \<longleftrightarrow> m_reclaimingINodes s \<or> (dead \<and> length queue > 256)) \<and>
        child_of s' = child_of s \<and>
        replies s' = replies s @ [Reply_none] \<and> sends s' = sends s)"
proof -
  let ?s1 = "modINode ino (Forget k) s"
  let ?dead = "m_nlookup (inode_at s ino) = k \<and> HasNoLinks (inode_at s ino)"
  have threshold: "(kINodeReclamationThreshold <
      (scast (getNumberOfDeletedINodes (DeleteINode (INodeManager ?s1) ino)) :: u64)) \<longleftrightarrow>
      256 < length (DeletedINodes (INodeManager s) @ [ino])"
    using unat_int_count [of "length (DeletedINodes (INodeManager s) @ [ino])"] q
    by (simp add: word_less_nat_alt getNumberOfDeletedINodes_def DeleteINode_def
        kINodeReclamationThreshold_def modINodeAt_def)
  have dead: "Forgotten (inode_at ?s1 ino) \<and> HasNoLinks (inode_at ?s1 ino) \<longleftrightarrow> ?dead"
    using ino by (simp add: Forgotten_def HasNoLinks_def inode_at_modINode)
  have "FuseForget ino k s = Inr (let s1 = reply Reply_none ?s1;
      s2 = s1\<lparr>INodeManager := DeleteINode (INodeManager s1) ino\<rparr>
      in if ?dead then (if 256 < length (DeletedINodes (INodeManager s) @ [ino])
           then s2\<lparr>m_reclaimingINodes := True\<rparr> else s2) else s1)"
    using ino threshold dead by (simp add: FuseForget_def getINode_total Let_def)
  then show ?thesis
    using ino
    by (simp add: Let_def inode_at_modINode same_outside_def) blast
qed

theorem FuseForget_reclaims_witness:
  "(\<exists>s'. FuseForget 3 1 demo_tree = Inr s' \<and> DeletedINodes (INodeManager s') = []) \<and>
   (\<exists>s'. FuseForget 0 0 demo_fs = Inr s' \<and> DeletedINodes (INodeManager s') = [0])"
proof -
  have "st_nlink (attr (inode_at demo_fs 0)) = 0" "m_nlookup (inode_at demo_fs 0) = 0"
    by (simp_all add: demo_fs_def inode_at_def booted_nodes)
  then show ?thesis
    using FuseForget_reclaims [of 3 demo_tree 1] FuseForget_reclaims [of 0 demo_fs 0]
    by (auto simp: Let_def HasNoLinks_def)
qed

section \<open>mknod\<close>

text \<open>
  \<open>mknod\<close> of a regular file or a directory in a live directory creates the node, with the
  caller's user number stored as its group and the group number as its owner; a directory made this
  way has no path recorded and no parent; neither kind is announced to the other processes or gets a
  block list.
\<close>

theorem FuseMknod_creates:
  assumes wf: "fs_wf s" and n: "n_inodes s < 2 ^ 31" and d: "is_dir s parent d"
    and live: "parent \<notin> set (DeletedINodes (INodeManager s))"
    and short: "length name \<le> kMaxFilenameLength" and kind: "S_ISDIR mode \<or> S_ISREG mode"
  shows "\<exists>s'. FuseMknod ev parent name mode s = Inr s' \<and>
    (let ino = next_ino s; nd = inode_at s' ino in
      unat ino < n_inodes s' \<and>
      node_class nd = (if S_ISDIR mode then Directory \<lparr>dir_name = '''', parentDir = None, m_children = []\<rparr>
        else File \<lparr>m_buf = None, isWaitingForDistributedWrite = False\<rparr>) \<and>
      st_gid (attr nd) = ctx_uid ev \<and> st_uid (attr nd) = ctx_gid ev \<and>
      st_nlink (attr nd) = (if S_ISDIR mode then 2 else 1) \<and>
      st_nlink (attr (inode_at s' parent)) =
        st_nlink (attr (inode_at s parent)) + (if S_ISDIR mode then 1 else 0) \<and>
      (\<forall>nm. child_of s' parent nm = (if nm = name then ino else child_of s parent nm)) \<and>
      same_outside {parent, ino} s s' \<and> BlocksManager s' = BlocksManager s \<and>
      replies s' = replies s @ [Reply_entry (m_fuseEntryParam nd)] \<and> sends s' = sends s)"
proof -
  let ?s1 = "if S_ISDIR mode then modINode parent AddHardLink s else s"
  have parent: "unat parent < n_inodes s" "as_Directory (inode_at s parent) = Some d"
    using d by (simp_all add: is_dir_def)
  have ok: "dir_ok d" using fs_wf_dir_ok [OF wf parent] .
  have ne: "parent \<noteq> next_ino s" using live_not_next [OF wf n parent(1) live] .
  have s1: "fs_wf ?s1" "n_inodes ?s1 = n_inodes s" "next_ino ?s1 = next_ino s"
    using wf parent by (auto simp: fs_wf_modINode keeps next_ino_def reclaiming_def)
  then have n1: "n_inodes ?s1 < 2 ^ 63" using n by simp
  have old: "inode_at ?s1 j = (if j = parent \<and> S_ISDIR mode then AddHardLink (inode_at s j) else inode_at s j)"
    for j using parent by (simp add: inode_at_modINode)
  define s1 where "s1 = ?s1"
  note abs = s1 [folded s1_def] n1 [folded s1_def] old [folded s1_def]
  have same: "BlocksManager s1 = BlocksManager s" "replies s1 = replies s" "sends s1 = sends s"
    by (simp_all add: s1_def)
  note bounds = register_in_old [of parent s1] next_ino_bound [OF abs(1) abs(4)]
  note at = inode_at_modINode inode_at_register_in [OF abs(1) abs(4)]
  define t where "t = (if S_ISDIR mode then DIRECTORY else REGULAR_FILE)"
  have "FuseMknod ev parent name mode s =
    (let nd = registered_inode ev t (next_ino s) ((if S_ISDIR mode then S_IFDIR else S_IFREG) OR mode_0777)
            (if S_ISDIR mode then 2 else 1) (ctx_uid ev) (ctx_gid ev);
         s3 = modINode (next_ino s) Lookup (updateChildOf parent name (next_ino s) (register_in nd s1))
     in Inr (reply (Reply_entry (m_fuseEntryParam (inode_at s3 (next_ino s)))) s3))"
    using parent n ne short kind abs RegisterINode_eq [OF abs(1) abs(4)]
    by (cases "S_ISDIR mode")
      (simp_all add: FuseMknod_def on_directory_found parent_alive_def Let_def s1_def t_def)
  then show ?thesis
    using ne parent ok bounds abs(2,3) same
    by (simp add: Let_def at abs(5) same_outside_def child_of_def dir.child_assign t_def
        new_File_def new_Directory_def)
qed

theorem FuseMknod_creates_witness:
  "\<exists>s'. FuseMknod demo_env 2 ''x'' S_IFREG demo_tree = Inr s' \<and> child_of s' 2 ''x'' = 4 \<and>
     st_uid (attr (inode_at s' 4)) = 100 \<and> st_gid (attr (inode_at s' 4)) = 1000"
proof -
  have "next_ino demo_tree = 4" by (simp add: next_ino_def not_reclaiming)
  then show ?thesis
    using FuseMknod_creates [of demo_tree 2 _ "''x''" S_IFREG demo_env, OF fs_wf_demo_tree _ demo_d_dir]
    by (auto simp: Let_def kMaxFilenameLength_def S_ISREG_def demo_env_def)
qed

end
