(* ===== verification/FsMachine.thy ===== *)
theory FsMachine
  imports FileContents FsTreeSpec
begin

text \<open>
  The file system as a machine: the operation table that the constructor of \<open>FileSystem\<close> fills
  (\<^verbatim>\<open>ramfs/FileSystem.cpp\<close>), one kernel request after the other, and what every run of requests
  keeps: the well-formedness of the state, the log of replies and messages, and the limit on the
  number of inodes. The contract of such a machine is the locale \<open>budgeted_machine\<close>.
\<close>

section \<open>Machines whose state grows by at most one per step\<close>

locale budgeted_machine =
  fixes step :: "'op \<Rightarrow> 's \<Rightarrow> 's exec"
    and inv :: "'s \<Rightarrow> bool"
    and size_of :: "'s \<Rightarrow> nat"
    and limit :: nat
    and log_le :: "'s \<Rightarrow> 's \<Rightarrow> bool"
  assumes step_inv: "inv s \<Longrightarrow> size_of s < limit \<Longrightarrow> step x s = Inr s' \<Longrightarrow> inv s'"
    and step_size: "inv s \<Longrightarrow> size_of s < limit \<Longrightarrow> step x s = Inr s' \<Longrightarrow>
          size_of s \<le> size_of s' \<and> size_of s' \<le> Suc (size_of s)"
    and step_log: "inv s \<Longrightarrow> size_of s < limit \<Longrightarrow> step x s = Inr s' \<Longrightarrow> log_le s s'"
    and log_refl: "log_le s s"
    and log_trans: "log_le s t \<Longrightarrow> log_le t u \<Longrightarrow> log_le s u"
begin

lemma run_keeps:
  assumes "inv s" and "size_of s + length ops \<le> limit" and "foldE step ops s = Inr s'"
  shows "inv s' \<and> size_of s \<le> size_of s' \<and> size_of s' \<le> size_of s + length ops \<and> log_le s s'"
  using assms
proof (induction ops arbitrary: s)
  case Nil
  then show ?case by (simp add: log_refl)
next
  case (Cons x ops)
  then obtain s1 where s1: "step x s = Inr s1" "foldE step ops s1 = Inr s'" by auto
  have small: "size_of s < limit" using Cons.prems(2) by simp
  note grows = step_size [OF Cons.prems(1) small s1(1)]
  have "size_of s1 + length ops \<le> limit" using grows Cons.prems(2) by simp
  note IH = Cons.IH [OF step_inv [OF Cons.prems(1) small s1(1)] this s1(2)]
  show ?case
    using IH grows log_trans [OF step_log [OF Cons.prems(1) small s1(1)]] by force
qed

end

section \<open>What an operation may do to a state\<close>

definition grown :: "fs_state \<Rightarrow> fs_state \<Rightarrow> bool" where
  "grown s s' \<longleftrightarrow> fs_wf s' \<and> n_inodes s \<le> n_inodes s' \<and> n_inodes s' \<le> Suc (n_inodes s) \<and>
     (\<exists>rs. replies s' = replies s @ rs) \<and> (\<exists>ms. sends s' = sends s @ ms)"

lemma grown_refl: "fs_wf s \<Longrightarrow> grown s s"
  by (simp add: grown_def)

lemma grown_updates [simp]:
  "grown s t \<Longrightarrow> grown s (reply r t)" "grown s t \<Longrightarrow> grown s (sending ms t)"
  "grown s t \<Longrightarrow> grown s (UpdateUsedBlocks k t)"
  "grown s t \<Longrightarrow> grown s (t\<lparr>BlocksManager := b\<rparr>)"
  "grown s t \<Longrightarrow> grown s (t\<lparr>m_reclaimingINodes := x\<rparr>)"
  "grown s t \<Longrightarrow> grown s (t\<lparr>dirIterators := its\<rparr>)"
  "grown s t \<Longrightarrow> grown s (t\<lparr>createFileFromThread := x\<rparr>)"
  "grown s t \<Longrightarrow> grown s (t\<lparr>deleteFileFromThread := x\<rparr>)"
  "grown s t \<Longrightarrow> grown s (t\<lparr>createDirFromThread := x\<rparr>)"
  "grown s t \<Longrightarrow> grown s (t\<lparr>deleteDirFromThread := x\<rparr>)"
  "grown s t \<Longrightarrow> grown s (t\<lparr>renameFromThread := x\<rparr>)"
  by (auto simp: grown_def)

lemma grown_modINode:
  "grown s t \<Longrightarrow> unat ino < n_inodes t \<Longrightarrow> keeps_node (n_inodes t) g \<Longrightarrow> grown s (modINode ino g t)"
  by (auto simp: grown_def intro: fs_wf_modINode)

lemma grown_modINode_old:
  "grown s t \<Longrightarrow> unat ino < n_inodes s \<Longrightarrow> keeps_node (n_inodes t) g \<Longrightarrow> grown s (modINode ino g t)"
  by (rule grown_modINode) (auto simp: grown_def)

lemma modINode_const:
  "unat ino < n_inodes t \<Longrightarrow>
     modINode ino (\<lambda>_. nd) t = modINode ino (\<lambda>x. if x = inode_at t ino then nd else x) t"
  by (simp add: modINode_def modINodeAt_def inode_at_def)

lemma grown_replace:
  assumes "grown s t" and "unat ino < n_inodes s" and "node_class nd = node_class (inode_at t ino)"
    and "inodeNumber nd = inodeNumber (inode_at t ino)"
    and "m_fuseEntryParam nd = m_fuseEntryParam (inode_at t ino)"
  shows "grown s (modINode ino (\<lambda>_. nd) t)"
proof -
  have t: "unat ino < n_inodes t" using assms(1,2) by (auto simp: grown_def)
  have "keeps_node (n_inodes t) (\<lambda>x. if x = inode_at t ino then nd else x)"
    using assms(3-5) by (simp add: keeps_node_def node_wf_def)
  then show ?thesis
    using grown_modINode [OF assms(1) t] by (simp add: modINode_const [OF t])
qed

lemma grown_DeleteINode:
  "grown s t \<Longrightarrow> unat ino < n_inodes s \<Longrightarrow> ns = INodeManager t \<Longrightarrow>
     grown s (t\<lparr>INodeManager := DeleteINode ns ino\<rparr>)"
  by (auto simp: grown_def fs_wf_def nodes_wf_def n_inodes_def DeleteINode_def)

lemma grown_register:
  assumes "fs_wf s" and "grown s t" and "n_inodes t = n_inodes s" and "n_inodes s < 2 ^ 31"
    and "RegisterINode ev ty m nl g u t = Inr (t1, ino)"
  shows "grown s t1 \<and> unat ino < n_inodes t1 \<and> n_inodes s \<le> n_inodes t1"
proof -
  have wf: "fs_wf t" and n: "n_inodes t < 2 ^ 63" using assms(2-4) by (auto simp: grown_def)
  have t1: "t1 = register_in (registered_inode ev ty (next_ino t) m nl g u) t" and ino: "ino = next_ino t"
    using assms(5) by (auto simp: RegisterINode_eq [OF wf n])
  have "unat ino < n_inodes t1" unfolding t1 ino by (rule next_ino_bound [OF wf n])
  then show ?thesis
    using assms(2,3) fs_wf_registered [OF wf n] by (auto simp: grown_def t1 n_inodes_register_in)
qed

section \<open>A calculus of growth\<close>

text \<open>\<open>grows s m\<close>: if the computation \<open>m\<close> ends, its state is one that \<open>s\<close> may have grown to.\<close>

definition grows :: "fs_state \<Rightarrow> fs_state exec \<Rightarrow> bool" where
  "grows s m \<longleftrightarrow> (\<forall>s'. m = Inr s' \<longrightarrow> grown s s')"

lemma grows_basic:
  "grows s (Inl e)" "grown s t \<Longrightarrow> grows s (Inr t)"
  "(c \<Longrightarrow> grows s a) \<Longrightarrow> (\<not> c \<Longrightarrow> grows s b) \<Longrightarrow> grows s (if c then a else b)"
  by (simp_all add: grows_def)

lemma grows_andThen:
  "(\<And>x. m = Inr x \<Longrightarrow> grows s (k x)) \<Longrightarrow> grows s (andThen m k)"
  by (auto simp: grows_def)

lemma grows_getINode:
  "(unat ino < n_inodes t \<Longrightarrow> grows s (k (inode_at t ino))) \<Longrightarrow> grows s (andThen (getINode t ino) k)"
  by (auto simp: grows_def getINode_iff)

lemma grows_on_directory:
  assumes "fs_wf s"
    and "\<And>d. unat parent < n_inodes s \<Longrightarrow> as_Directory (inode_at s parent) = Some d \<Longrightarrow> grows s (k d)"
  shows "grows s (on_directory parent e s k)"
  using assms by (auto simp: on_directory_def grown_refl intro!: grows_basic grows_getINode split: option.split)

lemma grows_register:
  assumes "fs_wf s" and "grown s t" and "n_inodes t = n_inodes s" and "n_inodes s < 2 ^ 31"
    and "\<And>t1 ino. grown s t1 \<Longrightarrow> unat ino < n_inodes t1 \<Longrightarrow> n_inodes s \<le> n_inodes t1 \<Longrightarrow> grows s (k t1 ino)"
  shows "grows s (andThen (RegisterINode ev ty m nl g u t) (\<lambda>(t1, ino). k t1 ino))"
  using assms(5) grown_register [OF assms(1-4)] by (fastforce simp: grows_def)

lemma grows_parent_alive: "grows s (k ()) \<Longrightarrow> grows s (andThen (parent_alive parent ino) k)"
  by (simp add: parent_alive_def grows_basic)

text \<open>The step that tells the other processes, or does not.\<close>

lemma grows_announce:
  assumes "grown s t" and "\<And>u. grown s u \<Longrightarrow> grows s (k u)"
  shows "grows s (andThen (if c then Inr t else andThen m (\<lambda>msgs. Inr (sending msgs t))) k)"
  using assms grown_updates(2) by (fastforce simp: grows_def)

lemma grows_sent: "grown s t \<Longrightarrow> grows s (andThen m (\<lambda>msgs. Inr (sending msgs t)))"
  by (auto simp: grows_def)

lemma grows_then:
  assumes "grows s m" and "\<And>t. grown s t \<Longrightarrow> n_inodes s \<le> n_inodes t \<Longrightarrow> grows s (k t)"
  shows "grows s (andThen m k)"
proof (cases m)
  case (Inr t)
  with assms(1) have t: "grown s t" by (simp add: grows_def)
  then have "n_inodes s \<le> n_inodes t" by (simp add: grown_def)
  from assms(2) [OF t this] Inr show ?thesis by simp
qed (simp add: grows_def)

lemma grows_pair:
  "(\<And>a b. m = Inr (a, b) \<Longrightarrow> grows s (k a b)) \<Longrightarrow> grows s (andThen m (\<lambda>(a, b). k a b))"
  by (auto simp: grows_def)

lemma grows_option:
  "(x = None \<Longrightarrow> grows s a) \<Longrightarrow> (\<And>y. x = Some y \<Longrightarrow> grows s (b y)) \<Longrightarrow>
     grows s (case x of None \<Rightarrow> a | Some y \<Rightarrow> b y)"
  by (cases x) simp_all

lemmas grows_rules = grows_announce grows_parent_alive grows_register grows_on_directory grows_getINode grows_basic

section \<open>Every handler\<close>

lemma FuseLookup_grows: "fs_wf s \<Longrightarrow> grows s (FuseLookup p nm s)"
  unfolding FuseLookup_def Let_def
  by (intro grows_rules) (simp_all add: grown_refl grown_modINode keeps)

lemma FuseForget_grows: "fs_wf s \<Longrightarrow> grows s (FuseForget ino k s)"
  unfolding FuseForget_def Let_def
  by (intro grows_rules) (simp_all add: grown_refl grown_modINode keeps grown_DeleteINode)

lemma FuseMknod_grows: "fs_wf s \<Longrightarrow> n_inodes s < 2 ^ 31 \<Longrightarrow> grows s (FuseMknod ev p nm mode s)"
  unfolding FuseMknod_def Let_def
  by (cases "S_ISDIR mode"; simp only: if_True if_False prod.case; intro grows_rules;
      simp add: grown_refl grown_modINode keeps)

lemma FuseMkdir_grows: "fs_wf s \<Longrightarrow> n_inodes s < 2 ^ 31 \<Longrightarrow> grows s (FuseMkdir ev p nm s)"
  unfolding FuseMkdir_def Let_def
  by (intro grows_rules) (simp_all add: grown_refl grown_modINode keeps)

lemma FuseSymlink_grows: "fs_wf s \<Longrightarrow> n_inodes s < 2 ^ 31 \<Longrightarrow> grows s (FuseSymlink ev l p nm s)"
  unfolding FuseSymlink_def Let_def
  by (intro grows_rules) (simp_all add: grown_refl grown_modINode keeps)

lemma FuseCreate_grows: "fs_wf s \<Longrightarrow> n_inodes s < 2 ^ 31 \<Longrightarrow> grows s (FuseCreate ev p nm flags s)"
  unfolding FuseCreate_def Let_def
  by (intro grows_rules) (simp_all add: grown_refl grown_modINode keeps)

lemma FuseUnlink_grows: "fs_wf s \<Longrightarrow> grows s (FuseUnlink p nm s)"
  unfolding FuseUnlink_def Let_def
  by (intro grows_rules) (simp_all add: grown_refl grown_modINode keeps)

lemma FuseRmdir_grows: "fs_wf s \<Longrightarrow> grows s (FuseRmdir p nm s)"
  unfolding FuseRmdir_def Let_def
  by (intro grows_rules grows_option) (simp_all add: grown_refl grown_modINode keeps)

lemma grown_move:
  assumes "fs_wf s" and "unat p < n_inodes s" and "as_Directory (inode_at s p) = Some d"
    and "ChildINodeNumberWithName d nm \<noteq> -1" and "grown s t" and "n_inodes s \<le> n_inodes t"
    and "unat q < n_inodes s"
  shows "grown s (deleteChildOf p nm (updateChildOf q nm' (ChildINodeNumberWithName d nm) t))"
proof -
  note child = fs_wf_child [OF assms(1-4)]
  show ?thesis
    using child assms(2,5-7) by (intro grown_modINode keeps) simp_all
qed

lemma FuseRename_grows: "fs_wf s \<Longrightarrow> grows s (FuseRename p nm q nm' s)"
  unfolding FuseRename_def Let_def
  by (intro grows_on_directory grows_basic(2,3) grows_then grows_getINode grows_sent)
    (simp_all add: grown_refl grown_modINode keeps grown_move)

lemma FuseLink_grows: "fs_wf s \<Longrightarrow> grows s (FuseLink ino p nm s)"
  unfolding FuseLink_def Let_def
  by (intro grows_rules) (simp_all add: grown_refl grown_modINode keeps)

lemma SetXAttr_frame:
  "SetXAttr ok nd name val flags pos = Inr (nd', r) \<Longrightarrow>
     node_class nd' = node_class nd \<and> inodeNumber nd' = inodeNumber nd \<and>
     m_fuseEntryParam nd' = m_fuseEntryParam nd"
  by (auto simp: SetXAttr_def Let_def split: if_splits)

lemma RemoveXAttr_frame:
  "RemoveXAttr nd name = (nd', r) \<Longrightarrow>
     node_class nd' = node_class nd \<and> inodeNumber nd' = inodeNumber nd \<and>
     m_fuseEntryParam nd' = m_fuseEntryParam nd"
  by (auto simp: RemoveXAttr_def split: if_splits)

lemma FuseSetXAttr_grows: "fs_wf s \<Longrightarrow> n_inodes s < 2 ^ 31 \<Longrightarrow> grows s (FuseSetXAttr ev ino nm val fl s)"
  unfolding FuseSetXAttr_def Let_def
  by (intro grows_rules grows_andThen)
    (auto simp: grown_refl no_such_ino_iff getINode_iff intro!: grown_updates grown_replace
      grows_basic dest!: SetXAttr_frame)

lemma FuseRemoveXAttr_grows: "fs_wf s \<Longrightarrow> grows s (FuseRemoveXAttr ino nm s)"
  unfolding FuseRemoveXAttr_def
  by (intro grows_rules) (auto simp: grown_refl intro!: grown_updates grown_replace grows_basic
      dest!: RemoveXAttr_frame split: prod.splits)

lemma attribute_calls_grow:
  assumes "fs_wf s"
  shows "grows s (FuseGetAttr ino s)" "grows s (FuseSetAttr ev ino at to_set s)"
    "grows s (FuseReadLink ino s)" "grows s (FuseStatfs ino s)" "grows s (FuseAccess ev ino amask s)"
    "grows s (FuseGetLock ino s)" "grows s (FuseFsync ino s)" "grows s (FuseGetXAttr ino nm sz s)"
    "grows s (FuseListXAttr ev ino sz s)"
  unfolding FuseGetAttr_def FuseSetAttr_def FuseReadLink_def FuseStatfs_def FuseAccess_def FuseGetLock_def
    FuseFsync_def FuseGetXAttr_def FuseListXAttr_def Let_def
  by (intro grows_rules grows_option grows_andThen;
      simp add: assms grown_refl grown_modINode keeps getINode_iff)+

lemma directory_stream_calls_grow:
  assumes "fs_wf s"
  shows "grows s (FuseOpenDir ino s)" "grows s (FuseReleaseDir ino s)" "grows s (FuseFsyncDir ino s)"
    "grows s (FuseReadDir esz ev ino sz pos s)"
  unfolding FuseOpenDir_def FuseReleaseDir_def FuseFsyncDir_def FuseReadDir_def Let_def
  by (intro grows_rules grows_option grows_pair; simp add: assms grown_refl)+

lemma set_buf_grown: "grown s t \<Longrightarrow> unat ino < n_inodes t \<Longrightarrow> grown s (set_buf ino b t)"
  by (simp add: set_buf_def grown_modINode keeps)

lemma n_inodes_set_buf [simp]: "n_inodes (set_buf ino b s) = n_inodes s"
  by (simp add: set_buf_def)

lemma content_calls_grow:
  assumes "fs_wf s"
  shows "grows s (FuseRelease ino s)" "grows s (FuseRead ev ino sz off s)"
    "grows s (FuseWrite ev ino data off s)"
  unfolding FuseRelease_def FuseRead_unfold FuseWrite_def Let_def
  by (auto simp: grows_def getINode_iff assms grown_refl grown_modINode keeps set_buf_grown split: option.splits node_class.splits if_splits)

section \<open>The operation table\<close>

text \<open>
  A request of the kernel, with the arguments the handlers take; \<open>open\<close> and \<open>flush\<close> involve all
  processes and are steps of the whole system.
\<close>

datatype fuse_call =
    call_getattr fuse_ino_t
  | call_lookup fuse_ino_t string
  | call_forget fuse_ino_t u64
  | call_setattr fuse_ino_t stat u32
  | call_readlink fuse_ino_t
  | call_mknod fuse_ino_t string u32
  | call_mkdir fuse_ino_t string
  | call_unlink fuse_ino_t string
  | call_rmdir fuse_ino_t string
  | call_symlink string fuse_ino_t string
  | call_rename fuse_ino_t string fuse_ino_t string
  | call_link fuse_ino_t fuse_ino_t string
  | call_read fuse_ino_t u64 u64
  | call_write fuse_ino_t "cell list option" u64
  | call_release fuse_ino_t
  | call_fsync fuse_ino_t
  | call_opendir fuse_ino_t
  | call_readdir fuse_ino_t nat nat
  | call_releasedir fuse_ino_t
  | call_fsyncdir fuse_ino_t
  | call_statfs fuse_ino_t
  | call_setxattr fuse_ino_t string "cell list" u32
  | call_getxattr fuse_ino_t string u64
  | call_listxattr fuse_ino_t u64
  | call_removexattr fuse_ino_t string
  | call_access fuse_ino_t u32
  | call_create fuse_ino_t string u32
  | call_getlk fuse_ino_t

fun FuseOperations :: "(string \<Rightarrow> nat) \<Rightarrow> env \<Rightarrow> fuse_call \<Rightarrow> fs_state \<Rightarrow> fs_state exec" where
  "FuseOperations esz ev (call_getattr ino) = FuseGetAttr ino"
| "FuseOperations esz ev (call_lookup parent name) = FuseLookup parent name"
| "FuseOperations esz ev (call_forget ino nlookup) = FuseForget ino nlookup"
| "FuseOperations esz ev (call_setattr ino at to_set) = FuseSetAttr ev ino at to_set"
| "FuseOperations esz ev (call_readlink ino) = FuseReadLink ino"
| "FuseOperations esz ev (call_mknod parent name mode) = FuseMknod ev parent name mode"
| "FuseOperations esz ev (call_mkdir parent name) = FuseMkdir ev parent name"
| "FuseOperations esz ev (call_unlink parent name) = FuseUnlink parent name"
| "FuseOperations esz ev (call_rmdir parent name) = FuseRmdir parent name"
| "FuseOperations esz ev (call_symlink link parent name) = FuseSymlink ev link parent name"
| "FuseOperations esz ev (call_rename parent name newparent newname) = FuseRename parent name newparent newname"
| "FuseOperations esz ev (call_link ino newparent newname) = FuseLink ino newparent newname"
| "FuseOperations esz ev (call_read ino sz off) = FuseRead ev ino sz off"
| "FuseOperations esz ev (call_write ino buf off) = FuseWrite ev ino buf off"
| "FuseOperations esz ev (call_release ino) = FuseRelease ino"
| "FuseOperations esz ev (call_fsync ino) = FuseFsync ino"
| "FuseOperations esz ev (call_opendir ino) = FuseOpenDir ino"
| "FuseOperations esz ev (call_readdir ino sz off) = FuseReadDir esz ev ino sz off"
| "FuseOperations esz ev (call_releasedir ino) = FuseReleaseDir ino"
| "FuseOperations esz ev (call_fsyncdir ino) = FuseFsyncDir ino"
| "FuseOperations esz ev (call_statfs ino) = FuseStatfs ino"
| "FuseOperations esz ev (call_setxattr ino name val flags) = FuseSetXAttr ev ino name val flags"
| "FuseOperations esz ev (call_getxattr ino name sz) = FuseGetXAttr ino name sz"
| "FuseOperations esz ev (call_listxattr ino sz) = FuseListXAttr ev ino sz"
| "FuseOperations esz ev (call_removexattr ino name) = FuseRemoveXAttr ino name"
| "FuseOperations esz ev (call_access ino amask) = FuseAccess ev ino amask"
| "FuseOperations esz ev (call_create parent name flags) = FuseCreate ev parent name flags"
| "FuseOperations esz ev (call_getlk ino) = FuseGetLock ino"

lemma FuseOperations_grows:
  assumes "fs_wf s" and "n_inodes s < 2 ^ 31"
  shows "grows s (FuseOperations esz ev c s)"
  using assms
  by (cases c) (simp_all add: FuseLookup_grows FuseForget_grows FuseMknod_grows FuseMkdir_grows
      FuseSymlink_grows FuseCreate_grows FuseUnlink_grows FuseRmdir_grows FuseRename_grows
      FuseLink_grows FuseSetXAttr_grows FuseRemoveXAttr_grows attribute_calls_grow
      directory_stream_calls_grow content_calls_grow)

text \<open>The log of one process only grows.\<close>

definition log_extends :: "fs_state \<Rightarrow> fs_state \<Rightarrow> bool" where
  "log_extends s s' \<longleftrightarrow>
     (\<exists>rs. replies s' = replies s @ rs) \<and> (\<exists>ms. sends s' = sends s @ ms)"

lemma grown_log: "grown s s' \<Longrightarrow> log_extends s s'"
  by (simp add: grown_def log_extends_def)

lemma log_extends_refl: "log_extends s s"
  by (simp add: log_extends_def)

lemma log_extends_trans: "log_extends s t \<Longrightarrow> log_extends t u \<Longrightarrow> log_extends s u"
  by (auto simp: log_extends_def)

interpretation process: budgeted_machine
  "\<lambda>(ev, c). FuseOperations esz ev c" fs_wf n_inodes "2 ^ 31" log_extends for esz
proof unfold_locales
  fix s s' :: fs_state and x
  assume "fs_wf s" "n_inodes s < 2 ^ 31" "(\<lambda>(ev, c). FuseOperations esz ev c) x s = Inr s'"
  then have "grown s s'"
    using FuseOperations_grows by (auto simp: grows_def split: prod.splits)
  then show "fs_wf s'" "n_inodes s \<le> n_inodes s' \<and> n_inodes s' \<le> Suc (n_inodes s)" "log_extends s s'"
    by (auto simp: grown_def log_extends_def)
qed (auto simp: log_extends_refl intro: log_extends_trans)

section \<open>Answers to the kernel\<close>

text \<open>
  The number of replies to a request that ends: one, but for the handlers that go on after a reply
  and the one that never replies.
\<close>

fun answers :: "env \<Rightarrow> fuse_call \<Rightarrow> fs_state \<Rightarrow> nat" where
  "answers ev (call_getlk ino) s = (if no_such_ino s ino then 1 else 0)"
| "answers ev (call_link ino newparent newname) s =
     (if child_of s newparent newname \<noteq> -1 \<and> child_of s newparent newname > 0 \<and>
         \<not> no_such_ino s newparent \<and> \<not> no_such_ino s ino then 2 else 1)"
| "answers ev (call_listxattr ino sz) s = (if sz = 0 \<and> \<not> no_such_ino s ino then 2 else 1)"
| "answers ev (call_read ino sz off) s =
     (if \<not> no_such_ino s ino \<and> as_File (inode_at s ino) \<noteq> None \<and>
         sint (st_size (attr (inode_at s ino))) < sint off then 2 else 1)"
| "answers ev (call_write ino buf off) s =
     (if buf \<noteq> None \<and> \<not> no_such_ino s ino \<and> as_File (inode_at s ino) \<noteq> None \<and> \<not> alloc_ok ev \<and>
         INodeBufBlockSize * st_blocks (attr (inode_at s ino)) < off + of_nat (length (the buf))
      then 2 else 1)"
| "answers ev c s = 1"

definition replied :: "fs_state \<Rightarrow> nat \<Rightarrow> fs_state exec \<Rightarrow> bool" where
  "replied s k m \<longleftrightarrow> (\<forall>s'. m = Inr s' \<longrightarrow> length (replies s') = length (replies s) + k)"

lemma replied_basic:
  "replied s k (Inl e)" "length (replies t) = length (replies s) + k \<Longrightarrow> replied s k (Inr t)"
  "(c \<Longrightarrow> replied s k a) \<Longrightarrow> (\<not> c \<Longrightarrow> replied s k b) \<Longrightarrow> replied s k (if c then a else b)"
  by (simp_all add: replied_def)

lemma replied_getINode:
  "(unat ino < n_inodes t \<Longrightarrow> replied s k (h (inode_at t ino))) \<Longrightarrow> replied s k (andThen (getINode t ino) h)"
  by (auto simp: replied_def getINode_iff)

lemma replied_on_directory:
  assumes "\<And>d. \<not> no_such_ino s p \<Longrightarrow> as_Directory (inode_at s p) = Some d \<Longrightarrow> replied s k (h d)"
    and "no_such_ino s p \<or> as_Directory (inode_at s p) = None \<Longrightarrow> k = 1"
  shows "replied s k (on_directory p e s h)"
  using assms by (auto simp: on_directory_def intro!: replied_basic replied_getINode split: option.split)

lemma RegisterINode_replies: "RegisterINode ev ty m nl g u t = Inr (t1, ino) \<Longrightarrow> replies t1 = replies t"
  by (auto simp: RegisterINode_def Let_def UpdateUsedBlocks_def UpdateUsedINodes_def split: if_splits prod.splits)

lemma replied_register:
  "(\<And>t1 ino. replies t1 = replies t \<Longrightarrow> replied s k (h t1 ino)) \<Longrightarrow>
     replied s k (andThen (RegisterINode ev ty m nl g u t) (\<lambda>(t1, ino). h t1 ino))"
  using RegisterINode_replies by (fastforce simp: replied_def)

lemma replied_announce:
  assumes "\<And>u. replies u = replies t \<Longrightarrow> replied s k (h u)"
  shows "replied s k (andThen (if c then Inr t else andThen m (\<lambda>msgs. Inr (sending msgs t))) h)"
  using assms [of t] assms [of "sending x t" for x] by (auto simp: replied_def)

lemma replied_sent: "length (replies t) = length (replies s) + k \<Longrightarrow> replied s k (andThen m (\<lambda>msgs. Inr (sending msgs t)))"
  by (auto simp: replied_def)

lemma replied_andThen: "(\<And>x. m = Inr x \<Longrightarrow> replied s k (h x)) \<Longrightarrow> replied s k (andThen m h)"
  by (auto simp: replied_def)

lemma replied_option:
  "(x = None \<Longrightarrow> replied s k a) \<Longrightarrow> (\<And>y. x = Some y \<Longrightarrow> replied s k (b y)) \<Longrightarrow>
     replied s k (case x of None \<Rightarrow> a | Some y \<Rightarrow> b y)"
  by (cases x) simp_all

lemma replied_pair:
  "(\<And>a b. m = Inr (a, b) \<Longrightarrow> replied s k (h a b)) \<Longrightarrow> replied s k (andThen m (\<lambda>(a, b). h a b))"
  by (auto simp: replied_def)

lemma replied_alive: "replied s k (h ()) \<Longrightarrow> replied s k (andThen (parent_alive parent ino) h)"
  by (simp add: parent_alive_def replied_basic)

lemmas replied_rules = replied_announce replied_alive replied_register replied_on_directory replied_getINode
  replied_option replied_pair replied_basic

lemma namespace_replies:
  "replied s 1 (FuseLookup p nm s)" "replied s 1 (FuseForget ino n s)" "replied s 1 (FuseMkdir ev p nm s)"
  "replied s 1 (FuseSymlink ev l p nm s)" "replied s 1 (FuseCreate ev p nm flags s)"
  "replied s 1 (FuseUnlink p nm s)" "replied s 1 (FuseRmdir p nm s)"
  unfolding FuseLookup_def FuseForget_def FuseMkdir_def FuseSymlink_def FuseCreate_def FuseUnlink_def
    FuseRmdir_def Let_def
  by (intro replied_rules; simp)+

lemma FuseMknod_replies: "replied s 1 (FuseMknod ev p nm mode s)"
  unfolding FuseMknod_def Let_def
  by (cases "S_ISDIR mode"; simp only: if_True if_False prod.case; intro replied_rules; simp)

lemma FuseRename_replies: "replied s 1 (FuseRename p nm q nm' s)"
proof -
  let ?pre = "\<lambda>t. replies t = replies s"
  show ?thesis
    unfolding FuseRename_def Let_def
    by (intro replied_on_directory replied_basic(2,3) replied_getINode replied_andThen replied_sent)
      (auto split: if_splits)
qed

lemma FuseLink_replies: "replied s (answers ev (call_link ino q nm) s) (FuseLink ino q nm s)"
  unfolding FuseLink_def Let_def
  by (intro replied_on_directory replied_basic(2,3) replied_getINode) (auto simp: child_of_def)

lemma other_replies:
  "n_inodes s < 2 ^ 31 \<Longrightarrow> replied s 1 (FuseGetAttr ino s)"
  "n_inodes s < 2 ^ 31 \<Longrightarrow> replied s 1 (FuseSetAttr ev ino at to_set s)"
  "replied s 1 (FuseReadLink ino s)" "replied s 1 (FuseStatfs ino s)" "replied s 1 (FuseAccess ev ino amask s)"
  "replied s 1 (FuseFsync ino s)" "replied s 1 (FuseGetXAttr ino nm sz s)"
  "replied s 1 (FuseOpenDir ino s)" "replied s 1 (FuseReleaseDir ino s)" "replied s 1 (FuseFsyncDir ino s)"
  "replied s 1 (FuseSetXAttr ev ino nm val fl s)" "replied s 1 (FuseRemoveXAttr ino nm s)"
  unfolding FuseGetAttr_def FuseSetAttr_def FuseReadLink_def FuseStatfs_def FuseAccess_def FuseFsync_def
    FuseGetXAttr_def FuseOpenDir_def FuseReleaseDir_def FuseFsyncDir_def FuseSetXAttr_def FuseRemoveXAttr_def
    Let_def
  by (intro replied_rules replied_andThen; simp add: no_such_ino_iff replied_basic split: if_splits prod.split)+

lemma FuseReadDir_replies: "replied s 1 (FuseReadDir esz ev ino sz pos s)"
  unfolding FuseReadDir_def Let_def
  by (intro replied_rules) simp_all

lemma list_lock_replies:
  "replied s (answers ev (call_listxattr ino sz) s) (FuseListXAttr ev ino sz s)"
  "replied s (answers ev (call_getlk ino) s) (FuseGetLock ino s)"
  unfolding FuseListXAttr_def FuseGetLock_def Let_def
  by (intro replied_basic(2,3) replied_getINode; simp)+

lemma replies_set_buf [simp]: "replies (set_buf ino b s) = replies s"
  by (simp add: set_buf_def)

lemma replied_node_class:
  "(\<And>f. node_class nd = File f \<Longrightarrow> replied s k (a f)) \<Longrightarrow> (\<And>d. node_class nd = Directory d \<Longrightarrow> replied s k (b d)) \<Longrightarrow>
   (\<And>l. node_class nd = SymbolicLink l \<Longrightarrow> replied s k (c l)) \<Longrightarrow>
   (\<And>t. node_class nd = SpecialINode t \<Longrightarrow> replied s k (d t)) \<Longrightarrow>
   replied s k (case node_class nd of File f \<Rightarrow> a f | Directory d' \<Rightarrow> b d' | SymbolicLink l \<Rightarrow> c l | SpecialINode t \<Rightarrow> d t)"
  by (cases "node_class nd") simp_all

lemma content_replies:
  "replied s 1 (FuseRelease ino s)"
  "replied s (answers ev (call_read ino sz off) s) (FuseRead ev ino sz off s)"
  unfolding FuseRelease_def FuseRead_unfold Let_def
  by (intro replied_basic(2,3) replied_getINode replied_node_class replied_andThen; simp add: as_File_def)+

lemma FuseWrite_replies: "replied s (answers ev (call_write ino buf off) s) (FuseWrite ev ino buf off s)"
proof (cases buf)
  case (Some data)
  let ?grow = "INodeBufBlockSize * st_blocks (attr (inode_at s ino)) < off + of_nat (length data)"
  show ?thesis
    unfolding FuseWrite_def Let_def Some option.case
    by (intro replied_basic(2,3) replied_getINode replied_node_class; cases ?grow; cases "alloc_ok ev";
        (simp only: if_True if_False prod.case)?; (intro replied_andThen replied_basic(2))?; simp add: as_File_def)
qed (simp add: FuseWrite_def replied_basic)

lemmas call_replies = namespace_replies FuseMknod_replies FuseRename_replies other_replies
  FuseReadDir_replies content_replies [unfolded answers.simps] FuseWrite_replies [unfolded answers.simps] list_lock_replies [unfolded answers.simps]
  FuseLink_replies [unfolded answers.simps]

lemma FuseOperations_replied: "n_inodes s < 2 ^ 31 \<Longrightarrow> replied s (answers ev c s) (FuseOperations esz ev c s)"
  by (cases c; simp only: FuseOperations.simps answers.simps; intro call_replies; assumption)

end
