(* ===== verification/WorldMachine.thy ===== *)
theory WorldMachine
  imports FsMachine
begin

text \<open>
  All processes together: kernel requests on any of them in any order, including the \<open>open\<close> and the
  \<open>flush\<close> that move file contents between them, and what every such run keeps.
\<close>

section \<open>Events\<close>

text \<open>An event names the process whose kernel makes the request.\<close>

datatype event =
    Request nat env fuse_call
  | Open nat env fuse_ino_t u32
  | Flush nat fuse_ino_t

fun event_rank :: "event \<Rightarrow> nat" where
  "event_rank (Request r ev c) = r"
| "event_rank (Open r ev ino flags) = r"
| "event_rank (Flush r ino) = r"

fun handle_event :: "mpi \<Rightarrow> (string \<Rightarrow> nat) \<Rightarrow> event \<Rightarrow> world \<Rightarrow> world exec" where
  "handle_event m esz (Request r ev c) W = at_peer r (FuseOperations esz ev c) W"
| "handle_event m esz (Open r ev ino flags) W = FuseOpen m ev r ino flags W"
| "handle_event m esz (Flush r ino) W = FuseFlush m r ino W"

text \<open>A rank that is not in the world has no kernel, so nothing happens there.\<close>

definition system_step :: "mpi \<Rightarrow> (string \<Rightarrow> nat) \<Rightarrow> event \<Rightarrow> world \<Rightarrow> world exec" where
  "system_step m esz e W = (if event_rank e < length W then handle_event m esz e W else Inr W)"

section \<open>Growth of a world\<close>

definition world_wf :: "world \<Rightarrow> bool" where
  "world_wf W \<longleftrightarrow> (\<forall>p\<in>set W. fs_wf (peer_fs p))"

definition world_size :: "world \<Rightarrow> nat" where
  "world_size W = fold (\<lambda>p k. max (n_inodes (peer_fs p)) k) W 0"

definition world_log :: "world \<Rightarrow> world \<Rightarrow> bool" where
  "world_log W W' \<longleftrightarrow> length W' = length W \<and> (\<forall>r<length W. log_extends (peer_fs (W ! r)) (peer_fs (W' ! r)))"

definition world_grown :: "world \<Rightarrow> world \<Rightarrow> bool" where
  "world_grown W W' \<longleftrightarrow> length W' = length W \<and> (\<forall>r<length W. grown (peer_fs (W ! r)) (peer_fs (W' ! r)))"

lemma world_size_le: "world_size W \<le> k \<longleftrightarrow> (\<forall>p\<in>set W. n_inodes (peer_fs p) \<le> k)"
proof -
  have "fold (\<lambda>p k. max (n_inodes (peer_fs p)) k) W b \<le> k \<longleftrightarrow> b \<le> k \<and> (\<forall>p\<in>set W. n_inodes (peer_fs p) \<le> k)" for b
    by (induction W arbitrary: b) auto
  then show ?thesis by (simp add: world_size_def)
qed

lemma n_inodes_world: "r < length W \<Longrightarrow> n_inodes (peer_fs (W ! r)) \<le> world_size W"
  using world_size_le [of W "world_size W"] by simp

lemma world_grown_refl: "world_wf W \<Longrightarrow> world_grown W W"
  by (simp add: world_wf_def world_grown_def grown_refl)

lemma world_grown_peer: "world_grown W V \<Longrightarrow> r < length W \<Longrightarrow> grown (peer_fs (W ! r)) (peer_fs (V ! r))"
  by (simp add: world_grown_def)

lemma world_grown_mod:
  "world_grown W W' \<Longrightarrow> (\<And>s. grown (peer_fs (W ! r)) s \<Longrightarrow> s = peer_fs (W' ! r) \<Longrightarrow> grown (peer_fs (W ! r)) (g s)) \<Longrightarrow>
     r < length W \<Longrightarrow> world_grown W (mod_fs r g W')"
  by (auto simp: world_grown_def peer_fs_mod_fs)

lemma world_grownD:
  assumes "world_grown W W'"
  shows "world_wf W'" and "world_size W \<le> world_size W'" and "world_size W' \<le> Suc (world_size W)"
    and "world_log W W'"
proof -
  have len: "length W' = length W" and peers: "\<And>r. r < length W \<Longrightarrow> grown (peer_fs (W ! r)) (peer_fs (W' ! r))"
    using assms by (auto simp: world_grown_def)
  show "world_wf W'" using len peers by (auto simp: world_wf_def in_set_conv_nth grown_def)
  show "world_size W \<le> world_size W'"
    using len peers n_inodes_world [of _ W'] by (force simp: world_size_le in_set_conv_nth grown_def)
  show "world_size W' \<le> Suc (world_size W)"
    using len peers n_inodes_world [of _ W] by (force simp: world_size_le in_set_conv_nth grown_def)
  show "world_log W W'"
    using len peers by (simp add: world_log_def grown_log)
qed

section \<open>The events\<close>

lemma at_peer_grown:
  assumes "world_wf W" and "r < length W" and "grows (peer_fs (W ! r)) (h (peer_fs (W ! r)))"
    and "at_peer r h W = Inr W'"
  shows "world_grown W W'"
  using assms(3,4) world_grown_mod [OF world_grown_refl [OF assms(1)] _ assms(2), of "\<lambda>_. s" for s]
  by (auto simp: at_peer_def grows_def)

lemma install_addresses_grown:
  "grown s t \<Longrightarrow> install_addresses w r src ino fileSize as t = Inr s' \<Longrightarrow> grown s s'"
  by (auto simp: install_addresses_def Let_def getINode_iff grown_modINode keeps split: prod.splits if_splits)

lemma DAGonFS_Write_grown:
  assumes "world_grown W V" and "src < length W" and "DAGonFS_Write m src b ino fileSize V = Inr W'"
  shows "world_grown W W'"
proof -
  let ?msgs = "send_io_request src (length V) \<lparr>io_inode = ino, io_fileSize = fileSize, io_reqSize = None, io_offset = None\<rparr>"
  let ?V0 = "mod_fs src (sending ?msgs) V"
  have V0: "world_grown W ?V0" by (rule world_grown_mod [OF assms(1) _ assms(2)]) simp
  from assms(3) obtain addresses stored where W':
    "mapE (\<lambda>r. andThen (load_ptrs (numberOfBlocks fileSize) (addresses ! r)) (\<lambda>as.
       andThen (install_addresses (length V) r src ino fileSize as (peer_fs (?V0 ! r)))
         (\<lambda>s. Inr \<lparr>peer_fs = s, peer_heap = fst (stored ! r :: heap \<times> addr list)\<rparr>))) [0..<length V] = Inr W'"
    unfolding DAGonFS_Write_def Let_def andThen_Inr_iff by blast
  have len: "length W' = length W"
    using mapE_length [OF W'] assms(1) by (simp add: world_grown_def)
  have "grown (peer_fs (W ! r)) (peer_fs (W' ! r))" if "r < length W" for r
  proof -
    have r: "r < length [0..<length V]" "[0..<length V] ! r = r"
      using that assms(1) by (simp_all add: world_grown_def)
    from mapE_nth [OF W' r(1)] obtain as s' where
      inst: "install_addresses (length V) r src ino fileSize as (peer_fs (?V0 ! r)) = Inr s'"
      and s': "\<lparr>peer_fs = s', peer_heap = fst (stored ! r)\<rparr> = W' ! r"
      unfolding r(2) andThen_Inr_iff by blast
    have "grown (peer_fs (W ! r)) (peer_fs (?V0 ! r))"
      by (rule world_grown_peer [OF V0 that])
    from install_addresses_grown [OF this inst] have "grown (peer_fs (W ! r)) s'" .
    then show ?thesis using s' by (metis peer.select_convs(1))
  qed
  with len show ?thesis by (simp add: world_grown_def)
qed

lemma DAGonFS_Read_grown:
  assumes "world_grown W V" and "src < length W" and "DAGonFS_Read m ok src ino fileSize reqSize off V = Inr (W', b)"
  shows "world_grown W W'"
proof -
  define msgs where "msgs = send_io_request src (length V) \<lparr>io_inode = ino, io_fileSize = fileSize,
    io_reqSize = Some reqSize, io_offset = Some off\<rparr>"
  have V0: "world_grown W (mod_fs src (sending msgs) V)" by (rule world_grown_mod [OF assms(1) _ assms(2)]) simp
  have V1: "world_grown W (mod_fs src (\<lambda>s. s\<lparr>BlocksManager := bm\<rparr>) (mod_fs src (sending msgs) V))" for bm
    by (rule world_grown_mod [OF V0 _ assms(2)]) simp
  from assms(3) V0 V1 show ?thesis
    unfolding DAGonFS_Read_def Let_def msgs_def [symmetric] by (auto split: if_splits prod.splits)
qed

lemma world_grown_node:
  assumes "world_grown W V" and "r < length W" and "unat ino < n_inodes (peer_fs (W ! r))"
    and "\<And>n. keeps_node n g"
  shows "world_grown W (mod_fs r (modINode ino g) V)"
  using assms by (intro world_grown_mod) (auto intro: grown_modINode_old)

lemma FuseOpen_grown:
  assumes "world_wf W" and "r < length W" and "FuseOpen m ev r ino flags W = Inr W'"
  shows "world_grown W W'"
proof -
  have refl: "world_grown W W" by (rule world_grown_refl [OF assms(1)])
  have sent: "world_grown W (mod_fs r (sending ms) W)" for ms
    by (rule world_grown_mod [OF refl _ assms(2)]) simp
  have replied: "world_grown W (mod_fs r (reply a) W)" for a
    by (rule world_grown_mod [OF refl _ assms(2)]) simp
  have cleared: "world_grown W (mod_fs r (\<lambda>s. reply a (modINode ino (set_attr h) s)) W)"
    if "unat ino < n_inodes (peer_fs (W ! r))" for a h
    using that by (intro world_grown_mod [OF refl _ assms(2)]) (simp add: grown_modINode_old keeps)
  have loaded: "world_grown W (mod_fs r (\<lambda>s. reply a (set_buf ino b s)) V)"
    if "world_grown W V" "unat ino < n_inodes (peer_fs (W ! r))" for a b V
    using that
    by (intro world_grown_mod [OF _ _ assms(2)])
      (simp_all add: set_buf_def grown_modINode_old keeps)
  from assms(3) show ?thesis
    unfolding FuseOpen_def Let_def
    by (auto simp: getINode_iff replied cleared split: if_splits
        intro!: loaded dest!: DAGonFS_Read_grown [OF sent assms(2)])
qed

lemma FuseFlush_grown:
  assumes "world_wf W" and "r < length W" and "FuseFlush m r ino W = Inr W'"
  shows "world_grown W W'"
proof -
  have refl: "world_grown W W" by (rule world_grown_refl [OF assms(1)])
  have sent: "world_grown W (mod_fs r (sending ms) W)" for ms
    by (rule world_grown_mod [OF refl _ assms(2)]) simp
  have replied: "world_grown W (mod_fs r (reply a) W)" for a
    by (rule world_grown_mod [OF refl _ assms(2)]) simp
  have freed: "world_grown W (mod_fs r (\<lambda>s. reply a (set_buf ino b s)) V)"
    if "world_grown W V" "unat ino < n_inodes (peer_fs (W ! r))" for a b V
    using that
    by (intro world_grown_mod [OF _ _ assms(2)])
      (simp_all add: set_buf_def grown_modINode_old keeps)
  from assms(3) refl show ?thesis
    unfolding FuseFlush_def Let_def
    by (auto simp: getINode_iff replied keeps split: if_splits option.splits
        intro!: freed world_grown_node [OF _ assms(2)] dest!: DAGonFS_Write_grown [OF sent assms(2)])
qed

lemma system_step_grown:
  assumes "world_wf W" and "world_size W < 2 ^ 31" and "system_step m esz e W = Inr W'"
  shows "world_grown W W'"
proof (cases "event_rank e < length W")
  case True
  have wf: "fs_wf (peer_fs (W ! event_rank e))" and n: "n_inodes (peer_fs (W ! event_rank e)) < 2 ^ 31"
    using assms(1,2) True n_inodes_world [OF True] by (simp_all add: world_wf_def)
  show ?thesis
    using assms(1,3) True FuseOperations_grows [OF wf n]
    by (cases e) (auto simp: system_step_def intro: FuseOpen_grown FuseFlush_grown at_peer_grown [OF assms(1)])
next
  case False
  with assms show ?thesis by (simp add: system_step_def world_grown_refl)
qed

section \<open>Runs\<close>

interpretation system: budgeted_machine "system_step m esz" world_wf world_size "2 ^ 31" world_log for m esz
proof unfold_locales
  fix W W' :: world and e
  assume "world_wf W" "world_size W < 2 ^ 31" "system_step m esz e W = Inr W'"
  then have "world_grown W W'" by (rule system_step_grown)
  then show "world_wf W'" "world_size W \<le> world_size W' \<and> world_size W' \<le> Suc (world_size W)" "world_log W W'"
    by (simp_all add: world_grownD)
next
  fix S T U :: world
  show "world_log S S" by (simp add: world_log_def log_extends_refl)
  show "world_log S T \<Longrightarrow> world_log T U \<Longrightarrow> world_log S U"
    by (auto simp: world_log_def intro: log_extends_trans)
qed

text \<open>The world after every process has mounted its file system.\<close>

definition mounted :: "env \<Rightarrow> nat \<Rightarrow> world exec" where
  "mounted ev w = mapE (\<lambda>r. andThen (FuseInit ev (new_FileSystem r w))
     (\<lambda>s. Inr \<lparr>peer_fs = s, peer_heap = []\<rparr>)) [0..<w]"

lemma mounted_eq: "mounted ev w = Inr (map (\<lambda>r. \<lparr>peer_fs = booted ev r w, peer_heap = []\<rparr>) [0..<w])"
  unfolding mounted_def by (rule mapE_Inr) (simp add: FuseInit_eq)

text \<open>
  C4. From the moment all processes have mounted the file system, whatever requests their kernels
  make, in any order and on any process, distributed \<open>open\<close> and \<open>flush\<close> included: every process
  keeps a well-formed file system, in which every directory entry names an existing inode with that
  number and the free inode counter is the total less the inodes, at most one inode is added per
  request, and no reply or message is taken back.
\<close>

theorem run_keeps_file_systems:
  assumes "length es + 2 \<le> 2 ^ 31"
    and "andThen (mounted ev w) (foldE (system_step m esz) es) = Inr W" and "r < w"
  shows "let s = peer_fs (W ! r) in fs_wf s \<and> n_inodes s \<le> 2 + length es \<and>
    f_ffree (m_stbuf s) = f_files (m_stbuf s) - of_nat (n_inodes s) \<and>
    (\<forall>dir d name. is_dir s dir d \<longrightarrow> ChildINodeNumberWithName d name \<noteq> -1 \<longrightarrow>
       (\<exists>nd. getINode s (ChildINodeNumberWithName d name) = Inr nd \<and>
          inodeNumber nd = ChildINodeNumberWithName d name)) \<and>
    length W = w \<and> log_extends (booted ev r w) s"
proof -
  define W0 where "W0 = map (\<lambda>r. \<lparr>peer_fs = booted ev r w, peer_heap = []\<rparr>) [0..<w]"
  have W0: "world_wf W0" "length W0 = w" "peer_fs (W0 ! r) = booted ev r w"
    using assms(3) by (auto simp: world_wf_def W0_def)
  have two: "world_size W0 \<le> 2" by (simp add: world_size_le W0_def)
  have run: "foldE (system_step m esz) es W0 = Inr W"
    using assms(2) by (simp add: mounted_eq W0_def)
  have "world_size W0 + length es \<le> 2 ^ 31" using two assms(1) by simp
  note kept = system.run_keeps [OF W0(1) this run]
  have len: "length W = w" using kept W0(2) by (simp add: world_log_def)
  then have r: "r < length W" using assms(3) by simp
  have wf: "fs_wf (peer_fs (W ! r))" using kept r by (simp add: world_wf_def)
  have size: "n_inodes (peer_fs (W ! r)) \<le> 2 + length es"
    using kept two n_inodes_world [OF r] by linarith
  have log: "log_extends (booted ev r w) (peer_fs (W ! r))"
    using kept assms(3) W0 by (auto simp: world_log_def)
  have "\<exists>nd. getINode (peer_fs (W ! r)) i = Inr nd \<and> inodeNumber nd = i" if "unat i < n_inodes (peer_fs (W ! r))" for i
    using that wf by (simp add: getINode_total fs_wf_def nodes_wf_def n_inodes_def inode_at_def)
  then show ?thesis
    using wf size log len fs_wf_child [OF wf] by (fastforce simp: Let_def is_dir_def fs_wf_def)
qed

theorem run_keeps_file_systems_witness:
  "\<exists>W. andThen (mounted demo_env 2) (foldE (system_step plain_mpi length)
     [Request 0 demo_env (call_mkdir 1 ''a''), Request 1 demo_env (call_lookup 1 ''a'')]) = Inr W \<and>
     fs_wf (peer_fs (W ! 1)) \<and> n_inodes (peer_fs (W ! 0)) \<le> 4"
proof -
  let ?es = "[Request 0 demo_env (call_mkdir 1 ''a''), Request 1 demo_env (call_lookup 1 ''a'')]"
  have mkdir: "\<exists>s. FuseMkdir demo_env 1 ''a'' (booted demo_env 0 2) = Inr s"
    using FuseMkdir_eq [OF fs_wf_booted _ is_dir_booted, of demo_env 0 2 "''a''" demo_env]
    by (simp add: name_capacity_def)
  have "\<exists>s. FuseLookup 1 ''a'' (booted demo_env 1 2) = Inr s"
    using is_dir_booted [of demo_env 1 2]
    by (simp add: FuseLookup_def is_dir_def on_directory_found ChildINodeNumberWithName_def)
  with mkdir obtain W where W: "andThen (mounted demo_env 2) (foldE (system_step plain_mpi length) ?es) = Inr W"
    by (auto simp: mounted_eq system_step_def at_peer_def mod_fs_def upt_rec)
  have "fs_wf (peer_fs (W ! 1))" "n_inodes (peer_fs (W ! 0)) \<le> 4"
    using run_keeps_file_systems [OF _ W, of 1] run_keeps_file_systems [OF _ W, of 0] by (simp_all add: Let_def)
  with W show ?thesis by blast
qed

section \<open>Answers\<close>

text \<open>No reply is sent by a distributed write or read itself.\<close>

definition same_replies :: "world \<Rightarrow> world \<Rightarrow> bool" where
  "same_replies W W' \<longleftrightarrow> length W' = length W \<and>
     (\<forall>q<length W. replies (peer_fs (W' ! q)) = replies (peer_fs (W ! q)))"

lemma same_replies_refl [simp]: "same_replies W W"
  by (simp add: same_replies_def)

lemma same_replies_mod_fs:
  "same_replies W V \<Longrightarrow> (\<And>s. replies (g s) = replies s) \<Longrightarrow> same_replies W (mod_fs r g V)"
  by (cases "r < length V") (auto simp: same_replies_def mod_fs_def nth_list_update)

lemma install_addresses_replies:
  "install_addresses w r src ino fileSize as s = Inr s' \<Longrightarrow> replies s' = replies s"
  by (auto simp: install_addresses_def Let_def split: prod.splits if_splits)

lemma DAGonFS_Write_replies:
  assumes "DAGonFS_Write m src b ino fileSize W = Inr W'"
  shows "same_replies W W'"
proof -
  let ?msgs = "send_io_request src (length W) \<lparr>io_inode = ino, io_fileSize = fileSize, io_reqSize = None, io_offset = None\<rparr>"
  let ?V = "mod_fs src (sending ?msgs) W"
  have V: "same_replies W ?V" by (rule same_replies_mod_fs) simp_all
  from assms obtain addresses stored where W':
    "mapE (\<lambda>r. andThen (load_ptrs (numberOfBlocks fileSize) (addresses ! r)) (\<lambda>as.
       andThen (install_addresses (length W) r src ino fileSize as (peer_fs (?V ! r)))
         (\<lambda>s. Inr \<lparr>peer_fs = s, peer_heap = fst (stored ! r :: heap \<times> addr list)\<rparr>))) [0..<length W] = Inr W'"
    unfolding DAGonFS_Write_def Let_def andThen_Inr_iff by blast
  have "replies (peer_fs (W' ! q)) = replies (peer_fs (W ! q))" if "q < length W" for q
  proof -
    from mapE_nth [OF W', of q] that obtain as s' where
      "install_addresses (length W) q src ino fileSize as (peer_fs (?V ! q)) = Inr s'"
      "\<lparr>peer_fs = s', peer_heap = fst (stored ! q)\<rparr> = W' ! q"
      by auto
    then have "replies (peer_fs (W' ! q)) = replies (peer_fs (?V ! q))"
      by (metis install_addresses_replies peer.select_convs(1))
    then show ?thesis using V that by (simp add: same_replies_def)
  qed
  then show ?thesis using mapE_length [OF W'] by (simp add: same_replies_def)
qed

lemma DAGonFS_Read_replies:
  assumes "DAGonFS_Read m ok src ino fileSize reqSize off W = Inr (W', b)"
  shows "same_replies W W'"
proof -
  define msgs where "msgs = send_io_request src (length W) \<lparr>io_inode = ino, io_fileSize = fileSize,
    io_reqSize = Some reqSize, io_offset = Some off\<rparr>"
  have V: "same_replies W (mod_fs src (sending msgs) W)" by (rule same_replies_mod_fs) simp_all
  then have "same_replies W (mod_fs src (\<lambda>s. s\<lparr>BlocksManager := bm\<rparr>) (mod_fs src (sending msgs) W))" for bm
    by (rule same_replies_mod_fs) simp
  with assms V show ?thesis
    unfolding DAGonFS_Read_def Let_def msgs_def [symmetric] by (auto split: if_splits prod.splits)
qed

definition answered_at :: "nat \<Rightarrow> nat \<Rightarrow> world \<Rightarrow> world \<Rightarrow> bool" where
  "answered_at r k W W' \<longleftrightarrow> (\<forall>q<length W. length (replies (peer_fs (W' ! q))) =
     length (replies (peer_fs (W ! q))) + (if q = r then k else 0))"

lemma answered_once:
  "same_replies W V \<Longrightarrow> r < length W \<Longrightarrow> (\<And>s. length (replies (g s)) = Suc (length (replies s))) \<Longrightarrow>
     answered_at r (Suc 0) W (mod_fs r g V)"
  by (simp add: answered_at_def same_replies_def peer_fs_mod_fs)

lemma FuseOpen_answered:
  assumes "r < length W" and "FuseOpen m ev r ino flags W = Inr W'"
  shows "answered_at r (Suc 0) W W'"
proof -
  have read: "same_replies W V"
    if "DAGonFS_Read m ok r ino n n 0 (mod_fs r (sending ms) W) = Inr (V, b)" for ok n ms V b
  proof -
    have "same_replies W (mod_fs r (sending ms) W)" by (rule same_replies_mod_fs) simp_all
    then show ?thesis using DAGonFS_Read_replies [OF that] by (simp add: same_replies_def)
  qed
  from assms(2) show ?thesis
    unfolding FuseOpen_def Let_def
    by (auto split: if_splits intro!: answered_once assms(1) dest!: read)
qed

lemma FuseFlush_answered:
  assumes "r < length W" and "FuseFlush m r ino W = Inr W'"
  shows "answered_at r (Suc 0) W W'"
proof -
  have written: "same_replies W (mod_fs r (modINode ino h) V)"
    if "DAGonFS_Write m r b ino n (mod_fs r (sending ms) W) = Inr V" for b n ms V h
  proof -
    have "same_replies W (mod_fs r (sending ms) W)" by (rule same_replies_mod_fs) simp_all
    then have "same_replies W V" using DAGonFS_Write_replies [OF that] by (simp add: same_replies_def)
    then show ?thesis by (rule same_replies_mod_fs) simp
  qed
  from assms(2) show ?thesis
    unfolding FuseFlush_def Let_def
    by (auto split: if_splits option.splits intro!: answered_once written assms(1))
qed

text \<open>How many replies a process sends during an event.\<close>

definition event_answers :: "event \<Rightarrow> world \<Rightarrow> nat \<Rightarrow> nat" where
  "event_answers e W q =
     (if q \<noteq> event_rank e then 0
      else case e of Request r ev c \<Rightarrow> answers ev c (peer_fs (W ! r)) | Open r ev ino flags \<Rightarrow> 1 | Flush r ino \<Rightarrow> 1)"

lemma system_step_answered:
  assumes "world_size W < 2 ^ 31" and "event_rank e < length W" and "system_step m esz e W = Inr W'" and "q < length W"
  shows "length (replies (peer_fs (W' ! q))) = length (replies (peer_fs (W ! q))) + event_answers e W q"
proof (cases e)
  case (Request r ev c)
  then have r: "r < length W" using assms(2) by simp
  then have n: "n_inodes (peer_fs (W ! r)) < 2 ^ 31" using assms(1) n_inodes_world [OF r] by simp
  obtain s where "FuseOperations esz ev c (peer_fs (W ! r)) = Inr s" "W' = mod_fs r (\<lambda>_. s) W"
    using assms(2,3) Request by (auto simp: system_step_def at_peer_def)
  then show ?thesis
    using FuseOperations_replied [OF n, of ev c esz] r assms(4)
    by (simp add: Request event_answers_def replied_def peer_fs_mod_fs)
next
  case (Open r ev ino flags)
  then show ?thesis
    using assms FuseOpen_answered [of r W m ev ino flags W']
    by (simp add: system_step_def answered_at_def event_answers_def)
next
  case (Flush r ino)
  then show ?thesis
    using assms FuseFlush_answered [of r W m ino W']
    by (simp add: system_step_def answered_at_def event_answers_def)
qed

text \<open>
  C27. Every request of a kernel, \<open>open\<close> and \<open>flush\<close> included, that ends is answered exactly once, on
  the process that got it and on no other, except that \<open>link\<close> over an existing name, \<open>listxattr\<close> for
  the size, \<open>read\<close> behind the end and \<open>write\<close> without memory are answered twice, and \<open>getlk\<close> of an
  existing inode not at all; earlier replies are never taken back.
\<close>

theorem each_request_answered:
  assumes "world_wf W" and "world_size W < 2 ^ 31" and "event_rank e < length W"
    and "system_step m esz e W = Inr W'" and "q < length W"
  shows "\<exists>rs. replies (peer_fs (W' ! q)) = replies (peer_fs (W ! q)) @ rs \<and> length rs = event_answers e W q"
proof -
  have "grown (peer_fs (W ! q)) (peer_fs (W' ! q))"
    using world_grown_peer [OF system_step_grown [OF assms(1,2,4)] assms(5)] .
  then obtain rs where "replies (peer_fs (W' ! q)) = replies (peer_fs (W ! q)) @ rs" by (auto simp: grown_def)
  then show ?thesis using system_step_answered [OF assms(2-5)] by simp
qed

theorem each_request_answered_witness:
  fixes W :: world
  defines "W \<equiv> [\<lparr>peer_fs = demo_tree, peer_heap = []\<rparr>, \<lparr>peer_fs = demo_tree, peer_heap = []\<rparr>]"
  shows "(\<exists>W' rs. system_step plain_mpi length (Open 1 demo_env 2 0) W = Inr W' \<and>
       replies (peer_fs (W' ! 1)) = replies demo_tree @ rs \<and> length rs = 1) \<and>
    (\<exists>W' rs. system_step plain_mpi length (Request 1 demo_env (call_link 3 1 ''d'')) W = Inr W' \<and>
       replies (peer_fs (W' ! 1)) = replies demo_tree @ rs \<and> length rs = 2)"
proof -
  have W: "world_wf W" "world_size W < 2 ^ 31" "length W = 2" "peer_fs (W ! Suc 0) = demo_tree"
    using fs_wf_demo_tree by (simp_all add: W_def world_wf_def world_size_def)
  have known: "\<not> no_such_ino demo_tree 3" "\<not> no_such_ino demo_tree 1" "\<not> no_such_ino demo_tree 2"
    by (simp_all add: no_such_ino_iff)
  obtain W1 where open1: "system_step plain_mpi length (Open 1 demo_env 2 0) W = Inr W1"
    using known W(3,4) by (auto simp: system_step_def FuseOpen_def getINode_total as_Directory_def Let_def)
  obtain W2 where link: "system_step plain_mpi length (Request 1 demo_env (call_link 3 1 ''d'')) W = Inr W2"
    using known W(3,4) by (auto simp: system_step_def at_peer_def FuseLink_def on_directory_def getINode_total as_Directory_def Let_def)
  have d: "child_of demo_tree 1 ''d'' = 2" by (simp add: demo_entries)
  show ?thesis
    using each_request_answered [OF W(1,2) _ open1, of 1] each_request_answered [OF W(1,2) _ link, of 1] open1 link known d
    by (simp add: event_answers_def W(3,4))
qed

end
