(* ===== verification/Receiver.thy ===== *)
theory Receiver
  imports WorldMachine
begin

text \<open>
  The receiver thread of a process (\<^verbatim>\<open>mpi/DistributedCode.cpp\<close>): the loop \<open>start\<close> with its blocking
  receives, the handlers it dispatches to, and the calls they make to the operating system. A state
  of the thread and the messages on the way to it make a step relation, because every receive takes
  its message from any source.
\<close>

section \<open>State\<close>

record dist_code =
  code_rank :: nat
  code_worldSize :: nat
  fsPath :: string
  unmountScript :: string

definition new_DistributedCode :: "nat \<Rightarrow> nat \<Rightarrow> string \<Rightarrow> dist_code" where
  "new_DistributedCode rank worldSize mountpointPath =
     (let fsPath = mountpointPath @ ''/'' @ to_string rank
      in \<lparr>code_rank = rank, code_worldSize = worldSize, fsPath = fsPath,
          unmountScript = mountpointPath @ ''/unmount.sh '' @ fsPath\<rparr>)"

text \<open>
  What the thread asks of the operating system, and the distributed operations it takes part in.
\<close>

datatype os_call =
    os_fopen_w string        \<comment> \<open>\<open>fopen(path, "w")\<close> followed by \<open>fclose\<close>\<close>
  | os_unlink string
  | os_mkdir string u32
  | os_rmdir string
  | os_rename string string
  | os_system string
  | join_write nat fuse_ino_t u64
  | join_read nat fuse_ino_t u64 u64 u64

record receiver =
  rx_fs :: fs_state                       \<comment> \<open>the statics of \<open>FileSystem\<close> it shares with the handlers\<close>
  rx_running :: bool
  rx_awaiting :: "RequestType option"     \<comment> \<open>blocked in the receive of the payload of this request\<close>
  rx_calls :: "os_call list"

definition new_receiver :: "fs_state \<Rightarrow> receiver" where
  "new_receiver s = \<lparr>rx_fs = s, rx_running = True, rx_awaiting = None, rx_calls = []\<rparr>"

section \<open>What a receive buffer holds\<close>

text \<open>
  A message that is longer than the buffer is an MPI error, which aborts; a shorter one leaves the
  rest of the buffer as it was. The buffers of names are zeroed, \<open>IORequestPacket\<close> is not
  initialised. \<open>request_bytes\<close> is the little-endian representation of the enum.
\<close>

fun request_code :: "RequestType \<Rightarrow> nat" where
  "request_code WRITE = 0" | "request_code READ = 1" | "request_code CREATE_FILE = 2"
| "request_code DELETE_FILE = 3" | "request_code CREATE_DIR = 4" | "request_code DELETE_DIR = 5"
| "request_code RENAME = 6" | "request_code TERMINATE = 7"

definition request_bytes :: "RequestType \<Rightarrow> string" where
  "request_bytes t = [char_of (request_code t), NUL, NUL, NUL]"

definition inode_bytes :: "fuse_ino_t \<Rightarrow> string" where
  "inode_bytes ino = map (\<lambda>i. char_of (unat (drop_bit (8 * i) ino))) [0..<8]"

text \<open>The first array of a request with names, read as a C string.\<close>

fun received_name :: "packet \<Rightarrow> string exec" where
  "received_name (FileCreationRequest f) = c_string f"
| "received_name (FileDeletionRequest f) = c_string f"
| "received_name (DirectoryCreationRequest f) = c_string f"
| "received_name (DirectoryDeletionRequest f) = c_string f"
| "received_name (RenameRequest f g) = Inl Aborted"
| "received_name (RequestPacket t) = c_string (request_bytes t)"
| "received_name (IORequestPacket r) = c_string (inode_bytes (io_inode r))"

fun received_names :: "packet \<Rightarrow> (string \<times> string) exec" where
  "received_names (RenameRequest f g) =
     andThen (c_string f) (\<lambda>old. andThen (c_string g) (\<lambda>new. Inr (old, new)))"
| "received_names p = andThen (received_name p) (\<lambda>old. Inr (old, ''''))"

fun received_io :: "packet \<Rightarrow> io_request exec" where
  "received_io (IORequestPacket r) = Inr r"
| "received_io (RequestPacket t) = Inl BadAccess"
| "received_io p = Inl Aborted"

section \<open>The handlers\<close>

definition calling :: "os_call \<Rightarrow> receiver \<Rightarrow> receiver" where
  "calling c p = p\<lparr>rx_calls := rx_calls p @ [c]\<rparr>"

definition unmountFileSystem :: "dist_code \<Rightarrow> receiver \<Rightarrow> receiver" where
  "unmountFileSystem dc p = calling (os_system (unmountScript dc))
     (p\<lparr>rx_fs := (rx_fs p)\<lparr>unmountFromThread := True\<rparr>\<rparr>)"

text \<open>
  The cases of the switch up to the receive of the payload: the flag that suppresses the echo is set
  before the thread blocks.
\<close>

definition start_request :: "dist_code \<Rightarrow> nat \<Rightarrow> RequestType \<Rightarrow> receiver \<Rightarrow> receiver" where
  "start_request dc source t p =
     (let other = (code_rank dc \<noteq> source)
      in case t of
        WRITE \<Rightarrow> if other then p\<lparr>rx_awaiting := Some WRITE\<rparr> else p
      | READ \<Rightarrow> if other then p\<lparr>rx_awaiting := Some READ\<rparr> else p
      | CREATE_FILE \<Rightarrow> if other then p\<lparr>rx_awaiting := Some CREATE_FILE,
            rx_fs := (rx_fs p)\<lparr>createFileFromThread := True\<rparr>\<rparr> else p
      | DELETE_FILE \<Rightarrow> if other then p\<lparr>rx_awaiting := Some DELETE_FILE,
            rx_fs := (rx_fs p)\<lparr>deleteFileFromThread := True\<rparr>\<rparr> else p
      | CREATE_DIR \<Rightarrow> if other then p\<lparr>rx_awaiting := Some CREATE_DIR,
            rx_fs := (rx_fs p)\<lparr>createDirFromThread := True\<rparr>\<rparr> else p
      | DELETE_DIR \<Rightarrow> if other then p\<lparr>rx_awaiting := Some DELETE_DIR,
            rx_fs := (rx_fs p)\<lparr>deleteDirFromThread := True\<rparr>\<rparr> else p
      | RENAME \<Rightarrow> if other then p\<lparr>rx_awaiting := Some RENAME,
            rx_fs := (rx_fs p)\<lparr>renameFromThread := True\<rparr>\<rparr> else p
      | TERMINATE \<Rightarrow>
          let p1 = p\<lparr>rx_running := False\<rparr> in if other then unmountFileSystem dc p1 else p1)"

text \<open>The rest of the case, once the payload is there.\<close>

definition createFile :: "dist_code \<Rightarrow> packet \<Rightarrow> receiver \<Rightarrow> receiver exec" where
  "createFile dc pkt p = andThen (received_name pkt) (\<lambda>name. Inr (calling (os_fopen_w (fsPath dc @ name)) p))"

definition deleteFile :: "dist_code \<Rightarrow> packet \<Rightarrow> receiver \<Rightarrow> receiver exec" where
  "deleteFile dc pkt p = andThen (received_name pkt) (\<lambda>name. Inr (calling (os_unlink (fsPath dc @ name)) p))"

definition createDir :: "dist_code \<Rightarrow> packet \<Rightarrow> receiver \<Rightarrow> receiver exec" where
  "createDir dc pkt p = andThen (received_name pkt) (\<lambda>name. Inr (calling (os_mkdir (fsPath dc @ name) mode_0777) p))"

definition deleteDir :: "dist_code \<Rightarrow> packet \<Rightarrow> receiver \<Rightarrow> receiver exec" where
  "deleteDir dc pkt p = andThen (received_name pkt) (\<lambda>name. Inr (calling (os_rmdir (fsPath dc @ name)) p))"

definition renameHandler :: "dist_code \<Rightarrow> packet \<Rightarrow> receiver \<Rightarrow> receiver exec" where
  "renameHandler dc pkt p = andThen (received_names pkt) (\<lambda>(old, new).
     Inr (calling (os_rename (fsPath dc @ old) (fsPath dc @ new)) p))"

definition finish_request :: "dist_code \<Rightarrow> nat \<Rightarrow> RequestType \<Rightarrow> packet \<Rightarrow> receiver \<Rightarrow> receiver exec" where
  "finish_request dc source t pkt p0 =
     (let p = p0\<lparr>rx_awaiting := None\<rparr>
      in case t of
        WRITE \<Rightarrow> andThen (received_io pkt) (\<lambda>r. Inr (calling (join_write source (io_inode r) (io_fileSize r)) p))
      | READ \<Rightarrow> andThen (received_io pkt) (\<lambda>r.
          case io_reqSize r of
            None \<Rightarrow> Inl BadAccess
          | Some reqSize \<Rightarrow>
              (case io_offset r of
                 None \<Rightarrow> Inl BadAccess
               | Some offset \<Rightarrow>
                   Inr (calling (join_read source (io_inode r) (io_fileSize r) reqSize offset) p)))
      | CREATE_FILE \<Rightarrow> createFile dc pkt p
      | DELETE_FILE \<Rightarrow> deleteFile dc pkt p
      | CREATE_DIR \<Rightarrow> createDir dc pkt p
      | DELETE_DIR \<Rightarrow> deleteDir dc pkt p
      | RENAME \<Rightarrow> renameHandler dc pkt p
      | TERMINATE \<Rightarrow> Inr p)"

text \<open>One receive of the thread, of either kind.\<close>

definition receive :: "dist_code \<Rightarrow> nat \<Rightarrow> packet \<Rightarrow> receiver \<Rightarrow> receiver exec" where
  "receive dc source pkt p =
     (case rx_awaiting p of
        Some t \<Rightarrow> finish_request dc source t pkt p
      | None \<Rightarrow>
          (case pkt of RequestPacket t \<Rightarrow> Inr (start_request dc source t p) | _ \<Rightarrow> Inl Aborted))"

section \<open>The loop as a step relation\<close>

text \<open>The messages on the way, by source; those of one source arrive in the order they were sent.\<close>

type_synonym inbox = "nat \<Rightarrow> packet list"

inductive start :: "dist_code \<Rightarrow> inbox \<times> receiver \<Rightarrow> inbox \<times> receiver \<Rightarrow> bool" for dc where
  recv: "rx_running p \<Longrightarrow> q source = pkt # rest \<Longrightarrow> receive dc source pkt p = Inr p' \<Longrightarrow>
    start dc (q, p) (q(source := rest), p')"

inductive crash :: "dist_code \<Rightarrow> inbox \<times> receiver \<Rightarrow> fault \<Rightarrow> bool" for dc where
  recv: "rx_running p \<Longrightarrow> q source = pkt # rest \<Longrightarrow> receive dc source pkt p = Inl e \<Longrightarrow> crash dc (q, p) e"

inductive_simps start_iff: "start dc (q, p) c"
inductive_cases startE: "start dc (q, p) (q', p')"
inductive_simps crash_iff: "crash dc (q, p) e"

section \<open>Announcing and replaying an operation\<close>

text \<open>What a process announces to the others, by the functions of \<open>RequestSender\<close>.\<close>

datatype remote_op =
    remote_create string
  | remote_delete string
  | remote_mkdir string
  | remote_rmdir string
  | remote_rename string string
  | remote_write fuse_ino_t u64
  | remote_read fuse_ino_t u64 u64 u64

fun announce :: "nat \<Rightarrow> nat \<Rightarrow> remote_op \<Rightarrow> outbox exec" where
  "announce src w (remote_create name) = sendCreateFileRequest name src w"
| "announce src w (remote_delete name) = sendDeleteFileRequest name src w"
| "announce src w (remote_mkdir path) = sendCreateDirectoryRequest path src w"
| "announce src w (remote_rmdir path) = sendDeleteDirectoryRequest path src w"
| "announce src w (remote_rename old new) = sendRenameRequest old new src w"
| "announce src w (remote_write ino fileSize) = Inr (sendWriteRequest src w @
     send_io_request src w \<lparr>io_inode = ino, io_fileSize = fileSize, io_reqSize = None, io_offset = None\<rparr>)"
| "announce src w (remote_read ino fileSize reqSize off) = Inr (sendReadRequest src w @
     send_io_request src w \<lparr>io_inode = ino, io_fileSize = fileSize, io_reqSize = Some reqSize,
       io_offset = Some off\<rparr>)"

definition name_ok :: "string \<Rightarrow> bool" where
  "name_ok name \<longleftrightarrow> length name < name_capacity \<and> NUL \<notin> set name"

fun op_names :: "remote_op \<Rightarrow> string list" where
  "op_names (remote_create name) = [name]"
| "op_names (remote_delete name) = [name]"
| "op_names (remote_mkdir path) = [path]"
| "op_names (remote_rmdir path) = [path]"
| "op_names (remote_rename old new) = [old, new]"
| "op_names (remote_write ino fileSize) = []"
| "op_names (remote_read ino fileSize reqSize off) = []"

text \<open>The call by which another process carries the operation out.\<close>

fun replayed :: "dist_code \<Rightarrow> nat \<Rightarrow> remote_op \<Rightarrow> os_call" where
  "replayed dc src (remote_create name) = os_fopen_w (fsPath dc @ name)"
| "replayed dc src (remote_delete name) = os_unlink (fsPath dc @ name)"
| "replayed dc src (remote_mkdir path) = os_mkdir (fsPath dc @ path) mode_0777"
| "replayed dc src (remote_rmdir path) = os_rmdir (fsPath dc @ path)"
| "replayed dc src (remote_rename old new) = os_rename (fsPath dc @ old) (fsPath dc @ new)"
| "replayed dc src (remote_write ino fileSize) = join_write src ino fileSize"
| "replayed dc src (remote_read ino fileSize reqSize off) = join_read src ino fileSize reqSize off"

text \<open>The flag that keeps the process from announcing it again.\<close>

fun raise_flag :: "remote_op \<Rightarrow> fs_state \<Rightarrow> fs_state" where
  "raise_flag (remote_create name) s = s\<lparr>createFileFromThread := True\<rparr>"
| "raise_flag (remote_delete name) s = s\<lparr>deleteFileFromThread := True\<rparr>"
| "raise_flag (remote_mkdir path) s = s\<lparr>createDirFromThread := True\<rparr>"
| "raise_flag (remote_rmdir path) s = s\<lparr>deleteDirFromThread := True\<rparr>"
| "raise_flag (remote_rename old new) s = s\<lparr>renameFromThread := True\<rparr>"
| "raise_flag (remote_write ino fileSize) s = s"
| "raise_flag (remote_read ino fileSize reqSize off) s = s"

definition replay :: "dist_code \<Rightarrow> nat \<Rightarrow> remote_op \<Rightarrow> receiver \<Rightarrow> receiver" where
  "replay dc src op p = calling (replayed dc src op) (p\<lparr>rx_fs := raise_flag op (rx_fs p)\<rparr>)"

lemma arriving_io_request:
  "i < w \<Longrightarrow> arriving i (send_io_request src w r) = (if i = src then [] else [IORequestPacket r])"
  unfolding send_io_request_def by (subst arriving_loop) (auto simp: arriving_def)

lemma fill_name_ok: "name_ok name \<Longrightarrow> \<exists>f. fill_name name = Inr f \<and> c_string f = Inr name"
  using fill_name_decodes by (auto simp: name_ok_def)

lemmas receive_simps = receive_def start_request_def finish_request_def createFile_def deleteFile_def
  createDir_def deleteDir_def renameHandler_def replay_def calling_def Let_def

lemma announced_total: "list_all name_ok (op_names op) \<Longrightarrow> \<exists>msgs. announce src w op = Inr msgs"
  by (cases op) (auto dest!: fill_name_ok simp: sendCreateFileRequest_def sendDeleteFileRequest_def
      sendCreateDirectoryRequest_def sendDeleteDirectoryRequest_def sendRenameRequest_def)

lemma replay_one:
  assumes "code_rank dc = i" and "i < w" and "i \<noteq> src" and "list_all name_ok (op_names op)"
    and "announce src w op = Inr msgs" and "rx_awaiting p = None"
  shows "foldE (receive dc src) (arriving i msgs) p = Inr (replay dc src op p)"
  using assms
  by (cases op) (auto dest!: fill_name_ok simp: sendCreateFileRequest_def sendDeleteFileRequest_def
      sendCreateDirectoryRequest_def sendDeleteDirectoryRequest_def sendRenameRequest_def
      arriving_send_with_payload arriving_request_only arriving_io_request receive_simps)

lemma replay_fields [simp]:
  "rx_running (replay dc src op p) = rx_running p" "rx_awaiting (replay dc src op p) = rx_awaiting p"
  "rx_calls (replay dc src op p) = rx_calls p @ [replayed dc src op]"
  "rx_fs (replay dc src op p) = raise_flag op (rx_fs p)"
  by (simp_all add: replay_def calling_def)

definition announce_all :: "nat \<Rightarrow> nat \<Rightarrow> remote_op list \<Rightarrow> outbox exec" where
  "announce_all src w ops = andThen (mapE (announce src w) ops) (\<lambda>ms. Inr (concat ms))"

lemma arriving_concat: "arriving i (concat ms) = concat (map (arriving i) ms)"
  by (induction ms) (simp_all add: arriving_def)

lemma replay_all:
  assumes "code_rank dc = i" and "i < w" and "i \<noteq> src" and "\<forall>op\<in>set ops. list_all name_ok (op_names op)"
    and "mapE (announce src w) ops = Inr ms" and "rx_awaiting p = None"
  shows "foldE (receive dc src) (concat (map (arriving i) ms)) p = Inr (fold (replay dc src) ops p)"
  using assms(4-6)
proof (induction ops arbitrary: ms p)
  case (Cons op ops)
  then obtain m ms' where ms: "announce src w op = Inr m" "mapE (announce src w) ops = Inr ms'" "ms = m # ms'"
    by auto
  then show ?case
    using replay_one [OF assms(1-3) _ ms(1) Cons.prems(3)] Cons.IH [of ms' "replay dc src op p"] Cons.prems
    by (simp add: foldE_append)
qed simp

lemma fold_replay_fields:
  "rx_running (fold (replay dc src) ops p) = rx_running p"
  "rx_awaiting (fold (replay dc src) ops p) = rx_awaiting p"
  "rx_calls (fold (replay dc src) ops p) = rx_calls p @ map (replayed dc src) ops"
  by (induction ops arbitrary: p) simp_all

lemma raise_flag_frame [simp]:
  "INodeManager (raise_flag op s) = INodeManager s" "BlocksManager (raise_flag op s) = BlocksManager s"
  "replies (raise_flag op s) = replies s" "sends (raise_flag op s) = sends s"
  by (cases op; simp)+

lemma fold_replay_fs:
  "INodeManager (rx_fs (fold (replay dc src) ops p)) = INodeManager (rx_fs p) \<and>
   sends (rx_fs (fold (replay dc src) ops p)) = sends (rx_fs p)"
  by (induction ops arbitrary: p) simp_all

section \<open>Runs of the loop\<close>

lemma finish_running: "finish_request dc src t pkt p = Inr p' \<Longrightarrow> rx_running p' = rx_running p"
proof (cases t)
  case READ
  moreover assume "finish_request dc src t pkt p = Inr p'"
  ultimately obtain r where r: "received_io pkt = Inr r" by (auto simp: receive_simps)
  show ?thesis
    using \<open>finish_request dc src t pkt p = Inr p'\<close> READ r
    by (cases "io_reqSize r"; cases "io_offset r") (auto simp: receive_simps)
qed (auto simp: receive_simps)

lemma receive_running: "receive dc src pkt p = Inr p' \<Longrightarrow> rx_running p' \<Longrightarrow> rx_running p"
  by (auto simp: receive_def start_request_def Let_def unmountFileSystem_def calling_def dest: finish_running
      split: option.split_asm packet.split_asm RequestType.split_asm if_split_asm)

lemma foldE_running: "foldE (receive dc src) pkts p = Inr p' \<Longrightarrow> rx_running p' \<Longrightarrow> rx_running p"
  by (induction pkts arbitrary: p) (auto dest: receive_running)

lemma start_steps:
  assumes "foldE (receive dc src) pkts p = Inr p'" and "rx_running p'" and "q src = pkts @ rest"
  shows "(start dc)\<^sup>*\<^sup>* (q, p) (q(src := rest), p')"
  using assms
proof (induction pkts arbitrary: p q)
  case Nil
  then have "q(src := rest) = q" by auto
  with Nil show ?case by simp
next
  case (Cons pkt pkts)
  then obtain p1 where p1: "receive dc src pkt p = Inr p1" "foldE (receive dc src) pkts p1 = Inr p'" by auto
  have "rx_running p" using receive_running [OF p1(1) foldE_running [OF p1(2) Cons.prems(2)]] .
  then have "start dc (q, p) (q(src := pkts @ rest), p1)"
    using Cons.prems(3) p1(1) by (auto simp: start_iff)
  moreover have "(start dc)\<^sup>*\<^sup>* (q(src := pkts @ rest), p1) (q(src := rest), p')"
    using Cons.IH [OF p1(2) Cons.prems(2), of "q(src := pkts @ rest)"] by (simp only: fun_upd_same fun_upd_upd)
  ultimately show ?case by (rule converse_rtranclp_into_rtranclp)
qed


definition demo_code :: dist_code where
  "demo_code = new_DistributedCode 1 3 ''/mnt''"

lemma demo_code_facts [simp]:
  "code_rank demo_code = 1" "fsPath demo_code = ''/mnt/1''" "unmountScript demo_code = ''/mnt/unmount.sh /mnt/1''"
proof -
  have "to_string 1 = ''1''" by code_simp
  then show "code_rank demo_code = 1" "fsPath demo_code = ''/mnt/1''"
    "unmountScript demo_code = ''/mnt/unmount.sh /mnt/1''"
    by (simp_all add: demo_code_def new_DistributedCode_def Let_def)
qed


section \<open>Termination\<close>

lemma termination_received:
  assumes "i < w" and "rx_running p" and "rx_awaiting p = None"
    and "q src = arriving i (sendTerminationRequest src w) @ rest"
  shows "start dc (q, p) (q(src := rest), start_request dc src TERMINATE p)"
    "\<not> rx_running (start_request dc src TERMINATE p)"
proof -
  have "arriving i (sendTerminationRequest src w) = [RequestPacket TERMINATE]"
    unfolding sendTerminationRequest_def using assms(1) by (subst arriving_loop) (auto simp: arriving_def)
  then have q: "q src = RequestPacket TERMINATE # rest" using assms(4) by simp
  show "start dc (q, p) (q(src := rest), start_request dc src TERMINATE p)"
    using assms(3) by (intro start.recv [where q = q, OF assms(2) q]) (simp add: receive_def)
  show "\<not> rx_running (start_request dc src TERMINATE p)"
    by (simp add: start_request_def unmountFileSystem_def calling_def Let_def)
qed

text \<open>
  The termination request stops the receiver of every process, the sender included; every
  process but the sender unmounts its own file system exactly once, and a stopped receiver takes
  no further step.
\<close>

theorem termination_stops_all:
  assumes "i < w" and "code_rank dc = i" and "rx_running p" and "rx_awaiting p = None"
    and "q src = arriving i (sendTerminationRequest src w) @ rest"
  shows "\<exists>p'. start dc (q, p) (q(src := rest), p') \<and> \<not> rx_running p' \<and>
    rx_calls p' = rx_calls p @ (if i = src then [] else [os_system (unmountScript dc)]) \<and>
    unmountFromThread (rx_fs p') = (i \<noteq> src \<or> unmountFromThread (rx_fs p)) \<and>
    (\<forall>q' c. \<not> start dc (q', p') c)"
proof -
  let ?p' = "start_request dc src TERMINATE p"
  note stopped = termination_received [where q = q, OF assms(1,3,4,5), of dc]
  have "rx_calls ?p' = rx_calls p @ (if i = src then [] else [os_system (unmountScript dc)])"
    "unmountFromThread (rx_fs ?p') = (i \<noteq> src \<or> unmountFromThread (rx_fs p))"
    using assms(2) by (simp_all add: start_request_def unmountFileSystem_def calling_def Let_def)
  with stopped show ?thesis by (intro exI [of _ ?p']) (simp add: start_iff)
qed

theorem termination_stops_all_witness:
  "\<exists>p'. start demo_code ((\<lambda>_. [])(0 := [RequestPacket TERMINATE]), new_receiver demo_tree) (\<lambda>_. [], p') \<and>
     \<not> rx_running p' \<and> rx_calls p' = [os_system ''/mnt/unmount.sh /mnt/1'']"
proof -
  let ?q = "(\<lambda>_. [])(0 := [RequestPacket TERMINATE])"
  have q: "?q 0 = arriving 1 (sendTerminationRequest 0 3) @ []"
    by (simp add: sendTerminationRequest_def arriving_def upt_rec)
  have idle: "?q(0 := []) = (\<lambda>_. [])" by auto
  have fresh: "rx_running (new_receiver demo_tree)" "rx_awaiting (new_receiver demo_tree) = None"
    "rx_calls (new_receiver demo_tree) = []"
    by (simp_all add: new_receiver_def)
  show ?thesis
    using termination_stops_all [where q = ?q and src = 0 and w = 3 and rest = "[]", OF _ demo_code_facts(1) fresh(1,2) q] fresh(3)
    unfolding idle by auto
qed

section \<open>Two senders at once\<close>

lemma c_string_code: "c_string (request_bytes t) = Inr (if request_code t = 0 then '''' else [char_of (request_code t)])"
  by (cases t; hypsubst; code_simp)

text \<open>
  C16. The receives take their message from any source, also the one for the payload. When one
  process announces a new file while another announces a deletion, a third can take the second
  request for the payload of the first: it creates a file with the one-character name of the request
  code 3 instead of the announced one, deletes nothing, and the next receive, which meets a
  payload where a request is expected, aborts the process.
\<close>

theorem concurrent_requests_collide:
  assumes "i < w" and "code_rank dc = i" and "i \<noteq> a" and "i \<noteq> b" and "a \<noteq> b"
    and "rx_running p" and "rx_awaiting p = None" and "name_ok x" and "name_ok y"
    and "announce a w (remote_create x) = Inr ms" and "announce b w (remote_delete y) = Inr ns"
    and "q a = arriving i ms" and "q b = arriving i ns"
  shows "\<exists>c. (start dc)\<^sup>*\<^sup>* (q, p) c \<and> rx_calls (snd c) = rx_calls p @ [os_fopen_w (fsPath dc @ [CHR 0x03])] \<and>
    crash dc c Aborted"
proof -
  obtain f g where q: "q a = [RequestPacket CREATE_FILE, FileCreationRequest f]"
    "q b = [RequestPacket DELETE_FILE, FileDeletionRequest g]"
    using assms fill_name_ok [of x] fill_name_ok [of y]
    by (auto simp: sendCreateFileRequest_def sendDeleteFileRequest_def arriving_send_with_payload)
  let ?p1 = "start_request dc a CREATE_FILE p"
  let ?p2 = "calling (os_fopen_w (fsPath dc @ [CHR 0x03])) (?p1\<lparr>rx_awaiting := None\<rparr>)"
  have p1: "rx_running ?p1" "rx_awaiting ?p1 = Some CREATE_FILE" "rx_calls ?p1 = rx_calls p"
    using assms(2,3,6) by (simp_all add: start_request_def)
  have code: "char_of (3::nat) = CHR 0x03" by code_simp
  have "start dc (q, p) (q(a := [FileCreationRequest f]), ?p1)"
    using assms(7) by (intro start.recv [where q = q, OF assms(6) q(1)]) (simp add: receive_def)
  moreover have "start dc (q(a := [FileCreationRequest f]), ?p1)
      (q(a := [FileCreationRequest f], b := [FileDeletionRequest g]), ?p2)"
    using p1 q(2) assms(5) code
    by (intro start.recv [where pkt = "RequestPacket DELETE_FILE"])
      (auto simp: receive_def finish_request_def createFile_def c_string_code)
  moreover have "crash dc (q(a := [FileCreationRequest f], b := [FileDeletionRequest g]), ?p2) Aborted"
    using p1 assms(5) by (auto simp: crash_iff receive_def calling_def intro!: exI [of _ b])
  moreover have "rx_calls ?p2 = rx_calls p @ [os_fopen_w (fsPath dc @ [CHR 0x03])]"
    using p1 by (simp add: calling_def)
  ultimately show ?thesis
    by (intro exI conjI) (auto intro: converse_rtranclp_into_rtranclp)
qed

theorem concurrent_requests_collide_witness:
  "\<exists>q c. (start demo_code)\<^sup>*\<^sup>* (q, new_receiver demo_tree) c \<and>
     rx_calls (snd c) = [os_fopen_w (''/mnt/1'' @ [CHR 0x03])] \<and> crash demo_code c Aborted"
proof -
  have names: "name_ok ''/a''" "name_ok ''/f''" by (simp_all add: name_ok_def name_capacity_def)
  have fresh: "rx_running (new_receiver demo_tree)" "rx_awaiting (new_receiver demo_tree) = None"
    "rx_calls (new_receiver demo_tree) = []"
    by (simp_all add: new_receiver_def)
  obtain ms ns where sent: "announce 0 3 (remote_create ''/a'') = Inr ms" "announce 2 3 (remote_delete ''/f'') = Inr ns"
    using announced_total [of "remote_create ''/a''" 0 3] announced_total [of "remote_delete ''/f''" 2 3] names
    by (simp del: announce.simps) blast
  let ?q = "(\<lambda>_::nat. [])(0 := arriving 1 ms, 2 := arriving 1 ns)"
  have q: "?q 0 = arriving 1 ms" "?q 2 = arriving 1 ns" by simp_all
  show ?thesis
    using concurrent_requests_collide [where q = ?q and i = 1 and w = 3 and a = 0 and b = 2,
        OF _ demo_code_facts(1) _ _ _ fresh(1,2) names sent q] fresh(3)
    by auto
qed

section \<open>A directory reaches every process once\<close>

lemma mkdir_made:
  fixes ev
  assumes wf: "fs_wf s" and n: "n_inodes s < 2 ^ 31" and d: "is_dir s parent d"
    and live: "parent \<notin> set (DeletedINodes (INodeManager s))" and name: "name_ok (dir_name d @ name @ ''/'')"
  shows "\<exists>s' msgs. FuseMkdir ev parent name s = Inr s' \<and>
    announce (mpiRank s) (mpiWorldSize s) (remote_mkdir (dir_name d @ name @ ''/'')) = Inr msgs \<and>
    sends s' = sends s @ (if createDirFromThread s then [] else msgs) \<and>
    child_of s' parent name = next_ino s \<and>
    is_dir s' (next_ino s) \<lparr>dir_name = dir_name d @ name @ ''/'', parentDir = Some parent, m_children = []\<rparr> \<and>
    \<not> createDirFromThread s'"
proof -
  have parent: "unat parent < n_inodes s" "as_Directory (inode_at s parent) = Some d"
    using d by (simp_all add: is_dir_def)
  have ne: "parent \<noteq> next_ino s" using live_not_next [OF wf n parent(1) live] .
  have n63: "n_inodes s < 2 ^ 63" using n by simp
  have len: "length (dir_name d @ name @ ''/'') \<le> name_capacity"
    using name by (simp add: name_ok_def)
  show ?thesis
    unfolding FuseMkdir_eq [OF wf n d ne disjI2 [OF len]]
    using ne parent fs_wf_dir_ok [OF wf parent] register_in_old [OF parent(1)] next_ino_bound [OF wf n63] len
    by (simp add: inode_at_modINode inode_at_register_in [OF wf n63] child_of_def is_dir_def dir.child_assign
        new_Directory_def setDirName_def setParent_def sendCreateDirectoryRequest_def fill_name_def)
qed

text \<open>
  C6. A directory made on one process is made once on every other: the announcement makes the
  receiver of the other process call \<open>mkdir\<close> on the same path below its mount point, and when its
  kernel turns that call into the request, the handler there creates the directory with the same
  path and announces nothing, so the operation does not echo; its flag is cleared for the next
  local one.
\<close>

theorem mkdir_propagates_once:
  fixes ev ev'
  assumes "fs_wf s" and "n_inodes s < 2 ^ 31" and "is_dir s parent d"
    and "parent \<notin> set (DeletedINodes (INodeManager s))" and "name_ok (dir_name d @ name @ ''/'')"
    and "\<not> createDirFromThread s" and "code_rank dc \<noteq> mpiRank s" and "code_rank dc < mpiWorldSize s"
    and "rx_running p" and "rx_awaiting p = None" and "rx_fs p = t"
    and "fs_wf t" and "n_inodes t < 2 ^ 31" and "is_dir t parent' d'" and "dir_name d' = dir_name d"
    and "parent' \<notin> set (DeletedINodes (INodeManager t))"
  shows "\<exists>s' msgs p' t'. FuseMkdir ev parent name s = Inr s' \<and> sends s' = sends s @ msgs \<and>
    (\<forall>q rest. q (mpiRank s) = arriving (code_rank dc) msgs @ rest \<longrightarrow>
       (start dc)\<^sup>*\<^sup>* (q, p) (q(mpiRank s := rest), p')) \<and>
    rx_calls p' = rx_calls p @ [os_mkdir (fsPath dc @ dir_name d @ name @ ''/'') mode_0777] \<and>
    FuseMkdir ev' parent' name (rx_fs p') = Inr t' \<and> sends t' = sends t \<and> \<not> createDirFromThread t' \<and>
    child_of t' parent' name = next_ino t \<and>
    is_dir t' (next_ino t) \<lparr>dir_name = dir_name d @ name @ ''/'', parentDir = Some parent', m_children = []\<rparr>"
proof -
  let ?op = "remote_mkdir (dir_name d @ name @ ''/'')"
  let ?p' = "replay dc (mpiRank s) ?op p"
  obtain s' msgs where s': "FuseMkdir ev parent name s = Inr s'" "sends s' = sends s @ msgs"
    and msgs: "announce (mpiRank s) (mpiWorldSize s) ?op = Inr msgs"
    using mkdir_made [OF assms(1-5), of ev] assms(6) by auto
  have names: "list_all name_ok (op_names ?op)" using assms(5) by simp
  note replayed = replay_one [OF refl assms(8,7) names msgs assms(10)]
  have steps: "(start dc)\<^sup>*\<^sup>* (q, p) (q(mpiRank s := rest), ?p')"
    if "q (mpiRank s) = arriving (code_rank dc) msgs @ rest" for q rest
    using start_steps [where q = q, OF replayed _ that] assms(9) by simp
  let ?t = "t\<lparr>createDirFromThread := True\<rparr>"
  have t: "fs_wf ?t" "n_inodes ?t < 2 ^ 31" "is_dir ?t parent' d'" "parent' \<notin> set (DeletedINodes (INodeManager ?t))"
    "next_ino ?t = next_ino t"
    using assms(12-14,16) by (simp_all add: is_dir_def next_ino_def reclaiming_def)
  have name': "name_ok (dir_name d' @ name @ ''/'')" using assms(5,15) by simp
  obtain t' where "FuseMkdir ev' parent' name ?t = Inr t'" "sends t' = sends t" "\<not> createDirFromThread t'"
    "child_of t' parent' name = next_ino t"
    "is_dir t' (next_ino t) \<lparr>dir_name = dir_name d @ name @ ''/'', parentDir = Some parent', m_children = []\<rparr>"
    using mkdir_made [OF t(1-4) name', of ev'] t(5) assms(15) by auto
  then show ?thesis
    using s' steps assms(11) by (intro exI [of _ s'] exI [of _ msgs] exI [of _ ?p'] exI [of _ t']) simp
qed

theorem mkdir_propagates_once_witness:
  "\<exists>s' msgs p' t'. FuseMkdir demo_env 1 ''x'' demo_tree = Inr s' \<and> sends s' = msgs \<and>
     (start demo_code)\<^sup>*\<^sup>* ((\<lambda>_. [])(0 := arriving 1 msgs), new_receiver demo_tree) ((\<lambda>_. [])(0 := []), p') \<and>
     rx_calls p' = [os_mkdir ''/mnt/1/x/'' mode_0777] \<and>
     FuseMkdir demo_env 1 ''x'' (rx_fs p') = Inr t' \<and> sends t' = [] \<and> child_of t' 1 ''x'' = 4"
proof -
  have fresh: "rx_running (new_receiver demo_tree)" "rx_awaiting (new_receiver demo_tree) = None"
    "rx_fs (new_receiver demo_tree) = demo_tree" "rx_calls (new_receiver demo_tree) = []"
    by (simp_all add: new_receiver_def)
  have ranks: "mpiRank demo_tree = 0" "mpiWorldSize demo_tree = 2" "createDirFromThread demo_tree = False"
    "next_ino demo_tree = 4"
    by (simp_all add: demo_tree_def demo_fs_def next_ino_def reclaiming_def getNumberOfDeletedINodes_def n_inodes_def)
  have name: "name_ok (dir_name \<lparr>dir_name = ''/'', parentDir = None, m_children = [(''d'', 2), (''f'', 3)]\<rparr> @ ''x'' @ ''/'')"
    by (simp add: name_ok_def name_capacity_def)
  have rank: "code_rank demo_code \<noteq> mpiRank demo_tree" "code_rank demo_code < mpiWorldSize demo_tree"
    using ranks by simp_all
  have small: "n_inodes demo_tree < 2 ^ 31" "1 \<notin> set (DeletedINodes (INodeManager demo_tree))" "\<not> createDirFromThread demo_tree"
    using ranks by simp_all
  obtain s' msgs p' t' where made: "FuseMkdir demo_env 1 ''x'' demo_tree = Inr s'" "sends s' = sends demo_tree @ msgs"
    and run: "\<forall>q rest. q (mpiRank demo_tree) = arriving (code_rank demo_code) msgs @ rest \<longrightarrow>
       (start demo_code)\<^sup>*\<^sup>* (q, new_receiver demo_tree) (q(mpiRank demo_tree := rest), p')"
    and calls: "rx_calls p' = [os_mkdir ''/mnt/1/x/'' mode_0777]"
    and remote: "FuseMkdir demo_env 1 ''x'' (rx_fs p') = Inr t'" "sends t' = sends demo_tree"
      "child_of t' 1 ''x'' = next_ino demo_tree"
    using mkdir_propagates_once [OF fs_wf_demo_tree small(1) demo_root_dir small(2) name small(3) rank fresh(1-3)
        fs_wf_demo_tree small(1) demo_root_dir refl small(2), of demo_env demo_env] fresh(4)
    by (elim exE conjE, intro that) (assumption | simp)+
  have "(start demo_code)\<^sup>*\<^sup>* ((\<lambda>_. [])(0 := arriving 1 msgs), new_receiver demo_tree) ((\<lambda>_. [])(0 := []), p')"
    using run [rule_format, of "(\<lambda>_. [])(0 := arriving 1 msgs)" "[]"] ranks(1) by simp
  with made calls remote ranks show ?thesis by fastforce
qed

end
