(* ===== verification/Launcher.thy ===== *)
theory Launcher
  imports Prelude
begin

text \<open>
  The launcher (\<^verbatim>\<open>DAGonFS_Launcher.cpp\<close>): it reads \<^verbatim>\<open>DAGonFS.ini\<close> into a map and builds the
  \<^verbatim>\<open>mpirun\<close> command from it. The file is the list of its characters, \<open>None\<close> when it cannot be opened.
\<close>

section \<open>Reading the configuration\<close>

abbreviation (input) "NL \<equiv> CHR 0x0A"
abbreviation (input) "TAB \<equiv> CHR 0x09"

text \<open>What the calls of \<open>getline\<close> return until the stream ends: a last line may lack its newline.\<close>

fun getlines :: "string \<Rightarrow> string \<Rightarrow> string list" where
  "getlines acc [] = (if acc = [] then [] else [rev acc])"
| "getlines acc (c # cs) = (if c = NL then rev acc # getlines [] cs else getlines (c # acc) cs)"

type_synonym config = "string \<Rightarrow> string option"

fun find_char :: "char \<Rightarrow> string \<Rightarrow> nat option" where
  "find_char c [] = None"
| "find_char c (x # xs) = (if x = c then Some 0 else map_option Suc (find_char c xs))"

text \<open>
  \<open>line.substr(0, pos-1)\<close> drops the character before the sign, or takes the whole line when the sign
  is the first character, because \<open>pos-1\<close> wraps around to \<open>npos\<close>.
\<close>

definition config_key :: "string \<Rightarrow> nat \<Rightarrow> string" where
  "config_key line pos = (if pos = 0 then line else take (pos - 1) line)"

definition config_value :: "string \<Rightarrow> nat \<Rightarrow> string" where
  "config_value line pos =
     (let val = drop (pos + 1) line in if length val = 1 \<or> length val = 0 then '''' else drop 1 val)"

definition read_line :: "config \<Rightarrow> string \<Rightarrow> config" where
  "read_line cfg line =
     (if line = [] \<or> hd line = CHR ''#'' then cfg
      else case find_char (CHR ''='') line of
        None \<Rightarrow> cfg
      | Some pos \<Rightarrow> cfg(config_key line pos \<mapsto> config_value line pos))"

datatype 'a program = Exited int | Running 'a

definition readConfig :: "string option \<Rightarrow> config program" where
  "readConfig content =
     (case content of None \<Rightarrow> Exited 1 | Some cs \<Rightarrow> Running (foldl read_line Map.empty (getlines [] cs)))"

section \<open>The command\<close>

text \<open>\<open>config[key]\<close> is the empty string for a key that is not there.\<close>

definition setting :: "config \<Rightarrow> string \<Rightarrow> string" where
  "setting cfg key = (case cfg key of None \<Rightarrow> '''' | Some v \<Rightarrow> v)"

text \<open>
  \<open>stoi\<close>: white space, a sign, digits; no digits or a value outside \<open>int\<close> is an exception, which
  nobody catches.
\<close>

definition is_space :: "char \<Rightarrow> bool" where
  "is_space c \<longleftrightarrow> c = CHR '' '' \<or> (9 \<le> (of_char c :: nat) \<and> of_char c \<le> (13::nat))"

definition is_digit :: "char \<Rightarrow> bool" where
  "is_digit c \<longleftrightarrow> 48 \<le> (of_char c :: nat) \<and> of_char c \<le> (57::nat)"

definition digits_value :: "string \<Rightarrow> nat" where
  "digits_value ds = foldl (\<lambda>n c. 10 * n + (of_char c - 48)) 0 ds"

definition stoi :: "string \<Rightarrow> int exec" where
  "stoi str =
     (let s = dropWhile is_space str;
          neg = (s \<noteq> [] \<and> hd s = CHR ''-'');
          rest = (if s \<noteq> [] \<and> (hd s = CHR ''-'' \<or> hd s = CHR ''+'') then tl s else s);
          ds = takeWhile is_digit rest;
          n = (if neg then - int (digits_value ds) else int (digits_value ds))
      in if ds = [] \<or> n < - (2 ^ 31) \<or> 2 ^ 31 \<le> n then Inl Aborted else Inr n)"

definition show_int :: "int \<Rightarrow> string" where
  "show_int n = (if n < 0 then ''-'' @ to_string (nat (- n)) else to_string (nat n))"

definition mpirun_command :: "config \<Rightarrow> string exec" where
  "mpirun_command cfg =
     andThen (stoi (setting cfg ''num_processes'')) (\<lambda>num_processes.
       let machinefile = setting cfg ''machinefile'';
           executable = (if setting cfg ''dagonfs_model'' = ''client-server'' then ''DAGonFS_CS.exe'' else ''DAGonFS_P2P.exe'');
           enable_logging = (setting cfg ''enable_logging'' = ''true'')
       in Inr (''mpirun -np '' @ show_int num_processes @
            (if length machinefile \<noteq> 0 then ''--hostfile '' @ machinefile else '''') @
            '' ./'' @ executable @ '' -'' @ setting cfg ''fuse_mode'' @ '' '' @ setting cfg ''dagonfs_root_dir'' @
            '' '' @ (if enable_logging then ''1'' else ''0'')))"

text \<open>The program up to \<open>system\<close>: the command, or how it ends before that.\<close>

definition launcher_main :: "string option \<Rightarrow> string exec program" where
  "launcher_main ini =
     (case readConfig ini of Exited n \<Rightarrow> Exited n | Running cfg \<Rightarrow> Running (mpirun_command cfg))"

section \<open>Numbers\<close>

lemma of_char_digit: "n < 10 \<Longrightarrow> (of_char (digit n) :: nat) = 48 + n"
  by (simp add: digit_def of_char_of)

lemma is_digit_digit: "n < 10 \<Longrightarrow> is_digit (digit n)"
  by (simp add: is_digit_def of_char_digit)

lemma digits_value_snoc: "digits_value (ds @ [d]) = 10 * digits_value ds + (of_char d - 48)"
  by (simp add: digits_value_def)

lemma to_string_number: "digits_value (to_string n) = n \<and> to_string n \<noteq> [] \<and> list_all is_digit (to_string n)"
proof (induction n rule: to_string.induct)
  case (1 n)
  show ?case
  proof (cases "n < 10")
    case True
    then have "digits_value [digit n] = n"
      using digits_value_snoc [of "[]" "digit n"] by (simp add: of_char_digit digits_value_def)
    with True show ?thesis by (simp add: to_string.simps [of n] is_digit_digit)
  next
    case False
    with 1 show ?thesis
      by (simp add: to_string.simps [of n] digits_value_snoc of_char_digit is_digit_digit)
  qed
qed

lemma digit_not_space: "is_digit c \<Longrightarrow> \<not> is_space c \<and> c \<noteq> CHR ''-'' \<and> c \<noteq> CHR ''+''"
  by (auto simp: is_digit_def is_space_def)

lemma stoi_to_string:
  assumes "n < 2 ^ 31"
  shows "stoi (to_string n) = Inr (int n)"
proof -
  obtain c cs where ds: "to_string n = c # cs" "is_digit c" "list_all is_digit cs"
    using to_string_number [of n] by (cases "to_string n") auto
  have "takeWhile is_digit cs = cs" using ds by (simp add: takeWhile_eq_all_conv list_all_iff)
  then show ?thesis
    using ds digit_not_space [OF ds(2)] to_string_number [of n] assms by (simp add: stoi_def Let_def del: takeWhile_eq_all_conv)
qed

section \<open>Reading back what a configuration file says\<close>

definition plain_key :: "string \<Rightarrow> bool" where
  "plain_key key \<longleftrightarrow> key \<noteq> [] \<and> hd key \<noteq> CHR ''#'' \<and> CHR ''='' \<notin> set key \<and> NL \<notin> set key"

definition ini_line :: "string \<times> string \<Rightarrow> string" where
  "ini_line kv = fst kv @ '' = '' @ snd kv"

definition ini_file :: "(string \<times> string) list \<Rightarrow> string" where
  "ini_file kvs = concat (map (\<lambda>kv. ini_line kv @ [NL]) kvs)"

lemma getlines_line: "NL \<notin> set l \<Longrightarrow> getlines acc (l @ NL # cs) = (rev acc @ l) # getlines [] cs"
  by (induction l arbitrary: acc) auto

lemma find_char_key: "CHR ''='' \<notin> set key \<Longrightarrow> find_char (CHR ''='') (key @ CHR '' '' # CHR ''='' # rest) = Some (length key + 1)"
  by (induction key) auto

lemma read_ini_line:
  assumes "plain_key (fst kv)"
  shows "read_line cfg (ini_line kv) = cfg(fst kv \<mapsto> snd kv)"
proof -
  obtain key val where kv: "kv = (key, val)" by (cases kv)
  then have k: "key \<noteq> []" "hd key \<noteq> CHR ''#''" "CHR ''='' \<notin> set key"
    using assms by (simp_all add: plain_key_def)
  then show ?thesis
    using find_char_key [of key "CHR '' '' # val"]
    by (cases val) (auto simp: kv read_line_def ini_line_def config_key_def config_value_def Let_def)
qed

lemma getlines_ini: "\<forall>kv\<in>set kvs. NL \<notin> set (ini_line kv) \<Longrightarrow> getlines [] (ini_file kvs) = map ini_line kvs"
  by (induction kvs) (simp_all add: ini_file_def getlines_line)

lemma readConfig_ini:
  assumes "\<forall>(key, val)\<in>set kvs. plain_key key \<and> NL \<notin> set val"
  shows "readConfig (Some (ini_file kvs)) = Running (map_of (rev kvs))"
proof -
  have nl: "\<forall>kv\<in>set kvs. NL \<notin> set (ini_line kv)"
    using assms by (auto simp: ini_line_def plain_key_def)
  have "foldl read_line cfg (map ini_line kvs) = cfg ++ map_of (rev kvs)" for cfg
    using assms
  proof (induction kvs arbitrary: cfg)
    case (Cons kv kvs)
    then have "plain_key (fst kv)" by auto
    then show ?case using Cons by (simp add: read_ini_line map_of_append)
  qed simp
  then show ?thesis by (simp add: readConfig_def getlines_ini [OF nl])
qed

text \<open>
  C40. A configuration file written as lines \<open>key = value\<close> is read back exactly, the last line of a key
  counting, and the launcher starts the executable of the chosen model with the number of processes,
  the mode, the mount point and the logging flag it gives. A machine file is handed over only in
  name: its option is glued to the number of processes.
\<close>

theorem launcher_runs_configuration:
  assumes "\<forall>(key, val)\<in>set kvs. plain_key key \<and> NL \<notin> set val"
    and "map_of (rev kvs) ''num_processes'' = Some (to_string n)" and "n < 2 ^ 31"
  defines "value_of \<equiv> setting (map_of (rev kvs))"
  shows "readConfig (Some (ini_file kvs)) = Running (map_of (rev kvs)) \<and>
    launcher_main (Some (ini_file kvs)) = Running (Inr (''mpirun -np '' @ to_string n @
      (if value_of ''machinefile'' = '''' then '''' else ''--hostfile '' @ value_of ''machinefile'') @
      (if value_of ''dagonfs_model'' = ''client-server'' then '' ./DAGonFS_CS.exe -'' else '' ./DAGonFS_P2P.exe -'') @
      value_of ''fuse_mode'' @ '' '' @ value_of ''dagonfs_root_dir'' @
      (if value_of ''enable_logging'' = ''true'' then '' 1'' else '' 0'')))"
proof -
  have "setting (map_of (rev kvs)) ''num_processes'' = to_string n"
    using assms(2) by (simp add: setting_def)
  then show ?thesis
    using stoi_to_string [OF assms(3)]
    by (simp add: readConfig_ini [OF assms(1)] launcher_main_def mpirun_command_def Let_def show_int_def value_of_def)
qed

theorem launcher_runs_configuration_witness:
  "launcher_main (Some (ini_file [(''num_processes'', ''8''), (''machinefile'', ''hosts''), (''fuse_mode'', ''f''),
      (''dagonfs_root_dir'', ''/tmp/fs''), (''enable_logging'', ''true'')])) =
    Running (Inr ''mpirun -np 8--hostfile hosts ./DAGonFS_P2P.exe -f /tmp/fs 1'')"
proof -
  have "to_string 8 = ''8''" by code_simp
  then show ?thesis
    using launcher_runs_configuration [of "[(''num_processes'', ''8''), (''machinefile'', ''hosts''), (''fuse_mode'', ''f''),
      (''dagonfs_root_dir'', ''/tmp/fs''), (''enable_logging'', ''true'')]" 8]
    by (simp add: plain_key_def setting_def)
qed

section \<open>The configuration file of the repository\<close>

definition shipped_ini :: string where
  "shipped_ini = ''[DAGonFS_config]'' @ [NL] @ ''num_processes = 8'' @ [NL] @ ''machinefile ='' @ [NL] @
     ''dagonfs_model = client-server'' @ [NL] @ ''fuse_mode = f'' @ [NL] @ ''dagonfs_root_dir = /tmp/DAGonFS'' @ [NL] @
     ''enable_logging = true'' @ [TAB, NL]"

text \<open>
  With the configuration file that is shipped the launcher starts eight processes of the
  client-server version without a machine file, and without logging although the file asks for it:
  the value is followed by a tabulator.
\<close>

theorem shipped_configuration:
  "launcher_main (Some shipped_ini) = Running (Inr ''mpirun -np 8 ./DAGonFS_CS.exe -f /tmp/DAGonFS 0'')"
  by code_simp

end
