(* ===== verification/ClientServerIO.thy ===== *)
theory ClientServerIO
  imports DistProps
begin

text \<open>
  The distributed write and read of the client-server version: the master (rank 0) owns the file
  system, the other processes only hold blocks and follow the master's broadcasts
  (\<^verbatim>\<open>client-server/include/mpi/MasterProcessCode.cpp\<close>, \<^verbatim>\<open>NodeProcessCode.cpp\<close>), and the two handlers
  that start them (\<^verbatim>\<open>client-server/include/ramfs/FileSystem.cpp\<close>).
\<close>

section \<open>Processes and collective calls\<close>

definition CS_SINGLE_BLOCK_SIZE :: nat where
  "CS_SINGLE_BLOCK_SIZE = 131072"

lemma cs_block_size_pos [simp]: "0 < CS_SINGLE_BLOCK_SIZE"
  by (simp add: CS_SINGLE_BLOCK_SIZE_def)

datatype cs_RequestType = CS_WRITE | CS_READ | CS_CHANGE_DIR | CS_REDUCE_BLOCKS | CS_TERMINATE

text \<open>
  One collective call of the master: an \<open>MPI_Bcast\<close> of a request type or of the parameters of an I/O
  request, an \<open>MPI_Scatterv\<close> with the piece of every rank, an \<open>MPI_Gatherv\<close> with what every rank sends.
\<close>

datatype mpi_call =
    Bcast_request cs_RequestType
  | Bcast_io io_request
  | Scatterv_pieces "cell list list"
  | Gatherv_pieces "cell list list"

record cs_node =
  node_heap :: heap
  dataBlockPointers :: blocks

record cs_system =
  master_fs :: fs_state
  master_heap :: heap
  cs_nodes :: "cs_node list"   \<comment> \<open>the processes with ranks 1, 2, ...\<close>
  mpi_calls :: "mpi_call list" \<comment> \<open>the collective calls the master has made, oldest first\<close>

definition mpi_world_size :: "cs_system \<Rightarrow> nat" where
  "mpi_world_size C = Suc (length (cs_nodes C))"

definition mpi_calling :: "mpi_call list \<Rightarrow> cs_system \<Rightarrow> cs_system" where
  "mpi_calling bs C = C\<lparr>mpi_calls := mpi_calls C @ bs\<rparr>"

lemma mpi_calling_simps [simp]:
  "master_fs (mpi_calling bs C) = master_fs C" "master_heap (mpi_calling bs C) = master_heap C"
  "cs_nodes (mpi_calling bs C) = cs_nodes C" "mpi_calls (mpi_calling bs C) = mpi_calls C @ bs"
  "mpi_world_size (mpi_calling bs C) = mpi_world_size C"
  by (simp_all add: mpi_calling_def mpi_world_size_def)

definition cs_sendWriteRequest :: "cs_system \<Rightarrow> cs_system" where
  "cs_sendWriteRequest = mpi_calling [Bcast_request CS_WRITE]"

definition cs_sendReadRequest :: "cs_system \<Rightarrow> cs_system" where
  "cs_sendReadRequest = mpi_calling [Bcast_request CS_READ]"

definition cs_sendTermination :: "cs_system \<Rightarrow> cs_system" where
  "cs_sendTermination = mpi_calling [Bcast_request CS_TERMINATE]"

definition cs_sendChangedir :: "cs_system \<Rightarrow> cs_system" where
  "cs_sendChangedir = mpi_calling [Bcast_request CS_CHANGE_DIR]"

section \<open>Shares of the blocks\<close>

definition blocks_of_size :: "u64 \<Rightarrow> nat" where
  "blocks_of_size fileSize =
     unat fileSize div CS_SINGLE_BLOCK_SIZE + (if unat fileSize mod CS_SINGLE_BLOCK_SIZE > 0 then 1 else 0)"

text \<open>\<open>DAGonFS_Write\<close> keeps the number of blocks in an \<open>unsigned int\<close>, \<open>DAGonFS_Read\<close> in a \<open>size_t\<close>.\<close>

definition cs_numberOfBlocks :: "u64 \<Rightarrow> nat" where
  "cs_numberOfBlocks fileSize = unat (of_nat (blocks_of_size fileSize) :: u32)"

text \<open>\<open>blockPerProcess\<close> and the sum with the comparison are \<open>unsigned int\<close>.\<close>

definition cs_effectiveBlocks :: "nat \<Rightarrow> nat \<Rightarrow> nat \<Rightarrow> nat" where
  "cs_effectiveBlocks n w rank =
     unat ((of_nat (n div w) :: u32) + (if rank < n mod w then 1 else 0))"

definition cs_counts :: "nat \<Rightarrow> nat \<Rightarrow> nat \<Rightarrow> int list" where
  "cs_counts elementSize n w =
     map (\<lambda>i. to_int (int (cs_effectiveBlocks n w i * elementSize))) [0..<w]"

definition cs_displs :: "nat \<Rightarrow> nat \<Rightarrow> nat \<Rightarrow> int list" where
  "cs_displs elementSize n w = displacements 0 (cs_counts elementSize n w)"

section \<open>The nodes\<close>

text \<open>
  What a node does with the blocks \<open>MPI_Scatterv\<close> delivers to it: it stores them, contributes their
  addresses to the gather and appends them to the block list of the inode.
\<close>

definition node_createEmptyBlockListForInode :: "blocks \<Rightarrow> fuse_ino_t \<Rightarrow> blocks" where
  "node_createEmptyBlockListForInode m ino = map_assign m ino []"

definition getDataBlockPointers :: "blocks \<Rightarrow> fuse_ino_t \<Rightarrow> blocks \<times> data_block list" where
  "getDataBlockPointers m ino = getDataBlockListOfInode m ino"

definition node_DAGonFS_Write ::
  "nat \<Rightarrow> nat \<Rightarrow> fuse_ino_t \<Rightarrow> u64 \<Rightarrow> cell list \<Rightarrow> cs_node \<Rightarrow> cs_node \<times> cell list" where
  "node_DAGonFS_Write w rank ino fileSize localScatBuf nd =
     (let numberOfBlocks = cs_numberOfBlocks fileSize;
          effectiveBlocks = cs_effectiveBlocks numberOfBlocks w rank;
          (h, addresses) = store_blocks CS_SINGLE_BLOCK_SIZE (node_heap nd) effectiveBlocks localScatBuf;
          m0 = (if map_find (dataBlockPointers nd) ino = None
                then node_createEmptyBlockListForInode (dataBlockPointers nd) ino
                else dataBlockPointers nd);
          (m1, inodeBlockList) = getDataBlockPointers m0 ino;
          newDataBlocks = map (\<lambda>a. (setData (new_DataBlock ino) a)\<lparr>processRank := of_nat rank\<rparr>) addresses
      in (nd\<lparr>node_heap := h, dataBlockPointers := map_assign m1 ino (inodeBlockList @ newDataBlocks)\<rparr>,
          store_ptrs addresses))"

text \<open>The blocks a node sends to the gather for the addresses the master scattered to it.\<close>

definition blocksForRequest :: "u64 \<Rightarrow> u64 \<Rightarrow> nat" where
  "blocksForRequest fileSize reqSize =
     (if reqSize > fileSize then blocks_of_size fileSize else blocks_of_size reqSize)"

definition node_DAGonFS_Read ::
  "nat \<Rightarrow> nat \<Rightarrow> u64 \<Rightarrow> u64 \<Rightarrow> cell list \<Rightarrow> cs_node \<Rightarrow> cell list exec" where
  "node_DAGonFS_Read w rank fileSize reqSize addressesFromScat nd =
     (let effectiveBlocks = cs_effectiveBlocks (blocksForRequest fileSize reqSize) w rank
      in andThen (load_ptrs effectiveBlocks addressesFromScat) (\<lambda>as.
         fetch_blocks CS_SINGLE_BLOCK_SIZE (node_heap nd) as))"

section \<open>The master\<close>

text \<open>
  The master's bookkeeping at the end of \<open>DAGonFS_Write\<close>; \<open>blockListExistForInode\<close> is true when there
  is no list, so the branch that would create one is taken when there is one.
\<close>

definition cs_install :: "nat \<Rightarrow> fuse_ino_t \<Rightarrow> addr list \<Rightarrow> fs_state \<Rightarrow> fs_state exec" where
  "cs_install w ino addresses s =
     (let bm0 = (if \<not> blockListExistForInode (BlocksManager s) ino
                 then createEmptyBlockListForInode (BlocksManager s) ino else BlocksManager s);
          (bm, inodeBlockList) = getDataBlockListOfInode bm0 ino;
          additionBlocks = to_int (int (length addresses) - int (length inodeBlockList));
          grown = (if additionBlocks > 0
                   then addDataBlocksTo CS_SINGLE_BLOCK_SIZE w inodeBlockList additionBlocks ino 0
                   else inodeBlockList)
      in andThen (set_addresses grown 0 addresses) (\<lambda>stored.
           Inr (s\<lparr>BlocksManager := map_assign bm ino stored\<rparr>)))"

definition master_DAGonFS_Write ::
  "mpi \<Rightarrow> buffer \<Rightarrow> fuse_ino_t \<Rightarrow> u64 \<Rightarrow> cs_system \<Rightarrow> cs_system exec" where
  "master_DAGonFS_Write m buffer ino fileSize C =
     (let w = mpi_world_size C;
          C0 = mpi_calling [Bcast_io \<lparr>io_inode = ino, io_fileSize = fileSize, io_reqSize = None, io_offset = None\<rparr>] C;
          numberOfBlocks = cs_numberOfBlocks fileSize;
          scatterCounts = cs_counts CS_SINGLE_BLOCK_SIZE numberOfBlocks w;
          scatterDispls = cs_displs CS_SINGLE_BLOCK_SIZE numberOfBlocks w;
          gatherCounts = cs_counts sizeof_PointerPacket numberOfBlocks w;
          gatherDispls = cs_displs sizeof_PointerPacket numberOfBlocks w
      in andThen (MPI_Scatterv m (buffer_cells buffer) scatterCounts scatterDispls 0) (\<lambda>localScatBufs.
         let (h, localAddresses) = store_blocks CS_SINGLE_BLOCK_SIZE (master_heap C0)
               (cs_effectiveBlocks numberOfBlocks w 0) (localScatBufs ! 0);
             others = map (\<lambda>i. node_DAGonFS_Write w (Suc i) ino fileSize (localScatBufs ! Suc i)
                             (cs_nodes C0 ! i)) [0..<length (cs_nodes C0)]
         in andThen (MPI_Gatherv m (store_ptrs localAddresses # map snd others) gatherCounts gatherDispls
                      (replicate (numberOfBlocks * sizeof_PointerPacket) Indet) 0) (\<lambda>gathered.
            andThen (load_ptrs numberOfBlocks gathered) (\<lambda>addresses.
            andThen (cs_install w ino addresses (master_fs C0)) (\<lambda>s.
              Inr (mpi_calling [Scatterv_pieces localScatBufs, Gatherv_pieces (store_ptrs localAddresses # map snd others)]
                (C0\<lparr>master_fs := s, master_heap := h, cs_nodes := map fst others\<rparr>)))))))"

text \<open>
  In the scatter of the addresses the master receives in place: its share stays where it is, at the
  front of \<open>addressesToScat\<close>.
\<close>

definition master_DAGonFS_Read ::
  "mpi \<Rightarrow> bool \<Rightarrow> fuse_ino_t \<Rightarrow> u64 \<Rightarrow> u64 \<Rightarrow> u64 \<Rightarrow> cs_system \<Rightarrow> (cs_system \<times> buffer) exec" where
  "master_DAGonFS_Read m malloc_ok ino fileSize reqSize offset C =
     (let w = mpi_world_size C;
          C0 = mpi_calling [Bcast_io \<lparr>io_inode = ino, io_fileSize = fileSize, io_reqSize = Some reqSize,
                 io_offset = Some offset\<rparr>] C
      in if fileSize = 0 then Inr (C0, None)
         else
           let numberOfBlocksForRequest = blocksForRequest fileSize reqSize
           in if \<not> malloc_ok then Inl Aborted
              else
                let readBuff = replicate (numberOfBlocksForRequest * CS_SINGLE_BLOCK_SIZE) Indet;
                    (bm, dataBlockList) = getDataBlockListOfInode (BlocksManager (master_fs C0)) ino;
                    C1 = C0\<lparr>master_fs := (master_fs C0)\<lparr>BlocksManager := bm\<rparr>\<rparr>;
                    scatterCounts = cs_counts sizeof_PointerPacket numberOfBlocksForRequest w;
                    scatterDispls = cs_displs sizeof_PointerPacket numberOfBlocksForRequest w;
                    gatherCounts = cs_counts CS_SINGLE_BLOCK_SIZE numberOfBlocksForRequest w;
                    gatherDispls = cs_displs CS_SINGLE_BLOCK_SIZE numberOfBlocksForRequest w
                in andThen (addresses_to_scatter numberOfBlocksForRequest dataBlockList) (\<lambda>addressesToScat.
                   andThen (MPI_Scatterv m (store_ptrs addressesToScat) scatterCounts scatterDispls 0)
                     (\<lambda>addressesFromScat.
                   andThen (fetch_blocks CS_SINGLE_BLOCK_SIZE (master_heap C1)
                             (take (cs_effectiveBlocks numberOfBlocksForRequest w 0) addressesToScat))
                     (\<lambda>localGathBuf.
                   andThen (mapE (\<lambda>i. node_DAGonFS_Read w (Suc i) fileSize reqSize (addressesFromScat ! Suc i)
                             (cs_nodes C1 ! i)) [0..<length (cs_nodes C1)]) (\<lambda>dataToGath.
                   andThen (MPI_Gatherv m (localGathBuf # dataToGath) gatherCounts gatherDispls readBuff 0)
                     (\<lambda>buf. Inr (mpi_calling [Scatterv_pieces addressesFromScat, Gatherv_pieces (localGathBuf # dataToGath)] C1,
                       Some buf)))))))"

section \<open>The handlers that use them\<close>

definition mod_master :: "(fs_state \<Rightarrow> fs_state) \<Rightarrow> cs_system \<Rightarrow> cs_system" where
  "mod_master g C = C\<lparr>master_fs := g (master_fs C)\<rparr>"

definition cs_FuseOpen :: "mpi \<Rightarrow> env \<Rightarrow> fuse_ino_t \<Rightarrow> u32 \<Rightarrow> cs_system \<Rightarrow> cs_system exec" where
  "cs_FuseOpen m ev ino flags C =
     (let s = master_fs C
      in if no_such_ino s ino then Inr (mod_master (reply_err ENOENT) C)
         else andThen (getINode s ino) (\<lambda>inode.
           if as_Directory inode \<noteq> None then Inr (mod_master (reply_err EISDIR) C)
           else if as_File inode = None then Inr (mod_master (reply_err EPERM) C)
           else if has_flag flags (O_WRONLY OR O_TRUNC) then
             Inr (mod_master (\<lambda>s. reply Reply_open
               (modINode ino (set_attr (\<lambda>a. a\<lparr>st_size := 0, st_blocks := 0\<rparr>)) s)) C)
           else
             let size0 = st_size (attr inode)
             in andThen (master_DAGonFS_Read m (alloc_ok ev) ino size0 size0 0 (cs_sendReadRequest C))
                  (\<lambda>(C1, buf). Inr (mod_master (\<lambda>s. reply Reply_open (set_buf ino buf s)) C1))))"

definition cs_FuseFlush :: "mpi \<Rightarrow> fuse_ino_t \<Rightarrow> cs_system \<Rightarrow> cs_system exec" where
  "cs_FuseFlush m ino C =
     (let s = master_fs C
      in if no_such_ino s ino then Inr (mod_master (reply_err ENOENT) C)
         else andThen (getINode s ino) (\<lambda>inode.
           case as_File inode of
             None \<Rightarrow> Inl NullDeref
           | Some file_p \<Rightarrow>
               if m_buf file_p = None then Inr (mod_master (reply_err ESUCCESS) C)
               else
                 andThen
                   (if isWaitingForDistributedWrite file_p then
                      andThen (master_DAGonFS_Write m (m_buf file_p) ino (st_size (attr inode)) (cs_sendWriteRequest C))
                        (\<lambda>C1. Inr (mod_master (modINode ino
                           (set_File (\<lambda>f. f\<lparr>isWaitingForDistributedWrite := False\<rparr>))) C1))
                    else Inr C)
                   (\<lambda>C2. Inr (mod_master (\<lambda>s. reply_err ESUCCESS (set_buf ino None s)) C2))))"

end
