(* ===== verification/ClientServerFs.thy ===== *)
theory ClientServerFs
  imports ClientServerIO FsMachine
begin

text \<open>
  The file system of the client-server version, which only the master runs
  (\<^verbatim>\<open>client-server/include/ramfs/FileSystem.cpp\<close>): the operations that differ from the peer-to-peer
  version, in their text or through the block size, the names of those that do not, the operation
  table and the requests of the whole system. There are no announcements to other processes, directories have no names and the block size is 128 KiB. The state is the
  record of the peer-to-peer version; its flags, ranks, outgoing messages and directory names
  have no counterpart in this version, and no operation here sets or reads them.
\<close>

section \<open>Inodes and the initial state\<close>

definition cs_INodeBufBlockSize :: u64 where
  "cs_INodeBufBlockSize = of_nat CS_SINGLE_BLOCK_SIZE"

definition cs_InitializeINode ::
  "timespec \<Rightarrow> fuse_ino_t \<Rightarrow> u32 \<Rightarrow> u64 \<Rightarrow> u32 \<Rightarrow> u32 \<Rightarrow> inode \<Rightarrow> inode" where
  "cs_InitializeINode ts ino mode nlink gid uid nd =
     nd\<lparr>inodeNumber := ino,
        m_fuseEntryParam := zero_entry_param
          \<lparr>e_ino := ino, attr_timeout := 1, entry_timeout := 1,
           e_attr := zero_stat\<lparr>st_mode := mode, st_gid := gid, st_uid := uid, st_nlink := nlink,
             st_blksize := cs_INodeBufBlockSize, st_atim := ts, st_ctim := ts, st_mtim := ts\<rparr>\<rparr>\<rparr>"

definition cs_new_FileSystem :: fs_state where
  "cs_new_FileSystem =
     \<lparr>INodeManager = new_Nodes, BlocksManager = [], m_reclaimingINodes = False,
      m_stbuf = \<lparr>f_bsize = cs_INodeBufBlockSize, f_frsize = cs_INodeBufBlockSize,
        f_blocks = kTotalBlocks, f_bfree = kTotalBlocks, f_bavail = kTotalBlocks,
        f_files = kTotalInodes, f_ffree = kTotalInodes, f_favail = kTotalInodes,
        f_fsid = kFilesystemId, f_flag = 0x1FF, f_namemax = of_nat kMaxFilenameLength\<rparr>,
      createFileFromThread = False, deleteFileFromThread = False, createDirFromThread = False,
      deleteDirFromThread = False, renameFromThread = False, unmountFromThread = False,
      mpiRank = 0, mpiWorldSize = 0, dirIterators = [], replies = [], sends = []\<rparr>"

definition cs_RegisterINode ::
  "env \<Rightarrow> INodeType \<Rightarrow> u32 \<Rightarrow> u64 \<Rightarrow> u32 \<Rightarrow> u32 \<Rightarrow> fs_state \<Rightarrow> (fs_state \<times> fuse_ino_t) exec" where
  "cs_RegisterINode ev type mode nlink gid uid s =
     (let s1 = (if getNumberOfDeletedINodes (INodeManager s) = 0
                then s\<lparr>m_reclaimingINodes := False\<rparr> else s);
          inode_p = createEmptyINode type
      in andThen
           (if m_reclaimingINodes s1 then
              andThen (reclaimINode (INodeManager s1)) (\<lambda>(ino, ns1).
              andThen (getINodeByINodeNumber ns1 ino) (\<lambda>del_p.
                let s2 = UpdateUsedBlocks (- UsedBlocks del_p) (s1\<lparr>INodeManager := ns1\<rparr>)
                in andThen (setINodeAt (INodeManager s2) ino inode_p) (\<lambda>ns2.
                   Inr (s2\<lparr>INodeManager := ns2\<rparr>, ino))))
            else
              let (ns1, ino) = AddINode (INodeManager s1) inode_p
              in Inr (UpdateUsedINodes 1 (s1\<lparr>INodeManager := ns1\<rparr>), ino))
           (\<lambda>(s3, ino).
              Inr (modINode ino (cs_InitializeINode (env_now ev) ino mode nlink gid uid) s3, ino)))"

section \<open>Handlers\<close>

definition cs_FuseMknod :: "env \<Rightarrow> fuse_ino_t \<Rightarrow> string \<Rightarrow> u32 \<Rightarrow> fs_state \<Rightarrow> fs_state exec" where
  "cs_FuseMknod ev parent name mode s =
     on_directory parent EISDIR s (\<lambda>_.
       if length name > kMaxFilenameLength then Inr (reply_err ENAMETOOLONG s)
       else if \<not> S_ISDIR mode \<and> \<not> S_ISREG mode then Inr (reply_err ENOENT s)
       else
         let s1 = (if S_ISDIR mode then modINode parent AddHardLink s else s);
             (inode_type, nlink, mode') =
               (if S_ISDIR mode then (DIRECTORY, 2, S_IFDIR) else (REGULAR_FILE, 1, S_IFREG))
         in andThen (cs_RegisterINode ev inode_type (mode' OR mode_0777) nlink (ctx_uid ev) (ctx_gid ev) s1)
              (\<lambda>(s2, ino).
            andThen (parent_alive parent ino) (\<lambda>_.
              let s3 = modINode ino Lookup (updateChildOf parent name ino s2)
              in Inr (reply (Reply_entry (m_fuseEntryParam (inode_at s3 ino))) s3))))"

definition cs_FuseMkdir :: "env \<Rightarrow> fuse_ino_t \<Rightarrow> string \<Rightarrow> fs_state \<Rightarrow> fs_state exec" where
  "cs_FuseMkdir ev parent name s =
     on_directory parent EISDIR s (\<lambda>_.
       andThen (cs_RegisterINode ev DIRECTORY (S_IFDIR OR mode_0777) 2 (proc_gid ev) (proc_uid ev) s)
         (\<lambda>(s1, ino).
       andThen (parent_alive parent ino) (\<lambda>_.
         let s2 = modINode parent AddHardLink (updateChildOf parent name ino s1);
             s3 = modINode ino Lookup s2
         in Inr (reply (Reply_entry (m_fuseEntryParam (inode_at s3 ino))) s3))))"

definition cs_FuseSymlink :: "env \<Rightarrow> string \<Rightarrow> fuse_ino_t \<Rightarrow> string \<Rightarrow> fs_state \<Rightarrow> fs_state exec" where
  "cs_FuseSymlink ev link parent name s =
     on_directory parent EISDIR s (\<lambda>_.
       andThen (cs_RegisterINode ev SYMBOLIC_LINK (S_IFLNK OR mode_0755) 1 (ctx_gid ev) (ctx_uid ev) s)
         (\<lambda>(s1, ino).
       andThen (parent_alive parent ino) (\<lambda>_.
         let s2 = modINode ino (set_SymbolicLink link) s1;
             s3 = modINode ino Lookup (updateChildOf parent name ino s2)
         in Inr (reply (Reply_entry (m_fuseEntryParam (inode_at s3 ino))) s3))))"

definition cs_FuseCreate :: "env \<Rightarrow> fuse_ino_t \<Rightarrow> string \<Rightarrow> u32 \<Rightarrow> fs_state \<Rightarrow> fs_state exec" where
  "cs_FuseCreate ev parent name flags s =
     on_directory parent ENOENT s (\<lambda>_.
       if length name > kMaxFilenameLength then Inr (reply_err ENAMETOOLONG s)
       else
         andThen (cs_RegisterINode ev REGULAR_FILE (S_IFREG OR mode_0777) 1 (ctx_gid ev) (ctx_uid ev) s)
           (\<lambda>(s1, ino).
         andThen (parent_alive parent ino) (\<lambda>_.
           let s2 = s1\<lparr>BlocksManager := createEmptyBlockListForInode (BlocksManager s1) ino\<rparr>;
               s3 = modINode ino Lookup (updateChildOf parent name ino s2);
               s4 = (if has_flag flags (O_WRONLY OR O_TRUNC) \<and> as_File (inode_at s3 ino) \<noteq> None
                     then modINode ino (set_attr (\<lambda>a. a\<lparr>st_size := 0, st_blocks := 0\<rparr>)) s3 else s3)
           in Inr (reply (Reply_create (m_fuseEntryParam (inode_at s4 ino))) s4))))"

definition cs_FuseUnlink :: "fuse_ino_t \<Rightarrow> string \<Rightarrow> fs_state \<Rightarrow> fs_state exec" where
  "cs_FuseUnlink parent name s =
     on_directory parent EISDIR s (\<lambda>parentDir_p.
       let ino = ChildINodeNumberWithName parentDir_p name
       in if ino = -1 then Inr (reply_err ENOENT s)
          else andThen (getINode s ino) (\<lambda>_.
            Inr (reply_err ESUCCESS (deleteChildOf parent name (modINode ino RemoveHardLink s)))))"

definition cs_FuseRmdir :: "fuse_ino_t \<Rightarrow> string \<Rightarrow> fs_state \<Rightarrow> fs_state exec" where
  "cs_FuseRmdir parent name s =
     on_directory parent EISDIR s (\<lambda>parentDir_p.
       let ino = ChildINodeNumberWithName parentDir_p name
       in if ino = -1 then Inr (reply_err ENOENT s)
          else andThen (getINode s ino) (\<lambda>inode_p.
            case as_Directory inode_p of
              None \<Rightarrow> Inr (reply_err EISDIR s)
            | Some dir_p \<Rightarrow>
                if hasChildren dir_p then Inr (reply_err EPERM s)
                else
                  let s1 = modINode parent RemoveHardLink s;
                      s2 = modINode ino RemoveAllHardLinks s1
                  in Inr (reply_err ESUCCESS (deleteChildOf parent name s2))))"

definition cs_FuseRename ::
  "fuse_ino_t \<Rightarrow> string \<Rightarrow> fuse_ino_t \<Rightarrow> string \<Rightarrow> fs_state \<Rightarrow> fs_state exec" where
  "cs_FuseRename parent name newparent newname s =
     on_directory parent EISDIR s (\<lambda>parentDir.
       let ino = ChildINodeNumberWithName parentDir name
       in if ino = -1 then Inr (reply_err ENOENT s)
          else on_directory newparent EISDIR s (\<lambda>newParentDir.
            let existingIno = ChildINodeNumberWithName newParentDir newname
            in andThen
                 (if existingIno \<noteq> -1 \<and> existingIno > 0 then
                    andThen (getINode s existingIno) (\<lambda>existing.
                      if as_Directory existing \<noteq> None
                      then Inr (modINode newparent AddHardLink (modINode parent RemoveHardLink s))
                      else Inr s)
                  else Inr s)
                 (\<lambda>s1. Inr (reply_err ESUCCESS
                    (deleteChildOf parent name (updateChildOf newparent newname ino s1))))))"

definition cs_FuseWrite ::
  "env \<Rightarrow> fuse_ino_t \<Rightarrow> cell list option \<Rightarrow> u64 \<Rightarrow> fs_state \<Rightarrow> fs_state exec" where
  "cs_FuseWrite ev ino buf off s =
     (case buf of
        None \<Rightarrow> Inr (reply_err EPERM s)
      | Some data \<Rightarrow>
          if no_such_ino s ino then Inr (reply_err ENOENT s)
          else andThen (getINode s ino) (\<lambda>inode_p.
            case node_class inode_p of
              Directory _ \<Rightarrow> Inr (reply_err EISDIR s)
            | SymbolicLink _ \<Rightarrow> Inr (reply_err ENOENT s)
            | SpecialINode _ \<Rightarrow> Inr (reply_err EISDIR s)
            | File file_p \<Rightarrow>
                let sz = (of_nat (length data) :: u64);
                    s1 = (if isWaitingForDistributedWrite file_p then s
                          else modINode ino (set_File (\<lambda>f. f\<lparr>isWaitingForDistributedWrite := True\<rparr>)) s);
                    newSize = off + sz;
                    blocks0 = st_blocks (attr inode_p);
                    originalCapacity = cs_INodeBufBlockSize * blocks0;
                    newBlocks = newSize div cs_INodeBufBlockSize +
                      (if newSize mod cs_INodeBufBlockSize \<noteq> 0 then 1 else 0);
                    (newBuf, s2) =
                      (if newSize > originalCapacity then
                         let newBuf = (if alloc_ok ev
                               then Some (realloc (m_buf file_p) (unat (newBlocks * cs_INodeBufBlockSize)))
                               else None);
                             s1' = (if newBuf = None then reply (Reply_write 0) s1 else s1)
                         in (newBuf,
                             modINode ino (set_attr (\<lambda>a. a\<lparr>st_blocks := newBlocks\<rparr>))
                               (UpdateUsedBlocks (newBlocks - blocks0) s1'))
                       else (m_buf file_p, s1))
                in andThen (memcpy_to newBuf (unat off) data) (\<lambda>b.
                     let s3 = set_buf ino b s2;
                         s4 = (if newSize > st_size (attr inode_p)
                               then modINode ino (set_attr (\<lambda>a. a\<lparr>st_size := newSize\<rparr>)) s3 else s3);
                         s5 = modINode ino (set_attr (\<lambda>a.
                                a\<lparr>st_ctim := env_now ev, st_mtim := env_now ev\<rparr>)) s4
                     in Inr (reply (Reply_write sz) s5))))"

section \<open>Handlers whose text is the same in both versions\<close>

text \<open>
  Word for word the functions of the peer-to-peer version; nothing in them depends on the block size,
  the directory names or the other processes.
\<close>

definition cs_FuseGetAttr :: "fuse_ino_t \<Rightarrow> fs_state \<Rightarrow> fs_state exec" where
  "cs_FuseGetAttr = FuseGetAttr"

definition cs_FuseLookup :: "fuse_ino_t \<Rightarrow> string \<Rightarrow> fs_state \<Rightarrow> fs_state exec" where
  "cs_FuseLookup = FuseLookup"

definition cs_FuseForget :: "fuse_ino_t \<Rightarrow> u64 \<Rightarrow> fs_state \<Rightarrow> fs_state exec" where
  "cs_FuseForget = FuseForget"

definition cs_FuseSetAttr :: "env \<Rightarrow> fuse_ino_t \<Rightarrow> stat \<Rightarrow> u32 \<Rightarrow> fs_state \<Rightarrow> fs_state exec" where
  "cs_FuseSetAttr = FuseSetAttr"

definition cs_FuseReadLink :: "fuse_ino_t \<Rightarrow> fs_state \<Rightarrow> fs_state exec" where
  "cs_FuseReadLink = FuseReadLink"

definition cs_FuseLink :: "fuse_ino_t \<Rightarrow> fuse_ino_t \<Rightarrow> string \<Rightarrow> fs_state \<Rightarrow> fs_state exec" where
  "cs_FuseLink = FuseLink"

definition cs_FuseRead :: "env \<Rightarrow> fuse_ino_t \<Rightarrow> u64 \<Rightarrow> u64 \<Rightarrow> fs_state \<Rightarrow> fs_state exec" where
  "cs_FuseRead = FuseRead"

definition cs_FuseRelease :: "fuse_ino_t \<Rightarrow> fs_state \<Rightarrow> fs_state exec" where
  "cs_FuseRelease = FuseRelease"

definition cs_FuseFsync :: "fuse_ino_t \<Rightarrow> fs_state \<Rightarrow> fs_state exec" where
  "cs_FuseFsync = FuseFsync"

definition cs_FuseOpenDir :: "fuse_ino_t \<Rightarrow> fs_state \<Rightarrow> fs_state exec" where
  "cs_FuseOpenDir = FuseOpenDir"

definition cs_FuseReadDir :: "(string \<Rightarrow> nat) \<Rightarrow> env \<Rightarrow> fuse_ino_t \<Rightarrow> nat \<Rightarrow> nat \<Rightarrow> fs_state \<Rightarrow> fs_state exec" where
  "cs_FuseReadDir = FuseReadDir"

definition cs_FuseReleaseDir :: "fuse_ino_t \<Rightarrow> fs_state \<Rightarrow> fs_state exec" where
  "cs_FuseReleaseDir = FuseReleaseDir"

definition cs_FuseFsyncDir :: "fuse_ino_t \<Rightarrow> fs_state \<Rightarrow> fs_state exec" where
  "cs_FuseFsyncDir = FuseFsyncDir"

definition cs_FuseStatfs :: "fuse_ino_t \<Rightarrow> fs_state \<Rightarrow> fs_state exec" where
  "cs_FuseStatfs = FuseStatfs"

definition cs_FuseSetXAttr :: "env \<Rightarrow> fuse_ino_t \<Rightarrow> string \<Rightarrow> cell list \<Rightarrow> u32 \<Rightarrow> fs_state \<Rightarrow> fs_state exec" where
  "cs_FuseSetXAttr = FuseSetXAttr"

definition cs_FuseGetXAttr :: "fuse_ino_t \<Rightarrow> string \<Rightarrow> u64 \<Rightarrow> fs_state \<Rightarrow> fs_state exec" where
  "cs_FuseGetXAttr = FuseGetXAttr"

definition cs_FuseListXAttr :: "env \<Rightarrow> fuse_ino_t \<Rightarrow> u64 \<Rightarrow> fs_state \<Rightarrow> fs_state exec" where
  "cs_FuseListXAttr = FuseListXAttr"

definition cs_FuseRemoveXAttr :: "fuse_ino_t \<Rightarrow> string \<Rightarrow> fs_state \<Rightarrow> fs_state exec" where
  "cs_FuseRemoveXAttr = FuseRemoveXAttr"

definition cs_FuseAccess :: "env \<Rightarrow> fuse_ino_t \<Rightarrow> u32 \<Rightarrow> fs_state \<Rightarrow> fs_state exec" where
  "cs_FuseAccess = FuseAccess"

definition cs_FuseGetLock :: "fuse_ino_t \<Rightarrow> fs_state \<Rightarrow> fs_state exec" where
  "cs_FuseGetLock = FuseGetLock"

lemmas cs_same_text =
  cs_FuseGetAttr_def cs_FuseLookup_def cs_FuseForget_def cs_FuseSetAttr_def cs_FuseReadLink_def
  cs_FuseLink_def cs_FuseRead_def cs_FuseRelease_def cs_FuseFsync_def cs_FuseOpenDir_def
  cs_FuseReadDir_def cs_FuseReleaseDir_def cs_FuseFsyncDir_def cs_FuseStatfs_def cs_FuseSetXAttr_def
  cs_FuseGetXAttr_def cs_FuseListXAttr_def cs_FuseRemoveXAttr_def cs_FuseAccess_def cs_FuseGetLock_def

section \<open>Mounting\<close>

text \<open>\<open>FuseInit\<close> up to its last call, and the whole of it.\<close>

definition cs_init_master :: "env \<Rightarrow> fs_state \<Rightarrow> fs_state exec" where
  "cs_init_master ev s =
     (let s1 = s\<lparr>m_reclaimingINodes := False,
                 m_stbuf := (m_stbuf s)\<lparr>f_bfree := f_blocks (m_stbuf s), f_bavail := f_blocks (m_stbuf s),
                   f_ffree := f_files (m_stbuf s), f_favail := f_files (m_stbuf s), f_flag := 0x1FF\<rparr>\<rparr>;
          gid = proc_gid ev; uid = proc_uid ev
      in andThen (cs_RegisterINode ev SPECIAL_INODE_TYPE_NO_BLOCK mode_0777 0 gid uid s1) (\<lambda>(s2, _).
         andThen (cs_RegisterINode ev DIRECTORY (S_IFDIR OR mode_0777) 3 gid uid s2) (\<lambda>(s3, _). Inr s3)))"

definition at_master :: "(fs_state \<Rightarrow> fs_state exec) \<Rightarrow> cs_system \<Rightarrow> cs_system exec" where
  "at_master handler C = andThen (handler (master_fs C)) (\<lambda>s. Inr (C\<lparr>master_fs := s\<rparr>))"

definition cs_FuseInit :: "env \<Rightarrow> cs_system \<Rightarrow> cs_system exec" where
  "cs_FuseInit ev C = andThen (at_master (cs_init_master ev) C) (\<lambda>C1. Inr (cs_sendChangedir C1))"

section \<open>The operation table and the requests of the system\<close>

fun cs_FuseOperations :: "(string \<Rightarrow> nat) \<Rightarrow> env \<Rightarrow> fuse_call \<Rightarrow> fs_state \<Rightarrow> fs_state exec" where
  "cs_FuseOperations esz ev (call_getattr ino) = cs_FuseGetAttr ino"
| "cs_FuseOperations esz ev (call_lookup parent name) = cs_FuseLookup parent name"
| "cs_FuseOperations esz ev (call_forget ino nlookup) = cs_FuseForget ino nlookup"
| "cs_FuseOperations esz ev (call_setattr ino at to_set) = cs_FuseSetAttr ev ino at to_set"
| "cs_FuseOperations esz ev (call_readlink ino) = cs_FuseReadLink ino"
| "cs_FuseOperations esz ev (call_mknod parent name mode) = cs_FuseMknod ev parent name mode"
| "cs_FuseOperations esz ev (call_mkdir parent name) = cs_FuseMkdir ev parent name"
| "cs_FuseOperations esz ev (call_unlink parent name) = cs_FuseUnlink parent name"
| "cs_FuseOperations esz ev (call_rmdir parent name) = cs_FuseRmdir parent name"
| "cs_FuseOperations esz ev (call_symlink link parent name) = cs_FuseSymlink ev link parent name"
| "cs_FuseOperations esz ev (call_rename parent name newparent newname) = cs_FuseRename parent name newparent newname"
| "cs_FuseOperations esz ev (call_link ino newparent newname) = cs_FuseLink ino newparent newname"
| "cs_FuseOperations esz ev (call_read ino sz off) = cs_FuseRead ev ino sz off"
| "cs_FuseOperations esz ev (call_write ino buf off) = cs_FuseWrite ev ino buf off"
| "cs_FuseOperations esz ev (call_release ino) = cs_FuseRelease ino"
| "cs_FuseOperations esz ev (call_fsync ino) = cs_FuseFsync ino"
| "cs_FuseOperations esz ev (call_opendir ino) = cs_FuseOpenDir ino"
| "cs_FuseOperations esz ev (call_readdir ino sz off) = cs_FuseReadDir esz ev ino sz off"
| "cs_FuseOperations esz ev (call_releasedir ino) = cs_FuseReleaseDir ino"
| "cs_FuseOperations esz ev (call_fsyncdir ino) = cs_FuseFsyncDir ino"
| "cs_FuseOperations esz ev (call_statfs ino) = cs_FuseStatfs ino"
| "cs_FuseOperations esz ev (call_setxattr ino name val flags) = cs_FuseSetXAttr ev ino name val flags"
| "cs_FuseOperations esz ev (call_getxattr ino name sz) = cs_FuseGetXAttr ino name sz"
| "cs_FuseOperations esz ev (call_listxattr ino sz) = cs_FuseListXAttr ev ino sz"
| "cs_FuseOperations esz ev (call_removexattr ino name) = cs_FuseRemoveXAttr ino name"
| "cs_FuseOperations esz ev (call_access ino amask) = cs_FuseAccess ev ino amask"
| "cs_FuseOperations esz ev (call_create parent name flags) = cs_FuseCreate ev parent name flags"
| "cs_FuseOperations esz ev (call_getlk ino) = cs_FuseGetLock ino"

text \<open>What the master's kernel asks for, one request at a time (the session loop is single-threaded).\<close>

datatype cs_request = Cs_call fuse_call | Cs_open fuse_ino_t u32 | Cs_flush fuse_ino_t

fun cs_handle :: "mpi \<Rightarrow> (string \<Rightarrow> nat) \<Rightarrow> env \<times> cs_request \<Rightarrow> cs_system \<Rightarrow> cs_system exec" where
  "cs_handle m esz (ev, Cs_call c) = at_master (cs_FuseOperations esz ev c)"
| "cs_handle m esz (ev, Cs_open ino flags) = cs_FuseOpen m ev ino flags"
| "cs_handle m esz (ev, Cs_flush ino) = cs_FuseFlush m ino"

text \<open>The processes after \<open>MPI_Init\<close>, and the constructor of the nodes.\<close>

definition new_NodeProcessCode :: cs_node where
  "new_NodeProcessCode = \<lparr>node_heap = [], dataBlockPointers = []\<rparr>"

definition cs_start :: "nat \<Rightarrow> cs_system" where
  "cs_start n = \<lparr>master_fs = cs_new_FileSystem, master_heap = [],
     cs_nodes = replicate n new_NodeProcessCode, mpi_calls = []\<rparr>"

end
