(* ===== verification/ClientServerNodes.thy ===== *)
theory ClientServerNodes
  imports ClientServerFs
begin

text \<open>
  The receive loop of the nodes of the client-server version
  (\<^verbatim>\<open>client-server/include/mpi/NodeProcessCode.cpp\<close>) and how it follows the master: whatever the
  master's kernel asks for, every node reads the broadcasts in step, takes part in the collectives
  of the operation in progress and is back at its receive when the operation is over.
\<close>

section \<open>The loop of a node\<close>

text \<open>
  What reaches a node: the broadcasts of the master, its piece of each \<open>MPI_Scatterv\<close> and, as a node
  only sends in an \<open>MPI_Gatherv\<close>, the fact that the master is in one. Collective calls match in the
  order in which they are made, so the input of the node of a rank is the list of the master's calls
  as this rank sees them, and what the master has gathered from it is its piece of each gather.
\<close>

datatype node_input = In_request cs_RequestType | In_io io_request | In_scatter "cell list" | In_gather

fun node_input_of :: "nat \<Rightarrow> mpi_call \<Rightarrow> node_input" where
  "node_input_of r (Bcast_request t) = In_request t"
| "node_input_of r (Bcast_io q) = In_io q"
| "node_input_of r (Scatterv_pieces ps) = In_scatter (ps ! r)"
| "node_input_of r (Gatherv_pieces ps) = In_gather"

definition node_inputs :: "nat \<Rightarrow> mpi_call list \<Rightarrow> node_input list" where
  "node_inputs r cs = map (node_input_of r) cs"

fun gathered_from :: "nat \<Rightarrow> mpi_call \<Rightarrow> cell list list" where
  "gathered_from r (Gatherv_pieces ps) = [ps ! r]"
| "gathered_from r _ = []"

definition node_outputs :: "nat \<Rightarrow> mpi_call list \<Rightarrow> cell list list" where
  "node_outputs r cs = concat (map (gathered_from r) cs)"

lemma node_inputs_simps [simp]:
  "node_inputs r [] = []" "node_inputs r (c # cs) = node_input_of r c # node_inputs r cs"
  "node_inputs r (cs @ cs') = node_inputs r cs @ node_inputs r cs'"
  by (simp_all add: node_inputs_def)

lemma node_outputs_simps [simp]:
  "node_outputs r [] = []" "node_outputs r (c # cs) = gathered_from r c @ node_outputs r cs"
  "node_outputs r (cs @ cs') = node_outputs r cs @ node_outputs r cs'"
  by (simp_all add: node_outputs_def)

text \<open>Where the loop is: at the receive of the next request, inside a request, or left.\<close>

datatype node_status = Waiting | Inside | Left

text \<open>
  The input consumed one request at a time; the result is the state at the last receive of a request,
  what was sent to the gathers and where the loop is. A collective call of the master that is not the
  one the node makes next is an error: the two sides would wait for each other, or exchange the wrong data.
\<close>

function node_start :: "nat \<Rightarrow> nat \<Rightarrow> node_input list \<Rightarrow> cs_node \<Rightarrow> (cs_node \<times> cell list list \<times> node_status) exec" where
  "node_start w rank ins nd =
     (case ins of
        [] \<Rightarrow> Inr (nd, [], Waiting)
      | In_request CS_WRITE # ins1 \<Rightarrow>
          (case ins1 of
             In_io q # In_scatter localScatBuf # In_gather # rest \<Rightarrow>
               (let (nd1, addresses) = node_DAGonFS_Write w rank (io_inode q) (io_fileSize q) localScatBuf nd
                in andThen (node_start w rank rest nd1) (\<lambda>(nd2, out, st). Inr (nd2, addresses # out, st)))
           | [In_io q, In_scatter localScatBuf] \<Rightarrow> Inr (nd, [], Inside)
           | [In_io q] \<Rightarrow> Inr (nd, [], Inside)
           | [] \<Rightarrow> Inr (nd, [], Inside)
           | _ \<Rightarrow> Inl Aborted)
      | In_request CS_READ # ins1 \<Rightarrow>
          (case ins1 of
             [] \<Rightarrow> Inr (nd, [], Inside)
           | In_io q # ins2 \<Rightarrow>
               if io_fileSize q = 0 then node_start w rank ins2 nd
               else (case ins2 of
                   [] \<Rightarrow> Inr (nd, [], Inside)
                 | [In_scatter addressesFromScat] \<Rightarrow> Inr (nd, [], Inside)
                 | In_scatter addressesFromScat # In_gather # rest \<Rightarrow>
                     andThen (node_DAGonFS_Read w rank (io_fileSize q) (the (io_reqSize q)) addressesFromScat nd)
                       (\<lambda>dataToGath. andThen (node_start w rank rest nd)
                          (\<lambda>(nd2, out, st). Inr (nd2, dataToGath # out, st)))
                 | _ \<Rightarrow> Inl Aborted)
           | _ \<Rightarrow> Inl Aborted)
      | In_request CS_TERMINATE # _ \<Rightarrow> Inr (nd, [], Left)
      | In_request _ # rest \<Rightarrow> node_start w rank rest nd
      | _ \<Rightarrow> Inl Aborted)"
  by pat_completeness auto
termination by (relation "measure (\<lambda>(w, rank, ins, nd). length ins)") auto

declare node_start.simps [simp del]

lemma node_start_steps:
  "node_start w r [] nd = Inr (nd, [], Waiting)"
  "node_start w r (In_request CS_WRITE # In_io q # In_scatter buf # In_gather # rest) nd =
     (let (nd1, addresses) = node_DAGonFS_Write w r (io_inode q) (io_fileSize q) buf nd
      in andThen (node_start w r rest nd1) (\<lambda>(nd2, out, st). Inr (nd2, addresses # out, st)))"
  "io_fileSize q = 0 \<Longrightarrow>
     node_start w r (In_request CS_READ # In_io q # rest) nd = node_start w r rest nd"
  "io_fileSize q \<noteq> 0 \<Longrightarrow>
     node_start w r (In_request CS_READ # In_io q # In_scatter buf # In_gather # rest) nd =
     andThen (node_DAGonFS_Read w r (io_fileSize q) (the (io_reqSize q)) buf nd) (\<lambda>dataToGath.
       andThen (node_start w r rest nd) (\<lambda>(nd2, out, st). Inr (nd2, dataToGath # out, st)))"
  "node_start w r (In_request CS_TERMINATE # rest) nd = Inr (nd, [], Left)"
  "node_start w r (In_request CS_CHANGE_DIR # rest) nd = node_start w r rest nd"
  by (subst node_start.simps, simp)+

section \<open>Following the master\<close>

text \<open>
  With the calls \<open>cs\<close> of the master the node goes from its receive in state \<open>nd\<close> to its receive in
  state \<open>nd'\<close>, and what it has sent on the way is what the master has gathered from it.
\<close>

definition node_serves :: "nat \<Rightarrow> nat \<Rightarrow> mpi_call list \<Rightarrow> cs_node \<Rightarrow> cs_node \<Rightarrow> bool" where
  "node_serves w r cs nd nd' \<longleftrightarrow> (\<forall>rest.
     node_start w r (node_inputs r cs @ rest) nd =
       andThen (node_start w r rest nd') (\<lambda>(nd2, out, st). Inr (nd2, node_outputs r cs @ out, st)))"

lemma andThen_nothing_sent: "andThen x (\<lambda>(nd2, out, st). Inr (nd2, [] @ out, st)) = x" for x :: "(cs_node \<times> cell list list \<times> node_status) exec"
  by (cases x) (auto simp: andThen.simps split: prod.split)

lemma node_serves_nothing: "node_serves w r [] nd nd"
  using andThen_nothing_sent by (simp add: node_serves_def)

lemma node_serves_then:
  assumes "node_serves w r cs nd nd'" and "node_serves w r cs' nd' nd''"
  shows "node_serves w r (cs @ cs') nd nd''"
proof -
  have "andThen (andThen x (\<lambda>(nd2, out, st). Inr (nd2, node_outputs r cs' @ out, st))) (\<lambda>(nd2, out, st). Inr (nd2, node_outputs r cs @ out, st)) =
      andThen x (\<lambda>(nd2, out, st). Inr (nd2, (node_outputs r cs @ node_outputs r cs') @ out, st))" for x :: "(cs_node \<times> cell list list \<times> node_status) exec"
    by (cases x) (auto simp: andThen.simps split: prod.split)
  then show ?thesis using assms by (simp add: node_serves_def)
qed

lemma node_serves_write:
  assumes "ps' ! r = snd (node_DAGonFS_Write w r (io_inode q) (io_fileSize q) (ps ! r) nd)"
  shows "node_serves w r [Bcast_request CS_WRITE, Bcast_io q, Scatterv_pieces ps, Gatherv_pieces ps'] nd
     (fst (node_DAGonFS_Write w r (io_inode q) (io_fileSize q) (ps ! r) nd))"
  unfolding node_serves_def using assms by (simp add: node_start_steps Let_def split: prod.split)

lemma node_serves_read:
  assumes "node_DAGonFS_Read w r (io_fileSize q) (the (io_reqSize q)) (ps ! r) nd = Inr (ps' ! r)" and "io_fileSize q \<noteq> 0"
  shows "node_serves w r [Bcast_request CS_READ, Bcast_io q, Scatterv_pieces ps, Gatherv_pieces ps'] nd nd"
  unfolding node_serves_def using assms by (simp add: node_start_steps)

lemma node_serves_empty_read:
  assumes "io_fileSize q = 0"
  shows "node_serves w r [Bcast_request CS_READ, Bcast_io q] nd nd"
  using node_serves_nothing [of w r nd] assms by (simp add: node_serves_def node_start_steps)

lemma node_serves_changedir: "node_serves w r [Bcast_request CS_CHANGE_DIR] nd nd"
  using node_serves_nothing [of w r nd] by (simp add: node_serves_def node_start_steps)

text \<open>Between the states \<open>C\<close> and \<open>C'\<close> every node has taken part in exactly the calls of the master.\<close>

definition nodes_follow :: "cs_system \<Rightarrow> cs_system \<Rightarrow> bool" where
  "nodes_follow C C' \<longleftrightarrow> length (cs_nodes C') = length (cs_nodes C) \<and>
     (\<exists>cs. mpi_calls C' = mpi_calls C @ cs \<and>
        (\<forall>i<length (cs_nodes C). node_serves (mpi_world_size C) (Suc i) cs (cs_nodes C ! i) (cs_nodes C' ! i)))"

lemma nodes_follow_master:
  "cs_nodes C' = cs_nodes C \<Longrightarrow> mpi_calls C' = mpi_calls C \<Longrightarrow> nodes_follow C C'"
  by (simp add: nodes_follow_def node_serves_nothing)

lemma nodes_follow_then:
  assumes "nodes_follow C C'" and "nodes_follow C' C''"
  shows "nodes_follow C C''"
proof -
  have "mpi_world_size C' = mpi_world_size C" using assms(1) by (simp add: nodes_follow_def mpi_world_size_def)
  then show ?thesis using assms unfolding nodes_follow_def by auto (blast intro: node_serves_then)
qed

section \<open>The operations of the master\<close>

lemma master_write_nodes:
  assumes "master_DAGonFS_Write m buf ino fileSize C = Inr C'"
  defines "served \<equiv> \<lambda>ps i. node_DAGonFS_Write (mpi_world_size C) (Suc i) ino fileSize (ps ! Suc i) (cs_nodes C ! i)"
  shows "\<exists>ps local. cs_nodes C' = map (\<lambda>i. fst (served ps i)) [0..<length (cs_nodes C)] \<and>
    mpi_calls C' = mpi_calls C @ [Bcast_io \<lparr>io_inode = ino, io_fileSize = fileSize, io_reqSize = None, io_offset = None\<rparr>,
      Scatterv_pieces ps, Gatherv_pieces (local # map (\<lambda>i. snd (served ps i)) [0..<length (cs_nodes C)])]"
proof -
  let ?n = "cs_numberOfBlocks fileSize" and ?w = "mpi_world_size C"
  obtain ps where ps: "MPI_Scatterv m (buffer_cells buf) (cs_counts CS_SINGLE_BLOCK_SIZE ?n ?w)
      (cs_displs CS_SINGLE_BLOCK_SIZE ?n ?w) 0 = Inr ps"
    using assms(1) by (auto simp: master_DAGonFS_Write_def Let_def)
  obtain h la where "store_blocks CS_SINGLE_BLOCK_SIZE (master_heap C) (cs_effectiveBlocks ?n ?w 0) (ps ! 0) = (h, la)"
    by force
  with assms(1) ps show ?thesis
    by (intro exI [of _ ps] exI [of _ "store_ptrs la"])
      (auto simp: master_DAGonFS_Write_def served_def Let_def comp_def mpi_calling_def mpi_world_size_def)
qed

lemma write_followed:
  assumes "master_DAGonFS_Write m buf ino fileSize (cs_sendWriteRequest C) = Inr C'"
  shows "nodes_follow C C'"
proof -
  let ?w = "mpi_world_size C" and ?N = "length (cs_nodes C)"
  let ?q = "\<lparr>io_inode = ino, io_fileSize = fileSize, io_reqSize = None, io_offset = None\<rparr>"
  let ?served = "\<lambda>ps i. node_DAGonFS_Write ?w (Suc i) ino fileSize (ps ! Suc i) (cs_nodes C ! i)"
  obtain ps local where nodes: "cs_nodes C' = map (\<lambda>i. fst (?served ps i)) [0..<?N]"
    and calls: "mpi_calls C' = mpi_calls C @ [Bcast_request CS_WRITE, Bcast_io ?q, Scatterv_pieces ps,
      Gatherv_pieces (local # map (\<lambda>i. snd (?served ps i)) [0..<?N])]"
    using master_write_nodes [OF assms] by (auto simp: cs_sendWriteRequest_def)
  have "node_serves ?w (Suc i) [Bcast_request CS_WRITE, Bcast_io ?q, Scatterv_pieces ps,
      Gatherv_pieces (local # map (\<lambda>i. snd (?served ps i)) [0..<?N])] (cs_nodes C ! i) (cs_nodes C' ! i)" if "i < ?N" for i
    using node_serves_write [of "local # map (\<lambda>i. snd (?served ps i)) [0..<?N]" "Suc i" ?w ?q ps "cs_nodes C ! i"] that
    by (simp add: nodes)
  then show ?thesis using nodes calls by (simp add: nodes_follow_def)
qed

lemma read_followed:
  assumes "master_DAGonFS_Read m alloc ino fileSize reqSize off (cs_sendReadRequest C) = Inr (C', buf)"
  shows "nodes_follow C C'"
proof -
  let ?w = "mpi_world_size C" and ?N = "length (cs_nodes C)"
  let ?q = "\<lparr>io_inode = ino, io_fileSize = fileSize, io_reqSize = Some reqSize, io_offset = Some off\<rparr>"
  show ?thesis
  proof (cases "fileSize = 0")
    case True
    then have "C' = mpi_calling [Bcast_io ?q] (cs_sendReadRequest C)"
      using assms by (simp add: master_DAGonFS_Read_def Let_def)
    then show ?thesis using True by (simp add: nodes_follow_def cs_sendReadRequest_def node_serves_empty_read)
  next
    case False
    obtain ps local outs where nodes: "cs_nodes C' = cs_nodes C"
      and calls: "mpi_calls C' = mpi_calls C @ [Bcast_request CS_READ, Bcast_io ?q, Scatterv_pieces ps, Gatherv_pieces (local # outs)]"
      and out: "mapE (\<lambda>i. node_DAGonFS_Read ?w (Suc i) fileSize reqSize (ps ! Suc i) (cs_nodes C ! i)) [0..<?N] = Inr outs"
      using assms False
      by (auto simp: master_DAGonFS_Read_def Let_def cs_sendReadRequest_def mpi_calling_def mpi_world_size_def
          split: prod.splits if_splits)
    have "node_serves ?w (Suc i) [Bcast_request CS_READ, Bcast_io ?q, Scatterv_pieces ps, Gatherv_pieces (local # outs)]
        (cs_nodes C ! i) (cs_nodes C' ! i)" if "i < ?N" for i
    proof -
      have "node_DAGonFS_Read ?w (Suc i) (io_fileSize ?q) (the (io_reqSize ?q)) (ps ! Suc i) (cs_nodes C ! i) = Inr ((local # outs) ! Suc i)"
        using mapE_nth [OF out, of i] that by simp
      from node_serves_read [OF this] show ?thesis using False by (simp add: nodes)
    qed
    then show ?thesis using nodes calls by (simp add: nodes_follow_def)
  qed
qed

lemma mod_master_fields [simp]:
  "cs_nodes (mod_master g C) = cs_nodes C" "mpi_calls (mod_master g C) = mpi_calls C"
  by (simp_all add: mod_master_def)

lemma open_followed: "cs_FuseOpen m ev ino flags C = Inr C' \<Longrightarrow> nodes_follow C C'"
  by (auto simp: cs_FuseOpen_def Let_def split: if_splits
      intro: nodes_follow_master nodes_follow_then [OF read_followed nodes_follow_master])

lemma flush_followed:
  assumes "cs_FuseFlush m ino C = Inr C'"
  shows "nodes_follow C C'"
proof (cases "no_such_ino (master_fs C) ino")
  case True
  then show ?thesis using assms by (auto simp: cs_FuseFlush_def intro: nodes_follow_master)
next
  case False
  then obtain nd f where nd: "getINode (master_fs C) ino = Inr nd" "as_File nd = Some f"
    using assms by (auto simp: cs_FuseFlush_def Let_def split: option.split_asm)
  note flush = assms [unfolded cs_FuseFlush_def Let_def, simplified False nd if_False andThen.simps option.case]
  show ?thesis
  proof (cases "m_buf f \<noteq> None \<and> isWaitingForDistributedWrite f")
    case True
    then obtain C1 where "master_DAGonFS_Write m (m_buf f) ino (st_size (attr nd)) (cs_sendWriteRequest C) = Inr C1"
      and "cs_nodes C' = cs_nodes C1" "mpi_calls C' = mpi_calls C1"
      using flush by auto
    then show ?thesis using nodes_follow_then [OF write_followed nodes_follow_master] by blast
  next
    case False
    then show ?thesis using flush by (auto intro: nodes_follow_master split: if_split_asm)
  qed
qed

lemma call_followed: "at_master h C = Inr C' \<Longrightarrow> nodes_follow C C'"
  by (auto simp: at_master_def intro: nodes_follow_master)

lemma init_followed: "cs_FuseInit ev C = Inr C' \<Longrightarrow> nodes_follow C C'"
proof -
  assume "cs_FuseInit ev C = Inr C'"
  then obtain C1 where C1: "at_master (cs_init_master ev) C = Inr C1" and C': "C' = cs_sendChangedir C1"
    by (auto simp: cs_FuseInit_def)
  then have "nodes_follow C1 C'" by (simp add: nodes_follow_def cs_sendChangedir_def node_serves_changedir)
  then show ?thesis using call_followed [OF C1] nodes_follow_then by blast
qed

lemma handle_followed: "cs_handle m esz (ev, q) C = Inr C' \<Longrightarrow> nodes_follow C C'"
  by (cases q) (auto intro: call_followed open_followed flush_followed)

lemma run_followed: "foldE (cs_handle m esz) qs C = Inr C' \<Longrightarrow> nodes_follow C C'"
proof (induction qs arbitrary: C)
  case Nil
  then show ?case by (simp add: nodes_follow_master)
next
  case (Cons q qs)
  then obtain C1 where "cs_handle m esz q C = Inr C1" "foldE (cs_handle m esz) qs C1 = Inr C'" by auto
  then show ?case using Cons.IH handle_followed [of m esz "fst q" "snd q" C C1] nodes_follow_then by auto
qed

lemma master_followed:
  assumes "cs_FuseInit ev (cs_start n) = Inr C0" and "foldE (cs_handle m esz) qs C0 = Inr C" and "i < n"
  shows "node_serves (Suc n) (Suc i) (mpi_calls C) new_NodeProcessCode (cs_nodes C ! i)"
proof -
  have "nodes_follow (cs_start n) C"
    using init_followed [OF assms(1)] run_followed [OF assms(2)] nodes_follow_then by blast
  then show ?thesis
    using assms(3) by (auto simp: nodes_follow_def cs_start_def mpi_world_size_def)
qed

lemma node_serves_terminate:
  assumes "node_serves w r cs nd nd'"
  shows "node_start w r (node_inputs r cs) nd = Inr (nd', node_outputs r cs, Waiting)"
    and "node_start w r (node_inputs r (cs @ [Bcast_request CS_TERMINATE])) nd = Inr (nd', node_outputs r cs, Left)"
  using assms by (auto simp: node_serves_def node_start_steps dest: spec [of _ "[]"])

text \<open>
  C13. However the client-server file system is used after it was mounted, with any behaviour of the
  collectives: if the master gets through its requests, then every node, running its own receive
  loop on the collective calls the master has made, takes part in each of them in its turn, has
  contributed to the gathers what the master has got from it, is in the state the master's
  operations have left it in and waits for the next request; the termination broadcast makes it
  leave the loop.
\<close>

theorem nodes_stay_in_step:
  assumes "cs_FuseInit ev (cs_start n) = Inr C0" and "foldE (cs_handle m esz) qs C0 = Inr C" and "i < n"
  defines "calls \<equiv> mpi_calls C"
  shows "node_start (Suc n) (Suc i) (node_inputs (Suc i) calls) new_NodeProcessCode =
      Inr (cs_nodes C ! i, node_outputs (Suc i) calls, Waiting) \<and>
    node_start (Suc n) (Suc i) (node_inputs (Suc i) (mpi_calls (cs_sendTermination C))) new_NodeProcessCode =
      Inr (cs_nodes C ! i, node_outputs (Suc i) calls, Left)"
  using node_serves_terminate [OF master_followed [OF assms(1-3)]]
  by (simp add: calls_def cs_sendTermination_def)

section \<open>A run to exercise the theorem\<close>

definition demo_requests :: "(env \<times> cs_request) list" where
  "demo_requests = [(demo_env, Cs_call (call_create 1 ''a'' 1)), (demo_env, Cs_flush 2), (demo_env, Cs_open 2 0)]"

lemmas cs_mount_eval = cs_FuseInit_def at_master_def cs_init_master_def cs_RegisterINode_def cs_start_def
  cs_new_FileSystem_def new_Nodes_def getNumberOfDeletedINodes_def AddINode_def modINode_def modINodeAt_def
  UpdateUsedINodes_def cs_sendChangedir_def mpi_calling_def createEmptyINode_def new_INode_def cs_InitializeINode_def

lemmas cs_create_eval = cs_FuseCreate_def on_directory_def no_such_ino_def past_end_def getNumberOfINodes_def
  getINode_def getINodeByINodeNumber_def as_Directory_def new_Directory_def kMaxFilenameLength_def parent_alive_def
  createEmptyBlockListForInode_def set_Directory_def UpdateChild_def map_find_def Lookup_def inode_at_def has_flag_def
  as_File_def new_File_def set_attr_def reply_def zero_entry_param_def zero_stat_def

lemmas cs_open_eval = cs_FuseFlush_def cs_FuseOpen_def mod_master_def cs_sendReadRequest_def attr_def
  master_DAGonFS_Read_def set_buf_def set_File_def

lemma demo_requests_run:
  "\<exists>C0 C. cs_FuseInit demo_env (cs_start 2) = Inr C0 \<and>
     foldE (cs_handle plain_mpi (\<lambda>_. 24)) demo_requests C0 = Inr C \<and> length (mpi_calls C) = 3"
  by (simp add: demo_requests_def cs_mount_eval cs_create_eval cs_open_eval Let_def) (simp add: word_le_nat_alt)

theorem nodes_stay_in_step_witness:
  "\<exists>C0 C. cs_FuseInit demo_env (cs_start 2) = Inr C0 \<and>
     foldE (cs_handle plain_mpi (\<lambda>_. 24)) demo_requests C0 = Inr C \<and> length (mpi_calls C) = 3 \<and>
     node_start 3 1 (node_inputs 1 (mpi_calls C)) new_NodeProcessCode =
       Inr (cs_nodes C ! 0, node_outputs 1 (mpi_calls C), Waiting)"
proof -
  obtain C0 C where run: "cs_FuseInit demo_env (cs_start 2) = Inr C0"
      "foldE (cs_handle plain_mpi (\<lambda>_. 24)) demo_requests C0 = Inr C" "length (mpi_calls C) = 3"
    using demo_requests_run by blast
  with nodes_stay_in_step [OF run(1,2), of 0] show ?thesis by auto
qed

end
