(* ===== verification/Session.thy ===== *)
theory Session
  imports Receiver Launcher ClientServerNodes
begin

text \<open>
  The start and the end of a process: \<open>main\<close> of both versions (\<^verbatim>\<open>main.cpp\<close>), \<open>FileSystem::start\<close> of
  both versions (\<^verbatim>\<open>ramfs/FileSystem.cpp\<close>), \<open>createFileDump\<close> of the master and the \<open>ArgumentParser\<close>.
  The answers of the operating system and of libfuse, the session loop included, are parameters;
  the calls that the code makes are recorded in order.
\<close>

section \<open>The operating system and libfuse\<close>

record host =
  dir_opens :: "string \<Rightarrow> bool"     \<comment> \<open>\<open>opendir\<close> succeeds\<close>
  mkdir_works :: "string \<Rightarrow> bool"
  fopen_works :: "string \<Rightarrow> bool"
  chdir_works :: "string \<Rightarrow> bool"

record fuse_cmdline_opts =
  show_help :: bool
  show_version :: bool
  foreground :: bool
  mountpoint :: "string option"

text \<open>The second component of the loop's result is what \<open>fuse_session_loop\<close> returns.\<close>

record 's libfuse =
  fuse_parse_cmdline :: "string list \<Rightarrow> int \<times> fuse_cmdline_opts"
  fuse_session_new :: "string list \<Rightarrow> bool"
  fuse_set_signal_handlers :: int
  fuse_session_mount :: "string \<Rightarrow> int"
  fuse_session_loop :: "'s \<Rightarrow> ('s \<times> int) exec"

datatype session_call =
    Call_opendir string | Call_closedir | Call_mkdir string | Call_fopen string | Call_chdir string
  | Call_parse_cmdline "string list" | Call_show_usage string | Call_help | Call_version
  | Call_session_new "string list" | Call_set_signal_handlers | Call_session_mount string
  | Call_daemonize bool | Call_session_loop | Call_session_unmount | Call_remove_signal_handlers
  | Call_session_exit | Call_session_destroy | Call_umount string | Call_rmdir string | Call_fclose

text \<open>
  \<open>ses_block\<close> are the characters of the arguments and of the environment, one string behind the other,
  as the system lays them out for a new process; a pointer into them is an offset. \<open>ses_timeFile\<close> says
  whether the static pointer \<open>timeFile\<close> (\<open>timeFile1\<close> in the client-server version) is not null, as it is
  at first. \<open>ses_forked\<close>: the code has gone on in a child of the process, because \<open>fuse_daemonize\<close>
  forks unless it is told to stay in the foreground; a child has none of the other threads of the
  process, the receiver among them.
\<close>

record 's session =
  ses_sys :: 's
  ses_block :: string
  ses_calls :: "session_call list"
  ses_timeFile :: bool
  ses_forked :: bool

definition new_session :: "'s \<Rightarrow> string \<Rightarrow> 's session" where
  "new_session sys block =
     \<lparr>ses_sys = sys, ses_block = block, ses_calls = [], ses_timeFile = False, ses_forked = False\<rparr>"

definition does :: "session_call list \<Rightarrow> 's session \<Rightarrow> 's session" where
  "does cs S = S\<lparr>ses_calls := ses_calls S @ cs\<rparr>"

definition args_block :: "string list \<Rightarrow> string" where
  "args_block ss = concat (map (\<lambda>s. s @ [NUL]) ss)"

fun args_at :: "nat \<Rightarrow> string list \<Rightarrow> nat list" where
  "args_at p [] = []"
| "args_at p (s # ss) = p # args_at (p + length s + 1) ss"

definition argument :: "'s session \<Rightarrow> nat \<Rightarrow> string exec" where
  "argument S p = c_string (drop p (ses_block S))"

section \<open>ArgumentParser\<close>

definition copy_args :: "nat \<Rightarrow> nat list \<Rightarrow> 's session \<Rightarrow> string list exec" where
  "copy_args argc argv S = mapE (argument S) (take argc argv)"

section \<open>FileSystem::start\<close>

definition ensure_directory :: "host \<Rightarrow> string \<Rightarrow> 's session \<Rightarrow> bool \<times> 's session" where
  "ensure_directory hs path S =
     (if dir_opens hs path then (True, does [Call_opendir path, Call_closedir] S)
      else (mkdir_works hs path, does [Call_opendir path, Call_mkdir path] S))"

definition open_times_file :: "host \<Rightarrow> 's session \<Rightarrow> bool \<times> 's session" where
  "open_times_file hs S =
     (let timesDirName = ''/tmp/DAGonFS_times/'';
          timesFileName = timesDirName @ ''copy_times.txt'';
          (made, S1) = ensure_directory hs timesDirName S
      in if \<not> made then (False, S1)
         else (fopen_works hs timesFileName,
           (does [Call_fopen timesFileName] S1)\<lparr>ses_timeFile := fopen_works hs timesFileName\<rparr>))"

text \<open>The destructor of \<open>FileSystem\<close> closes the file, whether it was opened or not.\<close>

definition destroy_FileSystem :: "'s session \<Rightarrow> 's session exec" where
  "destroy_FileSystem S = (if ses_timeFile S then Inr (does [Call_fclose] S) else Inl NullDeref)"

text \<open>\<open>memcpy(argv[2], fsPath.c_str(), fsPath.length())\<close>: the terminator is not copied.\<close>

definition memcpy_at :: "nat \<Rightarrow> string \<Rightarrow> string \<Rightarrow> string exec" where
  "memcpy_at p src block =
     (if p + length src \<le> length block then Inr (take p block @ src @ drop (p + length src) block) else Inl BadAccess)"

text \<open>From the signal handlers to their removal; \<open>dump\<close> is what the version does after the loop.\<close>

definition serve ::
  "'s libfuse \<Rightarrow> string \<Rightarrow> bool \<Rightarrow> ('s session \<Rightarrow> 's session) \<Rightarrow> 's session \<Rightarrow> (int \<times> 's session) exec" where
  "serve fl mnt fg dump S =
     (let S1 = does [Call_set_signal_handlers] S
      in if fuse_set_signal_handlers fl \<noteq> 0 then Inr (0, S1)
         else
           let S2 = does [Call_session_mount mnt] S1
           in andThen
                (if fuse_session_mount fl mnt \<noteq> 0 then Inr (0, S2)
                 else
                   let S3 = (does [Call_daemonize fg, Call_session_loop] S2)\<lparr>ses_forked := \<not> fg\<rparr>
                   in andThen (fuse_session_loop fl (ses_sys S3)) (\<lambda>(sys, ret).
                        Inr (ret, does [Call_session_unmount] (dump (S3\<lparr>ses_sys := sys\<rparr>)))))
                (\<lambda>(ret, S4). Inr (ret, does [Call_remove_signal_handlers] S4)))"

text \<open>
  From the parsing of the command line to the return. \<open>argv2\<close> is read again at the end, \<open>tell\<close>
  tells the other processes.
\<close>

definition run_session ::
  "'s libfuse \<Rightarrow> string list \<Rightarrow> nat \<Rightarrow> ('s session \<Rightarrow> 's session) \<Rightarrow> ('s session \<Rightarrow> 's session) \<Rightarrow>
    's session \<Rightarrow> (int \<times> 's session) exec" where
  "run_session fl copied argv2 dump tell S =
     (let (rc, opts) = fuse_parse_cmdline fl copied;
          S1 = does (Call_parse_cmdline copied # (if rc \<noteq> 0 then [Call_show_usage (copied ! 0)] else [])) S
      in if show_help opts then Inr (0, does [Call_help] S1)
         else if show_version opts then Inr (0, does [Call_version] S1)
         else case mountpoint opts of
           None \<Rightarrow> Inr (2, S1)
         | Some mnt \<Rightarrow>
             let S2 = does [Call_session_new copied] S1
             in if \<not> fuse_session_new fl copied then Inr (-1, S2)
                else andThen (serve fl mnt (foreground opts) dump S2) (\<lambda>(ret, S3).
                  andThen (argument S3 argv2) (\<lambda>dir.
                    Inr (ret, tell (does [Call_session_exit, Call_session_destroy, Call_umount dir,
                      Call_rmdir dir] S3)))))"

text \<open>The peer-to-peer version.\<close>

definition tell_peers :: "fs_state session \<Rightarrow> fs_state session" where
  "tell_peers S =
     (let s = ses_sys S
      in if unmountFromThread s then S
         else S\<lparr>ses_sys := sending (sendTerminationRequest (mpiRank s) (mpiWorldSize s)) s\<rparr>)"

definition p2p_start ::
  "host \<Rightarrow> fs_state libfuse \<Rightarrow> nat \<Rightarrow> nat list \<Rightarrow> fs_state session \<Rightarrow> (int \<times> fs_state session) exec" where
  "p2p_start hs fl argc argv S =
     (if length argv \<le> 2 then Inl NullDeref
      else andThen (argument S (argv ! 2)) (\<lambda>dir.
        let (made, S1) = ensure_directory hs dir S
        in if \<not> made then Inr (0, S1)
           else
             let fsPath = dir @ ''/'' @ to_string (mpiRank (ses_sys S1));
                 (made, S2) = ensure_directory hs fsPath S1
             in if \<not> made then Inr (0, S2)
                else
                  let (opened, S3) = open_times_file hs S2
                  in if \<not> opened then Inr (0, S3)
                     else andThen (memcpy_at (argv ! 2) fsPath (ses_block S3)) (\<lambda>block.
                       let S4 = S3\<lparr>ses_block := block\<rparr>
                       in andThen (copy_args argc argv S4) (\<lambda>copied.
                            run_session fl copied (argv ! 2) id tell_peers S4))))"

text \<open>The client-server version: the arguments are copied first and the mount point is not changed.\<close>

definition createFileDump :: "host \<Rightarrow> 's session \<Rightarrow> 's session" where
  "createFileDump hs S =
     (let dump = ''/tmp/DAGonFS_dump''; master = ''/tmp/DAGonFS_dump/master''
      in if \<not> mkdir_works hs dump then does [Call_mkdir dump] S
         else if \<not> mkdir_works hs master then does [Call_mkdir dump, Call_mkdir master] S
         else does [Call_mkdir dump, Call_mkdir master, Call_chdir master] S)"

definition tell_nodes :: "cs_system session \<Rightarrow> cs_system session" where
  "tell_nodes S = S\<lparr>ses_sys := cs_sendTermination (ses_sys S)\<rparr>"

definition cs_master_start ::
  "host \<Rightarrow> cs_system libfuse \<Rightarrow> nat \<Rightarrow> nat list \<Rightarrow> cs_system session \<Rightarrow> (int \<times> cs_system session) exec" where
  "cs_master_start hs fl argc argv S =
     andThen (copy_args argc argv S) (\<lambda>copied.
       if length argv \<le> 2 then Inl NullDeref
       else andThen (argument S (argv ! 2)) (\<lambda>dir.
         let (made, S1) = ensure_directory hs dir S
         in if \<not> made then Inr (0, S1)
            else
              let (opened, S2) = open_times_file hs S1
              in if \<not> opened then Inr (0, S2)
                 else run_session fl copied (argv ! 2) (createFileDump hs) tell_nodes S2))"

section \<open>main\<close>

text \<open>\<open>istringstream(argv[3]) >> logLevelFlag\<close>\<close>

definition logLevelFlag :: "string \<Rightarrow> bool" where
  "logLevelFlag str =
     (let s = dropWhile is_space str;
          rest = (if s \<noteq> [] \<and> (hd s = CHR ''-'' \<or> hd s = CHR ''+'') then tl s else s)
      in digits_value (takeWhile is_digit rest) \<noteq> 0)"

definition main_arguments :: "nat list \<Rightarrow> 's session \<Rightarrow> (nat \<times> bool) exec" where
  "main_arguments argv S =
     (if length argv < 1 then Inl NullDeref
      else if length argv = 4 then andThen (argument S (argv ! 3)) (\<lambda>flag. Inr (3, logLevelFlag flag))
      else Inr (length argv, False))"

text \<open>
  \<open>DistributedCode::getInstance\<close> reads the mount point, then the receiver is started; the result is
  the receiver's configuration and the session at the join, where the process waits for the receiver
  to leave its loop. \<open>p2p_main_leave\<close> is the rest: \<open>None\<close> while \<open>main\<close> waits, then the destruction of the
  file system.
\<close>

definition p2p_main ::
  "host \<Rightarrow> fs_state libfuse \<Rightarrow> nat \<Rightarrow> nat \<Rightarrow> nat list \<Rightarrow> string \<Rightarrow> (dist_code \<times> fs_state session) exec" where
  "p2p_main hs fl rank worldSize argv block =
     (let S = new_session (new_FileSystem rank worldSize) block
      in andThen (main_arguments argv S) (\<lambda>(argc, logging).
         if length argv \<le> 2 then Inl NullDeref
         else andThen (argument S (argv ! 2)) (\<lambda>dir.
           andThen (p2p_start hs fl argc argv S) (\<lambda>(ret, S').
             Inr (new_DistributedCode rank worldSize dir, S')))))"

definition p2p_main_leave :: "receiver \<Rightarrow> fs_state session \<Rightarrow> fs_state session option exec" where
  "p2p_main_leave p S =
     (if rx_running p then Inr None else andThen (destroy_FileSystem S) (\<lambda>S'. Inr (Some S')))"

text \<open>
  The result is that of the master's file system, which is destroyed at the end of its block, or what
  the node has done with its input.
\<close>

definition cs_main ::
  "host \<Rightarrow> cs_system libfuse \<Rightarrow> nat \<Rightarrow> nat \<Rightarrow> nat list \<Rightarrow> string \<Rightarrow> node_input list \<Rightarrow>
    ((int \<times> cs_system session) + (cs_node \<times> cell list list \<times> node_status)) exec" where
  "cs_main hs fl rank worldSize argv block ins =
     (let S = new_session (cs_start (worldSize - 1)) block
      in andThen (main_arguments argv S) (\<lambda>(argc, logging).
         if rank = 0 then andThen (cs_master_start hs fl argc argv S) (\<lambda>(ret, S').
           andThen (destroy_FileSystem S') (\<lambda>S''. Inr (Inl (ret, S''))))
         else andThen (node_start worldSize rank ins new_NodeProcessCode) (\<lambda>r. Inr (Inr r))))"

section \<open>What a start leaves behind\<close>

lemma does_simps [simp]:
  "ses_sys (does cs S) = ses_sys S" "ses_block (does cs S) = ses_block S"
  "ses_calls (does cs S) = ses_calls S @ cs" "ses_timeFile (does cs S) = ses_timeFile S"
  "ses_forked (does cs S) = ses_forked S"
  by (simp_all add: does_def)

lemma new_session_simps [simp]:
  "ses_sys (new_session sys block) = sys" "ses_block (new_session sys block) = block"
  "ses_calls (new_session sys block) = []" "\<not> ses_timeFile (new_session sys block)" "\<not> ses_forked (new_session sys block)"
  by (simp_all add: new_session_def)

lemma tell_simps [simp]: "ses_calls (tell_peers S) = ses_calls S" "ses_calls (tell_nodes T) = ses_calls T"
  "ses_timeFile (tell_peers S) = ses_timeFile S" "ses_timeFile (tell_nodes T) = ses_timeFile T"
  by (simp_all add: tell_peers_def tell_nodes_def Let_def)

text \<open>
  \<open>S'\<close> is \<open>S\<close> after calls that do not destroy a session: the file system is untouched.
\<close>

definition quiet :: "'s session \<Rightarrow> 's session \<Rightarrow> bool" where
  "quiet S S' \<longleftrightarrow> ses_sys S' = ses_sys S \<and>
     (\<exists>cs. ses_calls S' = ses_calls S @ cs \<and> Call_session_destroy \<notin> set cs)"

lemma quiet_refl [simp]: "quiet S S"
  by (simp add: quiet_def)

lemma quiet_trans: "quiet S S' \<Longrightarrow> quiet S' S'' \<Longrightarrow> quiet S S''"
  by (auto simp: quiet_def)

lemma quiet_does: "quiet S S' \<Longrightarrow> Call_session_destroy \<notin> set cs \<Longrightarrow> quiet S (does cs S')"
  by (auto simp: quiet_def)

lemma quiet_fields [simp]:
  "quiet S (S'\<lparr>ses_block := b\<rparr>) = quiet S S'" "quiet S (S'\<lparr>ses_timeFile := t\<rparr>) = quiet S S'"
  "quiet S (S'\<lparr>ses_forked := d\<rparr>) = quiet S S'"
  by (simp_all add: quiet_def)

lemma ensure_directory_quiet: "ensure_directory hs path S = (ok, S') \<Longrightarrow> quiet S S'"
  by (auto simp: ensure_directory_def quiet_does split: if_splits)

lemma open_times_file_quiet: "open_times_file hs S = (ok, S') \<Longrightarrow> quiet S S'"
  by (auto simp: open_times_file_def Let_def quiet_does split: prod.splits if_splits
      dest!: ensure_directory_quiet)

lemma createFileDump_quiet: "quiet S (createFileDump hs S)"
  by (simp add: createFileDump_def Let_def quiet_does)

text \<open>The loop has run at most once and nothing else changed the file system.\<close>

definition looped :: "'s libfuse \<Rightarrow> 's session \<Rightarrow> 's session \<Rightarrow> bool" where
  "looped fl S S' \<longleftrightarrow> (\<exists>cs. ses_calls S' = ses_calls S @ cs) \<and>
     (ses_sys S' = ses_sys S \<or> (\<exists>r. fuse_session_loop fl (ses_sys S) = Inr (ses_sys S', r)))"

text \<open>The session was closed, and the last thing that happened was \<open>tell\<close>.\<close>

definition closed_session :: "'s libfuse \<Rightarrow> ('s session \<Rightarrow> 's session) \<Rightarrow> 's session \<Rightarrow> 's session \<Rightarrow> bool" where
  "closed_session fl tell S S' \<longleftrightarrow> (\<exists>T. looped fl S T \<and> S' = tell T \<and>
     (\<exists>cs. ses_calls T = ses_calls S @ cs \<and> Call_session_destroy \<in> set cs))"

lemma looped_refl: "looped fl S S"
  by (simp add: looped_def)

lemma looped_does: "looped fl S S' \<Longrightarrow> looped fl S (does cs S')"
  by (auto simp: looped_def)

lemma looped_quiet_left: "quiet S S1 \<Longrightarrow> looped fl S1 S' \<Longrightarrow> looped fl S S'"
  by (auto simp: looped_def quiet_def)

lemma looped_quiet_right: "looped fl S S1 \<Longrightarrow> quiet S1 S' \<Longrightarrow> looped fl S S'"
  by (auto simp: looped_def quiet_def)

lemma looped_loop:
  "fuse_session_loop fl (ses_sys S) = Inr (sys, r) \<Longrightarrow> looped fl S (S\<lparr>ses_sys := sys\<rparr>)"
  by (auto simp: looped_def)

lemma serve_looped:
  assumes run: "serve fl mnt fg dump S = Inr (ret, S')" and dump: "\<And>S. quiet S (dump S)"
  shows "looped fl S S'"
proof -
  let ?S1 = "does [Call_set_signal_handlers] S"
  let ?S2 = "does [Call_session_mount mnt] ?S1"
  let ?S3 = "(does [Call_daemonize fg, Call_session_loop] ?S2)\<lparr>ses_forked := \<not> fg\<rparr>"
  have kept: "looped fl S ?S1" "looped fl S ?S2" by (simp_all add: looped_refl looped_does)
  have quiet: "quiet S ?S3" by (simp add: quiet_does)
  have loop: "looped fl S (dump (?S3\<lparr>ses_sys := sys\<rparr>))"
    if "fuse_session_loop fl (ses_sys S) = Inr (sys, r)" for sys r
    using looped_quiet_left [OF quiet looped_loop [of fl ?S3 sys r]] that
    by (auto intro: looped_quiet_right [OF _ dump])
  show ?thesis
    using run kept by (auto simp: serve_def Let_def split: if_splits intro!: looped_does loop)
qed

lemma run_session_ends:
  assumes run: "run_session fl copied p dump tell S = Inr (ret, S')" and dump: "\<And>S. quiet S (dump S)"
  shows "quiet S S' \<or> closed_session fl tell S S'"
proof -
  obtain rc opts where parse: "fuse_parse_cmdline fl copied = (rc, opts)" by fastforce
  define S1 where
    "S1 = does (Call_parse_cmdline copied # (if rc \<noteq> 0 then [Call_show_usage (copied ! 0)] else [])) S"
  let ?S2 = "does [Call_session_new copied] S1"
  have S1: "quiet S S1" by (simp add: S1_def quiet_does)
  have closed: "closed_session fl tell S (tell (does [Call_session_exit, Call_session_destroy, Call_umount dir, Call_rmdir dir] S3))"
    if "serve fl mnt fg dump ?S2 = Inr (ret, S3)" for mnt fg S3 dir
  proof -
    have "looped fl S S3"
      using serve_looped [OF that dump] quiet_does [OF S1, of "[Call_session_new copied]"] by (auto intro: looped_quiet_left)
    moreover then obtain cs where "ses_calls S3 = ses_calls S @ cs" by (auto simp: looped_def)
    ultimately show ?thesis unfolding closed_session_def
      by (intro exI [of _ "does [Call_session_exit, Call_session_destroy, Call_umount dir, Call_rmdir dir] S3"])
        (simp add: looped_does)
  qed
  show ?thesis
    using run [unfolded run_session_def parse Let_def prod.case, folded S1_def] closed quiet_does [OF S1] S1
    by (auto split: if_splits option.splits)
qed

lemma closed_after_quiet: "quiet S S1 \<Longrightarrow> closed_session fl tell S1 S2 \<Longrightarrow> closed_session fl tell S S2"
  unfolding closed_session_def quiet_def looped_def by fastforce

lemma p2p_start_ends:
  assumes "p2p_start hs fl argc argv S = Inr (ret, S')"
  shows "quiet S S' \<or> closed_session fl tell_peers S S'"
proof -
  obtain dir where dir: "argument S (argv ! 2) = Inr dir"
    using assms by (auto simp: p2p_start_def split: if_splits)
  obtain ok1 S1 where one: "ensure_directory hs dir S = (ok1, S1)" by fastforce
  let ?path = "dir @ ''/'' @ to_string (mpiRank (ses_sys S1))"
  obtain ok2 S2 where two: "ensure_directory hs ?path S1 = (ok2, S2)" by fastforce
  obtain ok3 S3 where three: "open_times_file hs S2 = (ok3, S3)" by fastforce
  have q: "quiet S S1" "quiet S S2" "quiet S S3"
    using one two three by (blast intro: quiet_trans ensure_directory_quiet open_times_file_quiet)+
  have rest: "quiet S S' \<or> closed_session fl tell_peers S S'"
    if "run_session fl copied p id tell_peers (S3\<lparr>ses_block := b\<rparr>) = Inr (ret, S')" for copied p b
    using run_session_ends [OF that] q(3) quiet_fields(1) [where S = S and S' = S3 and b = b]
    by (metis quiet_trans closed_after_quiet id_apply quiet_refl)
  show ?thesis
    using assms q rest by (auto simp: p2p_start_def dir one two [simplified] three Let_def split: if_splits)
qed

lemma cs_master_start_ends:
  assumes "cs_master_start hs fl argc argv S = Inr (ret, S')"
  shows "quiet S S' \<or> closed_session fl tell_nodes S S'"
proof -
  obtain dir where dir: "argument S (argv ! 2) = Inr dir"
    using assms by (auto simp: cs_master_start_def split: if_splits)
  obtain ok1 S1 where one: "ensure_directory hs dir S = (ok1, S1)" by fastforce
  obtain ok2 S2 where two: "open_times_file hs S1 = (ok2, S2)" by fastforce
  have q: "quiet S S1" "quiet S S2"
    using one two by (blast intro: quiet_trans ensure_directory_quiet open_times_file_quiet)+
  have rest: "quiet S S' \<or> closed_session fl tell_nodes S S'"
    if "run_session fl copied p (createFileDump hs) tell_nodes S2 = Inr (ret, S')" for copied p
    using run_session_ends [OF that createFileDump_quiet] q(2) by (auto intro: quiet_trans closed_after_quiet)
  show ?thesis
    using assms q rest by (auto simp: cs_master_start_def dir one two Let_def split: if_splits)
qed

text \<open>The file of the times is open exactly if \<open>start\<close> has got as far as the command line.\<close>

definition parsed :: "'s session \<Rightarrow> bool" where
  "parsed S \<longleftrightarrow> (\<exists>c. Call_parse_cmdline c \<in> set (ses_calls S))"

lemma parsed_does: "parsed (does cs S) \<longleftrightarrow> (\<exists>c. Call_parse_cmdline c \<in> set cs) \<or> parsed S"
  by (auto simp: parsed_def)

lemma ensure_directory_parsed:
  "ensure_directory hs path S = (ok, S') \<Longrightarrow> parsed S' = parsed S \<and> ses_timeFile S' = ses_timeFile S"
  by (auto simp: ensure_directory_def parsed_does split: if_splits)

lemma open_times_file_parsed:
  "open_times_file hs S = (ok, S') \<Longrightarrow> \<not> ses_timeFile S \<Longrightarrow> parsed S' = parsed S \<and> ses_timeFile S' = ok"
  by (auto simp: open_times_file_def Let_def parsed_def split: prod.splits if_splits dest!: ensure_directory_parsed)

lemma serve_parsed:
  assumes "serve fl mnt fg dump S = Inr (ret, S')"
    and dump: "\<And>S. parsed (dump S) = parsed S \<and> ses_timeFile (dump S) = ses_timeFile S"
  shows "parsed S' = parsed S \<and> ses_timeFile S' = ses_timeFile S"
proof -
  have "parsed (S\<lparr>ses_sys := x\<rparr>) = parsed S" "parsed (S\<lparr>ses_forked := b\<rparr>) = parsed S" for S :: "'a session" and x b
    by (simp_all add: parsed_def)
  then show ?thesis using assms by (auto simp: serve_def Let_def parsed_does split: if_splits)
qed

lemma run_session_parsed:
  assumes "run_session fl copied p dump tell S = Inr (ret, S')"
    and dump: "\<And>S. parsed (dump S) = parsed S \<and> ses_timeFile (dump S) = ses_timeFile S"
    and tell: "\<And>S. parsed (tell S) = parsed S \<and> ses_timeFile (tell S) = ses_timeFile S"
  shows "parsed S' \<and> ses_timeFile S' = ses_timeFile S"
  using assms(1)
  by (auto simp: run_session_def Let_def parsed_does tell split: prod.splits if_splits option.splits
      dest!: serve_parsed [OF _ dump])

lemma tell_parsed:
  "parsed (tell_peers S) = parsed S \<and> ses_timeFile (tell_peers S) = ses_timeFile S"
  "parsed (tell_nodes T) = parsed T \<and> ses_timeFile (tell_nodes T) = ses_timeFile T"
  by (simp_all add: parsed_def)

lemma createFileDump_parsed: "parsed (createFileDump hs S) = parsed S \<and> ses_timeFile (createFileDump hs S) = ses_timeFile S"
  by (simp add: createFileDump_def Let_def parsed_does)

lemma quiet_destroys: "ses_calls S = [] \<Longrightarrow> quiet S S' \<Longrightarrow> Call_session_destroy \<notin> set (ses_calls S')"
  by (auto simp: quiet_def)

lemma p2p_start_parsed:
  assumes "p2p_start hs fl argc argv S = Inr (ret, S')" and "ses_calls S = []" and "\<not> ses_timeFile S"
  shows "ses_timeFile S' = parsed S' \<and> (Call_session_destroy \<in> set (ses_calls S') \<longrightarrow> parsed S')"
proof -
  obtain dir where dir: "argument S (argv ! 2) = Inr dir"
    using assms(1) by (auto simp: p2p_start_def split: if_splits)
  obtain ok1 S1 where one: "ensure_directory hs dir S = (ok1, S1)" by fastforce
  let ?path = "dir @ ''/'' @ to_string (mpiRank (ses_sys S1))"
  obtain ok2 S2 where two: "ensure_directory hs ?path S1 = (ok2, S2)" by fastforce
  obtain ok3 S3 where three: "open_times_file hs S2 = (ok3, S3)" by fastforce
  have "\<not> parsed S" using assms(2) by (simp add: parsed_def)
  then have "\<not> parsed S1" "\<not> ses_timeFile S1" "\<not> parsed S2" "\<not> ses_timeFile S2" "\<not> parsed S3" "ses_timeFile S3 = ok3"
    using assms(3) ensure_directory_parsed [OF one] ensure_directory_parsed [OF two] open_times_file_parsed [OF three]
    by simp_all
  moreover have "quiet S S1" "quiet S S2" "quiet S S3"
    using one two three by (blast intro: quiet_trans ensure_directory_quiet open_times_file_quiet)+
  ultimately show ?thesis
    using assms(1) quiet_destroys [OF assms(2)] run_session_parsed [of fl _ _ id tell_peers _ ret S'] tell_parsed(1)
    by (fastforce simp: p2p_start_def dir one two [simplified] three Let_def split: if_splits)
qed

lemma cs_master_start_parsed:
  assumes "cs_master_start hs fl argc argv S = Inr (ret, S')" and "ses_calls S = []" and "\<not> ses_timeFile S"
  shows "ses_timeFile S' = parsed S' \<and> (Call_session_destroy \<in> set (ses_calls S') \<longrightarrow> parsed S')"
proof -
  obtain dir where dir: "argument S (argv ! 2) = Inr dir"
    using assms(1) by (auto simp: cs_master_start_def split: if_splits)
  obtain ok1 S1 where one: "ensure_directory hs dir S = (ok1, S1)" by fastforce
  obtain ok2 S2 where two: "open_times_file hs S1 = (ok2, S2)" by fastforce
  have "\<not> parsed S" using assms(2) by (simp add: parsed_def)
  then have "\<not> parsed S1" "\<not> ses_timeFile S1" "\<not> parsed S2" "ses_timeFile S2 = ok2"
    using assms(3) ensure_directory_parsed [OF one] open_times_file_parsed [OF two] by simp_all
  moreover have "quiet S S1" "quiet S S2"
    using one two by (blast intro: quiet_trans ensure_directory_quiet open_times_file_quiet)+
  ultimately show ?thesis
    using assms(1) quiet_destroys [OF assms(2)] run_session_parsed [of fl _ _ "createFileDump hs" tell_nodes S2 ret S'] tell_parsed(2) createFileDump_parsed
    by (fastforce simp: cs_master_start_def dir one two Let_def split: if_splits)
qed

section \<open>A host where everything works\<close>

definition demo_host :: host where
  "demo_host = \<lparr>dir_opens = (\<lambda>_. False), mkdir_works = (\<lambda>_. True), fopen_works = (\<lambda>_. True), chdir_works = (\<lambda>_. True)\<rparr>"

definition demo_libfuse :: "('s \<Rightarrow> ('s \<times> int) exec) \<Rightarrow> 's libfuse" where
  "demo_libfuse run = \<lparr>fuse_parse_cmdline = (\<lambda>as. (0, \<lparr>show_help = False, show_version = False, foreground = True,
       mountpoint = Some (last as)\<rparr>)),
     fuse_session_new = (\<lambda>_. True), fuse_set_signal_handlers = 0, fuse_session_mount = (\<lambda>_. 0), fuse_session_loop = run\<rparr>"

definition demo_args :: "string list" where
  "demo_args = [''./DAGonFS.exe'', ''-f'', ''/tmp/fs'', ''1'']"

lemmas session_eval = demo_host_def demo_libfuse_def demo_args_def args_block_def main_arguments_def argument_def
  c_string_def Let_def ensure_directory_def open_times_file_def memcpy_at_def copy_args_def run_session_def serve_def does_def
  new_session_def

definition demo_peer_loop :: "fs_state \<Rightarrow> (fs_state \<times> int) exec" where
  "demo_peer_loop s = andThen (FuseInit demo_env s) (\<lambda>s'. Inr (s', 0))"

lemma new_FileSystem_ids [simp]:
  "mpiRank (new_FileSystem r w) = r" "mpiWorldSize (new_FileSystem r w) = w"
  "unmountFromThread (new_FileSystem r w) = False"
  by (simp_all add: new_FileSystem_def)

lemma demo_p2p_run:
  "\<exists>dc S'. p2p_main demo_host (demo_libfuse demo_peer_loop) 10 16 (args_at 0 demo_args)
     (args_block (demo_args @ [''A=b''])) = Inr (dc, S') \<and>
     Call_session_destroy \<in> set (ses_calls S') \<and> \<not> unmountFromThread (ses_sys S') \<and> \<not> ses_forked S' \<and>
     Call_parse_cmdline [''./DAGonFS.exe'', ''-f'', ''/tmp/fs/10A=b''] \<in> set (ses_calls S')"
proof -
  have "to_string 10 = ''10''" by code_simp
  then show ?thesis
    by (simp add: p2p_main_def p2p_start_def tell_peers_def demo_peer_loop_def session_eval exec_simps FuseInit_eq sending_def)
qed

lemma demo_cs_arguments:
  "\<exists>logging. main_arguments (args_at 0 demo_args) (new_session (cs_start 2) (args_block demo_args)) = Inr (3, logging)"
  by (simp add: session_eval exec_simps)

lemma demo_cs_run:
  "run (cs_start 2) = Inr (C, 0) \<Longrightarrow>
     \<exists>S'. cs_master_start demo_host (demo_libfuse run) 3 (args_at 0 demo_args) (new_session (cs_start 2) (args_block demo_args)) = Inr (0, S') \<and>
       Call_session_destroy \<in> set (ses_calls S') \<and> \<not> ses_forked S'"
  by (simp add: cs_master_start_def createFileDump_def tell_nodes_def session_eval exec_simps)

section \<open>The end of the processes\<close>

text \<open>A receiver stops at a termination request only.\<close>

lemma start_keeps_running:
  assumes "start dc (q, p) (q', p')" and "\<forall>src. RequestPacket TERMINATE \<notin> set (q src)"
  shows "rx_running p' \<and> (\<forall>src. RequestPacket TERMINATE \<notin> set (q' src))"
proof -
  obtain source pkt rest where recv: "q' = q(source := rest)" "rx_running p" "q source = pkt # rest"
    "receive dc source pkt p = Inr p'" using assms(1) by (auto elim: startE)
  then have other: "pkt \<noteq> RequestPacket TERMINATE" and rest: "RequestPacket TERMINATE \<notin> set rest"
    using assms(2) by (metis list.set_intros)+
  have "rx_running p'"
  proof (cases "rx_awaiting p")
    case None
    then show ?thesis using recv other
      by (auto simp: receive_def start_request_def Let_def split: packet.splits RequestType.splits if_splits)
  next
    case (Some t)
    then show ?thesis using recv finish_running [of dc source t pkt p p'] by (simp add: receive_def)
  qed
  then show ?thesis using recv rest assms(2) by auto
qed

lemma waiting_for_ever:
  assumes "(start dc)\<^sup>*\<^sup>* (q, p) (q', p')" and "\<forall>src. RequestPacket TERMINATE \<notin> set (q src)" and "rx_running p"
  shows "rx_running p'"
proof -
  have "rx_running (snd c) \<and> (\<forall>src. RequestPacket TERMINATE \<notin> set (fst c src))" if "(start dc)\<^sup>*\<^sup>* (q, p) c" for c
    using that
  proof (induction rule: rtranclp_induct)
    case base
    then show ?case using assms(2,3) by simp
  next
    case (step c c')
    then show ?case using start_keeps_running [of dc "fst c" "snd c" "fst c'" "snd c'"] by simp
  qed
  from this [OF assms(1)] show ?thesis by simp
qed

text \<open>
  C28. How a process of the peer-to-peer version in the foreground ends. One that has closed its
  session and was not unmounted by a receiver tells every process to terminate; every receiver
  that gets this leaves its loop, its own included, so that \<open>main\<close> gets past the join. One that a
  receiver had unmounted tells nobody again. But every return before the session is there, a directory
  or the file of the times that cannot be made included, tells nobody, and \<open>main\<close> waits at the join as
  long as no other process sends a termination. After the join the file of the times is closed: a
  process that never opened it, because it has returned before it parsed its command line, then ends in
  \<open>fclose\<close> of a null pointer.
\<close>

theorem p2p_main_ends:
  assumes run: "p2p_main hs fl r w argv block = Inr (dc, S')" and "\<not> ses_forked S'"
    and keeps: "\<forall>s k. fuse_session_loop fl (new_FileSystem r w) = Inr (s, k) \<longrightarrow> mpiRank s = r \<and> mpiWorldSize s = w"
    and receiver: "i < w" "rx_running p" "rx_awaiting p = None"
  shows "(if Call_session_destroy \<notin> set (ses_calls S') then
      ses_sys S' = new_FileSystem r w \<and>
      (\<forall>q q' p'. (\<forall>src. RequestPacket TERMINATE \<notin> set (q src)) \<and>
          (start dc)\<^sup>*\<^sup>* (q, new_receiver (ses_sys S')) (q', p') \<longrightarrow> p2p_main_leave p' S' = Inr None)
    else if unmountFromThread (ses_sys S') then
      (\<exists>k. fuse_session_loop fl (new_FileSystem r w) = Inr (ses_sys S', k))
    else \<exists>sent. sends (ses_sys S') = sent @ sendTerminationRequest r w \<and>
      (\<forall>dc q rest. q r = arriving i (sendTerminationRequest r w) @ rest \<longrightarrow>
         (\<exists>p'. start dc (q, p) (q(r := rest), p') \<and> \<not> rx_running p'))) \<and>
    (\<forall>p'. \<not> rx_running p' \<longrightarrow> p2p_main_leave p' S' =
       (if \<exists>c. Call_parse_cmdline c \<in> set (ses_calls S') then Inr (Some (does [Call_fclose] S')) else Inl NullDeref)) \<and>
    (Call_session_destroy \<in> set (ses_calls S') \<longrightarrow> (\<exists>c. Call_parse_cmdline c \<in> set (ses_calls S')))"
    (is "?ends \<and> ?leave \<and> ?destroyed")
proof (intro conjI)
  let ?S = "new_session (new_FileSystem r w) block"
  obtain argc ret where start: "p2p_start hs fl argc argv ?S = Inr (ret, S')"
    using run by (auto simp: p2p_main_def Let_def split: if_splits)
  have opened: "ses_timeFile S' = parsed S' \<and> (Call_session_destroy \<in> set (ses_calls S') \<longrightarrow> parsed S')"
    by (rule p2p_start_parsed [OF start]) simp_all
  then show ?leave ?destroyed
    by (auto simp: p2p_main_leave_def destroy_FileSystem_def exec_simps parsed_def)
  from p2p_start_ends [OF start] show ?ends
  proof
    assume "quiet ?S S'"
    then show ?thesis
      by (auto simp: quiet_def p2p_main_leave_def new_receiver_def dest!: waiting_for_ever)
  next
    assume "closed_session fl tell_peers ?S S'"
    then obtain T cs where T: "S' = tell_peers T" "looped fl ?S T" "ses_calls T = cs" "Call_session_destroy \<in> set cs"
      by (auto simp: closed_session_def)
    then have rank: "mpiRank (ses_sys T) = r" "mpiWorldSize (ses_sys T) = w"
      using keeps by (auto simp: looped_def)
    show ?thesis
    proof (cases "unmountFromThread (ses_sys T)")
      case True
      then show ?thesis using T by (auto simp: tell_peers_def looped_def)
    next
      case False
      have stops: "\<forall>dc q rest. q r = arriving i (sendTerminationRequest r w) @ rest \<longrightarrow>
          (\<exists>p'. start dc (q, p) (q(r := rest), p') \<and> \<not> rx_running p')"
        using termination_received [OF receiver] by blast
      have "ses_calls S' = ses_calls T" "ses_sys S' = sending (sendTerminationRequest r w) (ses_sys T)"
        using T(1) rank False by (simp_all add: tell_peers_def)
      then show ?thesis using T(3,4) False stops by (simp add: sending_def)
    qed
  qed
qed

text \<open>
  C29. How the client-server version ends, its master in the foreground. However the file system was
  used, every node, running on the collective calls the master has made, is in the state the master
  has left it in and has left its loop if the master has closed a session, mounted or not; after any
  earlier return of the master's \<open>start\<close> it waits for a request that never comes. The master itself
  closes the file of the times at the end: when it has returned before it parsed the command line, this
  is \<open>fclose\<close> of a null pointer.
\<close>

theorem cs_main_ends:
  fixes n block
  defines "S \<equiv> new_session (cs_start n) block"
  assumes args: "main_arguments argv S = Inr (argc, logging)"
    and start: "cs_master_start hs fl argc argv S = Inr (ret, S')" and "\<not> ses_forked S'"
    and session: "fuse_session_loop fl (cs_start n) = andThen (cs_FuseInit ev (cs_start n)) (\<lambda>C0.
      andThen (foldE (cs_handle m esz) qs C0) (\<lambda>C. Inr (C, k)))"
    and node: "i < n"
  defines "calls \<equiv> mpi_calls (ses_sys S')"
  shows "cs_main hs fl (Suc i) (Suc n) argv block (node_inputs (Suc i) calls) =
      Inr (Inr (cs_nodes (ses_sys S') ! i, node_outputs (Suc i) calls,
        if Call_session_destroy \<in> set (ses_calls S') then Left else Waiting)) \<and>
    cs_main hs fl 0 (Suc n) argv block [] =
      (if \<exists>c. Call_parse_cmdline c \<in> set (ses_calls S') then Inr (Inl (ret, does [Call_fclose] S')) else Inl NullDeref) \<and>
    (Call_session_destroy \<in> set (ses_calls S') \<longrightarrow> (\<exists>c. Call_parse_cmdline c \<in> set (ses_calls S')))"
    (is "?node \<and> ?master \<and> ?destroyed")
proof (intro conjI)
  have opened: "ses_timeFile S' = parsed S' \<and> (Call_session_destroy \<in> set (ses_calls S') \<longrightarrow> parsed S')"
    by (rule cs_master_start_parsed [OF start]) (simp_all add: S_def)
  then show ?master ?destroyed
    using args start by (auto simp: cs_main_def S_def destroy_FileSystem_def exec_simps parsed_def)
  have node_main: "cs_main hs fl (Suc i) (Suc n) argv block ins = andThen (node_start (Suc n) (Suc i) ins new_NodeProcessCode) (\<lambda>r. Inr (Inr r))" for ins
    using args by (simp add: cs_main_def S_def Let_def exec_simps)
  have served: "node_serves (Suc n) (Suc i) (mpi_calls C) new_NodeProcessCode (cs_nodes C ! i)"
    if "C = cs_start n \<or> (\<exists>k'. fuse_session_loop fl (cs_start n) = Inr (C, k'))" for C
  proof (cases "C = cs_start n")
    case True
    then show ?thesis using node by (simp add: node_serves_nothing cs_start_def)
  next
    case False
    then show ?thesis using that session master_followed [OF _ _ node] by auto
  qed
  from cs_master_start_ends [OF start] show ?node
  proof
    assume "quiet S S'"
    then have "ses_sys S' = cs_start n" "Call_session_destroy \<notin> set (ses_calls S')" by (auto simp: quiet_def S_def)
    then show ?thesis using node_serves_terminate(1) [OF served] by (simp add: calls_def node_main exec_simps)
  next
    assume "closed_session fl tell_nodes S S'"
    then obtain T where T: "S' = tell_nodes T" "looped fl S T" "Call_session_destroy \<in> set (ses_calls T)"
      by (auto simp: closed_session_def)
    then have "node_serves (Suc n) (Suc i) (mpi_calls (ses_sys T)) new_NodeProcessCode (cs_nodes (ses_sys T) ! i)"
      using served by (auto simp: looped_def S_def)
    then show ?thesis using node_serves_terminate(2) T
      by (simp add: calls_def node_main exec_simps tell_nodes_def cs_sendTermination_def)
  qed
qed

theorem p2p_main_ends_witness:
  "\<exists>dc S' sent p'. p2p_main demo_host (demo_libfuse demo_peer_loop) 10 16 (args_at 0 demo_args)
       (args_block (demo_args @ [''A=b''])) = Inr (dc, S') \<and>
     sends (ses_sys S') = sent @ sendTerminationRequest 10 16 \<and>
     start demo_code ((\<lambda>_. [])(10 := arriving 3 (sendTerminationRequest 10 16)), new_receiver demo_tree) (\<lambda>_. [], p') \<and>
     p2p_main_leave p' S' = Inr (Some (does [Call_fclose] S'))"
proof -
  obtain dc S' where run: "p2p_main demo_host (demo_libfuse demo_peer_loop) 10 16 (args_at 0 demo_args)
       (args_block (demo_args @ [''A=b''])) = Inr (dc, S')"
    and ended: "Call_session_destroy \<in> set (ses_calls S')" "\<not> unmountFromThread (ses_sys S')" "\<not> ses_forked S'"
    using demo_p2p_run by blast
  have keeps: "\<forall>s k. fuse_session_loop (demo_libfuse demo_peer_loop) (new_FileSystem 10 16) = Inr (s, k) \<longrightarrow>
      mpiRank s = 10 \<and> mpiWorldSize s = 16"
    by (auto simp: demo_libfuse_def demo_peer_loop_def FuseInit_eq exec_simps)
  let ?q = "(\<lambda>_. [])(10 := arriving 3 (sendTerminationRequest 10 16))" and ?p = "new_receiver demo_tree"
  obtain sent where sent: "sends (ses_sys S') = sent @ sendTerminationRequest 10 16"
    and stops: "\<forall>dc q rest. q 10 = arriving 3 (sendTerminationRequest 10 16) @ rest \<longrightarrow>
      (\<exists>p'. start dc (q, ?p) (q(10 := rest), p') \<and> \<not> rx_running p')"
    and leaves: "\<forall>p'. \<not> rx_running p' \<longrightarrow> p2p_main_leave p' S' = Inr (Some (does [Call_fclose] S'))"
    using p2p_main_ends [OF run ended(3) keeps, of 3 ?p] ended by (auto simp: new_receiver_def)
  have "?q (10 :: nat) = arriving 3 (sendTerminationRequest 10 16) @ []" "?q(10 :: nat := []) = (\<lambda>_. [] :: packet list)" by auto
  then show ?thesis
    using stops [rule_format, of ?q "[]" demo_code] leaves run sent by auto
qed

theorem cs_main_ends_witness:
  "\<exists>run S'. cs_master_start demo_host (demo_libfuse run) 3 (args_at 0 demo_args) (new_session (cs_start 2) (args_block demo_args)) =
       Inr (0, S') \<and>
     cs_main demo_host (demo_libfuse run) 0 3 (args_at 0 demo_args) (args_block demo_args) [] = Inr (Inl (0, does [Call_fclose] S')) \<and>
     cs_main demo_host (demo_libfuse run) 1 3 (args_at 0 demo_args) (args_block demo_args)
       (node_inputs 1 (mpi_calls (ses_sys S'))) = Inr (Inr (cs_nodes (ses_sys S') ! 0, node_outputs 1 (mpi_calls (ses_sys S')), Left)) \<and>
     cs_main (demo_host\<lparr>mkdir_works := \<lambda>_. False\<rparr>) (demo_libfuse run) 0 3 (args_at 0 demo_args) (args_block demo_args) [] = Inl NullDeref"
proof -
  obtain C0 C where C: "cs_FuseInit demo_env (cs_start 2) = Inr C0" "foldE (cs_handle plain_mpi (\<lambda>_. 24)) demo_requests C0 = Inr C"
    using demo_requests_run by blast
  define run :: "cs_system \<Rightarrow> (cs_system \<times> int) exec" where
    "run = (\<lambda>C. andThen (cs_FuseInit demo_env C) (\<lambda>C0.
       andThen (foldE (cs_handle plain_mpi (\<lambda>_. 24)) demo_requests C0) (\<lambda>C. Inr (C, 0))))"
  have ran: "run (cs_start 2) = Inr (C, 0)" using C by (simp add: run_def exec_simps)
  let ?S = "new_session (cs_start 2) (args_block demo_args)"
  obtain S' where start: "cs_master_start demo_host (demo_libfuse run) 3 (args_at 0 demo_args) ?S = Inr (0, S')"
    and ended: "Call_session_destroy \<in> set (ses_calls S')" "\<not> ses_forked S'"
    using demo_cs_run [of run C, OF ran] by blast
  have loop: "fuse_session_loop (demo_libfuse run) (cs_start 2) = andThen (cs_FuseInit demo_env (cs_start 2)) (\<lambda>C0.
      andThen (foldE (cs_handle plain_mpi (\<lambda>_. 24)) demo_requests C0) (\<lambda>C. Inr (C, 0)))"
    by (simp add: demo_libfuse_def run_def)
  obtain logging where "main_arguments (args_at 0 demo_args) ?S = Inr (3, logging)" using demo_cs_arguments by blast
  note main = cs_main_ends [OF this start ended(2) loop, of 0]
  have "cs_main (demo_host\<lparr>mkdir_works := \<lambda>_. False\<rparr>) (demo_libfuse run) 0 3 (args_at 0 demo_args) (args_block demo_args) [] = Inl NullDeref"
    by (simp add: cs_main_def cs_master_start_def destroy_FileSystem_def session_eval exec_simps)
  with main show ?thesis
    using start ended(1) by (intro exI [of _ run] exI [of _ S']) auto
qed

section \<open>The mount point of a process\<close>

lemma c_string_first: "NUL \<notin> set s \<Longrightarrow> c_string (s @ NUL # xs) = Inr s"
  by (simp add: c_string_def) (subst takeWhile_append2; auto)

lemma parse_calls:
  "ensure_directory hs path S = (ok, S') \<Longrightarrow> Call_parse_cmdline c \<in> set (ses_calls S') \<longleftrightarrow> Call_parse_cmdline c \<in> set (ses_calls S)"
  "open_times_file hs S = (ok, S') \<Longrightarrow> Call_parse_cmdline c \<in> set (ses_calls S') \<longleftrightarrow> Call_parse_cmdline c \<in> set (ses_calls S)"
  by (auto simp: ensure_directory_def open_times_file_def Let_def split: if_splits prod.splits)

lemma serve_parse_calls:
  "serve fl mnt fg id S = Inr (ret, S') \<Longrightarrow>
     Call_parse_cmdline c \<in> set (ses_calls S') \<longleftrightarrow> Call_parse_cmdline c \<in> set (ses_calls S)"
  by (auto simp: serve_def Let_def split: if_splits)

lemma run_session_parses:
  assumes "run_session fl copied p id tell_peers S = Inr (ret, S')"
    and "Call_parse_cmdline c \<in> set (ses_calls S')" and "Call_parse_cmdline c \<notin> set (ses_calls S)"
  shows "c = copied"
  using assms
  by (auto simp: run_session_def Let_def split: prod.splits if_splits option.splits dest!: serve_parse_calls [of _ _ _ _ _ _ c])

lemma to_string_length: "r < 10 \<Longrightarrow> length (to_string r) = 1" "10 \<le> r \<Longrightarrow> r < 100 \<Longrightarrow> length (to_string r) = 2"
  by (simp_all add: to_string.simps)

lemma to_string_plain: "NUL \<notin> set (to_string n)"
proof
  assume "NUL \<in> set (to_string n)"
  then have "is_digit NUL" using to_string_number [of n] by (auto simp: list_all_iff)
  then show False by (simp add: is_digit_def)
qed

text \<open>What \<open>start\<close> hands to libfuse when it gets that far.\<close>

lemma p2p_start_parses:
  assumes "p2p_start hs fl argc argv S = Inr (ret, S')" and "argument S (argv ! 2) = Inr dir"
    and "Call_parse_cmdline c \<in> set (ses_calls S')" and "ses_calls S = []"
  shows "\<exists>T b. memcpy_at (argv ! 2) (dir @ ''/'' @ to_string (mpiRank (ses_sys S))) (ses_block S) = Inr b \<and>
    copy_args argc argv (T\<lparr>ses_block := b\<rparr> :: fs_state session) = Inr c"
proof -
  obtain ok1 S1 where one: "ensure_directory hs dir S = (ok1, S1)" by fastforce
  then have sys: "ses_sys S1 = ses_sys S" by (auto simp: ensure_directory_def split: if_splits)
  let ?path = "dir @ ''/'' @ to_string (mpiRank (ses_sys S))"
  obtain ok2 S2 where two: "ensure_directory hs ?path S1 = (ok2, S2)" by fastforce
  obtain ok3 S3 where three: "open_times_file hs S2 = (ok3, S3)" by fastforce
  have none: "Call_parse_cmdline c \<notin> set (ses_calls S1)" "Call_parse_cmdline c \<notin> set (ses_calls S2)"
    "Call_parse_cmdline c \<notin> set (ses_calls S3)"
    using assms(4) parse_calls(1) [OF one] parse_calls(1) [OF two] parse_calls(2) [OF three] by simp_all
  have kept: "ses_block S3 = ses_block S"
    using one two three by (auto simp: ensure_directory_def open_times_file_def Let_def split: if_splits prod.splits)
  show ?thesis
    using assms(1-3) none kept sys
    by (auto simp: p2p_start_def one two [simplified] three Let_def split: if_splits
        dest!: run_session_parses)
qed

text \<open>
  C30. The copy of the process's own mount point over \<open>argv[2]\<close> is longer than the argument and
  brings no terminator. Started as the launcher does it, with a flag of one character as the last
  argument, the ranks below 10 overwrite this flag and mount where their receivers replay; from rank
  10 on the terminator of the flag is overwritten as well, and libfuse gets the first string of the
  environment glued to the mount point.
\<close>

theorem mount_point_overrun:
  fixes prog opt dir e :: string and flag :: char and env :: "string list"
  defines "args \<equiv> [prog, opt, dir, [flag]]"
  assumes "\<forall>a\<in>set (args @ e # env). NUL \<notin> set a" and "r < 100"
    and run: "p2p_main hs fl r w (args_at 0 args) (args_block (args @ e # env)) = Inr (dc, S')"
    and parse: "Call_parse_cmdline copied \<in> set (ses_calls S')"
  shows "copied = [prog, opt, dir @ ''/'' @ to_string r @ (if r < 10 then [] else e)] \<and>
    fsPath dc = dir @ ''/'' @ to_string r"
proof -
  have plain: "NUL \<notin> set prog" "NUL \<notin> set opt" "NUL \<notin> set dir" "flag \<noteq> NUL" "NUL \<notin> set e"
    using assms(2) by (auto simp: args_def)
  define rest where "rest = args_block env"
  define before where "before = prog @ NUL # opt @ [NUL]"
  have block: "args_block (args @ e # env) = before @ dir @ NUL # flag # NUL # e @ NUL # rest"
    by (simp add: args_block_def args_def rest_def before_def)
  have argv: "args_at 0 args = [0, length prog + 1, length before, length before + length dir + 1]"
    by (simp add: args_def before_def)
  let ?S = "new_session (new_FileSystem r w) (args_block (args @ e # env))"
  have dir: "argument ?S (length before) = Inr dir" "argument ?S (length before + length dir + 1) = Inr [flag]"
    using plain c_string_first [of dir] c_string_first [of "[flag]"] by (simp_all add: argument_def block)
  have "\<exists>ret. p2p_start hs fl 3 (args_at 0 args) ?S = Inr (ret, S')" and fs: "fsPath dc = dir @ ''/'' @ to_string r"
    using run dir
    by (auto simp: p2p_main_def main_arguments_def argv Let_def new_DistributedCode_def split: if_splits)
  then obtain ret where start: "p2p_start hs fl 3 (args_at 0 args) ?S = Inr (ret, S')" by blast
  obtain T0 b where "memcpy_at (length before) (dir @ ''/'' @ to_string r) (ses_block ?S) = Inr b"
      "copy_args 3 (args_at 0 args) (T0\<lparr>ses_block := b\<rparr> :: fs_state session) = Inr copied"
    using p2p_start_parses [OF start _ parse, of dir] dir by (auto simp: argv new_FileSystem_def)
  then obtain T :: "fs_state session" where T: "memcpy_at (length before) (dir @ ''/'' @ to_string r) (ses_block ?S) = Inr (ses_block T)"
      "copy_args 3 (args_at 0 args) T = Inr copied"
    by (metis session.select_convs(2) session.surjective session.update_convs(2))
  define path where "path = dir @ ''/'' @ to_string r @ (if r < 10 then [] else e)"
  have written: "\<exists>zs. ses_block T = before @ path @ NUL # zs"
  proof (cases "r < 10")
    case True
    then show ?thesis
      using T(1) [symmetric] to_string_length(1) [of r] by (auto simp: memcpy_at_def block path_def split: if_splits)
  next
    case False
    then show ?thesis
      using T(1) [symmetric] to_string_length(2) [of r] assms(3) by (auto simp: memcpy_at_def block path_def split: if_splits)
  qed
  then obtain zs where zs: "ses_block T = before @ path @ NUL # zs" by blast
  have "NUL \<notin> set path" using plain by (simp add: path_def to_string_plain)
  then have "copied = [prog, opt, path]"
    using T(2) plain c_string_first [of prog] c_string_first [of opt] c_string_first [of path]
    by (simp add: copy_args_def argv argument_def zs before_def exec_simps)
  then show ?thesis using fs by (simp add: path_def)
qed


theorem mount_point_overrun_witness:
  "\<exists>dc S' copied. p2p_main demo_host (demo_libfuse demo_peer_loop) 10 16 (args_at 0 demo_args)
       (args_block (demo_args @ [''A=b''])) = Inr (dc, S') \<and> Call_parse_cmdline copied \<in> set (ses_calls S') \<and>
     copied ! 2 = fsPath dc @ ''A=b''"
proof -
  obtain dc S' copied where run: "p2p_main demo_host (demo_libfuse demo_peer_loop) 10 16 (args_at 0 demo_args)
       (args_block (demo_args @ [''A=b''])) = Inr (dc, S')"
    and parse: "Call_parse_cmdline copied \<in> set (ses_calls S')"
    using demo_p2p_run by blast
  have "copied = [''./DAGonFS.exe'', ''-f'', ''/tmp/fs'' @ ''/'' @ to_string 10 @ ''A=b''] \<and> fsPath dc = ''/tmp/fs'' @ ''/'' @ to_string 10"
    using mount_point_overrun [where prog = "''./DAGonFS.exe''" and opt = "''-f''" and dir = "''/tmp/fs''" and flag = "CHR ''1''"
        and e = "''A=b''" and env = "[]" and r = 10, OF _ _ run [unfolded demo_args_def] parse] by simp
  then have "copied ! 2 = fsPath dc @ ''A=b''" by simp
  with run parse show ?thesis by blast
qed

end
