(* ===== verification/ClientServerSpec.thy ===== *)
theory ClientServerSpec
  imports ClientServerIO
begin

text \<open>
  What the distributed operations of the client-server version promise: the contract
  \<open>replicated_store\<close> holds for the master's write, so a file reads back as it was last written; the
  price is that no process ever releases a block.
\<close>

section \<open>Shares\<close>

lemma cs_effectiveBlocks_eq:
  assumes "n < 2 ^ 31"
  shows "cs_effectiveBlocks n w r = effectiveBlocks n w r"
proof -
  have "n div w < 2 ^ 31" using assms by (meson div_le_dividend le_less_trans)
  then have "unat ((of_nat (n div w) :: u32) + b) = n div w + unat b" if "unat b \<le> 1" for b
    using that by (simp add: unat_word_ariths unat_of_nat)
  then show ?thesis by (auto simp: cs_effectiveBlocks_def effectiveBlocks_def Let_def)
qed

lemma cs_vectors_eq:
  assumes "n < 2 ^ 31"
  shows "cs_counts e n w = countsFor e n w" "cs_displs e n w = displsFor e n w"
  by (simp_all add: cs_counts_def cs_displs_def countsFor_def displsFor_def cs_effectiveBlocks_eq [OF assms])

lemma cs_small: "n * CS_SINGLE_BLOCK_SIZE < 2 ^ 31 \<Longrightarrow> n < 2 ^ 31"
  by (simp add: CS_SINGLE_BLOCK_SIZE_def)

lemma cs_pointers_small: "n * CS_SINGLE_BLOCK_SIZE < 2 ^ 31 \<Longrightarrow> n * sizeof_PointerPacket < 2 ^ 31"
  by (simp add: CS_SINGLE_BLOCK_SIZE_def sizeof_PointerPacket_def)

lemma cs_numberOfBlocks_eq: "blocks_of_size fileSize < 2 ^ 31 \<Longrightarrow> cs_numberOfBlocks fileSize = blocks_of_size fileSize"
  by (simp add: cs_numberOfBlocks_def unat_of_nat)

section \<open>The distributed write\<close>

definition cs_heap :: "cs_system \<Rightarrow> nat \<Rightarrow> heap" where
  "cs_heap C r = (if r = 0 then master_heap C else node_heap (cs_nodes C ! (r - 1)))"

lemma cs_heap_simps: "cs_heap C 0 = master_heap C" "cs_heap C (Suc i) = node_heap (cs_nodes C ! i)"
  by (simp_all add: cs_heap_def)

definition new_addresses :: "heap \<Rightarrow> 'a list \<Rightarrow> addr list" where
  "new_addresses h blocks = map Suc [length h..<length h + length blocks]"

definition cs_addresses :: "cell list list \<Rightarrow> cs_system \<Rightarrow> addr list" where
  "cs_addresses ds C =
     concat (map (\<lambda>r. new_addresses (cs_heap C r) (rank_chunks (length ds) (mpi_world_size C) ds ! r))
       [0..<mpi_world_size C])"

definition node_blocks :: "nat \<Rightarrow> fuse_ino_t \<Rightarrow> addr list \<Rightarrow> data_block list" where
  "node_blocks rank ino as = map (\<lambda>a. (setData (new_DataBlock ino) a)\<lparr>processRank := of_nat rank\<rparr>) as"

definition node_written :: "nat \<Rightarrow> fuse_ino_t \<Rightarrow> cell list list \<Rightarrow> cs_node \<Rightarrow> cs_node" where
  "node_written rank ino chunk nd =
     nd\<lparr>node_heap := node_heap nd @ chunk,
        dataBlockPointers := map_assign
          (if map_find (dataBlockPointers nd) ino = None then map_assign (dataBlockPointers nd) ino []
           else dataBlockPointers nd) ino
          (block_list (dataBlockPointers nd) ino @ node_blocks rank ino (new_addresses (node_heap nd) chunk))\<rparr>"

definition cs_installed :: "nat \<Rightarrow> fuse_ino_t \<Rightarrow> addr list \<Rightarrow> fs_state \<Rightarrow> fs_state" where
  "cs_installed w ino as s = s\<lparr>BlocksManager :=
     map_assign (fst (getDataBlockListOfInode (BlocksManager s) ino)) ino
       (installed_list CS_SINGLE_BLOCK_SIZE w 0 ino as (block_list (BlocksManager s) ino))\<rparr>"

text \<open>The collective calls of a write of the blocks \<open>ds\<close>.\<close>

definition write_calls :: "fuse_ino_t \<Rightarrow> u64 \<Rightarrow> cell list list \<Rightarrow> cs_system \<Rightarrow> mpi_call list" where
  "write_calls ino fileSize ds C =
     [Bcast_io \<lparr>io_inode = ino, io_fileSize = fileSize, io_reqSize = None, io_offset = None\<rparr>,
      Scatterv_pieces (map concat (rank_chunks (length ds) (mpi_world_size C) ds)),
      Gatherv_pieces (map (\<lambda>r. store_ptrs (new_addresses (cs_heap C r) (rank_chunks (length ds) (mpi_world_size C) ds ! r)))
        [0..<mpi_world_size C])]"

definition cs_written :: "fuse_ino_t \<Rightarrow> u64 \<Rightarrow> cell list list \<Rightarrow> cs_system \<Rightarrow> cs_system" where
  "cs_written ino fileSize ds C =
     C\<lparr>master_fs := cs_installed (mpi_world_size C) ino (cs_addresses ds C) (master_fs C),
       master_heap := master_heap C @ rank_chunks (length ds) (mpi_world_size C) ds ! 0,
       cs_nodes := map (\<lambda>i. node_written (Suc i) ino (rank_chunks (length ds) (mpi_world_size C) ds ! Suc i)
                          (cs_nodes C ! i)) [0..<length (cs_nodes C)],
       mpi_calls := mpi_calls C @ write_calls ino fileSize ds C\<rparr>"

lemma store_new_blocks:
  "\<forall>d\<in>set ds. length d = e \<Longrightarrow> n = length ds \<Longrightarrow> store_blocks e h n (concat ds) = (h @ ds, new_addresses h ds)"
  by (simp add: store_blocks_eq new_addresses_def)

lemma fetch_new_addresses:
  "\<forall>d\<in>set ds. length d = e \<Longrightarrow> fetch_blocks e (h @ ds) (new_addresses h ds) = Inr (concat ds)"
  unfolding new_addresses_def by (rule fetch_new_blocks)

lemma length_new_addresses [simp]: "length (new_addresses h ds) = length ds"
  by (simp add: new_addresses_def)

lemma node_write_eq:
  assumes "cs_numberOfBlocks fileSize = n" and "n < 2 ^ 31"
    and "\<forall>d\<in>set chunk. length d = CS_SINGLE_BLOCK_SIZE" and "length chunk = effectiveBlocks n w rank"
  shows "node_DAGonFS_Write w rank ino fileSize (concat chunk) nd =
    (node_written rank ino chunk nd, store_ptrs (new_addresses (node_heap nd) chunk))"
proof -
  let ?m0 = "if map_find (dataBlockPointers nd) ino = None
    then map_assign (dataBlockPointers nd) ino [] else dataBlockPointers nd"
  have "getDataBlockPointers ?m0 ino = (?m0, block_list (dataBlockPointers nd) ino)"
    by (auto simp: getDataBlockPointers_def getDataBlockListOfInode_def block_list_def map_find_assign
        split: option.split)
  moreover have "store_blocks CS_SINGLE_BLOCK_SIZE (node_heap nd) (effectiveBlocks n w rank) (concat chunk) =
      (node_heap nd @ chunk, new_addresses (node_heap nd) chunk)"
    using assms(3,4) by (intro store_new_blocks) simp_all
  ultimately show ?thesis
    by (simp only: node_DAGonFS_Write_def Let_def assms(1) cs_effectiveBlocks_eq [OF assms(2)] prod.case
        node_written_def node_blocks_def node_createEmptyBlockListForInode_def)
qed

lemma cs_install_eq:
  assumes "length as < 2 ^ 31" and "length (block_list (BlocksManager s) ino) < 2 ^ 31"
  shows "cs_install w ino as s = Inr (cs_installed w ino as s)"
proof -
  let ?bl = "block_list (BlocksManager s) ino" and ?e = CS_SINGLE_BLOCK_SIZE
  have bm0: "(if \<not> blockListExistForInode (BlocksManager s) ino
      then createEmptyBlockListForInode (BlocksManager s) ino else BlocksManager s) = BlocksManager s"
    by (simp add: blockListExistForInode_def createEmptyBlockListForInode_def)
  obtain bm bl where get: "getDataBlockListOfInode (BlocksManager s) ino = (bm, bl)" by force
  then have bl: "bl = ?bl" using getDataBlockListOfInode_block_list by blast
  let ?k = "int (length as) - int (length bl)"
  have "to_int ?k = ?k"
    using assms bl by (simp add: to_int_def signed_take_bit_int_eq_self)
  then have grown: "(if 0 < to_int ?k then addDataBlocksTo ?e w bl (to_int ?k) ino 0 else bl) =
      grown_list ?e w 0 ino (length as) bl"
    by (simp add: grown_list_def)
  have "set_addresses (grown_list ?e w 0 ino (length as) bl) 0 as = Inr (installed_list ?e w 0 ino as bl)"
    using set_addresses_eq [of 0 as "grown_list ?e w 0 ino (length as) bl"]
    by (simp add: installed_list_def Let_def)
  then show ?thesis
    unfolding cs_install_def bm0 get
    by (simp add: grown Let_def cs_installed_def bl [symmetric] get)
qed

lemma length_cs_addresses: "length (cs_addresses ds C) = length ds"
proof -
  let ?w = "mpi_world_size C" and ?c = "rank_chunks (length ds) (mpi_world_size C) ds"
  have "length (cs_addresses ds C) = sum_list (map length (map (\<lambda>r. ?c ! r) [0..<?w]))"
    by (simp add: cs_addresses_def length_concat comp_def)
  also have "map (\<lambda>r. ?c ! r) [0..<?w] = ?c" by (rule nth_equalityI) simp_all
  also have "sum_list (map length ?c) = length (concat ?c)" by (simp add: length_concat)
  finally show ?thesis by (simp add: concat_rank_chunks mpi_world_size_def)
qed

lemma chunk_width:
  "\<forall>d\<in>set ds. length d = e \<Longrightarrow> r < w \<Longrightarrow> \<forall>d\<in>set (rank_chunks n w ds ! r). length d = e"
  by (auto simp: nth_rank_chunks dest: in_set_takeD in_set_dropD)

lemma store_ptrs_concat: "concat (map (\<lambda>r. store_ptrs (f r)) rs) = store_ptrs (concat (map f rs))"
  by (simp add: store_ptrs_def map_concat comp_def concat_map_concat [symmetric])

lemma master_write_eq:
  assumes doc: "mpi_documented m" and n: "blocks_of_size fileSize = n"
    and small: "n * CS_SINGLE_BLOCK_SIZE < 2 ^ 31" and buf: "n * CS_SINGLE_BLOCK_SIZE \<le> length b"
    and ready: "length (block_list (BlocksManager (master_fs C)) ino) < 2 ^ 31"
  defines "ds \<equiv> pieces CS_SINGLE_BLOCK_SIZE n b"
  shows "master_DAGonFS_Write m (Some b) ino fileSize C = Inr (cs_written ino fileSize ds C)"
proof -
  let ?w = "mpi_world_size C" and ?e = CS_SINGLE_BLOCK_SIZE and ?p = sizeof_PointerPacket
  let ?c = "rank_chunks n ?w ds" and ?N = "length (cs_nodes C)"
  let ?addr = "\<lambda>r. new_addresses (cs_heap C r) (?c ! r)"
  have w: "?w = Suc ?N" by (simp add: mpi_world_size_def)
  have n31: "n < 2 ^ 31" by (rule cs_small [OF small])
  have num: "cs_numberOfBlocks fileSize = n" using cs_numberOfBlocks_eq n n31 by simp
  have ds: "length ds = n" "\<forall>d\<in>set ds. length d = ?e"
    using buf by (simp_all add: ds_def pieces_width)
  have split: "b = concat ds @ drop (n * ?e) b" by (simp add: ds_def concat_pieces)
  have scat: "MPI_Scatterv m b (countsFor ?e n ?w) (displsFor ?e n ?w) 0 = Inr (map concat ?c)"
    by (subst split) (rule scatterv_chunks [OF doc small _ ds], simp add: w)
  have chunk: "\<forall>d\<in>set (?c ! r). length d = ?e" "length (?c ! r) = effectiveBlocks n ?w r" if "r < ?w" for r
    using chunk_width [OF ds(2) that] that ds(1) by (simp_all add: length_rank_chunk)
  have local: "store_blocks ?e (master_heap C) (effectiveBlocks n ?w 0) (map concat ?c ! 0) =
      (master_heap C @ ?c ! 0, ?addr 0)"
    using store_new_blocks [OF chunk(1) chunk(2) [symmetric], of 0] by (simp add: cs_heap_simps w)
  have others: "map (\<lambda>i. node_DAGonFS_Write ?w (Suc i) ino fileSize (map concat ?c ! Suc i) (cs_nodes C ! i)) [0..<?N] =
      map (\<lambda>i. (node_written (Suc i) ino (?c ! Suc i) (cs_nodes C ! i), store_ptrs (?addr (Suc i)))) [0..<?N]"
  proof (rule map_cong [OF refl])
    fix i assume "i \<in> set [0..<?N]"
    then have "Suc i < ?w" by (simp add: w)
    then show "node_DAGonFS_Write ?w (Suc i) ino fileSize (map concat ?c ! Suc i) (cs_nodes C ! i) =
        (node_written (Suc i) ino (?c ! Suc i) (cs_nodes C ! i), store_ptrs (?addr (Suc i)))"
      using node_write_eq [OF num n31 chunk] by (simp add: cs_heap_simps)
  qed
  have sent: "store_ptrs (?addr 0) # map snd (map (\<lambda>i. (node_written (Suc i) ino (?c ! Suc i) (cs_nodes C ! i),
      store_ptrs (?addr (Suc i)))) [0..<?N]) = map (\<lambda>r. store_ptrs (?addr r)) [0..<?w]"
    unfolding w by (simp add: map_upt_Suc comp_def del: upt_Suc)
  have gat: "MPI_Gatherv m (map (\<lambda>r. store_ptrs (?addr r)) [0..<?w]) (countsFor ?p n ?w) (displsFor ?p n ?w)
      (replicate (n * ?p) Indet) 0 = Inr (store_ptrs (cs_addresses ds C))"
  proof -
    have "MPI_Gatherv m (map (\<lambda>r. store_ptrs (?addr r)) [0..<?w]) (countsFor ?p n ?w) (displsFor ?p n ?w)
        (replicate (n * ?p) Indet) 0 = Inr (concat (map (\<lambda>r. store_ptrs (?addr r)) [0..<?w]))"
      using chunk(2) by (intro gatherv_concat [OF doc cs_pointers_small [OF small]]) (auto simp: w mult.commute simp del: upt_Suc)
    then show ?thesis by (simp only: store_ptrs_concat cs_addresses_def ds(1))
  qed
  have len: "length (cs_addresses ds C) = n" by (simp add: length_cs_addresses ds(1))
  have load: "load_ptrs n (store_ptrs (cs_addresses ds C)) = Inr (cs_addresses ds C)"
    by (rule load_ptrs_store) (simp add: len)
  have inst: "cs_install ?w ino (cs_addresses ds C) (master_fs C) =
      Inr (cs_installed ?w ino (cs_addresses ds C) (master_fs C))"
    using ready len n31 by (intro cs_install_eq) simp_all
  have num_num: "cs_effectiveBlocks n ?w 0 = effectiveBlocks n ?w 0" by (rule cs_effectiveBlocks_eq [OF n31])
  show ?thesis
    unfolding master_DAGonFS_Write_def Let_def num cs_vectors_eq [OF n31] buffer_cells_def option.case scat
      andThen.simps num_num
    by (simp only: mpi_calling_simps local prod.case others sent gat andThen.simps load inst)
      (simp add: cs_written_def write_calls_def ds(1) comp_def mpi_calling_def)
qed

section \<open>What a stored file is\<close>

definition master_addresses :: "cs_system \<Rightarrow> fuse_ino_t \<Rightarrow> addr list" where
  "master_addresses C ino = map dataBlockAddress (block_list (BlocksManager (master_fs C)) ino)"

definition cs_stored :: "cs_system \<Rightarrow> fuse_ino_t \<Rightarrow> cell list list \<Rightarrow> bool" where
  "cs_stored C ino ds \<longleftrightarrow>
     (\<exists>as. length as = length ds \<and> take (length ds) (master_addresses C ino) = as \<and>
        (\<forall>r<mpi_world_size C. fetch_blocks CS_SINGLE_BLOCK_SIZE (cs_heap C r)
             (rank_chunks (length ds) (mpi_world_size C) as ! r) =
           Inr (concat (rank_chunks (length ds) (mpi_world_size C) ds ! r))))"

lemma cs_written_simps [simp]:
  "mpi_world_size (cs_written ino fileSize ds C) = mpi_world_size C"
  "length (cs_nodes (cs_written ino fileSize ds C)) = length (cs_nodes C)"
  by (simp_all add: mpi_world_size_def cs_written_def)

lemma cs_heap_written:
  "r < mpi_world_size C \<Longrightarrow>
     cs_heap (cs_written ino fileSize ds C) r = cs_heap C r @ rank_chunks (length ds) (mpi_world_size C) ds ! r"
  by (cases r) (simp_all add: cs_heap_simps cs_written_def node_written_def mpi_world_size_def)

lemma block_list_cs_installed:
  "block_list (BlocksManager (cs_installed w ino as s)) j =
     (if j = ino then installed_list CS_SINGLE_BLOCK_SIZE w 0 ino as (block_list (BlocksManager s) ino)
      else block_list (BlocksManager s) j)"
proof -
  have "block_list (fst (getDataBlockListOfInode (BlocksManager s) ino)) j = block_list (BlocksManager s) j"
    using getDataBlockListOfInode_block_list [of "BlocksManager s" ino] by (metis prod.collapse)
  then show ?thesis by (simp add: cs_installed_def block_list_assign)
qed

lemma block_list_cs_written:
  "block_list (BlocksManager (master_fs (cs_written ino fileSize ds C))) j =
     (if j = ino then installed_list CS_SINGLE_BLOCK_SIZE (mpi_world_size C) 0 ino (cs_addresses ds C)
        (block_list (BlocksManager (master_fs C)) ino)
      else block_list (BlocksManager (master_fs C)) j)"
  by (simp add: cs_written_def block_list_cs_installed)

lemma cs_stored_written:
  assumes "\<forall>d\<in>set ds. length d = CS_SINGLE_BLOCK_SIZE"
  shows "cs_stored (cs_written ino fileSize ds C) ino ds"
proof -
  let ?w = "mpi_world_size C" and ?as = "cs_addresses ds C"
  let ?addr = "\<lambda>r. new_addresses (cs_heap C r) (rank_chunks (length ds) ?w ds ! r)"
  have known: "take (length ds) (master_addresses (cs_written ino fileSize ds C) ino) = ?as"
    using installed_addresses [of ?as] length_cs_addresses [of ds C]
    by (simp add: master_addresses_def block_list_cs_written)
  have chunks: "rank_chunks (length ds) ?w ?as ! r = ?addr r" if "r < ?w" for r
  proof -
    have "rank_chunks (length ds) ?w (concat (map ?addr [0..<?w])) = map ?addr [0..<?w]"
      by (rule rank_chunks_concat) (simp_all add: length_rank_chunk)
    then show ?thesis using that by (simp add: cs_addresses_def)
  qed
  show ?thesis
    unfolding cs_stored_def using length_cs_addresses [of ds C] known
    by (auto simp: chunks cs_heap_written fetch_new_addresses [OF chunk_width [OF assms]])
qed

lemma cs_stored_other:
  assumes "cs_stored C j ds'" and "j \<noteq> ino"
  shows "cs_stored (cs_written ino fileSize ds C) j ds'"
  using assms unfolding cs_stored_def
  by (auto simp: master_addresses_def block_list_cs_written cs_heap_written fetch_old_blocks)

section \<open>The distributed read\<close>

text \<open>
  The collective calls of a read: the addresses the master has for the file, and the blocks the
  processes have stored under them.
\<close>

definition read_calls :: "fuse_ino_t \<Rightarrow> u64 \<Rightarrow> u64 \<Rightarrow> u64 \<Rightarrow> cs_system \<Rightarrow> mpi_call list" where
  "read_calls ino fileSize reqSize off C =
     (let n = blocksForRequest fileSize reqSize; w = mpi_world_size C;
          shares = rank_chunks n w (take n (master_addresses C ino))
      in [Bcast_io \<lparr>io_inode = ino, io_fileSize = fileSize, io_reqSize = Some reqSize, io_offset = Some off\<rparr>,
          Scatterv_pieces (map store_ptrs shares),
          Gatherv_pieces (map (\<lambda>r. projr (fetch_blocks CS_SINGLE_BLOCK_SIZE (cs_heap C r) (shares ! r))) [0..<w])])"

definition cs_read_system :: "fuse_ino_t \<Rightarrow> u64 \<Rightarrow> u64 \<Rightarrow> u64 \<Rightarrow> cs_system \<Rightarrow> cs_system" where
  "cs_read_system ino fileSize reqSize off C =
     C\<lparr>master_fs := (master_fs C)\<lparr>BlocksManager := fst (getDataBlockListOfInode (BlocksManager (master_fs C)) ino)\<rparr>,
       mpi_calls := mpi_calls C @ read_calls ino fileSize reqSize off C\<rparr>"

lemma master_read_stored:
  assumes doc: "mpi_documented m" and pos: "fileSize \<noteq> 0" and n: "blocks_of_size fileSize = length ds"
    and small: "length ds * CS_SINGLE_BLOCK_SIZE < 2 ^ 31" and stored: "cs_stored C ino ds"
    and req: "fileSize \<le> reqSize"
  shows "master_DAGonFS_Read m True ino fileSize reqSize off C =
    Inr (cs_read_system ino fileSize reqSize off C, Some (concat ds))"
proof -
  let ?w = "mpi_world_size C" and ?e = CS_SINGLE_BLOCK_SIZE and ?p = sizeof_PointerPacket
  let ?n = "length ds" and ?N = "length (cs_nodes C)"
  let ?bs = "map concat (rank_chunks ?n ?w ds)" and ?s = "master_fs C"
  have w: "?w = Suc ?N" by (simp add: mpi_world_size_def)
  have n31: "?n < 2 ^ 31" by (rule cs_small [OF small])
  have num: "blocksForRequest fileSize reqSize = ?n"
    using n req by (cases "reqSize = fileSize") (auto simp: blocksForRequest_def)
  obtain as where as: "length as = ?n" "take ?n (master_addresses C ino) = as"
    and all: "\<forall>r<?w. fetch_blocks ?e (cs_heap C r) (rank_chunks ?n ?w as ! r) =
      Inr (concat (rank_chunks ?n ?w ds ! r))"
    using stored unfolding cs_stored_def by blast
  have fetch: "fetch_blocks ?e (cs_heap C r) (rank_chunks ?n ?w as ! r) = Inr (?bs ! r)" if "r < ?w" for r
    using all that by simp
  obtain bm bl where get: "getDataBlockListOfInode (BlocksManager ?s) ino = (bm, bl)" by force
  then have bl: "bl = block_list (BlocksManager ?s) ino" using getDataBlockListOfInode_block_list by blast
  have addrs: "addresses_to_scatter ?n bl = Inr as"
  proof -
    have "?n \<le> length bl"
      using as length_take [of ?n "master_addresses C ino"] by (simp add: master_addresses_def bl)
    then show ?thesis using as(2) by (simp add: addresses_to_scatter_def master_addresses_def bl take_map)
  qed
  have scat: "MPI_Scatterv m (store_ptrs as) (countsFor ?p ?n ?w) (displsFor ?p ?n ?w) 0 =
      Inr (map store_ptrs (rank_chunks ?n ?w as))"
    using as(1) by (intro scatterv_ptrs [OF doc cs_pointers_small [OF small]]) (simp_all add: w)
  have eff: "cs_effectiveBlocks ?n ?w r = effectiveBlocks ?n ?w r" for r by (rule cs_effectiveBlocks_eq [OF n31])
  have "take (effectiveBlocks ?n ?w 0) as = rank_chunks ?n ?w as ! 0" by (simp add: nth_rank_chunks w)
  then have local: "fetch_blocks ?e (master_heap C) (take (effectiveBlocks ?n ?w 0) as) = Inr (?bs ! 0)"
    using fetch [of 0] by (simp add: cs_heap_simps w)
  have nodes: "mapE (\<lambda>i. node_DAGonFS_Read ?w (Suc i) fileSize reqSize (map store_ptrs (rank_chunks ?n ?w as) ! Suc i)
      (cs_nodes C ! i)) [0..<?N] = Inr (map (\<lambda>i. ?bs ! Suc i) [0..<?N])"
  proof (rule mapE_Inr)
    fix i assume "i \<in> set [0..<?N]"
    then have i: "Suc i < ?w" by (simp add: w)
    then have "load_ptrs (effectiveBlocks ?n ?w (Suc i)) (store_ptrs (rank_chunks ?n ?w as ! Suc i)) =
        Inr (rank_chunks ?n ?w as ! Suc i)"
      using as(1) by (intro load_ptrs_store) (simp add: length_rank_chunk)
    then show "node_DAGonFS_Read ?w (Suc i) fileSize reqSize (map store_ptrs (rank_chunks ?n ?w as) ! Suc i)
        (cs_nodes C ! i) = Inr (?bs ! Suc i)"
      using fetch [OF i] i by (simp add: node_DAGonFS_Read_def Let_def num eff cs_heap_simps andThen.simps
          del: andThen_Inr_iff)
  qed
  have joined: "?bs ! 0 # map (\<lambda>i. ?bs ! Suc i) [0..<?N] = ?bs"
    by (rule nth_equalityI) (auto simp: w nth_Cons split: nat.split)
  have gat: "MPI_Gatherv m ?bs (countsFor ?e ?n ?w) (displsFor ?e ?n ?w) (replicate (?n * ?e) Indet) 0 =
      Inr (concat ds)"
  proof -
    have "MPI_Gatherv m ?bs (countsFor ?e ?n ?w) (displsFor ?e ?n ?w) (replicate (?n * ?e) Indet) 0 =
        Inr (concat ?bs)"
      using length_fetch_blocks [OF fetch] as(1)
      by (intro gatherv_concat [OF doc small]) (auto simp: w length_rank_chunk)
    also have "concat ?bs = concat ds" by (simp add: concat_map_concat concat_rank_chunks w)
    finally show ?thesis .
  qed
  have "map (\<lambda>r. projr (fetch_blocks ?e (cs_heap C r) (rank_chunks ?n ?w as ! r))) [0..<?w] = ?bs"
    by (rule nth_equalityI) (simp_all add: fetch)
  then have calls: "read_calls ino fileSize reqSize off C =
      [Bcast_io \<lparr>io_inode = ino, io_fileSize = fileSize, io_reqSize = Some reqSize, io_offset = Some off\<rparr>,
       Scatterv_pieces (map store_ptrs (rank_chunks ?n ?w as)), Gatherv_pieces ?bs]"
    by (simp add: read_calls_def num as(2) Let_def)
  show ?thesis
    unfolding master_DAGonFS_Read_def Let_def num mpi_calling_def
    using pos by (simp add: get cs_read_system_def calls addrs scat eff local nodes joined gat
        cs_vectors_eq [OF n31] andThen.simps del: andThen_Inr_iff)
qed

end
