(* ===== verification/ClientServerProps.thy ===== *)
theory ClientServerProps
  imports ClientServerSpec ClientServerFs
begin

text \<open>
  The properties of the distributed file contents of the client-server version: the master's store
  fulfils the contract \<open>replicated_store\<close>, contents survive a flush and the next open, and no
  process ever releases a block.
\<close>

section \<open>The contract\<close>

definition cs_ready :: "fuse_ino_t \<Rightarrow> cs_system \<Rightarrow> bool" where
  "cs_ready ino C \<longleftrightarrow> length (block_list (BlocksManager (master_fs C)) ino) < 2 ^ 31"

definition cs_fits :: "u64 \<times> cell list \<Rightarrow> bool" where
  "cs_fits = (\<lambda>(fileSize, b). blocks_of_size fileSize * CS_SINGLE_BLOCK_SIZE < 2 ^ 31 \<and>
     blocks_of_size fileSize * CS_SINGLE_BLOCK_SIZE \<le> length b)"

definition cs_store :: "mpi \<Rightarrow> fuse_ino_t \<Rightarrow> u64 \<times> cell list \<Rightarrow> cs_system \<Rightarrow> cs_system exec" where
  "cs_store m ino = (\<lambda>(fileSize, b). master_DAGonFS_Write m (Some b) ino fileSize)"

definition cs_blocks :: "u64 \<times> cell list \<Rightarrow> cell list list" where
  "cs_blocks = (\<lambda>(fileSize, b). pieces CS_SINGLE_BLOCK_SIZE (blocks_of_size fileSize) b)"

definition cs_holds :: "cs_system \<Rightarrow> fuse_ino_t \<Rightarrow> u64 \<times> cell list \<Rightarrow> bool" where
  "cs_holds C ino v = cs_stored C ino (cs_blocks v)"

lemma cs_store_eq:
  assumes "mpi_documented m" and "cs_ready ino C" and "cs_fits (fileSize, b)"
  shows "cs_store m ino (fileSize, b) C = Inr (cs_written ino fileSize (cs_blocks (fileSize, b)) C)"
  using assms master_write_eq [OF assms(1) refl, of fileSize b C ino]
  by (simp add: cs_store_def cs_ready_def cs_fits_def cs_blocks_def)

lemma cs_blocks_facts:
  assumes "cs_fits (fileSize, b)"
  shows "\<forall>d\<in>set (cs_blocks (fileSize, b)). length d = CS_SINGLE_BLOCK_SIZE"
    and "length (cs_blocks (fileSize, b)) = blocks_of_size fileSize"
    and "concat (cs_blocks (fileSize, b)) = take (blocks_of_size fileSize * CS_SINGLE_BLOCK_SIZE) b"
proof -
  have "blocks_of_size fileSize * CS_SINGLE_BLOCK_SIZE \<le> length b" using assms by (simp add: cs_fits_def)
  from pieces_width [OF this] show "\<forall>d\<in>set (cs_blocks (fileSize, b)). length d = CS_SINGLE_BLOCK_SIZE"
    by (simp add: cs_blocks_def)
qed (simp_all add: cs_blocks_def concat_pieces)

interpretation master: replicated_store "\<lambda>m C. mpi_documented m" cs_ready cs_fits cs_store cs_holds
proof
  fix m C k and v :: "u64 \<times> cell list" and C'
  obtain fileSize b where v: "v = (fileSize, b)" by (cases v)
  assume pre: "mpi_documented m" "cs_ready k C" "cs_fits v"
  note eq = cs_store_eq [OF pre [unfolded v]]
  note facts = cs_blocks_facts [OF pre(3) [unfolded v]]
  show "\<exists>C'. cs_store m k v C = Inr C'" by (simp add: v eq)
  assume "cs_store m k v C = Inr C'"
  then have C': "C' = cs_written k fileSize (cs_blocks v) C" by (simp add: v eq)
  show "cs_holds C' k v" using cs_stored_written [OF facts(1)] by (simp add: C' cs_holds_def v)
  show "cs_holds C' j u" if "j \<noteq> k" "cs_holds C j u" for j u
    using that by (simp add: C' cs_holds_def cs_stored_other)
  have "length (cs_blocks v) < 2 ^ 31"
    using pre(3) facts(2) cs_small [of "blocks_of_size fileSize"] by (simp add: v cs_fits_def)
  then show "cs_ready j C'" if "cs_ready j C" for j
    using that by (cases "j = k") (auto simp: C' cs_ready_def block_list_cs_written length_cs_addresses)
qed

section \<open>Reading back\<close>

lemma master_read_held:
  assumes "mpi_documented m" and "fileSize \<noteq> 0" and "cs_fits (fileSize, b)" and "cs_holds C ino (fileSize, b)"
  shows "master_DAGonFS_Read m True ino fileSize fileSize off C =
    Inr (cs_read_system ino fileSize fileSize off C,
      Some (take (blocks_of_size fileSize * CS_SINGLE_BLOCK_SIZE) b))"
  using master_read_stored [OF assms(1,2), of "cs_blocks (fileSize, b)" C ino fileSize off] assms(3,4)
    cs_blocks_facts [OF assms(3)]
  by (simp add: cs_holds_def cs_fits_def)

text \<open>
  In the client-server version, after any sequence of distributed writes of any files, the
  master reads every file back as it was last written, up to the end of its last block: its own
  share from its own heap, the rest from the nodes.
\<close>

theorem master_last_write_wins:
  assumes mpi: "mpi_documented m"
    and ops: "\<forall>(m', ino, fileSize, b)\<in>set ops. m' = m \<and> cs_ready ino C \<and> cs_fits (fileSize, b)"
  shows "\<exists>C'. foldE (\<lambda>(m, ino, fileSize, b). master_DAGonFS_Write m (Some b) ino fileSize) ops C = Inr C' \<and>
    (\<forall>ino fileSize b.
       last_value ops (\<lambda>_. None) ino = Some (fileSize, b) \<longrightarrow> cs_fits (fileSize, b) \<longrightarrow> fileSize \<noteq> 0 \<longrightarrow>
       (\<exists>C''. master_DAGonFS_Read m True ino fileSize fileSize 0 C' =
          Inr (C'', Some (take (blocks_of_size fileSize * CS_SINGLE_BLOCK_SIZE) b))))"
proof -
  have pre: "\<forall>(r, k, v)\<in>set ops. mpi_documented r \<and> cs_ready k C \<and> cs_fits v"
    using ops mpi by auto
  have none: "\<forall>k v. (\<lambda>_. None) k = Some v \<longrightarrow> cs_holds C k v" by simp
  have run: "(\<lambda>(r, k, v). cs_store r k v) =
      (\<lambda>(m, ino, fileSize, b). master_DAGonFS_Write m (Some b) ino fileSize)"
    by (simp add: cs_store_def fun_eq_iff)
  from master.write_all_holds [OF pre none] obtain C' where C':
    "foldE (\<lambda>(m, ino, fileSize, b). master_DAGonFS_Write m (Some b) ino fileSize) ops C = Inr C'"
    "\<forall>k v. last_value ops (\<lambda>_. None) k = Some v \<longrightarrow> cs_holds C' k v"
    unfolding run by blast
  then show ?thesis
    using master_read_held [OF mpi] by (intro exI [of _ C']) auto
qed

section \<open>Flush and open\<close>

lemma blocks_of_size_covers: "unat fileSize \<le> blocks_of_size fileSize * CS_SINGLE_BLOCK_SIZE"
  using round_up(1) [OF cs_block_size_pos, of "unat fileSize"] by (simp add: blocks_of_size_def mult.commute)

definition cs_file :: "cs_system \<Rightarrow> fuse_ino_t \<Rightarrow> inode" where
  "cs_file C ino = inode_at (master_fs C) ino"

text \<open>The inode is a file of the master's file system.\<close>

definition cs_has_file :: "cs_system \<Rightarrow> fuse_ino_t \<Rightarrow> file_data \<Rightarrow> bool" where
  "cs_has_file C ino f \<longleftrightarrow> n_inodes (master_fs C) < 2 ^ 31 \<and>
     unat ino < n_inodes (master_fs C) \<and> node_class (cs_file C ino) = File f"

lemma cs_has_fileD:
  "cs_has_file C ino f \<Longrightarrow> \<not> no_such_ino (master_fs C) ino \<and> getINode (master_fs C) ino = Inr (cs_file C ino) \<and>
     as_File (cs_file C ino) = Some f \<and> as_Directory (cs_file C ino) = None"
  by (auto simp: cs_has_file_def no_such_ino_iff getINode_total cs_file_def cast_iff cast_None)

text \<open>What is stored depends on the master's block lists and on the heaps.\<close>

lemma cs_holds_cong:
  assumes "BlocksManager (master_fs C) = BlocksManager (master_fs C')"
    and "master_heap C = master_heap C'" and "cs_nodes C = cs_nodes C'"
  shows "cs_holds C ino v \<longleftrightarrow> cs_holds C' ino v"
  using assms by (simp add: cs_holds_def cs_stored_def master_addresses_def cs_heap_def mpi_world_size_def)

definition cs_flushed :: "fuse_ino_t \<Rightarrow> u64 \<times> cell list \<Rightarrow> cs_system \<Rightarrow> cs_system" where
  "cs_flushed ino v C =
     mod_master (\<lambda>s. reply_err ESUCCESS (set_buf ino None s))
       (mod_master (modINode ino (set_File (\<lambda>f. f\<lparr>isWaitingForDistributedWrite := False\<rparr>)))
         (cs_written ino (fst v) (cs_blocks v) (cs_sendWriteRequest C)))"

lemma cs_FuseFlush_eq:
  assumes "mpi_documented m" and isfile: "cs_has_file C ino f" and "m_buf f = Some b"
    and "isWaitingForDistributedWrite f" and "cs_ready ino C"
    and "cs_fits (st_size (attr (cs_file C ino)), b)"
  shows "cs_FuseFlush m ino C = Inr (cs_flushed ino (st_size (attr (cs_file C ino)), b) C)"
proof -
  have "cs_ready ino (cs_sendWriteRequest C)"
    using assms(5) by (simp add: cs_ready_def cs_sendWriteRequest_def)
  then have "master_DAGonFS_Write m (Some b) ino (st_size (attr (cs_file C ino))) (cs_sendWriteRequest C) =
      Inr (cs_written ino (st_size (attr (cs_file C ino))) (cs_blocks (st_size (attr (cs_file C ino)), b))
        (cs_sendWriteRequest C))"
    using cs_store_eq [OF assms(1) _ assms(6)] by (simp add: cs_store_def)
  then show ?thesis
    using cs_has_fileD [OF isfile] assms(3,4) by (simp add: cs_FuseFlush_def Let_def cs_flushed_def)
qed

lemma cs_flushed_facts:
  assumes "cs_has_file C ino f" and "cs_fits v"
  shows "cs_file (cs_flushed ino v C) ino = set_File (\<lambda>f. f\<lparr>m_buf := None, isWaitingForDistributedWrite := False\<rparr>) (cs_file C ino)"
    and "replies (master_fs (cs_flushed ino v C)) = replies (master_fs C) @ [Reply_err ESUCCESS]"
    and "cs_holds (cs_flushed ino v C) ino v"
    and "n_inodes (master_fs (cs_flushed ino v C)) = n_inodes (master_fs C)"
    and "length (cs_nodes (cs_flushed ino v C)) = length (cs_nodes C)"
proof -
  obtain fileSize b where v: "v = (fileSize, b)" by (cases v)
  have "cs_holds (cs_written ino fileSize (cs_blocks v) (cs_sendWriteRequest C)) ino v"
    using cs_stored_written cs_blocks_facts(1) assms(2) by (simp add: v cs_holds_def)
  then show "cs_holds (cs_flushed ino v C) ino v"
    by (subst cs_holds_cong [of _ "cs_written ino fileSize (cs_blocks v) (cs_sendWriteRequest C)"])
      (simp_all add: cs_flushed_def mod_master_def set_buf_def v)
  show "cs_file (cs_flushed ino v C) ino = set_File (\<lambda>f. f\<lparr>m_buf := None, isWaitingForDistributedWrite := False\<rparr>) (cs_file C ino)"
    using assms(1)
    by (simp add: cs_flushed_def mod_master_def set_buf_def cs_has_file_def cs_file_def cs_written_def
        cs_installed_def cs_sendWriteRequest_def inode_at_modINode set_File_def)
qed (simp_all add: cs_flushed_def mod_master_def set_buf_def cs_written_def cs_installed_def cs_sendWriteRequest_def)

text \<open>
  When the master's kernel flushes a written file and later opens it for reading, the contents
  have gone to the nodes and come back: the buffer of the open file holds the blocks of the old
  one, the size is unchanged, both requests are answered once, and the buffer was freed in between.
\<close>

theorem flush_then_open_restores:
  assumes mpi: "mpi_documented m" and isfile: "cs_has_file C ino f" and buf: "m_buf f = Some b"
    and dirty: "isWaitingForDistributedWrite f" and ready: "cs_ready ino C"
    and fits: "cs_fits (st_size (attr (cs_file C ino)), b)" and pos: "st_size (attr (cs_file C ino)) \<noteq> 0"
    and flags: "\<not> has_flag flags (O_WRONLY OR O_TRUNC)" and alloc: "alloc_ok ev"
  defines "size0 \<equiv> st_size (attr (cs_file C ino))"
  shows "\<exists>C1 C2. cs_FuseFlush m ino C = Inr C1 \<and>
    as_File (cs_file C1 ino) = Some (f\<lparr>m_buf := None, isWaitingForDistributedWrite := False\<rparr>) \<and>
    cs_FuseOpen m ev ino flags C1 = Inr C2 \<and>
    as_File (cs_file C2 ino) = Some (f\<lparr>m_buf := Some (take (blocks_of_size size0 * CS_SINGLE_BLOCK_SIZE) b),
      isWaitingForDistributedWrite := False\<rparr>) \<and>
    st_size (attr (cs_file C2 ino)) = size0 \<and> unat size0 \<le> blocks_of_size size0 * CS_SINGLE_BLOCK_SIZE \<and>
    replies (master_fs C2) = replies (master_fs C) @ [Reply_err ESUCCESS, Reply_open]"
proof -
  let ?C1 = "cs_flushed ino (size0, b) C"
  let ?R = "cs_read_system ino size0 size0 0 (cs_sendReadRequest ?C1)"
  let ?buf = "Some (take (blocks_of_size size0 * CS_SINGLE_BLOCK_SIZE) b)"
  have flush: "cs_FuseFlush m ino C = Inr ?C1"
    unfolding size0_def by (rule cs_FuseFlush_eq [OF mpi isfile buf dirty ready fits])
  note fits' = fits [folded size0_def] and facts = cs_flushed_facts [OF isfile fits [folded size0_def]]
  have cls: "node_class (cs_file ?C1 ino) = File (f\<lparr>m_buf := None, isWaitingForDistributedWrite := False\<rparr>)"
    using isfile by (simp add: facts(1) cs_has_file_def)
  have size1: "st_size (attr (cs_file ?C1 ino)) = size0" unfolding facts(1) by (simp add: size0_def)
  have file1: "cs_has_file ?C1 ino (f\<lparr>m_buf := None, isWaitingForDistributedWrite := False\<rparr>)"
    using isfile cls by (simp add: cs_has_file_def facts(4))
  have holds: "cs_holds (cs_sendReadRequest ?C1) ino (size0, b)"
    using facts(3) by (subst cs_holds_cong [of _ ?C1]) (simp_all add: cs_sendReadRequest_def)
  have read: "master_DAGonFS_Read m True ino size0 size0 0 (cs_sendReadRequest ?C1) = Inr (?R, ?buf)"
    using pos by (intro master_read_held [OF mpi _ fits' holds]) (simp add: size0_def)
  have opened: "cs_FuseOpen m ev ino flags ?C1 = Inr (mod_master (\<lambda>s. reply Reply_open (set_buf ino ?buf s)) ?R)"
    using cs_has_fileD [OF file1] flags alloc by (simp add: cs_FuseOpen_def Let_def size1 read)
  have "cs_file (mod_master (\<lambda>s. reply Reply_open (set_buf ino ?buf s)) ?R) ino =
      set_File (\<lambda>f. f\<lparr>m_buf := ?buf\<rparr>) (cs_file ?C1 ino)"
    using file1 by (simp add: mod_master_def cs_read_system_def cs_sendReadRequest_def set_buf_def cs_file_def
        inode_at_modINode cs_has_file_def)
  moreover have "replies (master_fs (mod_master (\<lambda>s. reply Reply_open (set_buf ino ?buf s)) ?R)) =
      replies (master_fs C) @ [Reply_err ESUCCESS, Reply_open]"
    by (simp add: mod_master_def cs_read_system_def cs_sendReadRequest_def set_buf_def facts(2))
  ultimately show ?thesis
    using flush opened cls size1 blocks_of_size_covers by (intro exI conjI) (auto simp: cast_iff)
qed

section \<open>Blocks are never released\<close>

text \<open>The share of a process in the blocks of a write.\<close>

definition share :: "nat \<Rightarrow> nat \<Rightarrow> mpi \<times> fuse_ino_t \<times> u64 \<times> cell list \<Rightarrow> nat" where
  "share w r = (\<lambda>(m, ino, fileSize, b). effectiveBlocks (blocks_of_size fileSize) w r)"

lemma node_list_written:
  assumes "i < length (cs_nodes C)"
  shows "length (block_list (dataBlockPointers (cs_nodes (cs_written ino fileSize ds C) ! i)) j) =
    length (block_list (dataBlockPointers (cs_nodes C ! i)) j) +
    (if j = ino then effectiveBlocks (length ds) (mpi_world_size C) (Suc i) else 0)"
proof -
  have "block_list (if map_find m ino = None then map_assign m ino [] else m) j = block_list m j" for m
    by (auto simp: block_list_def map_find_assign)
  moreover have "length (rank_chunks (length ds) (mpi_world_size C) ds ! Suc i) =
      effectiveBlocks (length ds) (mpi_world_size C) (Suc i)"
    using assms by (simp add: length_rank_chunk mpi_world_size_def)
  ultimately show ?thesis
    using assms by (simp add: cs_written_def node_written_def block_list_assign node_blocks_def)
qed

text \<open>
  C14. A sequence of distributed writes of the client-server version only adds blocks: every heap keeps
  all its blocks and grows by the shares of all the writes, and a node's list for a file grows by
  its share of every write of that file, so rewriting a file never releases its old blocks.
\<close>

theorem writes_release_nothing:
  assumes mpi: "mpi_documented m"
    and ops: "\<forall>(m', ino, fileSize, b)\<in>set ops. m' = m \<and> cs_ready ino C \<and> cs_fits (fileSize, b)"
  shows "\<exists>C'. foldE (\<lambda>(m, ino, fileSize, b). master_DAGonFS_Write m (Some b) ino fileSize) ops C = Inr C' \<and>
    mpi_world_size C' = mpi_world_size C \<and>
    (\<forall>r<mpi_world_size C. \<exists>new. cs_heap C' r = cs_heap C r @ new \<and>
       length new = sum_list (map (share (mpi_world_size C) r) ops)) \<and>
    (\<forall>i<length (cs_nodes C). \<forall>ino. length (block_list (dataBlockPointers (cs_nodes C' ! i)) ino) =
       length (block_list (dataBlockPointers (cs_nodes C ! i)) ino) +
       sum_list (map (share (mpi_world_size C) (Suc i)) (filter (\<lambda>(_, j, _). j = ino) ops)))"
  using ops
proof (induction ops arbitrary: C)
  case (Cons op ops)
  obtain ino fileSize b where op: "op = (m, ino, fileSize, b)" using Cons.prems by (cases op) auto
  let ?w = "mpi_world_size C" and ?ds = "cs_blocks (fileSize, b)"
  let ?C1 = "cs_written ino fileSize ?ds C"
  have pre: "cs_ready ino C" "cs_fits (fileSize, b)" using Cons.prems by (auto simp: op)
  have eq: "master_DAGonFS_Write m (Some b) ino fileSize C = Inr ?C1"
    using cs_store_eq [OF mpi pre] by (simp add: cs_store_def)
  have "\<forall>(m', j, v)\<in>set ops. m' = m \<and> cs_ready j ?C1 \<and> cs_fits v"
    using Cons.prems master.write_usable [OF mpi pre cs_store_eq [OF mpi pre]] by auto
  then have all: "\<forall>(m', j, fileSize, b)\<in>set ops. m' = m \<and> cs_ready j ?C1 \<and> cs_fits (fileSize, b)" by auto
  from Cons.IH [OF all] obtain C' where
    run: "foldE (\<lambda>(m, ino, fileSize, b). master_DAGonFS_Write m (Some b) ino fileSize) ops ?C1 = Inr C'"
    and size: "mpi_world_size C' = ?w"
    and heaps: "\<forall>r<?w. \<exists>new. cs_heap C' r = cs_heap ?C1 r @ new \<and> length new = sum_list (map (share ?w r) ops)"
    and lists: "\<forall>i<length (cs_nodes C). \<forall>ino. length (block_list (dataBlockPointers (cs_nodes C' ! i)) ino) =
       length (block_list (dataBlockPointers (cs_nodes ?C1 ! i)) ino) +
       sum_list (map (share ?w (Suc i)) (filter (\<lambda>(_, j, _). j = ino) ops))"
    by auto
  have chunk: "length (rank_chunks (length ?ds) ?w ?ds ! r) = share ?w r op" if "r < ?w" for r
    using that cs_blocks_facts(2) [OF pre(2)] by (simp add: op share_def length_rank_chunk)
  have "\<exists>new. cs_heap C' r = cs_heap C r @ new \<and> length new = sum_list (map (share ?w r) (op # ops))" if "r < ?w" for r
    using heaps [rule_format, OF that] chunk [OF that] that by (auto simp: cs_heap_written)
  moreover have "length (block_list (dataBlockPointers (cs_nodes C' ! i)) j) =
      length (block_list (dataBlockPointers (cs_nodes C ! i)) j) +
      sum_list (map (share ?w (Suc i)) (filter (\<lambda>(_, j', _). j' = j) (op # ops)))" if "i < length (cs_nodes C)" for i j
    using lists [rule_format, OF that, of j] that cs_blocks_facts(2) [OF pre(2)]
    by (simp add: node_list_written op share_def)
  ultimately show ?case using eq run size by (auto simp: op)
qed simp

section \<open>Three processes to exercise the theorems\<close>

definition demo_system :: cs_system where
  "demo_system = \<lparr>master_fs = demo_tree, master_heap = [],
     cs_nodes = replicate 2 new_NodeProcessCode, mpi_calls = []\<rparr>"

lemma demo_system_ready [simp]: "cs_ready ino demo_system"
  by (simp add: demo_system_def cs_ready_def demo_tree_def block_list_def map_find_def)

lemma demo_sizes [simp]:
  "blocks_of_size 200000 = 2" "blocks_of_size 131072 = 1"
  by (simp_all add: blocks_of_size_def CS_SINGLE_BLOCK_SIZE_def)

lemma demo_fits [simp]:
  "cs_fits (200000, replicate 262144 c)" "cs_fits (131072, replicate 131072 c)"
  by (simp_all add: cs_fits_def CS_SINGLE_BLOCK_SIZE_def)

theorem master_last_write_wins_witness:
  "\<exists>C' C''. foldE (\<lambda>(m, ino, fileSize, b). master_DAGonFS_Write m (Some b) ino fileSize)
      [(plain_mpi, 3, 200000, replicate 262144 (Byte 7)), (plain_mpi, 3, 131072, replicate 131072 (Byte 8))]
      demo_system = Inr C' \<and>
     master_DAGonFS_Read plain_mpi True 3 131072 131072 0 C' = Inr (C'', Some (replicate 131072 (Byte 8)))"
proof -
  let ?ops = "[(plain_mpi, 3::fuse_ino_t, 200000::u64, replicate 262144 (Byte 7)),
    (plain_mpi, 3, 131072, replicate 131072 (Byte 8))]"
  have ops: "\<forall>(m', ino, fileSize, b)\<in>set ?ops. m' = plain_mpi \<and> cs_ready ino demo_system \<and> cs_fits (fileSize, b)"
    by simp
  have last: "last_value ?ops (\<lambda>_. None) 3 = Some (131072, replicate 131072 (Byte 8))"
    by (simp add: last_value_def)
  from master_last_write_wins [OF plain_mpi_documented ops] obtain C' where
    run: "foldE (\<lambda>(m, ino, fileSize, b). master_DAGonFS_Write m (Some b) ino fileSize) ?ops demo_system = Inr C'"
    and read: "\<forall>ino fileSize b. last_value ?ops (\<lambda>_. None) ino = Some (fileSize, b) \<longrightarrow>
       cs_fits (fileSize, b) \<longrightarrow> fileSize \<noteq> 0 \<longrightarrow>
       (\<exists>C''. master_DAGonFS_Read plain_mpi True ino fileSize fileSize 0 C' =
          Inr (C'', Some (take (blocks_of_size fileSize * CS_SINGLE_BLOCK_SIZE) b)))"
    by blast
  from read [rule_format, OF last] have "\<exists>C''. master_DAGonFS_Read plain_mpi True 3 131072 131072 0 C' =
      Inr (C'', Some (replicate 131072 (Byte 8)))"
    by (simp add: CS_SINGLE_BLOCK_SIZE_def)
  with run show ?thesis by blast
qed

theorem writes_release_nothing_witness:
  "\<exists>C'. foldE (\<lambda>(m, ino, fileSize, b). master_DAGonFS_Write m (Some b) ino fileSize)
      [(plain_mpi, 3, 200000, replicate 262144 (Byte 7)), (plain_mpi, 3, 200000, replicate 262144 (Byte 8))]
      demo_system = Inr C' \<and>
     length (master_heap C') = 2 \<and> length (block_list (dataBlockPointers (cs_nodes C' ! 0)) 3) = 2"
proof -
  let ?ops = "[(plain_mpi, 3::fuse_ino_t, 200000::u64, replicate 262144 (Byte 7)),
    (plain_mpi, 3, 200000, replicate 262144 (Byte 8))]"
  have ops: "\<forall>(m', ino, fileSize, b)\<in>set ?ops. m' = plain_mpi \<and> cs_ready ino demo_system \<and> cs_fits (fileSize, b)"
    by simp
  have w: "mpi_world_size demo_system = 3" by (simp add: demo_system_def mpi_world_size_def)
  have shares: "effectiveBlocks 2 3 0 = 1" "effectiveBlocks 2 3 (Suc 0) = 1" by (simp_all add: effectiveBlocks_def)
  from writes_release_nothing [OF plain_mpi_documented ops] obtain C' where
    run: "foldE (\<lambda>(m, ino, fileSize, b). master_DAGonFS_Write m (Some b) ino fileSize) ?ops demo_system = Inr C'"
    and heaps: "\<forall>r<3. \<exists>new. cs_heap C' r = cs_heap demo_system r @ new \<and> length new = sum_list (map (share 3 r) ?ops)"
    and lists: "\<forall>i<length (cs_nodes demo_system). \<forall>ino. length (block_list (dataBlockPointers (cs_nodes C' ! i)) ino) =
       length (block_list (dataBlockPointers (cs_nodes demo_system ! i)) ino) +
       sum_list (map (share 3 (Suc i)) (filter (\<lambda>(_, j, _). j = ino) ?ops))"
    unfolding w by blast
  have "length (master_heap C') = 2"
    using heaps [rule_format, of 0] by (auto simp: cs_heap_def demo_system_def share_def shares)
  moreover have "length (block_list (dataBlockPointers (cs_nodes C' ! 0)) 3) = 2"
    using lists [rule_format, of 0 3]
    by (simp add: demo_system_def share_def shares new_NodeProcessCode_def block_list_def map_find_def)
  ultimately show ?thesis using run by blast
qed

definition dirty_system :: cs_system where
  "dirty_system = mod_master (\<lambda>s. modINode 3 (set_attr (\<lambda>a. a\<lparr>st_size := 200000\<rparr>)) (modINode 3 (set_File (\<lambda>_.
     \<lparr>m_buf = Some (replicate 262144 (Byte 7)), isWaitingForDistributedWrite = True\<rparr>)) s)) demo_system"

lemma dirty_system_file:
  "cs_has_file dirty_system 3 \<lparr>m_buf = Some (replicate 262144 (Byte 7)), isWaitingForDistributedWrite = True\<rparr>"
  "st_size (attr (cs_file dirty_system 3)) = 200000" "cs_ready ino dirty_system"
proof -
  have "cs_ready ino demo_system" by simp
  then show "cs_ready ino dirty_system" by (simp add: dirty_system_def mod_master_def cs_ready_def)
qed (simp_all add: cs_has_file_def cs_file_def dirty_system_def mod_master_def demo_system_def inode_at_modINode
    set_File_def)

theorem flush_then_open_restores_witness:
  "\<exists>C1 C2. cs_FuseFlush plain_mpi 3 dirty_system = Inr C1 \<and>
     cs_FuseOpen plain_mpi demo_env 3 0 C1 = Inr C2 \<and>
     as_File (cs_file C2 3) = Some \<lparr>m_buf = Some (replicate 262144 (Byte 7)), isWaitingForDistributedWrite = False\<rparr>"
proof -
  have "\<not> has_flag 0 (O_WRONLY OR O_TRUNC)" by (simp add: has_flag_def)
  then show ?thesis
    using flush_then_open_restores [OF plain_mpi_documented dirty_system_file(1) _ _ dirty_system_file(3),
        of "replicate 262144 (Byte 7)" 0 demo_env]
    by (auto simp: dirty_system_file(2) demo_env_def CS_SINGLE_BLOCK_SIZE_def)
qed

end
