(* ===== verification/NodeDump.thy ===== *)
theory NodeDump
  imports Session ClientServerProps
begin

text \<open>
  \<open>NodeProcessCode::createFileDump\<close> (\<^verbatim>\<open>client-server/include/mpi/NodeProcessCode.cpp\<close>): a node writes
  every block it holds to a file of its own. No call of it is left in the program (the one at the end of
  \<open>NodeProcessCode::start\<close> is commented out); it is the reader for what \<open>DAGonFS_Write\<close> stores on a node.
\<close>

section \<open>The dump\<close>

text \<open>
  The files of the working directory by name. How \<open>ostringstream\<close> prints a pointer is up to the
  library (\<open>show_pointer\<close>); \<open>fwrite\<close> to the null pointer that a failed \<open>fopen\<close> returns is undefined.
\<close>

type_synonym files = "string \<Rightarrow> cell list option"

definition dump_block ::
  "host \<Rightarrow> (addr \<Rightarrow> string) \<Rightarrow> heap \<Rightarrow> string \<Rightarrow> data_block \<Rightarrow> cs_node session \<times> files \<Rightarrow> (cs_node session \<times> files) exec" where
  "dump_block hs show_pointer h file_name_path block = (\<lambda>(S, fs).
     let file_name = file_name_path @ show_pointer (dataBlockAddress block);
         S1 = does [Call_fopen file_name] S
     in if \<not> fopen_works hs file_name then Inl NullDeref
        else andThen (heap_read h (dataBlockAddress block) CS_SINGLE_BLOCK_SIZE) (\<lambda>data.
          Inr (does [Call_fclose] S1, fs(file_name \<mapsto> data))))"

definition dump_dir :: "nat \<Rightarrow> string" where
  "dump_dir rank = ''/tmp/DAGonFS_dump/'' @ to_string rank"

definition dump_path :: "fuse_ino_t \<Rightarrow> string" where
  "dump_path ino = ''./'' @ to_string (unat ino) @ ''-''"

definition node_createFileDump ::
  "host \<Rightarrow> (addr \<Rightarrow> string) \<Rightarrow> nat \<Rightarrow> cs_node session \<Rightarrow> (cs_node session \<times> files) exec" where
  "node_createFileDump hs show_pointer rank S =
     (let nd = ses_sys S;
          dir = dump_dir rank;
          (made, S1) = ensure_directory hs dir S;
          S2 = does [Call_chdir dir] S1
      in if \<not> made then Inr (S1, \<lambda>_. None)
         else if \<not> chdir_works hs dir then Inr (S2, \<lambda>_. None)
         else foldE (\<lambda>(ino, bs). foldE (dump_block hs show_pointer (node_heap nd) (dump_path ino)) bs)
                (dataBlockPointers nd) (S2, \<lambda>_. None))"

section \<open>What it writes\<close>

text \<open>A pointer is printed so that it can be told from others.\<close>

lemma takeWhile_digits: "takeWhile is_digit (to_string n @ CHR ''-'' # s) = to_string n"
  using to_string_number [of n] by (subst takeWhile_append2) (auto simp: list_all_iff is_digit_def)

lemma dump_name_pointer:
  assumes "inj show_pointer" and "dump_path i @ show_pointer a = dump_path j @ show_pointer b"
  shows "a = b"
proof -
  let ?u = "to_string (unat i)" and ?v = "to_string (unat j)"
  have eq: "?u @ CHR ''-'' # show_pointer a = ?v @ CHR ''-'' # show_pointer b"
    using assms(2) by (simp add: dump_path_def)
  from arg_cong [OF this, of "takeWhile is_digit"] have "?u = ?v" by (unfold takeWhile_digits)
  then show ?thesis using eq assms(1) by (simp add: inj_eq)
qed

text \<open>Every pointer of the lists is the address of a block of full size.\<close>

definition held :: "heap \<Rightarrow> addr \<Rightarrow> bool" where
  "held h a \<longleftrightarrow> 0 < a \<and> a \<le> length h \<and> length (h ! (a - 1)) = CS_SINGLE_BLOCK_SIZE"

lemma held_read: "held h a \<Longrightarrow> heap_read h a CS_SINGLE_BLOCK_SIZE = Inr (h ! (a - 1))"
  using cs_block_size_pos by (simp add: held_def heap_read_def del: cs_block_size_pos)

text \<open>Every file written holds the block whose address is in its name.\<close>

definition named :: "(addr \<Rightarrow> string) \<Rightarrow> heap \<Rightarrow> files \<Rightarrow> bool" where
  "named show_pointer h fs \<longleftrightarrow> (\<forall>n c. fs n = Some c \<longrightarrow> (\<exists>ino a. n = dump_path ino @ show_pointer a \<and> c = h ! (a - 1)))"

lemma named_update: "named sp h fs \<Longrightarrow> named sp h (fs(dump_path ino @ sp a \<mapsto> h ! (a - 1)))"
  unfolding named_def by auto

lemma named_value:
  assumes inj: "inj sp" and "named sp h fs" and "fs (dump_path ino @ sp a) = Some c"
  shows "c = h ! (a - 1)"
proof -
  obtain j b where "dump_path ino @ sp a = dump_path j @ sp b" "c = h ! (b - 1)"
    using assms(2,3) unfolding named_def by metis
  then show ?thesis using dump_name_pointer [OF inj] by blast
qed

definition dump_name :: "(addr \<Rightarrow> string) \<Rightarrow> fuse_ino_t \<Rightarrow> data_block \<Rightarrow> string" where
  "dump_name sp ino b = dump_path ino @ sp (dataBlockAddress b)"

lemma dump_block_held:
  assumes "fopen_works hs (dump_name sp ino b)" and "held h (dataBlockAddress b)"
  shows "dump_block hs sp h (dump_path ino) b (S, fs) = Inr (does [Call_fopen (dump_name sp ino b), Call_fclose] S,
    fs(dump_name sp ino b \<mapsto> h ! (dataBlockAddress b - 1)))"
  using assms by (simp add: dump_block_def dump_name_def Let_def held_read does_def)

lemma dump_list:
  assumes hs: "\<forall>n. fopen_works hs n"
  shows "\<forall>b\<in>set bs. held h (dataBlockAddress b) \<Longrightarrow> named sp h fs \<Longrightarrow>
    \<exists>S' fs'. foldE (dump_block hs sp h (dump_path ino)) bs (S, fs) = Inr (S', fs') \<and> named sp h fs' \<and>
      dom fs' = dom fs \<union> dump_name sp ino ` set bs"
proof (induction bs arbitrary: S fs)
  case (Cons b bs)
  let ?fs = "fs(dump_name sp ino b \<mapsto> h ! (dataBlockAddress b - 1))"
  have "named sp h ?fs" unfolding dump_name_def using Cons.prems(2) by (rule named_update)
  moreover have "\<forall>b\<in>set bs. held h (dataBlockAddress b)" using Cons.prems(1) by simp
  ultimately obtain S' fs' where "foldE (dump_block hs sp h (dump_path ino)) bs (does [Call_fopen (dump_name sp ino b), Call_fclose] S, ?fs) = Inr (S', fs')"
    "named sp h fs'" "dom fs' = dom ?fs \<union> dump_name sp ino ` set bs"
    using Cons.IH by blast
  then show ?case using Cons.prems(1) hs by (simp add: dump_block_held)
qed simp

lemma dump_lists:
  assumes hs: "\<forall>n. fopen_works hs n"
  shows "\<forall>(ino, bs)\<in>set m. \<forall>b\<in>set bs. held h (dataBlockAddress b) \<Longrightarrow> named sp h fs \<Longrightarrow>
    \<exists>S' fs'. foldE (\<lambda>(ino, bs). foldE (dump_block hs sp h (dump_path ino)) bs) m (S, fs) = Inr (S', fs') \<and> named sp h fs' \<and>
      dom fs' = dom fs \<union> (\<Union>(ino, bs)\<in>set m. dump_name sp ino ` set bs)"
proof (induction m arbitrary: S fs)
  case (Cons x m)
  obtain ino bs where x: "x = (ino, bs)" by force
  have "\<forall>b\<in>set bs. held h (dataBlockAddress b)" and rest: "\<forall>(ino, bs)\<in>set m. \<forall>b\<in>set bs. held h (dataBlockAddress b)"
    using Cons.prems(1) by (simp_all add: x)
  then obtain S1 fs1 where 1: "foldE (dump_block hs sp h (dump_path ino)) bs (S, fs) = Inr (S1, fs1)" "named sp h fs1"
    "dom fs1 = dom fs \<union> dump_name sp ino ` set bs"
    using dump_list [OF hs _ Cons.prems(2)] by blast
  from Cons.IH [OF rest 1(2), of S1] show ?case
    by (auto simp: x 1(1,3))
qed simp

section \<open>The blocks of a node\<close>

text \<open>
  \<open>node_stored\<close> says that the list of every inode leads, in order, to the contents of its blocks; it is what
  the writes of a node establish, \<open>cs\<close> being all that was written.
\<close>

definition node_stored :: "cs_node \<Rightarrow> (fuse_ino_t \<Rightarrow> cell list) \<Rightarrow> bool" where
  "node_stored nd cs \<longleftrightarrow> map_ok (dataBlockPointers nd) \<and>
     (\<forall>ino. let as = map dataBlockAddress (block_list (dataBlockPointers nd) ino)
        in (\<forall>a\<in>set as. held (node_heap nd) a) \<and> concat (map (\<lambda>a. node_heap nd ! (a - 1)) as) = cs ino)"

type_synonym node_write = "fuse_ino_t \<times> u64 \<times> cell list"

definition write_node :: "nat \<Rightarrow> nat \<Rightarrow> node_write \<Rightarrow> cs_node \<Rightarrow> cs_node" where
  "write_node w rank = (\<lambda>(ino, fileSize, buf) nd. fst (node_DAGonFS_Write w rank ino fileSize buf nd))"

text \<open>The piece that \<open>MPI_Scatterv\<close> delivers has the size that the node allocated for it.\<close>

definition piece_fits :: "nat \<Rightarrow> nat \<Rightarrow> node_write \<Rightarrow> bool" where
  "piece_fits w rank = (\<lambda>(ino, fileSize, buf).
     length buf = cs_effectiveBlocks (cs_numberOfBlocks fileSize) w rank * CS_SINGLE_BLOCK_SIZE)"

lemma scattered_pieces:
  assumes "piece_fits w rank (ino, fileSize, buf)"
  defines "chunk \<equiv> pieces CS_SINGLE_BLOCK_SIZE (cs_effectiveBlocks (cs_numberOfBlocks fileSize) w rank) buf"
  shows "concat chunk = buf" and "\<forall>d\<in>set chunk. length d = CS_SINGLE_BLOCK_SIZE"
proof -
  have fit: "length buf = cs_effectiveBlocks (cs_numberOfBlocks fileSize) w rank * CS_SINGLE_BLOCK_SIZE"
    using assms(1) by (simp add: piece_fits_def)
  show "concat chunk = buf" using fit by (simp add: chunk_def concat_pieces)
  show "\<forall>d\<in>set chunk. length d = CS_SINGLE_BLOCK_SIZE" unfolding chunk_def by (rule pieces_width) (simp add: fit)
qed

lemma write_node_eq:
  assumes "piece_fits w rank (ino, fileSize, buf)"
  shows "write_node w rank (ino, fileSize, buf) nd = node_written rank ino
    (pieces CS_SINGLE_BLOCK_SIZE (cs_effectiveBlocks (cs_numberOfBlocks fileSize) w rank) buf) nd"
proof -
  let ?n = "cs_effectiveBlocks (cs_numberOfBlocks fileSize) w rank"
  let ?chunk = "pieces CS_SINGLE_BLOCK_SIZE ?n buf"
  let ?m0 = "if map_find (dataBlockPointers nd) ino = None
    then map_assign (dataBlockPointers nd) ino [] else dataBlockPointers nd"
  note buf = scattered_pieces [OF assms]
  have "getDataBlockPointers ?m0 ino = (?m0, block_list (dataBlockPointers nd) ino)"
    by (auto simp: getDataBlockPointers_def getDataBlockListOfInode_def block_list_def map_find_assign
        split: option.split)
  moreover have "store_blocks CS_SINGLE_BLOCK_SIZE (node_heap nd) ?n buf =
      (node_heap nd @ ?chunk, new_addresses (node_heap nd) ?chunk)"
    using store_new_blocks [OF buf(2), of ?n "node_heap nd"] buf(1) by simp
  ultimately show ?thesis
    by (simp only: write_node_def node_DAGonFS_Write_def Let_def prod.case fst_conv
        node_written_def node_blocks_def node_createEmptyBlockListForInode_def)
qed

lemma node_stored_new: "node_stored new_NodeProcessCode (\<lambda>_. [])"
  by (simp add: node_stored_def new_NodeProcessCode_def block_list_def Let_def)

lemma held_append: "held h a \<Longrightarrow> held (h @ h') a"
  by (auto simp: held_def nth_append)

lemma block_list_written:
  "block_list (dataBlockPointers (node_written rank ino chunk nd)) j = block_list (dataBlockPointers nd) j @
     (if j = ino then node_blocks rank ino (new_addresses (node_heap nd) chunk) else [])"
  by (auto simp: node_written_def block_list_def map_find_assign)

lemma node_blocks_addresses: "map dataBlockAddress (node_blocks rank ino as) = as"
  by (simp add: node_blocks_def setData_def comp_def)

lemma new_addresses_contents: "map (\<lambda>a. (h @ ds) ! (a - 1)) (new_addresses h ds) = ds"
  by (intro nth_equalityI) (simp_all add: new_addresses_def nth_append)

lemma new_addresses_held: "\<forall>d\<in>set ds. length d = CS_SINGLE_BLOCK_SIZE \<Longrightarrow> \<forall>a\<in>set (new_addresses h ds). held (h @ ds) a"
  by (auto simp: new_addresses_def held_def nth_append)

lemma node_stored_write:
  assumes st: "node_stored nd cs" and fits: "piece_fits w rank (ino, fileSize, buf)"
  shows "node_stored (write_node w rank (ino, fileSize, buf) nd) (cs(ino := cs ino @ buf))"
proof -
  let ?n = "cs_effectiveBlocks (cs_numberOfBlocks fileSize) w rank" and ?h = "node_heap nd"
  let ?chunk = "pieces CS_SINGLE_BLOCK_SIZE ?n buf"
  let ?nd = "node_written rank ino ?chunk nd"
  note buf = scattered_pieces [OF fits]
  have heap: "node_heap ?nd = ?h @ ?chunk" by (simp add: node_written_def)
  have ok: "map_ok (dataBlockPointers ?nd)"
    using st by (auto simp: node_stored_def node_written_def intro!: map_ok_assign)
  have old: "\<forall>a\<in>set as. held ?h a \<Longrightarrow> map (\<lambda>a. (?h @ ?chunk) ! (a - 1)) as = map (\<lambda>a. ?h ! (a - 1)) as" for as
    by (auto simp: held_def nth_append)
  have "(\<forall>a\<in>set as. held (node_heap ?nd) a) \<and> concat (map (\<lambda>a. node_heap ?nd ! (a - 1)) as) = (cs(ino := cs ino @ buf)) j"
    if as: "as = map dataBlockAddress (block_list (dataBlockPointers ?nd) j)" for as j
  proof -
    define old_as where "old_as = map dataBlockAddress (block_list (dataBlockPointers nd) j)"
    have as': "as = old_as @ (if j = ino then new_addresses ?h ?chunk else [])"
      by (simp add: as block_list_written node_blocks_addresses old_as_def)
    have prev: "\<forall>a\<in>set old_as. held ?h a" "concat (map (\<lambda>a. ?h ! (a - 1)) old_as) = cs j"
      using st by (simp_all add: node_stored_def Let_def old_as_def)
    have "\<forall>a\<in>set as. held (?h @ ?chunk) a"
      using prev(1) new_addresses_held [OF buf(2), of ?h] held_append by (auto simp: as')
    moreover have "concat (map (\<lambda>a. (?h @ ?chunk) ! (a - 1)) as) = (cs(ino := cs ino @ buf)) j"
      using prev(2) by (simp add: as' old [OF prev(1)] new_addresses_contents buf(1) del: One_nat_def)
    ultimately show ?thesis by (simp add: heap)
  qed
  then show ?thesis using ok unfolding write_node_eq [OF fits] node_stored_def Let_def by blast
qed

text \<open>All that was ever written to a file, its old versions included.\<close>

definition written_to :: "node_write list \<Rightarrow> fuse_ino_t \<Rightarrow> cell list" where
  "written_to ws ino = concat (map (\<lambda>(j, fileSize, buf). if j = ino then buf else []) ws)"

lemma node_stored_writes:
  "list_all (piece_fits w rank) ws \<Longrightarrow> node_stored (fold (write_node w rank) ws new_NodeProcessCode) (written_to ws)"
proof (induction ws rule: rev_induct)
  case Nil
  show ?case using node_stored_new by (simp add: written_to_def [abs_def])
next
  case (snoc x ws)
  obtain ino fileSize buf where x: "x = (ino, fileSize, buf)" by (cases x) auto
  have "written_to (ws @ [x]) = (written_to ws)(ino := written_to ws ino @ buf)"
    by (auto simp: written_to_def x fun_eq_iff)
  then show ?case using snoc node_stored_write [of _ "written_to ws" w rank ino fileSize buf]
    by (simp add: x del: fun_upd_apply)
qed

text \<open>
  The dump of a node, whatever was written to it: on a host where files can be opened and pointers
  print differently, it ends, makes one file for each block of the block lists and no other, and for
  every inode the files named after the blocks of its list hold, in order, everything that was ever
  written to the inode on this node: no block is lost, none is overwritten by another.
\<close>

theorem node_dump_complete:
  assumes fits: "list_all (piece_fits w rank) ws"
    and hs: "inj show_pointer" "\<forall>n. fopen_works hs n" "\<forall>d. mkdir_works hs d \<and> chdir_works hs d"
    and nd: "ses_sys S = fold (write_node w rank) ws new_NodeProcessCode"
  shows "\<exists>S' fs. node_createFileDump hs show_pointer rank S = Inr (S', fs) \<and>
    dom fs = (\<Union>ino. dump_name show_pointer ino ` set (block_list (dataBlockPointers (ses_sys S)) ino)) \<and>
    (\<forall>ino. concat (map (\<lambda>b. the (fs (dump_name show_pointer ino b))) (block_list (dataBlockPointers (ses_sys S)) ino)) =
       written_to ws ino)"
proof -
  let ?h = "node_heap (ses_sys S)" and ?m = "dataBlockPointers (ses_sys S)"
  let ?dir = "dump_dir rank"
  have "node_stored (ses_sys S) (written_to ws)" using node_stored_writes [OF fits] nd by simp
  then have ok: "map_ok ?m" and held: "\<forall>b\<in>set (block_list ?m ino). held ?h (dataBlockAddress b)"
    and contents: "concat (map (\<lambda>b. ?h ! (dataBlockAddress b - 1)) (block_list ?m ino)) = written_to ws ino" for ino
    by (simp_all add: node_stored_def Let_def comp_def)
  have lists: "block_list ?m ino = bs" if "(ino, bs) \<in> set ?m" for ino bs
    using in_set_map_find [OF ok that] by (simp add: block_list_def)
  obtain S1 where S1: "ensure_directory hs ?dir S = (True, S1)"
    using hs(3) by (cases "dir_opens hs ?dir") (simp_all add: ensure_directory_def)
  have "\<forall>(ino, bs)\<in>set ?m. \<forall>b\<in>set bs. held ?h (dataBlockAddress b)" using held lists by fastforce
  from dump_lists [OF hs(2) this, of show_pointer "\<lambda>_. None" "does [Call_chdir ?dir] S1"]
  obtain S' fs where run: "node_createFileDump hs show_pointer rank S = Inr (S', fs)" and named: "named show_pointer ?h fs"
    and dom: "dom fs = (\<Union>(ino, bs)\<in>set ?m. dump_name show_pointer ino ` set bs)"
    using S1 hs(3) by (auto simp: node_createFileDump_def Let_def named_def)
  have all: "dom fs = (\<Union>ino. dump_name show_pointer ino ` set (block_list ?m ino))"
  proof -
    have "(ino, block_list ?m ino) \<in> set ?m" if "b \<in> set (block_list ?m ino)" for ino b
      using that by (auto simp: block_list_def split: option.splits dest: map_find_in_set)
    then have "dom fs \<supseteq> (\<Union>ino. dump_name show_pointer ino ` set (block_list ?m ino))" unfolding dom by blast
    moreover have "dom fs \<subseteq> (\<Union>ino. dump_name show_pointer ino ` set (block_list ?m ino))"
      unfolding dom using lists by blast
    ultimately show ?thesis by blast
  qed
  moreover have "the (fs (dump_name show_pointer ino b)) = ?h ! (dataBlockAddress b - 1)" if "b \<in> set (block_list ?m ino)" for ino b
  proof -
    have "dump_name show_pointer ino b \<in> dom fs" using that all by blast
    then show ?thesis using named_value [OF hs(1) named] by (auto simp: dump_name_def)
  qed
  then have "concat (map (\<lambda>b. the (fs (dump_name show_pointer ino b))) (block_list ?m ino)) = written_to ws ino" for ino
    using contents [of ino] by (simp cong: map_cong)
  ultimately show ?thesis using run by blast
qed

end
