(* ===== verification/SharedFiles.thy ===== *)
theory SharedFiles
  imports FileContents
begin

text \<open>
  The contents of the files as one store that all processes share: whatever sessions of \<open>open\<close>,
  \<open>read\<close>, \<open>write\<close>, \<open>flush\<close> and \<open>release\<close> the processes run one after the other, every session sees what the
  last writing session left (\<^verbatim>\<open>ramfs/FileSystem.cpp\<close>, \<^verbatim>\<open>mpi/DistributedCode.cpp\<close>).
\<close>

section \<open>Bytes and blocks\<close>

abbreviation capacity :: "nat \<Rightarrow> nat" where
  "capacity n \<equiv> FILE_SYSTEM_SINGLE_BLOCK_SIZE * blocks_for n"

text \<open>The bytes of a file, filled up to whole blocks, and the bytes after a write.\<close>

definition pad :: "cell list \<Rightarrow> cell list" where
  "pad bytes = bytes @ replicate (capacity (length bytes) - length bytes) Indet"

definition patch :: "nat \<Rightarrow> cell list \<Rightarrow> cell list \<Rightarrow> cell list" where
  "patch off data bytes = take off (bytes @ replicate (off - length bytes) Indet) @ data @ drop (off + length data) bytes"

lemma length_pad [simp]: "length (pad bytes) = capacity (length bytes)"
  using blocks_for_covers(1) [of "length bytes"] by (simp add: pad_def)

lemma take_pad [simp]: "take (length bytes) (pad bytes) = bytes"
  by (simp add: pad_def)

lemma pad_Nil [simp]: "pad [] = []"
  by (simp add: pad_def blocks_for_def)

lemma length_patch [simp]: "length (patch off data bytes) = max (length bytes) (off + length data)"
  by (simp add: patch_def)

lemma blocks_for_least:
  assumes "n \<le> FILE_SYSTEM_SINGLE_BLOCK_SIZE * k"
  shows "blocks_for n \<le> k"
proof -
  have "FILE_SYSTEM_SINGLE_BLOCK_SIZE * blocks_for n < FILE_SYSTEM_SINGLE_BLOCK_SIZE * Suc k"
    using blocks_for_covers(2) [of n] assms by simp
  then show ?thesis by (simp only: mult_less_cancel1 less_Suc_eq_le)
qed

lemma blocks_for_mono: "n \<le> m \<Longrightarrow> blocks_for n \<le> blocks_for m"
  using blocks_for_covers(1) [of m] by (intro blocks_for_least) simp

lemma blocks_for_max: "blocks_for (max n m) = max (blocks_for n) (blocks_for m)"
  by (metis blocks_for_mono max.absorb1 max.absorb2 nle_le)

lemma blocks_for_0 [simp]: "blocks_for 0 = 0"
  by (simp add: blocks_for_def)

lemma blocks_for_le: "blocks_for n \<le> n"
  using blocks_for_covers(2) [of n] by (cases n) (simp_all add: FILE_SYSTEM_SINGLE_BLOCK_SIZE_def)

lemma nth_patch_bytes:
  assumes "i < max (length bytes) (off + length data)"
  shows "patch off data bytes ! i =
    (if off \<le> i \<and> i < off + length data then data ! (i - off) else if i < length bytes then bytes ! i else Indet)"
proof -
  define a where "a = take off (bytes @ replicate (off - length bytes) Indet)"
  have a: "length a = off" "\<And>k. k < off \<Longrightarrow> a ! k = (if k < length bytes then bytes ! k else Indet)"
    by (simp_all add: a_def nth_append)
  have eq: "patch off data bytes = a @ data @ drop (off + length data) bytes"
    by (simp add: patch_def a_def)
  consider "i < off" | "off \<le> i" "i < off + length data" | "off + length data \<le> i" by linarith
  then show ?thesis
    using assms a by cases (auto simp: eq nth_append)
qed

text \<open>Buffers filled up with indeterminate bytes.\<close>

definition fill :: "nat \<Rightarrow> cell list \<Rightarrow> cell list" where
  "fill n bytes = bytes @ replicate (n - length bytes) Indet"

lemma length_fill: "length bytes \<le> n \<Longrightarrow> length (fill n bytes) = n"
  by (simp add: fill_def)

lemma take_fill [simp]: "take (length bytes) (fill n bytes) = bytes"
  by (simp add: fill_def)

lemma nth_fill: "i < n \<Longrightarrow> fill n bytes ! i = (if i < length bytes then bytes ! i else Indet)"
  by (simp add: fill_def nth_append)

text \<open>A write into a buffer that is filled up is a write of the bytes.\<close>

lemma overlay_fill:
  assumes "length bytes \<le> c" and "c \<le> n" and "off + length data \<le> n"
  shows "overlay (fill c bytes) off data n = fill n (patch off data bytes)"
proof (rule nth_equalityI)
  have len: "max (length bytes) (off + length data) \<le> n" using assms by simp
  show eq: "length (overlay (fill c bytes) off data n) = length (fill n (patch off data bytes))"
    using assms(3) len by (simp add: length_overlay length_fill)
  fix i assume "i < length (overlay (fill c bytes) off data n)"
  then have i: "i < n" using assms(3) by (simp add: length_overlay)
  have "overlay (fill c bytes) off data n ! i =
      (if off \<le> i \<and> i < off + length data then data ! (i - off) else if i < length bytes then bytes ! i else Indet)"
    using assms i by (auto simp: nth_overlay length_fill nth_fill)
  also have "\<dots> = fill n (patch off data bytes) ! i"
    using i nth_patch_bytes [of i bytes off data] by (auto simp: nth_fill)
  finally show "overlay (fill c bytes) off data n ! i = fill n (patch off data bytes) ! i" .
qed

lemma pad_fill: "pad bytes = fill (capacity (length bytes)) bytes"
  by (simp add: pad_def fill_def)

lemma overlay_pad:
  "overlay (pad bytes) off data (capacity (max (length bytes) (off + length data))) = pad (patch off data bytes)"
  unfolding pad_fill length_patch
  using blocks_for_covers(1) [of "max (length bytes) (off + length data)"] blocks_for_mono [of "length bytes"]
  by (intro overlay_fill blocks_for_covers(1)) simp_all

section \<open>A file at rest and in a session\<close>

definition small :: "cell list \<Rightarrow> bool" where
  "small bytes \<longleftrightarrow> length bytes < 2 ^ 31 - 512"

definition node_holds :: "cell list \<Rightarrow> buffer \<Rightarrow> bool \<Rightarrow> inode \<Rightarrow> bool" where
  "node_holds bytes buf dirty nd \<longleftrightarrow> node_class nd = File \<lparr>m_buf = buf, isWaitingForDistributedWrite = dirty\<rparr> \<and>
     st_size (attr nd) = of_nat (length bytes) \<and> st_blocks (attr nd) = of_nat (blocks_for (length bytes))"

abbreviation closed_node :: "cell list \<Rightarrow> inode \<Rightarrow> bool" where
  "closed_node bytes \<equiv> node_holds bytes None False"

abbreviation open_node :: "cell list \<Rightarrow> bool \<Rightarrow> inode \<Rightarrow> bool" where
  "open_node bytes \<equiv> node_holds bytes (if bytes = [] then None else Some (pad bytes))"

definition stored :: "world \<Rightarrow> fuse_ino_t \<Rightarrow> cell list \<Rightarrow> bool" where
  "stored W ino bytes \<longleftrightarrow>
     (bytes \<noteq> [] \<longrightarrow> file_stored W ino (file_blocks (of_nat (length bytes)) (pad bytes))) \<and>
     (\<forall>r<length W. length (block_list (BlocksManager (peer_fs (W ! r))) ino) \<le> blocks_for (length bytes))"

definition at_rest :: "world \<Rightarrow> fuse_ino_t \<Rightarrow> cell list \<Rightarrow> bool" where
  "at_rest W ino bytes \<longleftrightarrow> known_everywhere ino W \<and> small bytes \<and> stored W ino bytes \<and>
     (\<forall>r<length W. closed_node bytes (inode_at (peer_fs (W ! r)) ino))"

text \<open>Process \<open>r\<close> has the file open, with \<open>old\<close> stored and \<open>bytes\<close> in its buffer.\<close>

definition in_session :: "world \<Rightarrow> nat \<Rightarrow> fuse_ino_t \<Rightarrow> cell list \<Rightarrow> cell list \<Rightarrow> bool \<Rightarrow> bool" where
  "in_session W r ino old bytes dirty \<longleftrightarrow> known_everywhere ino W \<and> small old \<and> small bytes \<and> stored W ino old \<and>
     (\<forall>q<length W. q \<noteq> r \<longrightarrow> closed_node old (inode_at (peer_fs (W ! q)) ino)) \<and>
     open_node bytes dirty (inode_at (peer_fs (W ! r)) ino) \<and> (dirty \<longrightarrow> bytes \<noteq> [])"

text \<open>What a step of a session on \<open>ino\<close> does to the rest of the world.\<close>

definition leaves_others :: "fuse_ino_t \<Rightarrow> world \<Rightarrow> world \<Rightarrow> bool" where
  "leaves_others ino W W' \<longleftrightarrow> length W' = length W \<and>
     (\<forall>r<length W. n_inodes (peer_fs (W' ! r)) = n_inodes (peer_fs (W ! r)) \<and>
        (\<forall>j. j \<noteq> ino \<longrightarrow> unat j < n_inodes (peer_fs (W ! r)) \<longrightarrow> inode_at (peer_fs (W' ! r)) j = inode_at (peer_fs (W ! r)) j \<and>
           block_list (BlocksManager (peer_fs (W' ! r))) j = block_list (BlocksManager (peer_fs (W ! r))) j)) \<and>
     (\<forall>j ds. j \<noteq> ino \<longrightarrow> file_stored W j ds \<longrightarrow> file_stored W' j ds)"

lemma leaves_others_refl: "leaves_others ino W W"
  by (simp add: leaves_others_def)

lemma leaves_others_trans: "leaves_others ino W V \<Longrightarrow> leaves_others ino V U \<Longrightarrow> leaves_others ino W U"
  by (simp add: leaves_others_def)

lemma at_rest_other:
  assumes "leaves_others ino W W'" and "at_rest W j bytes" and "j \<noteq> ino"
  shows "at_rest W' j bytes"
proof -
  have "known_everywhere j W" using assms(2) by (simp add: at_rest_def)
  then have in_range: "unat j < n_inodes (peer_fs (W ! r))" if "r < length W" for r
    using that by (rule known_everywhereD(2))
  show ?thesis
    using assms in_range by (auto simp: at_rest_def leaves_others_def known_everywhere_iff stored_def)
qed

lemma leaves_others_mod_fs:
  assumes "r < length W" and "\<And>s. n_inodes (g s) = n_inodes s" and "\<And>s. same_outside {ino} s (g s)"
    and "\<And>s j. block_list (BlocksManager (g s)) j = block_list (BlocksManager s) j"
  shows "leaves_others ino W (mod_fs r g W)"
  using assms(2,3,4)
  by (auto simp: leaves_others_def peer_fs_mod_fs [OF assms(1)] file_stored_mod_fs [OF assms(1)] same_outside_def)

section \<open>open\<close>

lemma FuseOpen_world:
  assumes mpi: "mpi_documented m" and r: "r < length W" and alloc: "alloc_ok ev" and flags: "\<not> has_flag flags (O_WRONLY OR O_TRUNC)"
    and known: "known_everywhere ino W" and st: "bytes \<noteq> [] \<longrightarrow> file_stored W ino (file_blocks (of_nat (length bytes)) (pad bytes))"
    and sm: "small bytes" and nd: "node_class (inode_at (peer_fs (W ! r)) ino) = File f"
      "st_size (attr (inode_at (peer_fs (W ! r)) ino)) = of_nat (length bytes)"
  shows "\<exists>W1. FuseOpen m ev r ino flags W =
      Inr (mod_fs r (\<lambda>s. reply Reply_open (set_buf ino (if bytes = [] then None else Some (pad bytes)) s)) W1) \<and>
    length W1 = length W \<and> leaves_others ino W W1 \<and>
    (\<forall>q. inode_at (peer_fs (W1 ! q)) = inode_at (peer_fs (W ! q)) \<and> n_inodes (peer_fs (W1 ! q)) = n_inodes (peer_fs (W ! q)) \<and>
       replies (peer_fs (W1 ! q)) = replies (peer_fs (W ! q)) \<and>
       (\<forall>j. block_list (BlocksManager (peer_fs (W1 ! q))) j = block_list (BlocksManager (peer_fs (W ! q))) j)) \<and>
    (\<forall>ds. file_stored W ino ds \<longrightarrow> file_stored W1 ino ds)"
proof -
  note s = known_everywhereD [OF known r]
  let ?n = "of_nat (length bytes) :: u64"
  have len: "length bytes < 2 ^ 63" using sm by (simp add: small_def)
  then have un: "unat ?n = length bytes" by (simp add: unat_of_nat)
  let ?W1 = "mod_fs r (sending (sendReadRequest r (mpiWorldSize (peer_fs (W ! r))))) W"
  let ?io = "send_io_request r (length W) \<lparr>io_inode = ino, io_fileSize = ?n, io_reqSize = Some ?n, io_offset = Some 0\<rparr>"
  show ?thesis
  proof (cases "bytes = []")
    case True
    let ?W2 = "mod_fs r (sending ?io) ?W1"
    have "FuseOpen m ev r ino flags W = Inr (mod_fs r (\<lambda>s. reply Reply_open (set_buf ino None s)) ?W2)"
      using s nd flags True
      by (simp add: FuseOpen_def no_such_ino_iff getINode_total Let_def as_File_def as_Directory_def DAGonFS_Read_def)
    moreover have "leaves_others ino W ?W2"
      using r by (intro leaves_others_trans [OF leaves_others_mod_fs leaves_others_mod_fs]) (simp_all add: same_outside_def)
    ultimately show ?thesis
      using r True by (intro exI [of _ ?W2]) (simp add: peer_fs_mod_fs file_stored_mod_fs)
  next
    case False
    then have n0: "?n \<noteq> 0" using un by auto
    have nb: "numberOfBlocks ?n = blocks_for (length bytes)" by (simp add: numberOfBlocks_blocks_for un)
    have fits: "dist_fits (?n, pad bytes)"
      using sm blocks_for_covers(2) [of "length bytes"]
      by (simp add: dist_fits_def nb small_def FILE_SYSTEM_SINGLE_BLOCK_SIZE_def mult.commute)
    let ?W2 = "read_world r ino ?n ?n 0 ?W1"
    have "dist_holds ?W1 ino (?n, pad bytes)"
      using st False r by (simp add: dist_holds_def file_stored_mod_fs)
    then have "DAGonFS_Read m True r ino ?n ?n 0 ?W1 = Inr (?W2, Some (pad bytes))"
      using r n0 fits mpi read_from_stored [of m r ?W1 ?n "pad bytes" ino 0]
      by (simp add: nb mult.commute)
    then have "FuseOpen m ev r ino flags W = Inr (mod_fs r (\<lambda>s. reply Reply_open (set_buf ino (Some (pad bytes)) s)) ?W2)"
      using s nd flags alloc
      by (simp add: FuseOpen_def no_such_ino_iff getINode_total Let_def as_File_def as_Directory_def)
    moreover have bl: "block_list (fst (getDataBlockListOfInode b ino)) j = block_list b j" for b j
      using getDataBlockListOfInode_block_list [of b ino] by (metis prod.collapse)
    moreover have "leaves_others ino W ?W2"
      unfolding read_world_def using r bl
      by (intro leaves_others_trans [OF leaves_others_mod_fs leaves_others_trans [OF leaves_others_mod_fs leaves_others_mod_fs]])
        (simp_all add: same_outside_def)
    ultimately show ?thesis
      using r False by (intro exI [of _ ?W2]) (simp add: read_world_def peer_fs_mod_fs file_stored_mod_fs)
  qed
qed

text \<open>What a step of process \<open>r\<close> appends to the answers.\<close>

definition answered_by :: "nat \<Rightarrow> reply list \<Rightarrow> world \<Rightarrow> world \<Rightarrow> bool" where
  "answered_by r rs W W' \<longleftrightarrow> (\<forall>q<length W. replies (peer_fs (W' ! q)) = replies (peer_fs (W ! q)) @ (if q = r then rs else []))"

text \<open>\<open>open\<close> loads what is stored under the size that the process has for the file.\<close>

lemma opens_with:
  assumes mpi: "mpi_documented m" and r: "r < length W" and alloc: "alloc_ok ev" and flags: "\<not> has_flag flags (O_WRONLY OR O_TRUNC)"
    and known: "known_everywhere ino W" and sm: "small old" "small bytes" and st: "stored W ino old"
    and fs: "bytes \<noteq> [] \<longrightarrow> file_stored W ino (file_blocks (of_nat (length bytes)) (pad bytes))"
    and others: "\<And>q. q < length W \<Longrightarrow> q \<noteq> r \<Longrightarrow> closed_node old (inode_at (peer_fs (W ! q)) ino)"
    and nd: "node_holds bytes buf d (inode_at (peer_fs (W ! r)) ino)" and d: "d \<Longrightarrow> bytes \<noteq> []"
  shows "\<exists>W'. FuseOpen m ev r ino flags W = Inr W' \<and> in_session W' r ino old bytes d \<and> leaves_others ino W W' \<and>
    answered_by r [Reply_open] W W'"
proof -
  let ?buf = "if bytes = [] then None else Some (pad bytes)"
  obtain W1 where W1: "FuseOpen m ev r ino flags W = Inr (mod_fs r (\<lambda>s. reply Reply_open (set_buf ino ?buf s)) W1)"
    "length W1 = length W" "leaves_others ino W W1"
    "\<And>q. inode_at (peer_fs (W1 ! q)) = inode_at (peer_fs (W ! q))"
    "\<And>q. n_inodes (peer_fs (W1 ! q)) = n_inodes (peer_fs (W ! q))"
    "\<And>q. replies (peer_fs (W1 ! q)) = replies (peer_fs (W ! q))"
    "\<And>q j. block_list (BlocksManager (peer_fs (W1 ! q))) j = block_list (BlocksManager (peer_fs (W ! q))) j"
    "\<And>ds. file_stored W ino ds \<Longrightarrow> file_stored W1 ino ds"
    using FuseOpen_world [OF mpi r alloc flags known fs sm(2), of "\<lparr>m_buf = buf, isWaitingForDistributedWrite = d\<rparr>"] nd
    unfolding node_holds_def by blast
  let ?W' = "mod_fs r (\<lambda>s. reply Reply_open (set_buf ino ?buf s)) W1"
  have r1: "r < length W1" using r W1(2) by simp
  have inor: "unat ino < n_inodes (peer_fs (W ! r))" using known_everywhereD(2) [OF known r] .
  have leaves: "leaves_others ino W ?W'"
    using r1 by (intro leaves_others_trans [OF W1(3)] leaves_others_mod_fs) (simp_all add: set_buf_def same_outside_def inode_at_def modINodeAt_def nth_list_update word_unat_eq_iff)
  have "known_everywhere ino ?W'"
    using known r1 W1(2,5,7) by (simp add: known_everywhere_iff peer_fs_mod_fs set_buf_def)
  moreover have "stored ?W' ino old"
    using st r1 W1(2,7,8) by (auto simp: stored_def file_stored_mod_fs peer_fs_mod_fs set_buf_def)
  moreover have "open_node bytes d (inode_at (peer_fs (?W' ! r)) ino)"
    using nd r1 W1(4,5) inor by (simp add: peer_fs_mod_fs set_buf_def inode_at_modINode node_holds_def)
  moreover have "closed_node old (inode_at (peer_fs (?W' ! q)) ino)" if "q < length W" "q \<noteq> r" for q
    using others [OF that] that(2) r1 W1(4) by (simp add: peer_fs_mod_fs)
  ultimately have "in_session ?W' r ino old bytes d"
    using sm W1(2) d by (simp add: in_session_def)
  moreover have "answered_by r [Reply_open] W ?W'"
    using r1 W1(6) by (simp add: answered_by_def peer_fs_mod_fs set_buf_def)
  ultimately show ?thesis using W1(1) leaves by blast
qed

lemma session_opens:
  assumes "mpi_documented m" and "r < length W" and "alloc_ok ev" and "\<not> has_flag flags (O_WRONLY OR O_TRUNC)"
    and rest: "at_rest W ino bytes"
  shows "\<exists>W'. FuseOpen m ev r ino flags W = Inr W' \<and> in_session W' r ino bytes bytes False \<and> leaves_others ino W W' \<and>
    answered_by r [Reply_open] W W'"
  using rest assms(2) by (intro opens_with [OF assms(1-4), where buf = None]) (auto simp: at_rest_def stored_def)

text \<open>A step of one process that touches one inode and no blocks.\<close>

lemma replaced_peer:
  assumes "r < length W" and "n_inodes s' = n_inodes (peer_fs (W ! r))" and "same_outside {ino} (peer_fs (W ! r)) s'"
    and "BlocksManager s' = BlocksManager (peer_fs (W ! r))"
  shows "leaves_others ino W (mod_fs r (\<lambda>_. s') W)"
    and "known_everywhere j (mod_fs r (\<lambda>_. s') W) = known_everywhere j W"
    and "stored (mod_fs r (\<lambda>_. s') W) j bytes = stored W j bytes"
proof -
  have "block_addresses (mod_fs r (\<lambda>_. s') W ! k) j = block_addresses (W ! k) j" for k j
    using assms(1,4) by (simp add: block_addresses_def peer_fs_mod_fs)
  moreover have "mod_fs r (\<lambda>_. s') W = [] \<longleftrightarrow> W = []" by (simp add: mod_fs_def)
  ultimately have fs: "file_stored (mod_fs r (\<lambda>_. s') W) j ds = file_stored W j ds" for j ds
    by (simp add: file_stored_def peer_heap_mod_fs)
  show "leaves_others ino W (mod_fs r (\<lambda>_. s') W)"
    using assms by (simp add: leaves_others_def peer_fs_mod_fs fs same_outside_def)
  show "known_everywhere j (mod_fs r (\<lambda>_. s') W) = known_everywhere j W"
    using assms by (auto simp: known_everywhere_iff peer_fs_mod_fs)
  show "stored (mod_fs r (\<lambda>_. s') W) j bytes = stored W j bytes"
    using assms by (auto simp: stored_def fs peer_fs_mod_fs)
qed

text \<open>An open for writing only fetches nothing and forgets the size and the blocks, on its process.\<close>

lemma session_truncates:
  assumes r: "r < length W" and flags: "has_flag flags (O_WRONLY OR O_TRUNC)" and rest: "at_rest W ino old"
  shows "\<exists>W'. FuseOpen m ev r ino flags W = Inr W' \<and> in_session W' r ino old [] False \<and> leaves_others ino W W' \<and>
    answered_by r [Reply_open] W W'"
proof -
  have w: "known_everywhere ino W" "small old" "stored W ino old"
    and closed: "\<And>k. k < length W \<Longrightarrow> closed_node old (inode_at (peer_fs (W ! k)) ino)"
    using rest by (auto simp: at_rest_def)
  note fs = known_everywhereD [OF w(1) r]
  let ?s' = "reply Reply_open (modINode ino (set_attr (\<lambda>a. a\<lparr>st_size := 0, st_blocks := 0\<rparr>)) (peer_fs (W ! r)))"
  let ?W' = "mod_fs r (\<lambda>_. ?s') W"
  have frame: "n_inodes ?s' = n_inodes (peer_fs (W ! r))" "same_outside {ino} (peer_fs (W ! r)) ?s'"
    "BlocksManager ?s' = BlocksManager (peer_fs (W ! r))"
    using fs(2) by (simp_all add: same_outside_def inode_at_modINode)
  have "node_holds [] None False (inode_at ?s' ino)"
    using closed [OF r] fs(2) by (simp add: node_holds_def inode_at_modINode)
  then have "in_session ?W' r ino old [] False"
    using w closed r replaced_peer(2,3) [OF r frame] by (auto simp: in_session_def peer_fs_mod_fs small_def)
  moreover have "mod_fs r (\<lambda>s. reply Reply_open (modINode ino (set_attr (\<lambda>a. a\<lparr>st_size := 0, st_blocks := 0\<rparr>)) s)) W = ?W'"
    using r by (auto simp: mod_fs_def)
  then have "FuseOpen m ev r ino flags W = Inr ?W'"
    using fs closed [OF r] flags
    by (simp add: FuseOpen_def no_such_ino_iff getINode_total Let_def as_File_def as_Directory_def node_holds_def)
  ultimately show ?thesis
    using replaced_peer(1) [OF r frame] r by (auto simp: answered_by_def peer_fs_mod_fs)
qed

lemma open_node_ok:
  assumes "open_node bytes d nd" and "small bytes"
  shows "buffer_ok nd" and "unat (st_size (attr nd)) = length bytes" and "unat (st_blocks (attr nd)) = blocks_for (length bytes)"
    and "cells_of nd = pad bytes" and "file_bytes nd = bytes"
proof -
  have len: "length bytes < 2 ^ 31 - 512" using assms(2) by (simp add: small_def)
  have cap: "capacity (length bytes) < 2 ^ 31"
    using blocks_for_covers(2) [of "length bytes"] len by (simp add: FILE_SYSTEM_SINGLE_BLOCK_SIZE_def)
  have b: "blocks_for (length bytes) < 2 ^ 31" using blocks_for_le [of "length bytes"] len by simp
  show sz: "unat (st_size (attr nd)) = length bytes" and bl: "unat (st_blocks (attr nd)) = blocks_for (length bytes)"
    using assms(1) len b by (simp_all add: node_holds_def unat_of_nat)
  show cells: "cells_of nd = pad bytes" using assms(1) by (simp add: cells_of_def node_holds_def buffer_cells_def)
  then show "file_bytes nd = bytes" by (simp add: file_bytes_def sz)
  have "length (cells_of nd) = capacity (length bytes)" by (simp add: cells)
  then show "buffer_ok nd"
    using assms(1) sz bl cap blocks_for_covers(1) [of "length bytes"]
    by (simp add: buffer_ok_def node_holds_def cells_of_def)
qed

lemma session_step:
  assumes s: "in_session W r ino old bytes d" and r: "r < length W" and step: "f (peer_fs (W ! r)) = Inr s'"
    and frame: "n_inodes s' = n_inodes (peer_fs (W ! r))" "same_outside {ino} (peer_fs (W ! r)) s'"
      "BlocksManager s' = BlocksManager (peer_fs (W ! r))"
    and nd: "open_node bytes' d' (inode_at s' ino)" "small bytes'" "d' \<Longrightarrow> bytes' \<noteq> []"
    and rs: "replies s' = replies (peer_fs (W ! r)) @ rs"
  shows "\<exists>W'. at_peer r f W = Inr W' \<and> in_session W' r ino old bytes' d' \<and> leaves_others ino W W' \<and> answered_by r rs W W'"
proof (intro exI conjI)
  let ?W' = "mod_fs r (\<lambda>_. s') W"
  show "at_peer r f W = Inr ?W'" using step by (simp add: at_peer_def)
  show "leaves_others ino W ?W'" by (rule replaced_peer(1) [OF r frame])
  show "answered_by r rs W ?W'" using r rs by (simp add: answered_by_def peer_fs_mod_fs)
  show "in_session ?W' r ino old bytes' d'"
    using s r nd replaced_peer(2,3) [OF r frame] by (auto simp: in_session_def peer_fs_mod_fs)
qed

lemma session_writes:
  assumes s: "in_session W r ino old bytes d" and r: "r < length W" and data: "data \<noteq> []"
    and sm: "small (patch (unat off) data bytes)" and alloc: "alloc_ok ev"
  shows "\<exists>W'. at_peer r (FuseWrite ev ino (Some data) off) W = Inr W' \<and>
    in_session W' r ino old (patch (unat off) data bytes) True \<and> leaves_others ino W W' \<and>
    answered_by r [Reply_write (of_nat (length data))] W W'"
proof -
  let ?s = "peer_fs (W ! r)" and ?new = "unat off + length data" and ?bytes = "patch (unat off) data bytes"
  let ?nd = "inode_at ?s ino"
  have known: "known_everywhere ino W" and nd: "open_node bytes d ?nd" and smb: "small bytes"
    using s by (simp_all add: in_session_def)
  note fs = known_everywhereD [OF known r]
  note nd_ok = open_node_ok [OF nd smb]
  have isfile: "node_class ?nd = File \<lparr>m_buf = (if bytes = [] then None else Some (pad bytes)), isWaitingForDistributedWrite = d\<rparr>"
    using nd by (simp add: node_holds_def)
  have new: "?new < 2 ^ 31 - 512" using sm by (simp add: small_def)
  then have new62: "?new < 2 ^ 62" by simp
  note node = wrote_node [OF fs(2) isfile nd_ok(1) new62, of ev]
  let ?n = "max (length bytes) ?new"
  have cap: "new_capacity ?nd ?new = capacity ?n"
  proof (cases "capacity (length bytes) < ?new")
    case True
    then have "length bytes \<le> ?new" using blocks_for_covers(1) [of "length bytes"] by simp
    then show ?thesis using True by (simp add: new_capacity_def nd_ok(3) max_def)
  next
    case False
    then have "blocks_for ?new \<le> blocks_for (length bytes)" by (intro blocks_for_least) simp
    then show ?thesis using False by (simp add: new_capacity_def nd_ok(3,4) blocks_for_max max.absorb1)
  qed
  have ne: "?bytes \<noteq> []" using data by (auto simp: patch_def)
  have words: "unat x = n \<Longrightarrow> x = of_nat n" for x :: u64 and n by auto
  show ?thesis
  proof (rule session_step [where f = "FuseWrite ev ino (Some data) off", OF s r FuseWrite_eq [OF fs(1,2) isfile nd_ok(1) data new62 alloc]])
    show "open_node ?bytes True (inode_at (reply (Reply_write (of_nat (length data))) (wrote ev ino data off ?s)) ino)"
      using node(1) words [OF node(2)] words [OF node(3)] ne
      by (simp add: node_holds_def nd_ok(2,3,4) cap overlay_pad [unfolded blocks_for_max] blocks_for_max)
    show "same_outside {ino} ?s (reply (Reply_write (of_nat (length data))) (wrote ev ino data off ?s))"
      using wrote_same [OF fs(2), of ev data off] by (simp add: same_outside_def)
  qed (use sm ne in \<open>simp_all add: wrote_frame\<close>)
qed

lemma session_reads:
  assumes s: "in_session W r ino old bytes d" and r: "r < length W"
    and off: "unat off \<le> length bytes" and sz: "unat sz < 2 ^ 62"
  shows "\<exists>W'. at_peer r (FuseRead ev ino sz off) W = Inr W' \<and> in_session W' r ino old bytes d \<and> leaves_others ino W W' \<and>
    answered_by r [Reply_buf (take (unat sz) (drop (unat off) bytes))] W W'"
proof -
  let ?s = "peer_fs (W ! r)" and ?data = "take (unat sz) (drop (unat off) bytes)"
  let ?nd = "inode_at ?s ino"
  have known: "known_everywhere ino W" and nd: "open_node bytes d ?nd" and smb: "small bytes"
    using s by (simp_all add: in_session_def)
  note fs = known_everywhereD [OF known r]
  note nd_ok = open_node_ok [OF nd smb]
  let ?s' = "reply (Reply_buf ?data) (modINode ino (set_attr (\<lambda>a. a\<lparr>st_atim := env_now ev\<rparr>)) ?s)"
  have read: "FuseRead ev ino sz off ?s = Inr ?s'"
  proof (cases "bytes = []")
    case True
    then have "off = 0" "st_size (attr ?nd) = 0" using off nd by (simp_all add: unat_eq_0 node_holds_def)
    moreover have "node_class ?nd = File \<lparr>m_buf = None, isWaitingForDistributedWrite = d\<rparr>"
      using nd True by (simp add: node_holds_def)
    ultimately show ?thesis
      using fs True by (simp add: FuseRead_unfold no_such_ino_iff getINode_total Let_def read_from_def word_gt_0)
  next
    case False
    have "node_class ?nd = File \<lparr>m_buf = Some (pad bytes), isWaitingForDistributedWrite = d\<rparr>"
      using nd False by (simp add: node_holds_def)
    moreover have "length (pad bytes) < 2 ^ 62"
      using smb blocks_for_covers(2) [of "length bytes"] by (simp add: small_def FILE_SYSTEM_SINGLE_BLOCK_SIZE_def)
    ultimately show ?thesis
      using FuseRead_eq [OF fs(1,2), of _ "pad bytes" off sz ev] off sz nd_ok(2,5) blocks_for_covers(1) [of "length bytes"] by simp
  qed
  show ?thesis
  proof (rule session_step [where f = "FuseRead ev ino sz off", OF s r read])
    show "open_node bytes d (inode_at ?s' ino)"
      using nd fs(2) by (simp add: inode_at_modINode node_holds_def)
    show "same_outside {ino} ?s ?s'" using fs(2) by (simp add: same_outside_def inode_at_modINode)
  qed (use s in \<open>simp_all add: in_session_def\<close>)
qed

section \<open>flush and release\<close>

lemma flushed_blocks:
  fixes fileSize :: u64 and b :: "cell list"
  assumes a: "a < length W" and q: "q < length W" and known: "known_everywhere ino W"
  defines "W' \<equiv> flushed a ino fileSize b W"
  shows "n_inodes (peer_fs (W' ! q)) = n_inodes (peer_fs (W ! q))"
    and "length (block_list (BlocksManager (peer_fs (W' ! q))) ino) =
      max (length (block_list (BlocksManager (peer_fs (W ! q))) ino)) (numberOfBlocks fileSize)"
    and "j \<noteq> ino \<Longrightarrow> block_list (BlocksManager (peer_fs (W' ! q))) j = block_list (BlocksManager (peer_fs (W ! q))) j"
    and "q \<noteq> a \<Longrightarrow> st_blocks (attr (inode_at (peer_fs (W' ! q)) ino)) =
      of_nat (max (length (block_list (BlocksManager (peer_fs (W ! q))) ino)) (numberOfBlocks fileSize))"
proof -
  let ?W1 = "flush_sent a W" and ?ds = "file_blocks fileSize b"
  let ?W2 = "written a ino fileSize ?ds ?W1"
  have a1: "a < length ?W1" and q1: "q < length ?W1" and a2: "a < length ?W2" using a q by simp_all
  have ne: "?W1 \<noteq> []" using a1 by (metis list.size(3) not_less0)
  note len = length_written_addresses [OF ne, of ?ds]
  have ino: "unat ino < n_inodes (peer_fs (?W1 ! q))"
    using known_everywhereD(2) [OF known q] a by (simp add: flush_sent_peer)
  have bl: "block_list (BlocksManager (peer_fs (?W2 ! q))) j =
      (if j = ino then installed_list FILE_SYSTEM_SINGLE_BLOCK_SIZE (length W) a ino (written_addresses ?ds ?W1)
         (block_list (BlocksManager (peer_fs (W ! q))) ino)
       else block_list (BlocksManager (peer_fs (W ! q))) j)" for j
    using a1 q1 a by (simp add: written_def block_list_installed flush_sent_peer)
  show "n_inodes (peer_fs (W' ! q)) = n_inodes (peer_fs (W ! q))"
    using written_frame(1) [OF a1 q1] a a2
    by (cases "q = a") (simp_all add: W'_def flushed_def set_buf_def peer_fs_mod_fs flush_sent_peer)
  show "length (block_list (BlocksManager (peer_fs (W' ! q))) ino) =
      max (length (block_list (BlocksManager (peer_fs (W ! q))) ino)) (numberOfBlocks fileSize)"
    using a2 bl [of ino] len by (cases "q = a") (simp_all add: W'_def flushed_def set_buf_def peer_fs_mod_fs)
  show "block_list (BlocksManager (peer_fs (W' ! q))) j = block_list (BlocksManager (peer_fs (W ! q))) j" if "j \<noteq> ino"
    using a2 bl [of j] that by (cases "q = a") (simp_all add: W'_def flushed_def set_buf_def peer_fs_mod_fs)
  show "st_blocks (attr (inode_at (peer_fs (W' ! q)) ino)) =
      of_nat (max (length (block_list (BlocksManager (peer_fs (W ! q))) ino)) (numberOfBlocks fileSize))" if "q \<noteq> a"
    using inode_at_written [OF a1 q1 ino len, of fileSize ino] that a a2
    by (simp add: W'_def flushed_def set_buf_def peer_fs_mod_fs flush_sent_peer)
qed

lemma flushed_others:
  assumes a: "a < length W" and known: "known_everywhere ino W" and fits: "dist_fits (fileSize, b)"
    and size: "st_size (attr (inode_at (peer_fs (W ! a)) ino)) = fileSize"
  shows "leaves_others ino W (flushed a ino fileSize b W)"
proof -
  note flush = flushed_facts [OF a known fits size]
  note blocks = flushed_blocks [where fileSize = fileSize and b = b, OF a _ known]
  have "file_stored (flushed a ino fileSize b W) j ds" if "j \<noteq> ino" "file_stored W j ds" for j ds
  proof -
    have "file_stored (flush_sent a W) j ds" using that(2) a by (simp add: flush_sent_def file_stored_mod_fs)
    then have "file_stored (written a ino fileSize (file_blocks fileSize b) (flush_sent a W)) j ds"
      using that(1) a by (intro file_stored_other) simp_all
    then show ?thesis using a by (simp add: flushed_def file_stored_mod_fs set_buf_def)
  qed
  then show ?thesis
    using flush(1) flush(8) blocks(1,3) by (auto simp: leaves_others_def same_outside_def)
qed

lemma FuseRelease_closed:
  assumes "n_inodes s < 2 ^ 31" and "unat ino < n_inodes s" and "node_class (inode_at s ino) = File f"
  shows "FuseRelease ino s = Inr (reply_err ESUCCESS (set_buf ino None s))"
  using assms by (simp add: FuseRelease_def no_such_ino_iff getINode_total Let_def as_File_def as_Directory_def)

lemma released:
  assumes rest: "at_rest W ino bytes" and r: "r < length W"
  shows "\<exists>W'. at_peer r (FuseRelease ino) W = Inr W' \<and> at_rest W' ino bytes \<and> leaves_others ino W W' \<and>
    answered_by r [Reply_err ESUCCESS] W W'"
proof -
  let ?s = "peer_fs (W ! r)"
  have known: "known_everywhere ino W" and node: "closed_node bytes (inode_at ?s ino)"
    using rest r by (simp_all add: at_rest_def)
  note fs = known_everywhereD [OF known r]
  let ?s' = "reply_err ESUCCESS (set_buf ino None ?s)" and ?W' = "mod_fs r (\<lambda>_. reply_err ESUCCESS (set_buf ino None (peer_fs (W ! r)))) W"
  have frame: "n_inodes ?s' = n_inodes ?s" "same_outside {ino} ?s ?s'" "BlocksManager ?s' = BlocksManager ?s"
    using fs(2) by (simp_all add: set_buf_def same_outside_def inode_at_modINode)
  have "closed_node bytes (inode_at ?s' ino)"
    using node fs(2) by (simp add: node_holds_def set_buf_def inode_at_modINode)
  then have "at_rest ?W' ino bytes"
    using rest r replaced_peer(2,3) [OF r frame] by (auto simp: at_rest_def peer_fs_mod_fs)
  moreover have "at_peer r (FuseRelease ino) W = Inr ?W'"
    using FuseRelease_closed [OF fs(1,2)] node by (simp add: at_peer_def node_holds_def)
  ultimately show ?thesis
    using replaced_peer(1) [OF r frame] r by (auto simp: answered_by_def peer_fs_mod_fs set_buf_def)
qed

lemma session_flushes:
  assumes mpi: "mpi_documented m" and s: "in_session W r ino old bytes d" and r: "r < length W"
    and le: "blocks_for (length old) \<le> blocks_for (length bytes)" and clean: "\<not> d \<Longrightarrow> bytes = old"
  shows "\<exists>W'. FuseFlush m r ino W = Inr W' \<and> at_rest W' ino bytes \<and> leaves_others ino W W' \<and>
    answered_by r [Reply_err ESUCCESS] W W'"
proof -
  let ?s = "peer_fs (W ! r)" and ?buf = "if bytes = [] then None else Some (pad bytes)"
  have known: "known_everywhere ino W" and st: "stored W ino old" and sm: "small bytes"
    and node: "open_node bytes d (inode_at ?s ino)"
    and others: "\<And>q. q < length W \<Longrightarrow> q \<noteq> r \<Longrightarrow> closed_node old (inode_at (peer_fs (W ! q)) ino)"
    using s by (simp_all add: in_session_def)
  note fs = known_everywhereD [OF known r]
  have isfile: "node_class (inode_at ?s ino) = File \<lparr>m_buf = ?buf, isWaitingForDistributedWrite = d\<rparr>"
    and size: "st_size (attr (inode_at ?s ino)) = of_nat (length bytes)"
    using node by (simp_all add: node_holds_def)
  show ?thesis
  proof (cases d)
    case False
    then have old: "bytes = old" by (rule clean)
    let ?s' = "reply_err ESUCCESS (if bytes = [] then ?s else set_buf ino None ?s)"
    have frame: "n_inodes ?s' = n_inodes ?s" "same_outside {ino} ?s ?s'" "BlocksManager ?s' = BlocksManager ?s"
      using fs(2) by (simp_all add: set_buf_def same_outside_def inode_at_modINode)
    let ?W' = "mod_fs r (\<lambda>_. ?s') W"
    have "closed_node bytes (inode_at ?s' ino)"
      using node False fs(2) by (simp add: node_holds_def set_buf_def inode_at_modINode)
    then have "at_rest ?W' ino bytes"
      using known sm st old others r replaced_peer(2,3) [OF r frame] by (auto simp: at_rest_def peer_fs_mod_fs)
    moreover have "mod_fs r (\<lambda>s. reply_err ESUCCESS (if bytes = [] then s else set_buf ino None s)) W = ?W'"
      using r by (auto simp: mod_fs_def)
    then have "FuseFlush m r ino W = Inr ?W'"
      using fs isfile False by (simp add: FuseFlush_def no_such_ino_iff getINode_total Let_def as_File_def split: if_splits)
    ultimately show ?thesis
      using replaced_peer(1) [OF r frame] r by (auto simp: answered_by_def peer_fs_mod_fs set_buf_def)
  next
    case True
    then have ne: "bytes \<noteq> []" using s by (simp add: in_session_def)
    let ?n = "of_nat (length bytes) :: u64"
    have un: "unat ?n = length bytes" using sm by (simp add: small_def unat_of_nat)
    have nb: "numberOfBlocks ?n = blocks_for (length bytes)" by (simp add: numberOfBlocks_blocks_for un)
    have fits: "dist_fits (?n, pad bytes)"
      using sm blocks_for_covers(2) [of "length bytes"]
      by (simp add: dist_fits_def nb small_def FILE_SYSTEM_SINGLE_BLOCK_SIZE_def mult.commute)
    let ?W' = "flushed r ino ?n (pad bytes) W"
    have isfile': "node_class (inode_at ?s ino) = File \<lparr>m_buf = Some (pad bytes), isWaitingForDistributedWrite = True\<rparr>"
      using isfile True ne by simp
    have step: "FuseFlush m r ino W = Inr ?W'"
      by (rule FuseFlush_eq [OF mpi r known isfile' _ _ size fits]) simp_all
    note flush = flushed_facts [OF r known fits size]
    note blocks = flushed_blocks [where fileSize = ?n and b = "pad bytes", OF r _ known]
    have bl: "max (length (block_list (BlocksManager (peer_fs (W ! q))) ino)) (numberOfBlocks ?n) = blocks_for (length bytes)"
      if "q < length W" for q
      using st that le by (auto simp: stored_def nb max_def)
    have "closed_node bytes (inode_at (peer_fs (?W' ! q)) ino)" if q: "q < length W" for q
    proof (cases "q = r")
      case True
      then show ?thesis using flush(4) [OF q] flush(6) [OF isfile'] flush(7) node by (simp add: node_holds_def)
    next
      case False
      then show ?thesis
        using flush(4,5) [OF q] blocks(4) [OF q] bl [OF q] others [OF q] by (simp add: node_holds_def)
    qed
    then have "at_rest ?W' ino bytes"
      using flush(1,2,3) sm blocks(2) bl by (simp add: at_rest_def stored_def)
    then show ?thesis
      using step flushed_others [OF r known fits size] flush(9) by (auto simp: answered_by_def)
  qed
qed

section \<open>Sessions\<close>

text \<open>What a program does with a file between \<open>open\<close> and \<open>close\<close>, on one process.\<close>

datatype access = Get u64 u64 | Put "cell list" u64   \<comment> \<open>size or data, offset\<close>

type_synonym file_session = "nat \<times> env \<times> fuse_ino_t \<times> u32 \<times> access list"

fun perform :: "nat \<Rightarrow> env \<Rightarrow> fuse_ino_t \<Rightarrow> access \<Rightarrow> world \<Rightarrow> world exec" where
  "perform r ev ino (Get sz off) = at_peer r (FuseRead ev ino sz off)"
| "perform r ev ino (Put data off) = at_peer r (FuseWrite ev ino (Some data) off)"

text \<open>The kernel flushes on \<open>close\<close> and releases after the last one.\<close>

definition run_file_session :: "mpi \<Rightarrow> file_session \<Rightarrow> world \<Rightarrow> world exec" where
  "run_file_session m = (\<lambda>(r, ev, ino, flags, accs) W.
     andThen (FuseOpen m ev r ino flags W) (\<lambda>W1.
     andThen (foldE (perform r ev ino) accs W1) (\<lambda>W2.
     andThen (FuseFlush m r ino W2) (at_peer r (FuseRelease ino)))))"

text \<open>The specification: one copy of every file, and the answers each process gets.\<close>

fun a_access :: "access \<Rightarrow> cell list \<Rightarrow> reply \<times> cell list" where
  "a_access (Get sz off) bytes = (Reply_buf (take (unat sz) (drop (unat off) bytes)), bytes)"
| "a_access (Put data off) bytes = (Reply_write (of_nat (length data)), patch (unat off) data bytes)"

fun a_accesses :: "access list \<Rightarrow> cell list \<Rightarrow> reply list \<times> cell list" where
  "a_accesses [] bytes = ([], bytes)"
| "a_accesses (x # xs) bytes =
     (let (rp, bytes1) = a_access x bytes; (rs, bytes2) = a_accesses xs bytes1 in (rp # rs, bytes2))"

type_synonym file_store = "(fuse_ino_t \<rightharpoonup> cell list) \<times> (nat \<Rightarrow> reply list)"

definition truncating :: "u32 \<Rightarrow> bool" where
  "truncating flags \<longleftrightarrow> has_flag flags (O_WRONLY OR O_TRUNC)"

definition a_session :: "file_session \<Rightarrow> file_store \<Rightarrow> file_store" where
  "a_session = (\<lambda>(r, ev, ino, flags, accs) (F, log).
     let (rs, bytes) = a_accesses accs (if truncating flags then [] else the (F ino))
     in (F(ino \<mapsto> bytes), log(r := log r @ [Reply_open] @ rs @ [Reply_err ESUCCESS, Reply_err ESUCCESS])))"

text \<open>Reads start inside the file, writes are not empty and keep it below 2 GiB.\<close>

fun access_ok :: "access \<Rightarrow> cell list \<Rightarrow> bool" where
  "access_ok (Get sz off) bytes \<longleftrightarrow> unat off \<le> length bytes \<and> unat sz < 2 ^ 62"
| "access_ok (Put data off) bytes \<longleftrightarrow> data \<noteq> [] \<and> small (patch (unat off) data bytes)"

fun accesses_ok :: "access list \<Rightarrow> cell list \<Rightarrow> bool" where
  "accesses_ok [] bytes = True"
| "accesses_ok (x # xs) bytes = (access_ok x bytes \<and> accesses_ok xs (snd (a_access x bytes)))"

text \<open>A session that empties the file has to fill at least as many blocks again.\<close>

definition refilled :: "access list \<Rightarrow> cell list \<Rightarrow> bool" where
  "refilled accs old \<longleftrightarrow> (\<exists>data off. Put data off \<in> set accs) \<and>
     blocks_for (length old) \<le> blocks_for (length (snd (a_accesses accs [])))"

definition session_ok :: "nat \<Rightarrow> file_session \<Rightarrow> file_store \<Rightarrow> bool" where
  "session_ok w = (\<lambda>(r, ev, ino, flags, accs) (F, log). r < w \<and> alloc_ok ev \<and>
     (case F ino of None \<Rightarrow> False | Some bytes \<Rightarrow>
        if truncating flags then accesses_ok accs [] \<and> refilled accs bytes else accesses_ok accs bytes))"

definition store_in :: "nat \<Rightarrow> world \<Rightarrow> file_store \<Rightarrow> bool" where
  "store_in w W = (\<lambda>(F, log). length W = w \<and> (\<forall>ino bytes. F ino = Some bytes \<longrightarrow> at_rest W ino bytes) \<and>
     (\<forall>r<w. replies (peer_fs (W ! r)) = log r))"

lemma answered_by_trans:
  "answered_by r rs W V \<Longrightarrow> answered_by r rs' V U \<Longrightarrow> length V = length W \<Longrightarrow> answered_by r (rs @ rs') W U"
  by (auto simp: answered_by_def)

lemma session_accesses:
  assumes "in_session W r ino old bytes d" and "r < length W" and "alloc_ok ev" and "accesses_ok accs bytes"
    and "a_accesses accs bytes = (rs, bytes')"
  shows "\<exists>W' d'. foldE (perform r ev ino) accs W = Inr W' \<and> in_session W' r ino old bytes' d' \<and> leaves_others ino W W' \<and>
    answered_by r rs W W' \<and> length bytes \<le> length bytes' \<and> (d' \<longleftrightarrow> d \<or> (\<exists>data off. Put data off \<in> set accs)) \<and>
    (\<not> d' \<longrightarrow> bytes' = bytes)"
  using assms
proof (induction accs arbitrary: W bytes d rs)
  case Nil
  then show ?case by (auto simp: leaves_others_refl answered_by_def)
next
  case (Cons x xs)
  obtain rp bytes1 where x: "a_access x bytes = (rp, bytes1)" by (cases "a_access x bytes")
  obtain rs1 where rs: "rs = rp # rs1" "a_accesses xs bytes1 = (rs1, bytes')"
    using Cons.prems(5) x by (auto split: prod.splits)
  have ok: "access_ok x bytes" "accesses_ok xs bytes1" using Cons.prems(4) x by simp_all
  obtain W1 d1 where W1: "perform r ev ino x W = Inr W1" "in_session W1 r ino old bytes1 d1" "leaves_others ino W W1"
    "answered_by r [rp] W W1" "length bytes \<le> length bytes1" "d1 \<longleftrightarrow> d \<or> (\<exists>data off. Put data off = x)"
    "\<not> d1 \<longrightarrow> bytes1 = bytes"
  proof (cases x)
    case (Get sz off)
    then show ?thesis
      using that session_reads [OF Cons.prems(1,2), of off sz ev] ok(1) x by auto
  next
    case (Put data off)
    then show ?thesis
      using that session_writes [OF Cons.prems(1,2), of data off ev] ok(1) x Cons.prems(3) by fastforce
  qed
  have len: "length W1 = length W" using W1(3) by (simp add: leaves_others_def)
  then have r1: "r < length W1" using Cons.prems(2) by simp
  obtain W' d' where W': "foldE (perform r ev ino) xs W1 = Inr W'" "in_session W' r ino old bytes' d'" "leaves_others ino W1 W'"
    "answered_by r rs1 W1 W'" "length bytes1 \<le> length bytes'" "d' \<longleftrightarrow> d1 \<or> (\<exists>data off. Put data off \<in> set xs)"
    "\<not> d' \<longrightarrow> bytes' = bytes1"
    using Cons.IH [OF W1(2) r1 Cons.prems(3) ok(2) rs(2)] by blast
  have "answered_by r rs W W'" using answered_by_trans [OF W1(4) W'(4) len] by (simp add: rs(1))
  moreover have "d' \<longleftrightarrow> d \<or> (\<exists>data off. Put data off \<in> set (x # xs))" using W1(6) W'(6) by auto
  moreover have "\<not> d' \<longrightarrow> bytes' = bytes" using W1(7) W'(6,7) by auto
  ultimately show ?case
    using W1(1,5) W'(1,2,5) leaves_others_trans [OF W1(3) W'(3)] by (intro exI [of _ W'] exI [of _ d']) simp
qed

lemma file_session_step:
  assumes mpi: "mpi_documented m" and R: "store_in w W (F, log)" and ok: "session_ok w x (F, log)"
  shows "\<exists>W'. run_file_session m x W = Inr W' \<and> store_in w W' (a_session x (F, log))"
proof -
  obtain r ev ino flags accs where x: "x = (r, ev, ino, flags, accs)" by (cases x)
  obtain bytes where pre: "r < length W" "alloc_ok ev" "F ino = Some bytes" "at_rest W ino bytes"
    "truncating flags \<Longrightarrow> refilled accs bytes" "accesses_ok accs (if truncating flags then [] else bytes)"
    using ok R by (auto simp: session_ok_def x store_in_def split: option.splits if_splits)
  let ?start = "if truncating flags then [] else bytes"
  obtain rs bytes' where a: "a_accesses accs ?start = (rs, bytes')" by (cases "a_accesses accs ?start")
  obtain W1 where W1: "FuseOpen m ev r ino flags W = Inr W1" "in_session W1 r ino bytes ?start False" "leaves_others ino W W1"
    "answered_by r [Reply_open] W W1"
    using session_opens [OF mpi pre(1,2) _ pre(4), of flags] session_truncates [OF pre(1) _ pre(4), of flags m ev]
    by (cases "truncating flags") (auto simp: truncating_def)
  have len1: "length W1 = length W" using W1(3) by (simp add: leaves_others_def)
  have r1: "r < length W1" using len1 pre(1) by simp
  obtain W2 d where W2: "foldE (perform r ev ino) accs W1 = Inr W2" "in_session W2 r ino bytes bytes' d" "leaves_others ino W1 W2"
    "answered_by r rs W1 W2" "length ?start \<le> length bytes'" "d \<longleftrightarrow> (\<exists>data off. Put data off \<in> set accs)"
    "\<not> d \<longrightarrow> bytes' = ?start"
    using session_accesses [OF W1(2) r1 pre(2,6) a] by auto
  have kept: "blocks_for (length bytes) \<le> blocks_for (length bytes')" "\<not> d \<Longrightarrow> bytes' = bytes"
    using pre(5) a W2(5,6,7) blocks_for_mono by (cases "truncating flags"; auto simp: refilled_def)+
  have len2: "length W2 = length W1" using W2(3) by (simp add: leaves_others_def)
  have r2: "r < length W2" using len2 r1 by simp
  obtain W3 where W3: "FuseFlush m r ino W2 = Inr W3" "at_rest W3 ino bytes'" "leaves_others ino W2 W3"
    "answered_by r [Reply_err ESUCCESS] W2 W3"
    using session_flushes [OF mpi W2(2) r2 kept] by blast
  have len3: "length W3 = length W2" using W3(3) by (simp add: leaves_others_def)
  have r3: "r < length W3" using len3 r2 by simp
  obtain W4 where W4: "at_peer r (FuseRelease ino) W3 = Inr W4" "at_rest W4 ino bytes'" "leaves_others ino W3 W4"
    "answered_by r [Reply_err ESUCCESS] W3 W4"
    using released [OF W3(2) r3] by blast
  have others: "leaves_others ino W W4"
    using leaves_others_trans [OF W1(3) leaves_others_trans [OF W2(3) leaves_others_trans [OF W3(3) W4(3)]]] .
  have "answered_by r ([Reply_open] @ rs @ [Reply_err ESUCCESS] @ [Reply_err ESUCCESS]) W W4"
    using answered_by_trans [OF W1(4) answered_by_trans [OF W2(4) answered_by_trans [OF W3(4) W4(4)]]] len1 len2 len3 by simp
  then have "store_in w W4 (a_session x (F, log))"
    using R W4(2) at_rest_other [OF others] others pre(3) a
    by (auto simp: store_in_def a_session_def x Let_def leaves_others_def answered_by_def split: if_splits)
  then show ?thesis using W1(1) W2(1) W3(1) W4(1) by (simp add: run_file_session_def x)
qed

interpretation sessions: forward_simulation
  "run_file_session m" a_session "\<lambda>x A. session_ok w x A \<and> mpi_documented m" "\<lambda>_. True" "store_in w"
  for m w
proof unfold_locales
  fix W x W' and A :: file_store
  obtain F log where A: "A = (F, log)" by (cases A)
  assume "store_in w W A" "session_ok w x A \<and> mpi_documented m"
  then have step: "\<exists>W'. run_file_session m x W = Inr W' \<and> store_in w W' (a_session x A)"
    using file_session_step by (auto simp: A)
  then show "\<exists>W'. run_file_session m x W = Inr W'" by blast
  assume "run_file_session m x W = Inr W'"
  with step show "store_in w W' (a_session x A)" by simp
qed

text \<open>
  One copy of every file: whatever sessions the processes run one after the other on files at
  rest - open, any reads inside the file and any non-empty writes, then the flush and the release of
  \<open>close\<close>; one that empties the file on \<open>open\<close> writes as many blocks again - each of them ends, every read answers the bytes that
  the specification with one shared copy per file holds at that moment, whichever process wrote
  them, every call is answered on its process only, and at the end every file is at rest on all
  processes with the specified bytes.
\<close>

theorem close_to_open:
  assumes mpi: "mpi_documented m" and rest: "\<forall>ino bytes. F ino = Some bytes \<longrightarrow> at_rest W ino bytes"
    and ok: "all_steps (session_ok (length W)) a_session ss (F, \<lambda>r. replies (peer_fs (W ! r)))"
  shows "\<exists>W'. foldE (run_file_session m) ss W = Inr W' \<and> length W' = length W \<and>
    (let (F', log) = fold a_session ss (F, \<lambda>r. replies (peer_fs (W ! r)))
     in (\<forall>ino bytes. F' ino = Some bytes \<longrightarrow> at_rest W' ino bytes) \<and>
        (\<forall>r<length W. replies (peer_fs (W' ! r)) = log r))"
proof -
  let ?A = "(F, \<lambda>r. replies (peer_fs (W ! r)))"
  have R: "store_in (length W) W ?A" using rest by (simp add: store_in_def)
  have steps: "all_steps (\<lambda>x A. session_ok (length W) x A \<and> mpi_documented m) a_session ss ?A"
    using ok mpi by simp
  obtain W' where W': "foldE (run_file_session m) ss W = Inr W'"
    using sessions.run_ends [OF R steps] by (auto simp: list_all_iff)
  then have "store_in (length W) W' (fold a_session ss ?A)"
    using sessions.run_simulated [OF R steps] by blast
  with W' show ?thesis by (auto simp: store_in_def Let_def split: prod.splits)
qed

lemma demo_world_at_rest: "at_rest demo_world 3 []"
proof -
  have peer: "n_inodes (peer_fs (demo_world ! r)) = 4" "inode_at (peer_fs (demo_world ! r)) 3 = demo_file"
    "block_list (BlocksManager (peer_fs (demo_world ! r))) 3 = []" if "r < 2" for r
  proof -
    have tree: "block_list (BlocksManager demo_tree) 3 = []" by (simp add: demo_tree_def block_list_def map_find_def)
    have "n_inodes (s\<lparr>mpiRank := 1\<rparr>) = n_inodes s" "inode_at (s\<lparr>mpiRank := 1\<rparr>) 3 = inode_at s 3" for s
      by (simp_all add: n_inodes_def inode_at_def)
    then show "n_inodes (peer_fs (demo_world ! r)) = 4" "inode_at (peer_fs (demo_world ! r)) 3 = demo_file"
      "block_list (BlocksManager (peer_fs (demo_world ! r))) 3 = []"
      using that tree by (cases r; simp add: demo_world_def)+
  qed
  have "st_size (attr demo_file) = 0" "st_blocks (attr demo_file) = 0"
    by (simp_all add: demo_file_def registered_inode_def InitializeINode_def createEmptyINode_def
        new_INode_def attr_def Lookup_def zero_stat_def zero_entry_param_def)
  then show ?thesis
    by (auto simp: at_rest_def known_everywhere_def small_def stored_def node_holds_def in_set_conv_nth peer)
qed

theorem close_to_open_witness:
  "\<exists>W'. foldE (run_file_session plain_mpi)
      [(1, demo_env, 3, 0, [Put [Byte 1, Byte 2] 0, Get 4 1]), (0, demo_env, 3, 0, [Get 9 1, Put [Byte 9] 4]),
       (1, demo_env, 3, O_WRONLY, [Put [Byte 6] 0]), (0, demo_env, 3, 0, [Get 9 0])] demo_world = Inr W' \<and>
    at_rest W' 3 [Byte 6] \<and>
    replies (peer_fs (W' ! 0)) =
      [Reply_open, Reply_buf [Byte 2], Reply_write 1, Reply_err ESUCCESS, Reply_err ESUCCESS,
       Reply_open, Reply_buf [Byte 6], Reply_err ESUCCESS, Reply_err ESUCCESS]"
proof -
  let ?ss = "[(1, demo_env, 3, 0, [Put [Byte 1, Byte 2] 0, Get 4 1]), (0, demo_env, 3, 0, [Get 9 1, Put [Byte 9] 4]),
       (1, demo_env, 3, O_WRONLY, [Put [Byte 6] 0]), (0, demo_env, 3, 0, [Get 9 0])] :: file_session list"
  let ?F = "[3 \<mapsto> []] :: fuse_ino_t \<rightharpoonup> cell list"
  have rest: "\<forall>ino bytes. ?F ino = Some bytes \<longrightarrow> at_rest demo_world ino bytes"
    using demo_world_at_rest by simp
  have flags: "\<not> truncating 0" "truncating O_WRONLY" by (simp_all add: truncating_def has_flag_def)
  have two: "replicate 2 Indet = [Indet, Indet]" by (simp add: numeral_2_eq_2)
  have refill: "refilled [Put [Byte 6] 0] [Byte 1, Byte 2, Indet, Indet, Byte 9]"
    by (simp add: refilled_def patch_def blocks_for_def FILE_SYSTEM_SINGLE_BLOCK_SIZE_def)
  have ok: "all_steps (session_ok (length demo_world)) a_session ?ss (?F, \<lambda>r. replies (peer_fs (demo_world ! r)))"
    using refill by (simp add: session_ok_def a_session_def small_def patch_def demo_env_def flags two)
  let ?A = "fold a_session ?ss (?F, \<lambda>r. replies (peer_fs (demo_world ! r)))"
  have spec: "fst ?A 3 = Some [Byte 6]"
    "snd ?A 0 = [Reply_open, Reply_buf [Byte 2], Reply_write 1, Reply_err ESUCCESS, Reply_err ESUCCESS,
       Reply_open, Reply_buf [Byte 6], Reply_err ESUCCESS, Reply_err ESUCCESS]"
    by (simp_all add: a_session_def patch_def demo_world_def two flags)
  obtain W' where W': "foldE (run_file_session plain_mpi) ?ss demo_world = Inr W'"
    "\<forall>ino bytes. fst ?A ino = Some bytes \<longrightarrow> at_rest W' ino bytes"
    "\<forall>r<length demo_world. replies (peer_fs (W' ! r)) = snd ?A r"
    using close_to_open [OF plain_mpi_documented rest ok] unfolding Let_def split_beta by blast
  have "at_rest W' 3 [Byte 6]" using W'(2) spec(1) by blast
  moreover have "replies (peer_fs (W' ! 0)) = snd ?A 0" using W'(3) by simp
  ultimately show ?thesis using W'(1) unfolding spec(2) by blast
qed

end
