(* ===== verification/FileLimits.thy ===== *)
theory FileLimits
  imports SharedFiles
begin

text \<open>
  Where the processes stop being one store: sessions on one file that overlap, on two processes or on
  one, and files that shrink (\<^verbatim>\<open>ramfs/FileSystem.cpp\<close>, \<^verbatim>\<open>mpi/DistributedCode.cpp\<close>).
\<close>

section \<open>Overlapping sessions on two processes, and files that shrink\<close>

text \<open>What a flush leaves behind at another process that keeps the file open or closed.\<close>

lemma flush_seen_elsewhere:
  assumes mpi: "mpi_documented m" and a: "a < length W" and q: "q < length W" "q \<noteq> a" and known: "known_everywhere ino W"
    and nd: "open_node bytes True (inode_at (peer_fs (W ! a)) ino)" "small bytes" "bytes \<noteq> []"
  shows "\<exists>W'. FuseFlush m a ino W = Inr W' \<and> length W' = length W \<and> known_everywhere ino W' \<and>
    file_stored W' ino (file_blocks (of_nat (length bytes)) (pad bytes)) \<and>
    node_class (inode_at (peer_fs (W' ! q)) ino) = node_class (inode_at (peer_fs (W ! q)) ino) \<and>
    st_size (attr (inode_at (peer_fs (W' ! q)) ino)) = of_nat (length bytes) \<and>
    st_blocks (attr (inode_at (peer_fs (W' ! q)) ino)) =
      of_nat (max (length (block_list (BlocksManager (peer_fs (W ! q))) ino)) (blocks_for (length bytes)))"
proof -
  let ?n = "of_nat (length bytes) :: u64"
  have nb: "numberOfBlocks ?n = blocks_for (length bytes)"
    using nd(2) by (simp add: numberOfBlocks_blocks_for small_def unat_of_nat)
  have fits: "dist_fits (?n, pad bytes)"
    using nd(2) blocks_for_covers(2) [of "length bytes"]
    by (simp add: dist_fits_def nb small_def FILE_SYSTEM_SINGLE_BLOCK_SIZE_def mult.commute)
  have isfile: "node_class (inode_at (peer_fs (W ! a)) ino) = File \<lparr>m_buf = Some (pad bytes), isWaitingForDistributedWrite = True\<rparr>"
    and size: "st_size (attr (inode_at (peer_fs (W ! a)) ino)) = ?n"
    using nd(1,3) by (simp_all add: node_holds_def)
  have "FuseFlush m a ino W = Inr (flushed a ino ?n (pad bytes) W)"
    by (rule FuseFlush_eq [OF mpi a known isfile _ _ size fits]) simp_all
  then show ?thesis
    using flushed_facts(1,2,3) [OF a known fits size] flushed_facts(4,5) [OF a known fits size q(1)] q(2)
      flushed_blocks(4) [where fileSize = ?n and b = "pad bytes", OF a q(1) known q(2)] nb by simp
qed

text \<open>A file of two blocks in a system of two processes.\<close>

lemma demo_two_blocks: "\<exists>W. length W = 2 \<and> at_rest W 3 (replicate 600 (Byte 7))"
proof -
  let ?x = "(0, demo_env, 3, 0, [Put (replicate 600 (Byte 7)) 0]) :: file_session"
  let ?A = "([3 \<mapsto> []], \<lambda>r. replies (peer_fs (demo_world ! r))) :: file_store"
  have ok: "session_ok 2 ?x ?A" "store_in 2 demo_world ?A"
    using demo_world_at_rest by (simp_all add: session_ok_def store_in_def small_def demo_env_def truncating_def has_flag_def)
  obtain W where W: "store_in 2 W (a_session ?x ?A)"
    using file_session_step [OF plain_mpi_documented ok(2) ok(1)] by blast
  have "patch 0 (replicate 600 (Byte 7)) [] = replicate 600 (Byte 7)" by (simp add: patch_def)
  with W have "length W = 2 \<and> at_rest W 3 (replicate 600 (Byte 7))"
    by (simp only: a_session_def store_in_def split_beta) (simp add: fun_upd_def split: if_splits)
  then show ?thesis by blast
qed

text \<open>
  C24. Sessions that overlap are not safe: the flush on \<open>a\<close> raises the size at every process, also
  at one that has the file open with the buffer of the old contents, and the next \<open>read\<close> there,
  inside the new size but beyond the old buffer, reads past the end of the buffer.
\<close>

theorem stale_reader_overruns:
  assumes mpi: "mpi_documented m" and a: "a < length W" and q: "q < length W" "q \<noteq> a"
    and writer: "in_session W a ino old bytes True" and old: "old \<noteq> []"
    and flags: "\<not> has_flag flags (O_WRONLY OR O_TRUNC)" and alloc: "alloc_ok ev"
    and off: "unat off < length bytes" and sz: "0 < unat sz" "unat sz < 2 ^ 62"
    and beyond: "capacity (length old) < min (unat off + unat sz) (length bytes)"
  shows "\<exists>W1 W2. FuseOpen m ev q ino flags W = Inr W1 \<and> FuseFlush m a ino W1 = Inr W2 \<and>
    at_peer q (FuseRead ev ino sz off) W2 = Inl BadAccess"
proof -
  have w: "known_everywhere ino W" "small old" "small bytes" "stored W ino old"
    "closed_node old (inode_at (peer_fs (W ! q)) ino)" "open_node bytes True (inode_at (peer_fs (W ! a)) ino)"
    using writer q by (auto simp: in_session_def)
  obtain V where V: "FuseOpen m ev q ino flags W =
      Inr (mod_fs q (\<lambda>s. reply Reply_open (set_buf ino (Some (pad old)) s)) V)" (is "_ = Inr ?W1")
    "length V = length W" "\<And>k. inode_at (peer_fs (V ! k)) = inode_at (peer_fs (W ! k))"
    "\<And>k. n_inodes (peer_fs (V ! k)) = n_inodes (peer_fs (W ! k))"
    "\<And>k j. block_list (BlocksManager (peer_fs (V ! k))) j = block_list (BlocksManager (peer_fs (W ! k))) j"
    using FuseOpen_world [OF mpi q(1) alloc flags w(1) _ w(2), of "\<lparr>m_buf = None, isWaitingForDistributedWrite = False\<rparr>"]
      w(4,5) old unfolding stored_def node_holds_def by auto
  have q1: "q < length V" and a1: "a < length V" using q a V(2) by simp_all
  have known: "known_everywhere ino ?W1"
    using w(1) q1 V(2,4,5) by (simp add: known_everywhere_iff peer_fs_mod_fs set_buf_def)
  have inoq: "unat ino < n_inodes (peer_fs (W ! q))" using known_everywhereD(2) [OF w(1) q(1)] .
  have reader: "node_class (inode_at (peer_fs (?W1 ! q)) ino) = File \<lparr>m_buf = Some (pad old), isWaitingForDistributedWrite = False\<rparr>"
    using w(5) inoq q1 V(3,4) by (simp add: peer_fs_mod_fs set_buf_def inode_at_modINode node_holds_def)
  have still: "open_node bytes True (inode_at (peer_fs (?W1 ! a)) ino)"
    using w(6) q q1 V(3) by (simp add: peer_fs_mod_fs)
  have ne: "bytes \<noteq> []" using writer by (simp add: in_session_def)
  obtain W2 where W2: "FuseFlush m a ino ?W1 = Inr W2" "length W2 = length ?W1" "known_everywhere ino W2"
    "node_class (inode_at (peer_fs (W2 ! q)) ino) = File \<lparr>m_buf = Some (pad old), isWaitingForDistributedWrite = False\<rparr>"
    "st_size (attr (inode_at (peer_fs (W2 ! q)) ino)) = of_nat (length bytes)"
    using flush_seen_elsewhere [OF mpi _ _ q(2) known still w(3) ne] q1 a1 reader by auto
  have q2: "q < length W2" using W2(2) q1 by simp
  note fs = known_everywhereD [OF W2(3) q2]
  let ?size = "of_nat (length bytes) :: u64"
  let ?k = "if off + sz > ?size then ?size - off else sz"
  have size: "unat ?size = length bytes" using w(3) by (simp add: small_def unat_of_nat)
  have small: "length bytes < 2 ^ 31" using w(3) by (simp add: small_def)
  have sum: "unat (off + sz) = unat off + unat sz"
    using off sz small by (simp add: unat_word_ariths(1))
  have k: "unat ?k = min (unat sz) (length bytes - unat off)"
    using off by (auto simp: word_less_nat_alt sum size unat_sub word_le_nat_alt)
  have over: "capacity (length old) < unat off + unat ?k"
    unfolding k using beyond off by auto
  have "sint ?size = int (length bytes)" "sint off = int (unat off)"
    using off small by (intro sint_of_nat_small sint_small; simp)+
  then have signed: "\<not> sint ?size < sint off" using off by (simp only: not_less of_nat_le_iff less_imp_le)
  have "read_from (Some (pad old)) (unat off) (unat ?k) = Inl BadAccess"
    using over off sz(1) unfolding read_from_def k by auto
  then have "FuseRead ev ino sz off (peer_fs (W2 ! q)) = Inl BadAccess"
    using fs W2(4,5) signed by (simp add: FuseRead_unfold no_such_ino_iff getINode_total Let_def)
  then show ?thesis using V(1) W2(1) by (simp add: at_peer_def)
qed

theorem stale_reader_overruns_witness:
  "\<exists>W W1 W2. FuseOpen plain_mpi demo_env 1 3 0 W = Inr W1 \<and> FuseFlush plain_mpi 0 3 W1 = Inr W2 \<and>
     at_peer 1 (FuseRead demo_env 3 4096 0) W2 = Inl BadAccess"
proof -
  obtain W0 where W0: "length W0 = 2" "at_rest W0 3 (replicate 600 (Byte 7))" using demo_two_blocks by blast
  have alloc: "alloc_ok demo_env" by (simp add: demo_env_def)
  obtain V where V: "in_session V 0 3 (replicate 600 (Byte 7)) (replicate 600 (Byte 7)) False" "leaves_others 3 W0 V"
    using session_opens [OF plain_mpi_documented _ alloc _ W0(2), of 0 0] W0(1) by (auto simp: has_flag_def)
  have lenV: "length V = 2" using V(2) W0(1) by (simp add: leaves_others_def)
  let ?data = "replicate 1000 (Byte 9) :: cell list" and ?bytes = "patch 600 (replicate 1000 (Byte 9)) (replicate 600 (Byte 7))"
  have len: "length ?bytes = 1600" by simp
  obtain W where W: "in_session W 0 3 (replicate 600 (Byte 7)) ?bytes True" "leaves_others 3 V W"
    using session_writes [OF V(1), of ?data 600 demo_env] lenV alloc len by (auto simp: small_def simp del: length_patch)
  have lenW: "length W = 2" using W(2) lenV by (simp add: leaves_others_def)
  have "capacity 600 = 1024" by (simp add: blocks_for_def FILE_SYSTEM_SINGLE_BLOCK_SIZE_def)
  then show ?thesis
    using stale_reader_overruns [OF plain_mpi_documented _ _ _ W(1) _ _ alloc, of 1 0 0 4096] lenW len
    by (auto simp: has_flag_def simp del: length_patch)
qed

lemma stored_blocks:
  assumes st: "stored W ino bytes" and small: "small bytes" and r: "r < length W"
  shows "length (block_list (BlocksManager (peer_fs (W ! r))) ino) = blocks_for (length bytes)"
proof (cases "bytes = []")
  case True
  then show ?thesis using st r by (simp add: stored_def)
next
  case False
  let ?n = "of_nat (length bytes) :: u64"
  have "length (file_blocks ?n (pad bytes)) = blocks_for (length bytes)"
    using small by (simp add: numberOfBlocks_blocks_for small_def unat_of_nat)
  then have "length (take (blocks_for (length bytes)) (block_addresses (W ! r) ino)) = blocks_for (length bytes)"
    using st False r unfolding stored_def file_stored_def by metis
  then show ?thesis using st r by (fastforce simp: stored_def block_addresses_def)
qed

lemma FuseWrite_outside:
  assumes "n_inodes s < 2 ^ 31" and "unat ino < n_inodes s" and isfile: "node_class (inode_at s ino) = File f" "m_buf f = Some b"
    and blocks: "st_blocks (attr (inode_at s ino)) = of_nat k" "FILE_SYSTEM_SINGLE_BLOCK_SIZE * k < 2 ^ 63"
    and data: "data \<noteq> []" "length b < unat off + length data" "unat off + length data \<le> FILE_SYSTEM_SINGLE_BLOCK_SIZE * k"
  shows "FuseWrite ev ino (Some data) off s = Inl BadAccess"
proof -
  let ?e = FILE_SYSTEM_SINGLE_BLOCK_SIZE
  have "unat (of_nat k :: u64) = k"
    using blocks(2) by (simp add: unat_of_nat FILE_SYSTEM_SINGLE_BLOCK_SIZE_def)
  then have cap: "unat (INodeBufBlockSize * of_nat k) = ?e * k"
    using blocks(2) by (simp add: unat_word_ariths(2) INodeBufBlockSize_nat)
  have new: "unat (off + of_nat (length data)) = unat off + length data"
    using data(3) blocks(2) by (simp add: unat_sum)
  have fits: "\<not> INodeBufBlockSize * of_nat k < off + of_nat (length data)"
    using data(3) by (simp add: word_less_nat_alt cap new)
  have "memcpy_to (Some b) (unat off) data = Inl BadAccess"
    using data by (simp add: memcpy_to_def)
  then show ?thesis
    using assms(1,2) isfile blocks(1) fits by (simp add: FuseWrite_def no_such_ino_iff getINode_total Let_def)
qed

text \<open>
  C25. A file that shrinks: after one process opens it for writing only, writes fewer blocks than it
  had and flushes, every other process still counts the blocks of the old contents; its next
  \<open>open\<close> allocates a buffer for the new size, and a \<open>write\<close> beyond that buffer but within the counted
  blocks does not grow it and lands outside.
\<close>

theorem shrunk_file_write_overflows:
  assumes mpi: "mpi_documented m" and a: "a < length W" and q: "q < length W" "q \<noteq> a"
    and rest: "at_rest W ino old" and alloc: "alloc_ok ev" and data: "data \<noteq> []" "data' \<noteq> []"
    and beyond: "capacity (length data) < unat off + length data'" and within: "unat off + length data' \<le> capacity (length old)"
  shows "\<exists>W1 W2 W3 W4. FuseOpen m ev a ino O_WRONLY W = Inr W1 \<and> at_peer a (FuseWrite ev ino (Some data) 0) W1 = Inr W2 \<and>
    FuseFlush m a ino W2 = Inr W3 \<and> FuseOpen m ev q ino 0 W3 = Inr W4 \<and>
    at_peer q (FuseWrite ev ino (Some data') off) W4 = Inl BadAccess"
proof -
  have w: "known_everywhere ino W" "small old" "stored W ino old" using rest by (simp_all add: at_rest_def)
  have "capacity (length data) < capacity (length old)" using beyond within by linarith
  then have fewer: "blocks_for (length data) < blocks_for (length old)" by simp
  then have "blocks_for (length data) \<le> length old div FILE_SYSTEM_SINGLE_BLOCK_SIZE"
    by (simp add: blocks_for_def split: if_splits)
  then have "FILE_SYSTEM_SINGLE_BLOCK_SIZE * blocks_for (length data) \<le> length old"
    using div_times_less_eq_dividend [of "length old" FILE_SYSTEM_SINGLE_BLOCK_SIZE]
    by (metis mult.commute mult_le_mono1 order_trans)
  then have small: "small data" using blocks_for_covers(1) [of "length data"] w(2) by (simp add: small_def)
  obtain W1 where W1: "FuseOpen m ev a ino O_WRONLY W = Inr W1" "in_session W1 a ino old [] False" "leaves_others ino W W1"
    using session_truncates [OF a _ rest, of O_WRONLY m ev] by (auto simp: has_flag_def)
  have len1: "length W1 = length W" using W1(3) by (simp add: leaves_others_def)
  have a1: "a < length W1" using a len1 by simp
  obtain W2 where W2: "at_peer a (FuseWrite ev ino (Some data) 0) W1 = Inr W2" "in_session W2 a ino old data True"
    "leaves_others ino W1 W2"
    using session_writes [OF W1(2) a1 data(1), of 0 ev] small alloc by (auto simp: patch_def)
  have len2: "length W2 = length W" using W2(3) len1 by (simp add: leaves_others_def)
  have a2: "a < length W2" and q2: "q < length W2" using a q len2 by simp_all
  have s2: "known_everywhere ino W2" "closed_node old (inode_at (peer_fs (W2 ! q)) ino)"
    "open_node data True (inode_at (peer_fs (W2 ! a)) ino)"
    using W2(2) q q2 by (auto simp: in_session_def)
  obtain W3 where W3: "FuseFlush m a ino W2 = Inr W3" "length W3 = length W2" "known_everywhere ino W3"
    "file_stored W3 ino (file_blocks (of_nat (length data)) (pad data))"
    "node_class (inode_at (peer_fs (W3 ! q)) ino) = File \<lparr>m_buf = None, isWaitingForDistributedWrite = False\<rparr>"
    "st_size (attr (inode_at (peer_fs (W3 ! q)) ino)) = of_nat (length data)"
    "st_blocks (attr (inode_at (peer_fs (W3 ! q)) ino)) =
      of_nat (max (length (block_list (BlocksManager (peer_fs (W2 ! q))) ino)) (blocks_for (length data)))"
    using flush_seen_elsewhere [OF mpi a2 q2 q(2) s2(1,3) small data(1)] s2(2) by (auto simp: node_holds_def)
  have fewer2: "max (length (block_list (BlocksManager (peer_fs (W2 ! q))) ino)) (blocks_for (length data)) = blocks_for (length old)"
    using stored_blocks [of W2 ino old, OF _ w(2) q2] W2(2) fewer by (simp add: in_session_def)
  have q3: "q < length W3" using q2 W3(2) by simp
  obtain V where V: "FuseOpen m ev q ino 0 W3 =
      Inr (mod_fs q (\<lambda>s. reply Reply_open (set_buf ino (Some (pad data)) s)) V)" (is "_ = Inr ?W4")
    "length V = length W3" "inode_at (peer_fs (V ! q)) = inode_at (peer_fs (W3 ! q))"
    "n_inodes (peer_fs (V ! q)) = n_inodes (peer_fs (W3 ! q))"
    using FuseOpen_world [OF mpi q3 alloc _ W3(3) _ small W3(5,6), of 0] W3(4) data(1) by (auto simp: has_flag_def)
  note fs = known_everywhereD [OF W3(3) q3]
  let ?s4 = "peer_fs (?W4 ! q)"
  have node: "node_class (inode_at ?s4 ino) = File \<lparr>m_buf = Some (pad data), isWaitingForDistributedWrite = False\<rparr>"
    "st_blocks (attr (inode_at ?s4 ino)) = of_nat (blocks_for (length old))" "n_inodes ?s4 = n_inodes (peer_fs (W3 ! q))"
    using V(2,3,4) q3 fs(2) W3(5,7) fewer2 by (simp_all add: peer_fs_mod_fs set_buf_def inode_at_modINode)
  have short: "length (pad data) < unat off + length data'" using beyond by simp
  have "FuseWrite ev ino (Some data') off ?s4 = Inl BadAccess"
    by (rule FuseWrite_outside [OF _ _ node(1) _ node(2) _ data(2) short within])
      (use node(3) fs blocks_for_covers(2) [of "length old"] w(2) in
        \<open>simp_all add: small_def FILE_SYSTEM_SINGLE_BLOCK_SIZE_def\<close>)
  then show ?thesis using W1(1) W2(1) W3(1) V(1) by (auto simp: at_peer_def)
qed

theorem shrunk_file_write_overflows_witness:
  "\<exists>W W1 W2 W3 W4. FuseOpen plain_mpi demo_env 0 3 O_WRONLY W = Inr W1 \<and>
     at_peer 0 (FuseWrite demo_env 3 (Some [Byte 1]) 0) W1 = Inr W2 \<and> FuseFlush plain_mpi 0 3 W2 = Inr W3 \<and>
     FuseOpen plain_mpi demo_env 1 3 0 W3 = Inr W4 \<and> at_peer 1 (FuseWrite demo_env 3 (Some [Byte 2]) 600) W4 = Inl BadAccess"
proof -
  obtain W where W: "length W = 2" "at_rest W 3 (replicate 600 (Byte 7))" using demo_two_blocks by blast
  have "capacity 600 = 1024" "capacity 1 = 512"
    by (simp_all add: blocks_for_def FILE_SYSTEM_SINGLE_BLOCK_SIZE_def)
  then show ?thesis
    using shrunk_file_write_overflows [OF plain_mpi_documented _ _ _ W(2), of 0 1 demo_env "[Byte 1]" "[Byte 2]" 600] W(1)
    by (fastforce simp: demo_env_def)
qed

section \<open>Overlapping sessions on one process\<close>

text \<open>More blocks than are stored cannot be fetched.\<close>

lemma FuseOpen_too_large:
  assumes r: "r < length W" and known: "known_everywhere ino W" and flags: "\<not> has_flag flags (O_WRONLY OR O_TRUNC)" and alloc: "alloc_ok ev"
    and node: "node_class (inode_at (peer_fs (W ! r)) ino) = File f" "st_size (attr (inode_at (peer_fs (W ! r)) ino)) = fileSize"
    and few: "length (block_list (BlocksManager (peer_fs (W ! r))) ino) < numberOfBlocks fileSize"
  shows "FuseOpen m ev r ino flags W = Inl OutOfRange"
proof -
  note s = known_everywhereD [OF known r]
  obtain bm where bm: "getDataBlockListOfInode (BlocksManager (peer_fs (W ! r))) ino = (bm, block_list (BlocksManager (peer_fs (W ! r))) ino)"
    using getDataBlockListOfInode_block_list by (cases "getDataBlockListOfInode (BlocksManager (peer_fs (W ! r))) ino") blast
  have "fileSize \<noteq> 0" using few by (auto simp: numberOfBlocks_def)
  then show ?thesis
    using s node flags alloc few bm r
    by (simp add: FuseOpen_def no_such_ino_iff getINode_total Let_def as_File_def as_Directory_def DAGonFS_Read_def
        addresses_to_scatter_def peer_fs_mod_fs)
qed

text \<open>
  C23. A second \<open>open\<close> of a file on the process that has it open with unsaved writes: it fetches the
  stored contents again, under the size the writes have given the file, into the one buffer that all
  descriptors share. If the file still has as many blocks as are stored, every unsaved byte is gone,
  the buffer still counts as unsaved, and the next flush publishes the old contents, filled up with
  indeterminate bytes, to all processes; if the file has grown by a block, the lookup of the blocks
  runs past the end of the block list.
\<close>

theorem reopen_discards_writes:
  assumes mpi: "mpi_documented m" and r: "r < length W" and s: "in_session W r ino old bytes True"
    and flags: "\<not> has_flag flags (O_WRONLY OR O_TRUNC)" and alloc: "alloc_ok ev" and longer: "length old \<le> length bytes"
  shows "if blocks_for (length bytes) = blocks_for (length old)
     then \<exists>W1 W2. FuseOpen m ev r ino flags W = Inr W1 \<and> FuseFlush m r ino W1 = Inr W2 \<and>
       at_rest W2 ino (old @ replicate (length bytes - length old) Indet)
     else FuseOpen m ev r ino flags W = Inl OutOfRange"
proof -
  have w: "known_everywhere ino W" "small old" "small bytes" "stored W ino old" "open_node bytes True (inode_at (peer_fs (W ! r)) ino)"
    and others: "\<And>q. q < length W \<Longrightarrow> q \<noteq> r \<Longrightarrow> closed_node old (inode_at (peer_fs (W ! q)) ino)" and ne: "bytes \<noteq> []"
    using s by (auto simp: in_session_def)
  have nb: "numberOfBlocks (of_nat (length xs)) = blocks_for (length xs)" if "small xs" for xs :: "cell list"
    using that by (simp add: numberOfBlocks_blocks_for small_def unat_of_nat)
  show ?thesis
  proof (cases "blocks_for (length bytes) = blocks_for (length old)")
    case True
    let ?lost = "old @ replicate (length bytes - length old) Indet"
    have len: "length ?lost = length bytes" using longer by simp
    have small: "small ?lost" using w(3) len by (simp add: small_def)
    have pads: "pad ?lost = pad old"
      using True longer blocks_for_covers(1) [of "length bytes"]
      by (simp add: pad_def replicate_add [symmetric] del: append_assoc) (simp add: replicate_add [symmetric])
    have "old \<noteq> []" using True ne blocks_for_covers(1) [of "length bytes"] by auto
    then have stored: "file_stored W ino (file_blocks (of_nat (length ?lost)) (pad ?lost))"
      using w(4) nb [OF w(3)] nb [OF w(2)] True unfolding stored_def len pads by (simp add: file_blocks_def)
    have node: "node_holds ?lost (Some (pad bytes)) True (inode_at (peer_fs (W ! r)) ino)"
      using w(5) ne len by (simp add: node_holds_def)
    obtain W1 where W1: "FuseOpen m ev r ino flags W = Inr W1" "in_session W1 r ino old ?lost True" "leaves_others ino W W1"
      using opens_with [OF mpi r alloc flags w(1,2) small w(4) _ others node] stored ne len by auto
    have r1: "r < length W1" using W1(3) r by (simp add: leaves_others_def)
    obtain W2 where "FuseFlush m r ino W1 = Inr W2" "at_rest W2 ino ?lost"
      using session_flushes [OF mpi W1(2) r1] True len by auto
    then show ?thesis using W1(1) True by auto
  next
    case False
    then have "blocks_for (length old) < blocks_for (length bytes)"
      using blocks_for_mono [OF longer] by simp
    then have "length (block_list (BlocksManager (peer_fs (W ! r))) ino) < numberOfBlocks (of_nat (length bytes))"
      using w(4) r nb [OF w(3)] by (fastforce simp: stored_def)
    then have "FuseOpen m ev r ino flags W = Inl OutOfRange"
      using w(5) by (intro FuseOpen_too_large [OF r w(1) flags alloc]) (auto simp: node_holds_def)
    then show ?thesis using False by simp
  qed
qed

theorem reopen_discards_writes_witness:
  "\<exists>W1 W2 W3. FuseOpen plain_mpi demo_env 0 3 0 demo_world = Inr W1 \<and>
     at_peer 0 (FuseWrite demo_env 3 (Some [Byte 1]) 0) W1 = Inr W2 \<and> FuseOpen plain_mpi demo_env 0 3 0 W2 = Inl OutOfRange"
proof -
  have alloc: "alloc_ok demo_env" and flags: "\<not> has_flag 0 (O_WRONLY OR O_TRUNC)"
    by (simp_all add: demo_env_def has_flag_def)
  obtain W1 where W1: "FuseOpen plain_mpi demo_env 0 3 0 demo_world = Inr W1" "in_session W1 0 3 [] [] False"
    "leaves_others 3 demo_world W1"
    using session_opens [OF plain_mpi_documented _ alloc flags demo_world_at_rest, of 0] by auto
  have len1: "length W1 = 2" using W1(3) by (simp add: leaves_others_def)
  obtain W2 where W2: "at_peer 0 (FuseWrite demo_env 3 (Some [Byte 1]) 0) W1 = Inr W2" "in_session W2 0 3 [] [Byte 1] True"
    "leaves_others 3 W1 W2"
    using session_writes [OF W1(2), of "[Byte 1]" 0 demo_env] len1 alloc by (auto simp: small_def patch_def)
  have len2: "0 < length W2" using W2(3) len1 by (simp add: leaves_others_def)
  have "blocks_for 1 \<noteq> 0" by (simp add: blocks_for_def FILE_SYSTEM_SINGLE_BLOCK_SIZE_def)
  then show ?thesis
    using reopen_discards_writes [OF plain_mpi_documented len2 W2(2) flags alloc] W1(1) W2(1) by auto
qed

end
