(* ===== verification/InterleavedFiles.thy ===== *)
theory InterleavedFiles
  imports SharedFiles WorldMachine
begin

text \<open>
  The contents of the files request by request: the kernels of all processes open, read, write and flush
  different files in any order, while the sessions of one file follow one another
  (\<^verbatim>\<open>ramfs/FileSystem.cpp\<close>, \<^verbatim>\<open>mpi/DistributedCode.cpp\<close>).
\<close>

section \<open>The specification\<close>

text \<open>
  A file is at rest with its bytes, or a process holds it: then the others have the bytes that are stored,
  the process those of its buffer.
\<close>

datatype p_file = Resting "cell list" | Held nat "cell list" "cell list" bool   \<comment> \<open>process, stored, buffer, written to\<close>

fun p_bytes :: "p_file \<Rightarrow> cell list" where
  "p_bytes (Resting bytes) = bytes"
| "p_bytes (Held r old bytes d) = bytes"

fun p_stored :: "p_file \<Rightarrow> cell list" where
  "p_stored (Resting bytes) = bytes"
| "p_stored (Held r old bytes d) = old"

fun p_event :: "event \<Rightarrow> p_file \<Rightarrow> p_file \<times> reply" where
  "p_event (Open r ev ino flags) f = (Held r (p_bytes f) (if truncating flags then [] else p_bytes f) False, Reply_open)"
| "p_event (Request r ev (call_read ino sz off)) f = (f, Reply_buf (take (unat sz) (drop (unat off) (p_bytes f))))"
| "p_event (Request r ev (call_write ino (Some data) off)) f =
     (Held r (p_stored f) (patch (unat off) data (p_bytes f)) True, Reply_write (of_nat (length data)))"
| "p_event (Flush r ino) f = (Resting (p_bytes f), Reply_err ESUCCESS)"
| "p_event e f = (f, Reply_err ESUCCESS)"

text \<open>
  A file at rest can be opened by any process, which then reads, writes and flushes it; what was written
  must not need fewer blocks than what is stored, and a file that was emptied has to be written to.
\<close>

fun p_event_ok :: "event \<Rightarrow> p_file \<Rightarrow> bool" where
  "p_event_ok (Open r ev ino flags) f = ((\<exists>bytes. f = Resting bytes) \<and> alloc_ok ev)"
| "p_event_ok (Request r ev (call_read ino sz off)) f =
     (\<exists>old bytes d. f = Held r old bytes d \<and> unat off \<le> length bytes \<and> unat sz < 2 ^ 62)"
| "p_event_ok (Request r ev (call_write ino (Some data) off)) f =
     (\<exists>old bytes d. f = Held r old bytes d \<and> data \<noteq> [] \<and> small (patch (unat off) data bytes) \<and> alloc_ok ev)"
| "p_event_ok (Flush r ino) f =
     (\<exists>old bytes d. f = Held r old bytes d \<and> blocks_for (length old) \<le> blocks_for (length bytes) \<and> (d \<or> bytes = old))"
| "p_event_ok (Request r ev (call_release ino)) f = (\<exists>bytes. f = Resting bytes)"
| "p_event_ok e f = False"

fun event_file :: "event \<Rightarrow> fuse_ino_t" where
  "event_file (Open r ev ino flags) = ino"
| "event_file (Flush r ino) = ino"
| "event_file (Request r ev (call_read ino sz off)) = ino"
| "event_file (Request r ev (call_write ino buf off)) = ino"
| "event_file (Request r ev (call_release ino)) = ino"
| "event_file e = 0"

type_synonym p_files = "(fuse_ino_t \<rightharpoonup> p_file) \<times> (nat \<Rightarrow> reply list)"

definition p_step :: "event \<Rightarrow> p_files \<Rightarrow> p_files" where
  "p_step e = (\<lambda>(F, log). let (f, rp) = p_event e (the (F (event_file e)))
     in (F(event_file e \<mapsto> f), log(event_rank e := log (event_rank e) @ [rp])))"

definition p_step_ok :: "nat \<Rightarrow> event \<Rightarrow> p_files \<Rightarrow> bool" where
  "p_step_ok w e = (\<lambda>(F, log). event_rank e < w \<and>
     (case F (event_file e) of None \<Rightarrow> False | Some f \<Rightarrow> p_event_ok e f))"

section \<open>One request\<close>

fun file_at :: "world \<Rightarrow> fuse_ino_t \<Rightarrow> p_file \<Rightarrow> bool" where
  "file_at W ino (Resting bytes) = at_rest W ino bytes"
| "file_at W ino (Held r old bytes d) = (r < length W \<and> in_session W r ino old bytes d)"

lemma in_session_other:
  assumes "leaves_others ino W W'" and "in_session W r j old bytes d" and "j \<noteq> ino" and "r < length W"
  shows "in_session W' r j old bytes d"
proof -
  have "known_everywhere j W" using assms(2) by (simp add: in_session_def)
  then have in_range: "unat j < n_inodes (peer_fs (W ! q))" if "q < length W" for q
    using that by (rule known_everywhereD(2))
  show ?thesis
    using assms in_range by (auto simp: in_session_def leaves_others_def known_everywhere_iff stored_def)
qed

lemma file_at_other: "leaves_others ino W W' \<Longrightarrow> file_at W j f \<Longrightarrow> j \<noteq> ino \<Longrightarrow> file_at W' j f"
  by (cases f) (auto intro: at_rest_other in_session_other simp: leaves_others_def)

lemma event_followed:
  assumes mpi: "mpi_documented m" and f: "file_at W (event_file e) f" and r: "event_rank e < length W" and ok: "p_event_ok e f"
  shows "\<exists>W'. system_step m esz e W = Inr W' \<and> file_at W' (event_file e) (fst (p_event e f)) \<and>
    leaves_others (event_file e) W W' \<and> answered_by (event_rank e) [snd (p_event e f)] W W'"
proof (cases e)
  case (Open q ev ino flags)
  then obtain bytes where rest: "f = Resting bytes" "at_rest W ino bytes" "alloc_ok ev" "q < length W" using f ok r by auto
  have "\<exists>W'. FuseOpen m ev q ino flags W = Inr W' \<and> in_session W' q ino bytes (if truncating flags then [] else bytes) False \<and>
      leaves_others ino W W' \<and> answered_by q [Reply_open] W W'"
    using session_opens [OF mpi rest(4,3) _ rest(2), of flags] session_truncates [OF rest(4) _ rest(2), of flags m ev]
    by (simp add: truncating_def)
  then show ?thesis using rest by (auto simp: Open system_step_def leaves_others_def)
next
  case (Flush q ino)
  then obtain old bytes d where held: "f = Held q old bytes d" "q < length W" "in_session W q ino old bytes d"
    "blocks_for (length old) \<le> blocks_for (length bytes)" "\<not> d \<Longrightarrow> bytes = old" using f ok r by auto
  show ?thesis
    using session_flushes [OF mpi held(3,2,4,5)] held(1,2) by (auto simp: Flush system_step_def)
next
  case (Request q ev c)
  show ?thesis
  proof (cases c)
    case (call_read ino sz off)
    then obtain old bytes d where held: "f = Held q old bytes d" "q < length W" "in_session W q ino old bytes d"
      "unat off \<le> length bytes" "unat sz < 2 ^ 62" using f ok r Request by auto
    show ?thesis
      using session_reads [OF held(3,2,4,5), of ev] held(1,2) by (auto simp: Request call_read system_step_def leaves_others_def)
  next
    case (call_write ino buf off)
    then obtain data where buf: "buf = Some data" using ok Request by (cases buf) auto
    then obtain old bytes d where held: "f = Held q old bytes d" "q < length W" "in_session W q ino old bytes d"
      "data \<noteq> []" "small (patch (unat off) data bytes)" "alloc_ok ev" using f ok r Request call_write by auto
    show ?thesis
      using session_writes [OF held(3,2,4,5,6)] held(1,2)
      by (auto simp: Request call_write buf system_step_def leaves_others_def)
  next
    case (call_release ino)
    then obtain bytes where rest: "f = Resting bytes" "at_rest W ino bytes" "q < length W" using f ok r Request by auto
    show ?thesis
      using released [OF rest(2,3)] rest(1,3) by (auto simp: Request call_release system_step_def)
  qed (use ok Request in simp_all)
qed

section \<open>Runs\<close>

definition files_at :: "nat \<Rightarrow> world \<Rightarrow> p_files \<Rightarrow> bool" where
  "files_at w W = (\<lambda>(F, log). length W = w \<and> (\<forall>ino f. F ino = Some f \<longrightarrow> file_at W ino f) \<and>
     (\<forall>r<w. replies (peer_fs (W ! r)) = log r))"

lemma stepped:
  assumes mpi: "mpi_documented m" and R: "files_at w W A" and ok: "p_step_ok w e A"
  shows "\<exists>W'. system_step m esz e W = Inr W' \<and> files_at w W' (p_step e A)"
proof -
  obtain F log where A: "A = (F, log)" by (cases A)
  obtain f where f: "F (event_file e) = Some f" "p_event_ok e f" "event_rank e < length W" "file_at W (event_file e) f"
    using ok R by (auto simp: p_step_ok_def files_at_def A split: option.splits)
  obtain W' where W': "system_step m esz e W = Inr W'" "file_at W' (event_file e) (fst (p_event e f))"
    "leaves_others (event_file e) W W'" "answered_by (event_rank e) [snd (p_event e f)] W W'"
    using event_followed [OF mpi f(4,3,2)] by blast
  then have "files_at w W' (p_step e A)"
    using R file_at_other [OF W'(3)] f(1)
    by (auto simp: files_at_def A p_step_def Let_def split_beta leaves_others_def answered_by_def split: if_splits)
  then show ?thesis using W'(1) by blast
qed

interpretation interleaved: forward_simulation
  "system_step m esz" p_step "\<lambda>e A. p_step_ok w e A \<and> mpi_documented m" "\<lambda>_. True" "files_at w"
  for m esz w
proof unfold_locales
  fix W e W' A
  assume R: "files_at w W A" "p_step_ok w e A \<and> mpi_documented m"
  then have step: "\<exists>W'. system_step m esz e W = Inr W' \<and> files_at w W' (p_step e A)" using stepped by blast
  then show "\<exists>W'. system_step m esz e W = Inr W'" by blast
  assume "system_step m esz e W = Inr W'"
  with step show "files_at w W' (p_step e A)" by simp
qed

text \<open>
  C3. Interleaved requests: as long as the sessions of one file follow one another, those of different files,
  on one process or on several, may overlap in any way. Every open, read, write, flush and release
  ends, is answered once and on its process, reads with the bytes of the specification, in which a
  flushed file is one list of bytes for all processes; and at the end every file is as specified.
\<close>

theorem interleaved_files:
  assumes mpi: "mpi_documented m" and start: "\<forall>ino f. F ino = Some f \<longrightarrow> file_at W ino f"
    and ok: "all_steps (p_step_ok (length W)) p_step es (F, \<lambda>r. replies (peer_fs (W ! r)))"
  shows "\<exists>W'. foldE (system_step m esz) es W = Inr W' \<and> length W' = length W \<and>
    (let (F', log) = fold p_step es (F, \<lambda>r. replies (peer_fs (W ! r)))
     in (\<forall>ino f. F' ino = Some f \<longrightarrow> file_at W' ino f) \<and> (\<forall>r<length W. replies (peer_fs (W' ! r)) = log r))"
proof -
  let ?A = "(F, \<lambda>r. replies (peer_fs (W ! r)))"
  have R: "files_at (length W) W ?A" using start by (simp add: files_at_def)
  have steps: "all_steps (\<lambda>e A. p_step_ok (length W) e A \<and> mpi_documented m) p_step es ?A" using ok mpi by simp
  obtain W' where W': "foldE (system_step m esz) es W = Inr W'"
    using interleaved.run_ends [OF R steps] by (auto simp: list_all_iff)
  then have "files_at (length W) W' (fold p_step es ?A)" using interleaved.run_simulated [OF R steps] by blast
  with W' show ?thesis by (auto simp: files_at_def Let_def split: prod.splits)
qed

text \<open>Two processes and two files.\<close>

definition two_files :: fs_state where
  "two_files = demo_tree\<lparr>INodeManager := \<lparr>INodes = INodes (INodeManager demo_tree) @ [demo_file], DeletedINodes = []\<rparr>\<rparr>"

definition two_files_world :: world where
  "two_files_world = [\<lparr>peer_fs = two_files, peer_heap = []\<rparr>, \<lparr>peer_fs = two_files\<lparr>mpiRank := 1\<rparr>, peer_heap = []\<rparr>]"

lemma two_files_world_at_rest:
  assumes "ino = 3 \<or> ino = 4"
  shows "at_rest two_files_world ino []"
proof -
  have empty: "st_size (attr demo_file) = 0" "st_blocks (attr demo_file) = 0"
    by (simp_all add: demo_file_def registered_inode_def InitializeINode_def createEmptyINode_def
        new_INode_def attr_def Lookup_def zero_stat_def zero_entry_param_def)
  have s: "n_inodes two_files = 5" "inode_at two_files ino = demo_file" "block_list (BlocksManager two_files) ino = []"
    using assms by (auto simp: two_files_def demo_tree_def n_inodes_def inode_at_def block_list_def map_find_def)
  have rank: "n_inodes (s\<lparr>mpiRank := 1\<rparr>) = n_inodes s" "inode_at (s\<lparr>mpiRank := 1\<rparr>) ino = inode_at s ino" for s
    by (simp_all add: n_inodes_def inode_at_def)
  have peers: "peer_fs (two_files_world ! r) = (if r = 0 then two_files else two_files\<lparr>mpiRank := 1\<rparr>)" if "r < 2" for r
    using that by (cases r) (simp_all add: two_files_world_def)
  have len: "length two_files_world = 2" by (simp add: two_files_world_def)
  have "unat ino < 5" using assms by auto
  then show ?thesis
    using s peers empty len rank
    by (auto simp: at_rest_def known_everywhere_def world_ready_def small_def stored_def node_holds_def in_set_conv_nth)
qed

theorem interleaved_files_witness:
  "\<exists>W'. foldE (system_step plain_mpi length)
      [Open 1 demo_env 3 0, Open 0 demo_env 4 0, Request 1 demo_env (call_write 3 (Some [Byte 1, Byte 2]) 0),
       Request 0 demo_env (call_write 4 (Some [Byte 5]) 0), Flush 1 3, Open 1 demo_env 3 0, Flush 0 4,
       Request 1 demo_env (call_read 3 9 1), Open 0 demo_env 4 O_WRONLY, Request 0 demo_env (call_write 4 (Some [Byte 6]) 0),
       Flush 1 3, Flush 0 4, Open 1 demo_env 4 0, Request 1 demo_env (call_read 4 9 0)] two_files_world = Inr W' \<and>
    at_rest W' 3 [Byte 1, Byte 2] \<and>
    replies (peer_fs (W' ! 1)) = [Reply_open, Reply_write 2, Reply_err ESUCCESS, Reply_open, Reply_buf [Byte 2],
      Reply_err ESUCCESS, Reply_open, Reply_buf [Byte 6]]"
proof -
  let ?es = "[Open 1 demo_env 3 0, Open 0 demo_env 4 0, Request 1 demo_env (call_write 3 (Some [Byte 1, Byte 2]) 0),
       Request 0 demo_env (call_write 4 (Some [Byte 5]) 0), Flush 1 3, Open 1 demo_env 3 0, Flush 0 4,
       Request 1 demo_env (call_read 3 9 1), Open 0 demo_env 4 O_WRONLY, Request 0 demo_env (call_write 4 (Some [Byte 6]) 0),
       Flush 1 3, Flush 0 4, Open 1 demo_env 4 0, Request 1 demo_env (call_read 4 9 0)] :: event list"
  let ?F = "[3 \<mapsto> Resting [], 4 \<mapsto> Resting []] :: fuse_ino_t \<rightharpoonup> p_file"
  have start: "\<forall>ino f. ?F ino = Some f \<longrightarrow> file_at two_files_world ino f"
    using two_files_world_at_rest by (auto split: if_splits)
  have flags: "\<not> truncating 0" "truncating O_WRONLY" by (simp_all add: truncating_def has_flag_def)
  have alloc: "alloc_ok demo_env" by (simp add: demo_env_def)
  have ok: "all_steps (p_step_ok (length two_files_world)) p_step ?es (?F, \<lambda>r. replies (peer_fs (two_files_world ! r)))"
    by (simp add: p_step_ok_def p_step_def flags alloc patch_def small_def two_files_world_def blocks_for_def FILE_SYSTEM_SINGLE_BLOCK_SIZE_def) blast
  let ?A = "fold p_step ?es (?F, \<lambda>r. replies (peer_fs (two_files_world ! r)))"
  have none: "replies (peer_fs (two_files_world ! 1)) = []"
    by (simp add: two_files_world_def two_files_def demo_tree_def demo_fs_def)
  have spec: "fst ?A 3 = Some (Resting [Byte 1, Byte 2])"
    "snd ?A 1 = [Reply_open, Reply_write 2, Reply_err ESUCCESS, Reply_open, Reply_buf [Byte 2],
      Reply_err ESUCCESS, Reply_open, Reply_buf [Byte 6]]"
    using none by (simp_all add: p_step_def flags patch_def)
  obtain W' where W': "foldE (system_step plain_mpi length) ?es two_files_world = Inr W'"
    "\<forall>ino f. fst ?A ino = Some f \<longrightarrow> file_at W' ino f"
    "\<forall>r<length two_files_world. replies (peer_fs (W' ! r)) = snd ?A r"
    using interleaved_files [OF plain_mpi_documented start ok] unfolding Let_def split_beta by blast
  have "file_at W' 3 (Resting [Byte 1, Byte 2])" using W'(2) spec(1) by blast
  moreover have "replies (peer_fs (W' ! 1)) = snd ?A 1" using W'(3) by (simp add: two_files_world_def)
  ultimately show ?thesis using W'(1) unfolding spec(2) by auto
qed

end
