(* ===== verification/Collectives.thy ===== *)
theory Collectives
  imports Receiver
begin

text \<open>
  The two threads of every process and the collective calls they make: the thread of libfuse, which
  announces a distributed read or write and carries its part out, and the receiver thread, which
  joins those of the other processes (\<^verbatim>\<open>mpi/DistributedCode.cpp\<close>). The other theories treat a distributed
  operation as one step of all processes; here is what that rests on, and where it ends.
\<close>

section \<open>Calls and threads\<close>

datatype collective = MPI_Scatterv_of nat | MPI_Gatherv_of nat | MPI_Allgatherv_call   \<comment> \<open>the root\<close>

text \<open>The collectives that one process calls in its part of a distributed operation, in order.\<close>

definition collectives_Write :: "nat \<Rightarrow> collective list" where
  "collectives_Write sourceRank = [MPI_Scatterv_of sourceRank, MPI_Allgatherv_call]"

definition collectives_Read :: "nat \<Rightarrow> u64 \<Rightarrow> collective list" where
  "collectives_Read sourceRank fileSize =
     (if fileSize = 0 then [] else [MPI_Scatterv_of sourceRank, MPI_Gatherv_of sourceRank])"

fun collectives :: "os_call \<Rightarrow> collective list" where
  "collectives (join_write src ino fileSize) = collectives_Write src"
| "collectives (join_read src ino fileSize reqSize off) = collectives_Read src fileSize"
| "collectives call = []"

datatype thread = Handler | ReceiverThread

text \<open>
  A process: the messages on the way to it, its receiver, the collectives each thread has still to
  call, and the threads that are inside one, in the order in which they entered.
\<close>

record rank =
  rk_inbox :: inbox
  rk_rx :: receiver
  rk_todo :: "thread \<Rightarrow> collective list"
  rk_inside :: "thread list"

definition current_call :: "rank \<Rightarrow> collective option" where
  "current_call k = (case rk_inside k of [] \<Rightarrow> None | t # _ \<Rightarrow> Some (hd (rk_todo k t)))"

definition leave_call :: "rank \<Rightarrow> rank" where
  "leave_call k = k\<lparr>rk_todo := (rk_todo k)(hd (rk_inside k) := tl (rk_todo k (hd (rk_inside k)))),
     rk_inside := tl (rk_inside k)\<rparr>"

text \<open>
  When the processes get past the collective calls they entered first is up to MPI: a predicate on
  these calls. The standard matches the calls of the processes in the order in which they are made,
  and lets an implementation hold every process until all have made the same call (\<open>synchronising\<close>).
  It also lets one release some of them earlier, but a portable program must not need that.
\<close>

type_synonym matching = "collective option list \<Rightarrow> bool"

definition synchronising :: "matching \<Rightarrow> bool" where
  "synchronising M \<longleftrightarrow> (\<forall>cs. M cs \<longleftrightarrow> (\<exists>c. cs \<noteq> [] \<and> set cs = {Some c}))"

inductive io_step :: "matching \<Rightarrow> string \<Rightarrow> rank list \<Rightarrow> rank list \<Rightarrow> bool" for M mnt where
  hear: "i < length S \<Longrightarrow> rk_todo (S ! i) ReceiverThread = [] \<Longrightarrow>
    start (new_DistributedCode i (length S) mnt) (rk_inbox (S ! i), rk_rx (S ! i)) (q', p') \<Longrightarrow>
    io_step M mnt S (S[i := (S ! i)\<lparr>rk_inbox := q', rk_rx := p', rk_todo := (rk_todo (S ! i))(ReceiverThread :=
      concat (map collectives (drop (length (rx_calls (rk_rx (S ! i)))) (rx_calls p'))))\<rparr>])"
| enter: "i < length S \<Longrightarrow> rk_todo (S ! i) t \<noteq> [] \<Longrightarrow> t \<notin> set (rk_inside (S ! i)) \<Longrightarrow>
    io_step M mnt S (S[i := (S ! i)\<lparr>rk_inside := rk_inside (S ! i) @ [t]\<rparr>])"
| complete: "M (map current_call S) \<Longrightarrow> io_step M mnt S (map leave_call S)"

fun io_op :: "remote_op \<Rightarrow> bool" where
  "io_op (remote_write ino fileSize) = True"
| "io_op (remote_read ino fileSize reqSize off) = True"
| "io_op op = False"

fun own_part :: "nat \<Rightarrow> remote_op \<Rightarrow> collective list" where
  "own_part r (remote_write ino fileSize) = collectives_Write r"
| "own_part r (remote_read ino fileSize reqSize off) = collectives_Read r fileSize"
| "own_part r op = []"

text \<open>
  The handler of \<open>open\<close> or \<open>flush\<close> on process \<open>r\<close> sends its messages and goes on to its collectives.
\<close>

definition call_io :: "nat \<Rightarrow> remote_op \<Rightarrow> rank list \<Rightarrow> rank list exec" where
  "call_io r op S = andThen (announce r (length S) op) (\<lambda>msgs.
     Inr (map (\<lambda>i. let k = S ! i
            in k\<lparr>rk_inbox := (rk_inbox k)(r := rk_inbox k r @ arriving i msgs),
                 rk_todo := (if i = r then (rk_todo k)(Handler := own_part r op) else rk_todo k)\<rparr>)
          [0..<length S]))"

text \<open>A process with nothing to do and nothing on the way to it.\<close>

definition at_ease :: "rank \<Rightarrow> bool" where
  "at_ease k \<longleftrightarrow> rk_inbox k = (\<lambda>_. []) \<and> rx_running (rk_rx k) \<and> rx_awaiting (rk_rx k) = None \<and>
     rk_todo k = (\<lambda>_. []) \<and> rk_inside k = []"

lemma own_part_join: "io_op op \<Longrightarrow> collectives (replayed dc r op) = own_part r op"
  by (cases op) simp_all

text \<open>The two messages of a distributed operation, and what the receiver makes of each.\<close>

fun io_type :: "remote_op \<Rightarrow> RequestType" where
  "io_type (remote_read ino fileSize reqSize off) = READ"
| "io_type op = WRITE"

lemma io_messages:
  assumes "io_op op"
  shows "\<exists>msgs q. announce r w op = Inr msgs \<and>
    (\<forall>i<w. arriving i msgs = (if i = r then [] else [RequestPacket (io_type op), IORequestPacket q])) \<and>
    (\<forall>dc p. code_rank dc \<noteq> r \<longrightarrow> rx_awaiting p = None \<longrightarrow>
       receive dc r (RequestPacket (io_type op)) p = Inr (p\<lparr>rx_awaiting := Some (io_type op)\<rparr>) \<and>
       receive dc r (IORequestPacket q) (p\<lparr>rx_awaiting := Some (io_type op)\<rparr>) = Inr (replay dc r op p))"
  using assms
  by (cases op) (auto simp: arriving_request_only arriving_io_request receive_simps)

section \<open>One operation at a time\<close>

text \<open>
  Everything that can be reached while one operation is under way: how far each process is with the
  messages, how many collectives are complete, and which processes are inside the next one.
\<close>

datatype stage = Told | Asked | Joined

definition rank_at :: "string \<Rightarrow> rank list \<Rightarrow> nat \<Rightarrow> remote_op \<Rightarrow> io_request \<Rightarrow> nat \<Rightarrow> nat \<times> stage \<times> bool \<Rightarrow> rank" where
  "rank_at mnt S r op q i = (\<lambda>(m, st, b). let k = S ! i; C = drop m (own_part r op) in
     if i = r then k\<lparr>rk_todo := (\<lambda>_. [])(Handler := C), rk_inside := (if b then [Handler] else [])\<rparr>
     else case st of
       Told \<Rightarrow> k\<lparr>rk_inbox := (\<lambda>_. [])(r := [RequestPacket (io_type op), IORequestPacket q])\<rparr>
     | Asked \<Rightarrow> k\<lparr>rk_inbox := (\<lambda>_. [])(r := [IORequestPacket q]),
         rk_rx := (rk_rx k)\<lparr>rx_awaiting := Some (io_type op)\<rparr>\<rparr>
     | Joined \<Rightarrow> k\<lparr>rk_rx := replay (new_DistributedCode i (length S) mnt) r op (rk_rx k),
         rk_todo := (\<lambda>_. [])(ReceiverThread := C), rk_inside := (if b then [ReceiverThread] else [])\<rparr>)"

definition stages_ok :: "nat \<Rightarrow> nat \<Rightarrow> nat \<Rightarrow> nat \<Rightarrow> (nat \<Rightarrow> stage) \<Rightarrow> (nat \<Rightarrow> bool) \<Rightarrow> bool" where
  "stages_ok w r n m st b \<longleftrightarrow> m \<le> n \<and> st r = Joined \<and>
     (\<forall>i<w. (0 < m \<longrightarrow> st i = Joined) \<and> (b i \<longrightarrow> m < n \<and> st i = Joined))"

definition under_way :: "string \<Rightarrow> rank list \<Rightarrow> nat \<Rightarrow> remote_op \<Rightarrow> io_request \<Rightarrow> nat \<Rightarrow> (nat \<Rightarrow> stage) \<Rightarrow> (nat \<Rightarrow> bool) \<Rightarrow> rank list" where
  "under_way mnt S r op q m st b = map (\<lambda>i. rank_at mnt S r op q i (m, st i, b i)) [0..<length S]"

lemma length_under_way [simp]: "length (under_way mnt S r op q m st b) = length S"
  by (simp add: under_way_def)

lemma nth_under_way [simp]: "i < length S \<Longrightarrow> under_way mnt S r op q m st b ! i = rank_at mnt S r op q i (m, st i, b i)"
  by (simp add: under_way_def)

lemma under_way_update:
  assumes "i < length S" and "k = rank_at mnt S r op q i (m, x, y)"
  shows "(under_way mnt S r op q m st b)[i := k] = under_way mnt S r op q m (st(i := x)) (b(i := y))"
  using assms by (intro nth_equalityI) (auto simp: nth_list_update)

text \<open>What is left to do, as a number.\<close>

fun stage_left :: "nat \<Rightarrow> nat \<Rightarrow> stage \<Rightarrow> bool \<Rightarrow> nat" where
  "stage_left n m Told b = 2 * n + 2"
| "stage_left n m Asked b = 2 * n + 1"
| "stage_left n m Joined b = 2 * (n - m) - (if b then 1 else 0)"

definition left_to_do :: "nat \<Rightarrow> nat \<Rightarrow> nat \<Rightarrow> (nat \<Rightarrow> stage) \<Rightarrow> (nat \<Rightarrow> bool) \<Rightarrow> nat" where
  "left_to_do w n m st b = (\<Sum>i<w. stage_left n m (st i) (b i))"

lemma left_to_do_update:
  assumes "i < w" and "stage_left n m x y < stage_left n m (st i) (b i)"
  shows "left_to_do w n m (st(i := x)) (b(i := y)) < left_to_do w n m st b"
  unfolding left_to_do_def using assms by (intro sum_strict_mono_ex1) (auto intro!: bexI [of _ i])

lemma left_to_do_complete:
  assumes "0 < w" and "m < n" and "\<forall>i<w. st i = Joined \<and> b i"
  shows "left_to_do w n (Suc m) st (\<lambda>_. False) < left_to_do w n m st b"
  unfolding left_to_do_def using assms by (intro sum_strict_mono) auto

text \<open>Every step of a process while the operation is under way.\<close>

lemma rank_at_own [simp]:
  "rk_inbox (rank_at mnt S r op q r (m, st, b)) = rk_inbox (S ! r)" "rk_rx (rank_at mnt S r op q r (m, st, b)) = rk_rx (S ! r)"
  "rk_inside (rank_at mnt S r op q r (m, st, b)) = (if b then [Handler] else [])"
  "rk_todo (rank_at mnt S r op q r (m, st, b)) = (\<lambda>_. [])(Handler := drop m (own_part r op))"
  by (simp_all add: rank_at_def Let_def)

lemma rank_at_joined [simp]:
  assumes "i \<noteq> r"
  shows "rk_inbox (rank_at mnt S r op q i (m, Joined, b)) = rk_inbox (S ! i)"
    "rk_inside (rank_at mnt S r op q i (m, Joined, b)) = (if b then [ReceiverThread] else [])"
    "rk_todo (rank_at mnt S r op q i (m, Joined, b)) = (\<lambda>_. [])(ReceiverThread := drop m (own_part r op))"
  using assms by (simp_all add: rank_at_def Let_def)

lemma current_rank_at:
  assumes "at_ease (S ! i)" and "b \<Longrightarrow> st = Joined"
  shows "current_call (rank_at mnt S r op q i (m, st, b)) = (if b then Some (hd (drop m (own_part r op))) else None)"
  using assms by (cases "i = r"; cases st) (auto simp: current_call_def rank_at_def Let_def at_ease_def)

lemma leave_rank_at:
  assumes "at_ease (S ! i)" and "b" and "st = Joined"
  shows "leave_call (rank_at mnt S r op q i (m, st, b)) = rank_at mnt S r op q i (Suc m, Joined, False)"
  using assms by (cases "i = r") (simp_all add: leave_call_def rank_at_def Let_def drop_Suc tl_drop)

lemma enter_rank_at:
  assumes k: "k = rank_at mnt S r op q i (m, st, b)" and "at_ease (S ! i)" and "i = r \<Longrightarrow> st = Joined" and "b \<Longrightarrow> st = Joined"
    and "rk_todo k t \<noteq> []" and "t \<notin> set (rk_inside k)"
  shows "st = Joined \<and> \<not> b \<and> m < length (own_part r op) \<and>
    k\<lparr>rk_inside := rk_inside k @ [t]\<rparr> = rank_at mnt S r op q i (m, Joined, True)"
  using assms by (cases "i = r"; cases st; cases t) (auto simp: rank_at_def Let_def at_ease_def split: if_splits)

text \<open>What a receiver can hear, and what it makes of it.\<close>

definition hears :: "remote_op \<Rightarrow> nat \<Rightarrow> io_request \<Rightarrow> bool" where
  "hears op r q \<longleftrightarrow> (\<forall>dc p. code_rank dc \<noteq> r \<longrightarrow> rx_awaiting p = None \<longrightarrow>
     receive dc r (RequestPacket (io_type op)) p = Inr (p\<lparr>rx_awaiting := Some (io_type op)\<rparr>) \<and>
     receive dc r (IORequestPacket q) (p\<lparr>rx_awaiting := Some (io_type op)\<rparr>) = Inr (replay dc r op p))"

definition heard :: "rank \<Rightarrow> inbox \<Rightarrow> receiver \<Rightarrow> rank" where
  "heard k q' p' = k\<lparr>rk_inbox := q', rk_rx := p', rk_todo := (rk_todo k)(ReceiverThread :=
     concat (map collectives (drop (length (rx_calls (rk_rx k))) (rx_calls p'))))\<rparr>"

lemma code_rank_new [simp]: "code_rank (new_DistributedCode i w mnt) = i"
  by (simp add: new_DistributedCode_def Let_def)

fun next_stage :: "stage \<Rightarrow> stage" where
  "next_stage Told = Asked" | "next_stage Asked = Joined" | "next_stage Joined = Joined"

lemma hear_rank_at:
  assumes op: "io_op op" "hears op r q" and k: "k = rank_at mnt S r op q i (m, st, b)" and at_ease: "at_ease (S ! i)"
    and st: "i = r \<Longrightarrow> st = Joined" "st \<noteq> Joined \<Longrightarrow> m = 0 \<and> \<not> b"
  shows "start (new_DistributedCode i (length S) mnt) (rk_inbox k, rk_rx k) (q', p') \<longleftrightarrow> st \<noteq> Joined \<and>
      (\<exists>rest pkt. rk_inbox k r = pkt # rest \<and> q' = (rk_inbox k)(r := rest) \<and>
         receive (new_DistributedCode i (length S) mnt) r pkt (rk_rx k) = Inr p')"
    and "start (new_DistributedCode i (length S) mnt) (rk_inbox k, rk_rx k) (q', p') \<Longrightarrow>
      st \<noteq> Joined \<and> heard k q' p' = rank_at mnt S r op q i (m, next_stage st, b)"
    and "st \<noteq> Joined \<Longrightarrow> rk_todo k ReceiverThread = [] \<and>
      (\<exists>q' p'. start (new_DistributedCode i (length S) mnt) (rk_inbox k, rk_rx k) (q', p'))"
proof -
  note q = at_ease [unfolded at_ease_def]
  let ?dc = "new_DistributedCode i (length S) mnt"
  have inbox: "rk_inbox k j = [] \<longleftrightarrow> j \<noteq> r \<or> st = Joined" for j
    using q st by (cases st; cases "i = r") (auto simp: k rank_at_def Let_def)
  have running: "rx_running (rk_rx k)" if "st \<noteq> Joined"
    using q st that by (cases st) (auto simp: k rank_at_def Let_def)
  show iff: "start ?dc (rk_inbox k, rk_rx k) (q', p') \<longleftrightarrow> st \<noteq> Joined \<and>
      (\<exists>rest pkt. rk_inbox k r = pkt # rest \<and> q' = (rk_inbox k)(r := rest) \<and> receive ?dc r pkt (rk_rx k) = Inr p')" for q' p'
    using inbox running by (auto simp: start_iff) (metis list.distinct(1))+
  have told: "receive ?dc r (RequestPacket (io_type op)) (rk_rx (S ! i)) = Inr ((rk_rx (S ! i))\<lparr>rx_awaiting := Some (io_type op)\<rparr>)"
    and asked: "receive ?dc r (IORequestPacket q) ((rk_rx (S ! i))\<lparr>rx_awaiting := Some (io_type op)\<rparr>) =
      Inr (replay ?dc r op (rk_rx (S ! i)))" if "i \<noteq> r"
    using op(2) q that by (auto simp: hears_def)
  show "st \<noteq> Joined \<and> heard k q' p' = rank_at mnt S r op q i (m, next_stage st, b)" if "start ?dc (rk_inbox k, rk_rx k) (q', p')"
  proof -
    have "st \<noteq> Joined" using that iff by blast
    then have i: "i \<noteq> r" "m = 0" "\<not> b" using st by auto
    show ?thesis
      using that [unfolded iff] i told [OF i(1)] asked [OF i(1)] q
      by (cases st) (auto simp: k rank_at_def heard_def Let_def own_part_join [OF op(1)] fun_upd_def fun_eq_iff)
  qed
  show "rk_todo k ReceiverThread = [] \<and> (\<exists>q' p'. start ?dc (rk_inbox k, rk_rx k) (q', p'))" if "st \<noteq> Joined"
  proof -
    have i: "i \<noteq> r" using st that by auto
    show ?thesis
      unfolding iff using that i told [OF i] asked [OF i] q by (cases st) (auto simp: k rank_at_def Let_def)
  qed
qed

text \<open>Every step keeps the shape and leaves less to do; as long as something is left, there is a step.\<close>

lemma step_under_way:
  assumes M: "synchronising M" and op: "io_op op" "hears op r q" and at_ease: "\<forall>k\<in>set S. at_ease k" and r: "r < length S"
    and ok: "stages_ok (length S) r (length (own_part r op)) m st b"
    and step: "io_step M mnt (under_way mnt S r op q m st b) V"
  shows "\<exists>m' st' b'. V = under_way mnt S r op q m' st' b' \<and> stages_ok (length S) r (length (own_part r op)) m' st' b' \<and>
    left_to_do (length S) (length (own_part r op)) m' st' b' < left_to_do (length S) (length (own_part r op)) m st b"
proof -
  let ?U = "under_way mnt S r op q m st b" and ?w = "length S" and ?n = "length (own_part r op)"
  have k: "at_ease (S ! i)" "i = r \<Longrightarrow> st i = Joined" "st i \<noteq> Joined \<Longrightarrow> m = 0 \<and> \<not> b i" "b i \<Longrightarrow> m < ?n \<and> st i = Joined"
    if "i < ?w" for i
    using at_ease ok that by (auto simp: stages_ok_def)
  from step show ?thesis
  proof cases
    case (hear i q' p')
    then have i: "i < ?w" by simp
    have start: "start (new_DistributedCode i ?w mnt)
        (rk_inbox (rank_at mnt S r op q i (m, st i, b i)), rk_rx (rank_at mnt S r op q i (m, st i, b i))) (q', p')"
      using hear(4) i by simp
    from hear_rank_at(2) [OF op refl k(1) [OF i] k(2) [OF i] k(3) [OF i] this]
    have st: "st i \<noteq> Joined" "V = ?U[i := rank_at mnt S r op q i (m, next_stage (st i), b i)]"
      using hear(1) i by (auto simp: heard_def)
    have "V = under_way mnt S r op q m (st(i := next_stage (st i))) (b(i := b i))"
      unfolding st(2) by (rule under_way_update [OF i refl])
    moreover have "left_to_do ?w ?n m (st(i := next_stage (st i))) (b(i := b i)) < left_to_do ?w ?n m st b"
      using st(1) k(3) [OF i] by (intro left_to_do_update [OF i]) (cases "st i"; simp)
    moreover have "stages_ok ?w r ?n m (st(i := next_stage (st i))) (b(i := b i))"
      using ok st(1) k(2,3) [OF i] by (auto simp: stages_ok_def)
    ultimately show ?thesis by blast
  next
    case (enter i t)
    then have i: "i < ?w" by simp
    have st: "st i = Joined" "\<not> b i" "m < ?n" "V = ?U[i := rank_at mnt S r op q i (m, Joined, True)]"
      using enter_rank_at [OF refl k(1) [OF i] k(2) [OF i], where b = "b i" and m = m and t = t and mnt = mnt and op = op and q = q] k(4) [OF i] enter i by auto
    have "V = under_way mnt S r op q m (st(i := Joined)) (b(i := True))"
      unfolding st(4) by (rule under_way_update [OF i refl])
    moreover have "left_to_do ?w ?n m (st(i := Joined)) (b(i := True)) < left_to_do ?w ?n m st b"
      using st(1-3) by (intro left_to_do_update [OF i]) simp
    moreover have "stages_ok ?w r ?n m (st(i := Joined)) (b(i := True))"
      using ok st(1,3) by (auto simp: stages_ok_def)
    ultimately show ?thesis by blast
  next
    case complete
    have "\<forall>i<?w. b i"
    proof (intro allI impI)
      fix i assume i: "i < ?w"
      obtain c where "set (map current_call ?U) = {Some c}" using M complete(2) by (auto simp: synchronising_def)
      moreover have "?U ! i \<in> set ?U" using i by (intro nth_mem) simp
      then have "current_call (?U ! i) \<in> set (map current_call ?U)" by simp
      ultimately have "current_call (rank_at mnt S r op q i (m, st i, b i)) = Some c" using i by simp
      then show "b i" using current_rank_at [OF k(1) [OF i], where b = "b i" and st = "st i" and mnt = mnt and r = r and op = op and q = q and m = m] k(4) [OF i] by (cases "b i") simp_all
    qed
    then have all: "\<forall>i<?w. st i = Joined \<and> b i" "m < ?n" using k(4) r by auto
    then have "V = under_way mnt S r op q (Suc m) st (\<lambda>_. False)"
      unfolding complete(1) using k(1) by (intro nth_equalityI) (simp_all add: leave_rank_at)
    moreover have "0 < ?w" using r by linarith
    then have "left_to_do ?w ?n (Suc m) st (\<lambda>_. False) < left_to_do ?w ?n m st b"
      using left_to_do_complete all by blast
    moreover have "stages_ok ?w r ?n (Suc m) st (\<lambda>_. False)" using ok all by (auto simp: stages_ok_def)
    ultimately show ?thesis by blast
  qed
qed

lemma under_way_progress:
  assumes M: "synchronising M" and op: "io_op op" "hears op r q" and at_ease: "\<forall>k\<in>set S. at_ease k" and r: "r < length S"
    and ok: "stages_ok (length S) r (length (own_part r op)) m st b"
    and left: "m < length (own_part r op) \<or> (\<exists>i<length S. st i \<noteq> Joined)"
  shows "\<exists>V. io_step M mnt (under_way mnt S r op q m st b) V"
proof -
  let ?U = "under_way mnt S r op q m st b" and ?w = "length S" and ?C = "own_part r op"
  have k: "at_ease (S ! i)" "i = r \<Longrightarrow> st i = Joined" "st i \<noteq> Joined \<Longrightarrow> m = 0 \<and> \<not> b i" "b i \<Longrightarrow> m < length ?C \<and> st i = Joined"
    if "i < ?w" for i
    using at_ease ok that by (auto simp: stages_ok_def)
  consider i where "i < ?w" "st i \<noteq> Joined" | i where "i < ?w" "st i = Joined" "\<not> b i" "m < length ?C"
    | "\<forall>i<?w. st i = Joined \<and> b i" "m < length ?C"
    using left by blast
  then show ?thesis
  proof cases
    case (1 i)
    obtain q' p' where "rk_todo (?U ! i) ReceiverThread = []"
      "start (new_DistributedCode i (length ?U) mnt) (rk_inbox (?U ! i), rk_rx (?U ! i)) (q', p')"
      using hear_rank_at(3) [OF op refl k(1) [OF 1(1)] k(2) [OF 1(1)] k(3) [OF 1(1)] 1(2), of mnt] 1(1) by auto
    moreover have "i < length ?U" using 1(1) by simp
    ultimately show ?thesis using io_step.hear by blast
  next
    case (2 i)
    define t where "t = (if i = r then Handler else ReceiverThread)"
    have "rk_todo (?U ! i) t \<noteq> []" "t \<notin> set (rk_inside (?U ! i))"
      using 2 by (auto simp: t_def)
    then show ?thesis using 2(1) io_step.enter [where S = ?U and i = i] by auto
  next
    case 3
    have "map current_call ?U = replicate ?w (Some (hd (drop m ?C)))"
      using 3 k(1) by (intro nth_equalityI) (simp_all add: current_rank_at)
    then have "M (map current_call ?U)"
      using M r by (auto simp: synchronising_def set_replicate_conv_if)
    then show ?thesis using io_step.complete by blast
  qed
qed

text \<open>
  C21. A distributed operation that no other one overlaps, from the messages of its origin to the end of
  the last collective call: whatever the order in which the processes hear of it and enter the
  calls, every run ends after a bounded number of steps, and it ends in one state only, in which every
  other process has joined the operation exactly once and all threads have nothing left to do. MPI
  is taken at its strictest: nobody leaves a collective call before all have entered it.
\<close>

theorem distributed_operation_completes:
  fixes S :: "rank list" and mnt :: string
  assumes M: "synchronising M" and at_ease: "\<forall>k\<in>set S. at_ease k" and r: "r < length S" and op: "io_op op"
  defines "S1 \<equiv> map (\<lambda>i. if i = r then S ! i
      else (S ! i)\<lparr>rk_rx := replay (new_DistributedCode i (length S) mnt) r op (rk_rx (S ! i))\<rparr>) [0..<length S]"
  shows "\<exists>S0 N. call_io r op S = Inr S0 \<and> (\<forall>n V. (io_step M mnt ^^ n) S0 V \<longrightarrow> n \<le> N) \<and>
    (\<forall>V. (io_step M mnt)\<^sup>*\<^sup>* S0 V \<longrightarrow> (\<nexists>V'. io_step M mnt V V') \<longrightarrow> V = S1) \<and>
    (\<forall>V. (io_step M mnt)\<^sup>*\<^sup>* S0 V \<longrightarrow> (io_step M mnt)\<^sup>*\<^sup>* V S1) \<and> (\<forall>k\<in>set S1. at_ease k)"
proof -
  let ?w = "length S" and ?n = "length (own_part r op)" and ?U = "under_way mnt S r op"
  let ?ok = "stages_ok ?w r ?n" and ?left = "left_to_do ?w ?n"
  let ?st = "\<lambda>i. if i = r then Joined else Told"
  obtain msgs q where q: "announce r ?w op = Inr msgs" "hears op r q"
    "\<And>i. i < ?w \<Longrightarrow> arriving i msgs = (if i = r then [] else [RequestPacket (io_type op), IORequestPacket q])"
    using io_messages [OF op, of r ?w] unfolding hears_def by blast
  have at_ease': "at_ease (S ! i)" if "i < ?w" for i using at_ease that by simp
  have start: "call_io r op S = Inr (?U q 0 ?st (\<lambda>_. False))"
    using q(1,3) at_ease' [unfolded at_ease_def]
    by (auto simp: call_io_def Let_def under_way_def rank_at_def fun_upd_def intro!: rank.equality)
  have ok0: "?ok 0 ?st (\<lambda>_. False)" by (simp add: stages_ok_def)
  have bounded: "\<exists>m' st' b'. V = ?U q m' st' b' \<and> ?ok m' st' b' \<and> n + ?left m' st' b' \<le> ?left m st b"
    if "(io_step M mnt ^^ n) (?U q m st b) V" "?ok m st b" for n V m st b
    using that
  proof (induction n arbitrary: V)
    case 0
    then show ?case by auto
  next
    case (Suc n)
    then obtain V1 where V1: "(io_step M mnt ^^ n) (?U q m st b) V1" "io_step M mnt V1 V" by auto
    obtain m1 st1 b1 where 1: "V1 = ?U q m1 st1 b1" "?ok m1 st1 b1" "n + ?left m1 st1 b1 \<le> ?left m st b"
      using Suc.IH [OF V1(1) Suc.prems(2)] by blast
    show ?case using step_under_way [OF M op q(2) at_ease r 1(2) V1(2) [unfolded 1(1)]] 1(3) by fastforce
  qed
  have final: "?U q m st b = S1" if "?ok m st b" "\<not> m < ?n" "\<forall>i<?w. st i = Joined" for m st b
  proof -
    have "m = ?n" "\<forall>i<?w. \<not> b i" using that by (auto simp: stages_ok_def)
    then show ?thesis
      using that(3) at_ease' [unfolded at_ease_def]
      by (auto simp: S1_def under_way_def rank_at_def Let_def fun_upd_def intro!: rank.equality)
  qed
  have stuck: "V = S1" if "V = ?U q m st b" "?ok m st b" "\<nexists>V'. io_step M mnt V V'" for V m st b
    using under_way_progress [OF M op q(2) at_ease r that(2), of mnt] final [OF that(2)] that by blast
  have ends: "(io_step M mnt)\<^sup>*\<^sup>* (?U q m st b) S1" if "?ok m st b" for m st b
    using that
  proof (induction "?left m st b" arbitrary: m st b rule: less_induct)
    case less
    show ?case
    proof (cases "\<exists>V'. io_step M mnt (?U q m st b) V'")
      case True
      then obtain V' where V': "io_step M mnt (?U q m st b) V'" by blast
      obtain m' st' b' where "V' = ?U q m' st' b'" "?ok m' st' b'" "?left m' st' b' < ?left m st b"
        using step_under_way [OF M op q(2) at_ease r less.prems V'] by blast
      then show ?thesis using less.hyps V' by (blast intro: converse_rtranclp_into_rtranclp)
    next
      case False
      then show ?thesis using stuck [OF refl less.prems] by simp
    qed
  qed
  have reach: "\<exists>m' st' b'. V = ?U q m' st' b' \<and> ?ok m' st' b'" if "(io_step M mnt)\<^sup>*\<^sup>* (?U q 0 ?st (\<lambda>_. False)) V" for V
    using that bounded [OF _ ok0] unfolding rtranclp_power by blast
  have "\<forall>k\<in>set S1. at_ease k" using at_ease' by (auto simp: S1_def at_ease_def)
  note facts = this
  show ?thesis
  proof (intro exI conjI allI impI)
    show "call_io r op S = Inr (?U q 0 ?st (\<lambda>_. False))" by (rule start)
    show "n \<le> ?left 0 ?st (\<lambda>_. False)" if "(io_step M mnt ^^ n) (?U q 0 ?st (\<lambda>_. False)) V" for n V
      using bounded [OF that ok0] by auto
    show "V = S1" if "(io_step M mnt)\<^sup>*\<^sup>* (?U q 0 ?st (\<lambda>_. False)) V" "\<nexists>V'. io_step M mnt V V'" for V
      using reach [OF that(1)] stuck that(2) by blast
    show "(io_step M mnt)\<^sup>*\<^sup>* V S1" if "(io_step M mnt)\<^sup>*\<^sup>* (?U q 0 ?st (\<lambda>_. False)) V" for V
      using reach [OF that] ends by blast
  qed (rule facts)
qed

definition order_of_calls :: matching where
  "order_of_calls cs \<longleftrightarrow> cs \<noteq> [] \<and> list_all (\<lambda>c. c = hd cs \<and> c \<noteq> None) cs"

lemma order_of_calls_synchronising: "synchronising order_of_calls"
proof -
  have "list_all (\<lambda>c. c = hd cs \<and> c \<noteq> None) cs \<longleftrightarrow> (\<exists>c. set cs = {Some c})" if "cs \<noteq> []" for cs :: "collective option list"
    using that by (cases cs) (auto simp: list_all_iff)
  then show ?thesis by (auto simp: synchronising_def order_of_calls_def)
qed

text \<open>Processes at rest.\<close>

definition resting :: "fs_state \<Rightarrow> rank" where
  "resting s = \<lparr>rk_inbox = \<lambda>_. [], rk_rx = new_receiver s, rk_todo = \<lambda>_. [], rk_inside = []\<rparr>"

lemma at_ease_resting: "at_ease (resting s)"
  by (simp add: at_ease_def resting_def new_receiver_def)

theorem distributed_operation_completes_witness:
  "\<exists>S0 V. call_io 0 (remote_write 3 2048) [resting demo_tree, resting demo_tree] = Inr S0 \<and>
     (io_step order_of_calls ''/mnt'')\<^sup>*\<^sup>* S0 V \<and> rx_calls (rk_rx (V ! 1)) = [join_write 0 3 2048]"
proof -
  let ?S = "[resting demo_tree, resting demo_tree]"
  have S: "\<forall>k\<in>set ?S. at_ease k" "0 < length ?S" by (simp_all add: at_ease_resting)
  let ?V = "map (\<lambda>i. if i = 0 then ?S ! i
      else (?S ! i)\<lparr>rk_rx := replay (new_DistributedCode i (length ?S) ''/mnt'') 0 (remote_write 3 2048) (rk_rx (?S ! i))\<rparr>) [0..<length ?S]"
  obtain S0 where "call_io 0 (remote_write 3 2048) ?S = Inr S0"
    "\<forall>V. (io_step order_of_calls ''/mnt'')\<^sup>*\<^sup>* S0 V \<longrightarrow> (io_step order_of_calls ''/mnt'')\<^sup>*\<^sup>* V ?V"
    using distributed_operation_completes [OF order_of_calls_synchronising S, of "remote_write 3 2048" "''/mnt''"] by auto
  moreover from this have "(io_step order_of_calls ''/mnt'')\<^sup>*\<^sup>* S0 ?V" by blast
  moreover have "rx_calls (rk_rx (?V ! 1)) = [join_write 0 3 2048]" by (simp add: resting_def new_receiver_def)
  ultimately show ?thesis by blast
qed

section \<open>Two operations at once\<close>

text \<open>The handler of a process is inside a call that it entered before its receiver entered any.\<close>

definition handler_inside :: "nat \<Rightarrow> remote_op \<Rightarrow> rank list \<Rightarrow> bool" where
  "handler_inside r op S \<longleftrightarrow> r < length S \<and> (\<exists>ts. rk_inside (S ! r) = Handler # ts) \<and> rk_todo (S ! r) Handler = own_part r op"

lemma own_part_hd: "own_part r op \<noteq> [] \<Longrightarrow> hd (own_part r op) = MPI_Scatterv_of r"
  by (cases op) (auto simp: collectives_Write_def collectives_Read_def split: if_splits)

lemma handlers_wait:
  assumes M: "synchronising M" and "r1 \<noteq> r2" and "own_part r1 op1 \<noteq> []" "own_part r2 op2 \<noteq> []"
    and V: "handler_inside r1 op1 V" "handler_inside r2 op2 V" and step: "io_step M mnt V V'"
  shows "handler_inside r1 op1 V' \<and> handler_inside r2 op2 V'"
  using step
proof cases
  case (hear i q' p')
  then show ?thesis using V by (auto simp: handler_inside_def nth_list_update)
next
  case (enter i t)
  then show ?thesis using V by (auto simp: handler_inside_def nth_list_update)
next
  case complete
  have "current_call (V ! r) = Some (MPI_Scatterv_of r)" if "handler_inside r op V" "own_part r op \<noteq> []" for r op
    using that own_part_hd by (auto simp: handler_inside_def current_call_def)
  moreover have "V ! r1 \<in> set V" "V ! r2 \<in> set V" using V by (simp_all add: handler_inside_def)
  then have "current_call (V ! r1) \<in> set (map current_call V)" "current_call (V ! r2) \<in> set (map current_call V)"
    by simp_all
  moreover obtain c where "set (map current_call V) = {Some c}" using complete(2) M by (auto simp: synchronising_def)
  ultimately show ?thesis using assms(2-6) by (metis collective.inject(1) option.inject singletonD)
qed

text \<open>
  C22. Two distributed operations at once: when the handlers of two processes begin a \<open>flush\<close> or an
  \<open>open\<close> of a file with contents, each before its receiver has heard of the other, both can enter
  their first collective call before anyone else. From there on the calls of the two processes are
  made in different orders, which MPI does not allow; where its collectives synchronise, neither can
  ever complete, both handlers wait for ever and their requests are never answered, whatever the
  other processes and threads do.
\<close>

theorem overlapping_operations_deadlock:
  fixes S :: "rank list"
  assumes M: "synchronising M" and at_ease: "\<forall>k\<in>set S. at_ease k" and r: "r1 < length S" "r2 < length S" "r1 \<noteq> r2"
    and op: "io_op op1" "io_op op2" "own_part r1 op1 \<noteq> []" "own_part r2 op2 \<noteq> []"
  shows "\<exists>S1 S2 V. call_io r1 op1 S = Inr S1 \<and> call_io r2 op2 S1 = Inr S2 \<and> (io_step M mnt)\<^sup>*\<^sup>* S2 V \<and>
    (\<forall>V'. (io_step M mnt)\<^sup>*\<^sup>* V V' \<longrightarrow>
       rk_todo (V' ! r1) Handler = own_part r1 op1 \<and> rk_todo (V' ! r2) Handler = own_part r2 op2)"
proof -
  obtain S1 where S1: "call_io r1 op1 S = Inr S1" "length S1 = length S"
    "rk_todo (S1 ! r1) Handler = own_part r1 op1" "\<forall>i<length S. rk_inside (S1 ! i) = []"
    using io_messages [OF op(1), of r1 "length S"] at_ease r(1) by (auto simp: call_io_def Let_def at_ease_def)
  obtain S2 where S2: "call_io r2 op2 S1 = Inr S2" "length S2 = length S"
    "rk_todo (S2 ! r1) Handler = own_part r1 op1" "rk_todo (S2 ! r2) Handler = own_part r2 op2" "\<forall>i<length S. rk_inside (S2 ! i) = []"
    using io_messages [OF op(2), of r2 "length S1"] S1 r by (auto simp: call_io_def Let_def)
  let ?V1 = "S2[r1 := (S2 ! r1)\<lparr>rk_inside := rk_inside (S2 ! r1) @ [Handler]\<rparr>]"
  let ?V = "?V1[r2 := (?V1 ! r2)\<lparr>rk_inside := rk_inside (?V1 ! r2) @ [Handler]\<rparr>]"
  have "io_step M mnt S2 ?V1" using S2 r op(3) by (intro io_step.enter) simp_all
  moreover have "io_step M mnt ?V1 ?V" using S2 r op(4) by (intro io_step.enter) simp_all
  ultimately have run: "(io_step M mnt)\<^sup>*\<^sup>* S2 ?V" by (meson r_into_rtranclp rtranclp_trans)
  have inside: "handler_inside r1 op1 ?V \<and> handler_inside r2 op2 ?V"
    using S2 r by (simp add: handler_inside_def)
  have "handler_inside r1 op1 V' \<and> handler_inside r2 op2 V'" if "(io_step M mnt)\<^sup>*\<^sup>* ?V V'" for V'
    using that inside by (induction rule: rtranclp_induct) (use handlers_wait [OF M r(3) op(3,4)] in blast)+
  then show ?thesis using S1(1) S2(1) run unfolding handler_inside_def by blast
qed

theorem overlapping_operations_deadlock_witness:
  "\<exists>S1 S2 V. call_io 0 (remote_write 3 2048) [resting demo_tree, resting demo_tree] = Inr S1 \<and>
     call_io 1 (remote_read 3 600 600 0) S1 = Inr S2 \<and> (io_step order_of_calls ''/mnt'')\<^sup>*\<^sup>* S2 V \<and>
     (\<forall>V'. (io_step order_of_calls ''/mnt'')\<^sup>*\<^sup>* V V' \<longrightarrow> rk_todo (V' ! 0) Handler \<noteq> [] \<and> rk_todo (V' ! 1) Handler \<noteq> [])"
proof -
  let ?S = "[resting demo_tree, resting demo_tree]"
  have S: "\<forall>k\<in>set ?S. at_ease k" "0 < length ?S" "1 < length ?S" "(0 :: nat) \<noteq> 1" by (simp_all add: at_ease_resting)
  have op: "io_op (remote_write 3 2048)" "io_op (remote_read 3 600 600 0)"
    and part: "own_part 0 (remote_write 3 2048) \<noteq> []" "own_part 1 (remote_read 3 600 600 0) \<noteq> []"
    by (simp_all add: collectives_Write_def collectives_Read_def)
  show ?thesis
    using overlapping_operations_deadlock [OF order_of_calls_synchronising S op part, of "''/mnt''"] part
    by (elim exE conjE, intro exI conjI) (assumption | metis)+
qed

end
