(* ===== verification/Races.thy ===== *)
theory Races
  imports Receiver
begin

text \<open>
  What happens when a request of the local kernel gets in between a message of another process and the
  request that the receiver's own system call causes: the flag that the receiver raised
  (\<^verbatim>\<open>mpi/DistributedCode.cpp\<close>) is taken by the wrong request (\<^verbatim>\<open>ramfs/FileSystem.cpp\<close>).
\<close>

lemma register_in_deleted: "set (DeletedINodes (INodeManager (register_in nd s))) \<subseteq> set (DeletedINodes (INodeManager s))"
  by (auto simp: register_in_def UpdateUsedBlocks_def UpdateUsedINodes_def dest: list.set_sel(2) [rotated])
    (metis list.sel(2) list.set_sel(2))

lemma modINode_deleted: "DeletedINodes (INodeManager (modINode ino g s)) = DeletedINodes (INodeManager s)"
  by (simp add: modINode_def modINodeAt_def)

text \<open>A directory can be made again in the same parent after \<open>mkdir\<close>.\<close>

lemma mkdir_again:
  fixes ev
  assumes wf: "fs_wf s" and n: "n_inodes s < 2 ^ 31" and d: "is_dir s parent d"
    and live: "parent \<notin> set (DeletedINodes (INodeManager s))" and name: "name_ok (dir_name d @ name @ ''/'')"
    and made: "FuseMkdir ev parent name s = Inr s'"
  shows "fs_wf s'" "n_inodes s' \<le> Suc (n_inodes s)" "\<exists>d'. is_dir s' parent d' \<and> dir_name d' = dir_name d"
    "parent \<notin> set (DeletedINodes (INodeManager s'))" "mpiRank s' = mpiRank s" "mpiWorldSize s' = mpiWorldSize s"
proof -
  show "fs_wf s'" "n_inodes s' \<le> Suc (n_inodes s)"
    using FuseMkdir_grows [OF wf n, of ev parent name] made by (auto simp: grows_def grown_def)
  have parent: "unat parent < n_inodes s" "as_Directory (inode_at s parent) = Some d"
    using d by (simp_all add: is_dir_def)
  have ne: "parent \<noteq> next_ino s" using live_not_next [OF wf n parent(1) live] .
  have n63: "n_inodes s < 2 ^ 63" using n by simp
  have len: "length (dir_name d @ name @ ''/'') \<le> name_capacity"
    using name by (simp add: name_ok_def)
  note eq = made [unfolded FuseMkdir_eq [OF wf n d ne disjI2 [OF len]]]
  show "\<exists>d'. is_dir s' parent d' \<and> dir_name d' = dir_name d"
    unfolding eq [symmetric, unfolded sum.inject]
    using ne parent register_in_old [OF parent(1)] next_ino_bound [OF wf n63]
    by (simp add: inode_at_modINode inode_at_register_in [OF wf n63] is_dir_def UpdateChild_def Let_def)
  show "parent \<notin> set (DeletedINodes (INodeManager s'))"
    using eq live by (auto simp: modINode_deleted dest!: subsetD [OF register_in_deleted])
  show "mpiRank s' = mpiRank s" "mpiWorldSize s' = mpiWorldSize s"
    using eq by auto
qed

text \<open>
  C18. A process is told to make a directory, and before its kernel turns the receiver's \<open>mkdir\<close> into a
  request, a local program makes another directory: the local one takes the flag and is
  announced to nobody, and the replayed one is announced to everybody, back to its origin included.
\<close>

theorem mkdir_race:
  fixes ev ev'
  assumes "fs_wf t" and "Suc (n_inodes t) < 2 ^ 31" and "is_dir t parent d"
    and "parent \<notin> set (DeletedINodes (INodeManager t))"
    and "name_ok (dir_name d @ local @ ''/'')" and "name_ok (dir_name d @ remote @ ''/'')"
    and "announce src w (remote_mkdir (dir_name d @ remote @ ''/'')) = Inr msgs"
    and "code_rank dc = mpiRank t" and "mpiWorldSize t = w" and "mpiRank t < w" and "src < w" and "src \<noteq> mpiRank t"
    and "rx_running p" and "rx_awaiting p = None" and "rx_fs p = t"
  shows "\<exists>p' t1 t2 echo f. (\<forall>q rest. q src = arriving (mpiRank t) msgs @ rest \<longrightarrow>
       (start dc)\<^sup>*\<^sup>* (q, p) (q(src := rest), p')) \<and>
    FuseMkdir ev parent local (rx_fs p') = Inr t1 \<and> sends t1 = sends t \<and>
    FuseMkdir ev' parent remote t1 = Inr t2 \<and> sends t2 = sends t @ echo \<and>
    arriving src echo = [RequestPacket CREATE_DIR, DirectoryCreationRequest f] \<and>
    c_string f = Inr (dir_name d @ remote @ ''/'')"
proof -
  let ?op = "remote_mkdir (dir_name d @ remote @ ''/'')" and ?p' = "replay dc src (remote_mkdir (dir_name d @ remote @ ''/'')) p"
  have names: "list_all name_ok (op_names ?op)" using assms(6) by simp
  have "foldE (receive dc src) (arriving (mpiRank t) msgs) p = Inr ?p'"
    using assms(8,10,12) by (intro replay_one [OF _ _ _ names assms(7,14)]) simp_all
  then have steps: "(start dc)\<^sup>*\<^sup>* (q, p) (q(src := rest), ?p')" if "q src = arriving (mpiRank t) msgs @ rest" for q rest
    using start_steps [where q = q, OF _ _ that] assms(13) by simp
  let ?t = "t\<lparr>createDirFromThread := True\<rparr>"
  have t: "fs_wf ?t" "n_inodes ?t < 2 ^ 31" "is_dir ?t parent d" "parent \<notin> set (DeletedINodes (INodeManager ?t))"
    using assms(1-4) by (simp_all add: is_dir_def)
  obtain t1 where t1: "FuseMkdir ev parent local ?t = Inr t1" "sends t1 = sends t" "\<not> createDirFromThread t1"
    using mkdir_made [OF t assms(5), of ev] by auto
  note again = mkdir_again [OF t assms(5) t1(1)]
  obtain d1 where d1: "is_dir t1 parent d1" "dir_name d1 = dir_name d" using again(3) by blast
  have n1: "n_inodes t1 < 2 ^ 31" using again(2) assms(2) by simp
  have name1: "name_ok (dir_name d1 @ remote @ ''/'')" using assms(6) d1(2) by simp
  obtain t2 echo where t2: "FuseMkdir ev' parent remote t1 = Inr t2" "sends t2 = sends t1 @ echo"
    and echo: "announce (mpiRank t) w ?op = Inr echo"
    using mkdir_made [OF again(1) n1 d1(1) again(4) name1, of ev'] t1(3) again(5,6) d1(2) assms(9) by auto
  obtain f where "fill_name (dir_name d @ remote @ ''/'') = Inr f" "c_string f = Inr (dir_name d @ remote @ ''/'')"
    using fill_name_ok [OF assms(6)] by blast
  moreover from this echo have "arriving src echo = [RequestPacket CREATE_DIR, DirectoryCreationRequest f]"
    using assms(11,12) by (auto simp: sendCreateDirectoryRequest_def arriving_send_with_payload exec_simps)
  ultimately show ?thesis
    using steps t1 t2 assms(15) by (intro exI [of _ ?p'] exI [of _ t1] exI [of _ t2] exI [of _ echo] exI [of _ f]) simp
qed

theorem mkdir_race_witness:
  "\<exists>msgs p' t1 t2 f. announce 1 2 (remote_mkdir ''/x/'') = Inr msgs \<and>
     (start (new_DistributedCode 0 2 ''/mnt''))\<^sup>*\<^sup>* ((\<lambda>_. [])(1 := arriving 0 msgs), new_receiver demo_tree) (\<lambda>_. [], p') \<and>
     FuseMkdir demo_env 1 ''y'' (rx_fs p') = Inr t1 \<and> sends t1 = [] \<and>
     FuseMkdir demo_env 1 ''x'' t1 = Inr t2 \<and>
     arriving 1 (sends t2) = [RequestPacket CREATE_DIR, DirectoryCreationRequest f] \<and> c_string f = Inr ''/x/''"
proof -
  let ?d = "\<lparr>dir_name = ''/'', parentDir = None, m_children = [(''d'', 2), (''f'', 3)]\<rparr>"
  have tree: "fs_wf demo_tree" "Suc (n_inodes demo_tree) < 2 ^ 31" "is_dir demo_tree 1 ?d"
    "1 \<notin> set (DeletedINodes (INodeManager demo_tree))"
    by (simp_all add: demo_root_dir)
  have names: "name_ok (dir_name ?d @ ''y'' @ ''/'')" "name_ok (dir_name ?d @ ''x'' @ ''/'')"
    by (simp_all add: name_ok_def name_capacity_def)
  obtain msgs where msgs: "announce 1 2 (remote_mkdir ''/x/'') = Inr msgs"
    using announced_total [of "remote_mkdir ''/x/''" 1 2] names(2) by (simp del: announce.simps) blast
  have ranks: "code_rank (new_DistributedCode 0 2 ''/mnt'') = mpiRank demo_tree" "mpiWorldSize demo_tree = 2"
    "mpiRank demo_tree < 2" "(1 :: nat) < 2" "1 \<noteq> mpiRank demo_tree"
    by (simp_all add: new_DistributedCode_def demo_tree_def demo_fs_def Let_def)
  have fresh: "rx_running (new_receiver demo_tree)" "rx_awaiting (new_receiver demo_tree) = None"
    "rx_fs (new_receiver demo_tree) = demo_tree"
    by (simp_all add: new_receiver_def)
  have rank: "mpiRank demo_tree = 0" by (simp add: demo_tree_def demo_fs_def)
  have announced: "announce 1 2 (remote_mkdir (dir_name ?d @ ''x'' @ ''/'')) = Inr msgs" using msgs by simp
  obtain p' t1 t2 echo f where run: "\<forall>q rest. q 1 = arriving (mpiRank demo_tree) msgs @ rest \<longrightarrow>
      (start (new_DistributedCode 0 2 ''/mnt''))\<^sup>*\<^sup>* (q, new_receiver demo_tree) (q(1 := rest), p')"
    and made: "FuseMkdir demo_env 1 ''y'' (rx_fs p') = Inr t1" "sends t1 = sends demo_tree"
      "FuseMkdir demo_env 1 ''x'' t1 = Inr t2" "sends t2 = sends demo_tree @ echo"
      "arriving 1 echo = [RequestPacket CREATE_DIR, DirectoryCreationRequest f]" "c_string f = Inr (dir_name ?d @ ''x'' @ ''/'')"
    using mkdir_race [OF tree names announced ranks fresh, of demo_env demo_env] by (elim exE conjE, intro that)
  let ?q = "(\<lambda>_::nat. [])(1 := arriving 0 msgs)"
  have "?q 1 = arriving (mpiRank demo_tree) msgs @ []" "?q(1 := []) = (\<lambda>_. [])" using rank by auto
  then have "(start (new_DistributedCode 0 2 ''/mnt''))\<^sup>*\<^sup>* (?q, new_receiver demo_tree) (\<lambda>_. [], p')"
    using run [rule_format, of ?q "[]"] by simp
  with msgs made show ?thesis by auto
qed

end
