(* ===== verification/TreeModel.thy ===== *)
theory TreeModel
  imports Receiver
begin

text \<open>
  An abstract file system, the specification of what the namespace handlers do
  (\<^verbatim>\<open>ramfs/FileSystem.cpp\<close>): numbered nodes, directories as partial functions from names to numbers
  that know the path they were made with, requests as functions that give the new tree, the answers
  and what the other processes are told. No counters, times, owners, buffers or references.
\<close>

section \<open>Abstract nodes\<close>

datatype akind = ADir string "string \<rightharpoonup> fuse_ino_t" | AFile | ALink string | ASpecial

record anode =
  akind :: akind
  alinks :: u64

type_synonym atree = "anode list"

datatype areply = AErr errno | AEntry fuse_ino_t | ACreate fuse_ino_t | AOther

fun answer :: "reply \<Rightarrow> areply" where
  "answer (Reply_err e) = AErr e"
| "answer (Reply_entry ep) = AEntry (e_ino ep)"
| "answer (Reply_create ep) = ACreate (e_ino ep)"
| "answer _ = AOther"

definition node_abs :: "inode \<Rightarrow> anode" where
  "node_abs nd = \<lparr>akind = (case node_class nd of
       Directory d \<Rightarrow> ADir (dir_name d) (map_find (m_children d))
     | File _ \<Rightarrow> AFile | SymbolicLink l \<Rightarrow> ALink l | SpecialINode _ \<Rightarrow> ASpecial),
     alinks = st_nlink (attr nd)\<rparr>"

definition tree :: "fs_state \<Rightarrow> atree" where
  "tree s = map node_abs (INodes (INodeManager s))"

section \<open>Abstract requests\<close>

definition amod :: "fuse_ino_t \<Rightarrow> (anode \<Rightarrow> anode) \<Rightarrow> atree \<Rightarrow> atree" where
  "amod ino g T = T[unat ino := g (T ! unat ino)]"

definition add_links :: "u64 \<Rightarrow> anode \<Rightarrow> anode" where
  "add_links k nd = nd\<lparr>alinks := alinks nd + k\<rparr>"

definition children_update :: "((string \<rightharpoonup> fuse_ino_t) \<Rightarrow> (string \<rightharpoonup> fuse_ino_t)) \<Rightarrow> anode \<Rightarrow> anode" where
  "children_update h nd = (case akind nd of ADir path ch \<Rightarrow> nd\<lparr>akind := ADir path (h ch)\<rparr> | _ \<Rightarrow> nd)"

abbreviation set_child :: "string \<Rightarrow> fuse_ino_t \<Rightarrow> anode \<Rightarrow> anode" where
  "set_child name ino \<equiv> children_update (\<lambda>ch. ch(name \<mapsto> ino))"

abbreviation del_child :: "string \<Rightarrow> anode \<Rightarrow> anode" where
  "del_child name \<equiv> children_update (\<lambda>ch. ch(name := None))"

definition adir :: "atree \<Rightarrow> fuse_ino_t \<Rightarrow> (string \<times> (string \<rightharpoonup> fuse_ino_t)) option" where
  "adir T p = (if unat p < length T then (case akind (T ! unat p) of ADir path ch \<Rightarrow> Some (path, ch) | _ \<Rightarrow> None)
     else None)"

type_synonym astep = "areply list \<times> remote_op list \<times> atree"

definition in_dir ::
  "atree \<Rightarrow> fuse_ino_t \<Rightarrow> errno \<Rightarrow> (string \<Rightarrow> (string \<rightharpoonup> fuse_ino_t) \<Rightarrow> astep) \<Rightarrow> astep" where
  "in_dir T p e k =
     (if length T \<le> unat p then ([AErr ENOENT], [], T)
      else case adir T p of None \<Rightarrow> ([AErr e], [], T) | Some (path, ch) \<Rightarrow> k path ch)"

definition fresh :: "atree \<Rightarrow> fuse_ino_t" where
  "fresh T = of_nat (length T)"

definition a_lookup :: "fuse_ino_t \<Rightarrow> string \<Rightarrow> atree \<Rightarrow> astep" where
  "a_lookup p name T = in_dir T p ENOENT (\<lambda>path ch.
     case ch name of None \<Rightarrow> ([AErr ENOENT], [], T) | Some i \<Rightarrow> ([AEntry i], [], T))"

definition a_mkdir :: "fuse_ino_t \<Rightarrow> string \<Rightarrow> atree \<Rightarrow> astep" where
  "a_mkdir p name T = in_dir T p EISDIR (\<lambda>path ch.
     ([AEntry (fresh T)], [remote_mkdir (path @ name @ ''/'')],
      amod p (add_links 1) (amod p (set_child name (fresh T)) T) @
        [\<lparr>akind = ADir (path @ name @ ''/'') Map.empty, alinks = 2\<rparr>]))"

definition a_create :: "fuse_ino_t \<Rightarrow> string \<Rightarrow> atree \<Rightarrow> astep" where
  "a_create p name T = in_dir T p ENOENT (\<lambda>path ch.
     if length name > kMaxFilenameLength then ([AErr ENAMETOOLONG], [], T)
     else ([ACreate (fresh T)], [remote_create (path @ name)],
       amod p (set_child name (fresh T)) T @ [\<lparr>akind = AFile, alinks = 1\<rparr>]))"

text \<open>Nothing is announced for symbolic links, nodes and hard links.\<close>

definition a_symlink :: "string \<Rightarrow> fuse_ino_t \<Rightarrow> string \<Rightarrow> atree \<Rightarrow> astep" where
  "a_symlink link p name T = in_dir T p EISDIR (\<lambda>path ch.
     ([AEntry (fresh T)], [], amod p (set_child name (fresh T)) T @ [\<lparr>akind = ALink link, alinks = 1\<rparr>]))"

text \<open>A directory made by \<open>mknod\<close> does not know its path.\<close>

definition a_mknod :: "fuse_ino_t \<Rightarrow> string \<Rightarrow> u32 \<Rightarrow> atree \<Rightarrow> astep" where
  "a_mknod p name mode T = in_dir T p EISDIR (\<lambda>path ch.
     if length name > kMaxFilenameLength then ([AErr ENAMETOOLONG], [], T)
     else if S_ISDIR mode then
       ([AEntry (fresh T)], [], amod p (set_child name (fresh T)) (amod p (add_links 1) T) @
          [\<lparr>akind = ADir '''' Map.empty, alinks = 2\<rparr>])
     else if S_ISREG mode then
       ([AEntry (fresh T)], [], amod p (set_child name (fresh T)) T @ [\<lparr>akind = AFile, alinks = 1\<rparr>])
     else ([AErr ENOENT], [], T))"

definition a_unlink :: "fuse_ino_t \<Rightarrow> string \<Rightarrow> atree \<Rightarrow> astep" where
  "a_unlink p name T = in_dir T p EISDIR (\<lambda>path ch.
     case ch name of
       None \<Rightarrow> ([AErr ENOENT], [], T)
     | Some i \<Rightarrow> ([AErr ESUCCESS], [remote_delete (path @ name)],
         amod p (del_child name) (amod i (add_links (- 1)) T)))"

definition a_rmdir :: "fuse_ino_t \<Rightarrow> string \<Rightarrow> atree \<Rightarrow> astep" where
  "a_rmdir p name T = in_dir T p EISDIR (\<lambda>path ch.
     case ch name of
       None \<Rightarrow> ([AErr ENOENT], [], T)
     | Some i \<Rightarrow> (case adir T i of
           None \<Rightarrow> ([AErr EISDIR], [], T)
         | Some (ipath, ich) \<Rightarrow>
             if dom ich \<subseteq> {''.'', ''..''} then
               ([AErr ESUCCESS], [remote_rmdir ipath],
                amod p (del_child name) (amod i (\<lambda>nd. nd\<lparr>alinks := 0\<rparr>) (amod p (add_links (- 1)) T)))
             else ([AErr EPERM], [], T)))"

text \<open>A directory that is replaced moves one link from the old parent to the new one; paths stay.\<close>

definition a_rename :: "fuse_ino_t \<Rightarrow> string \<Rightarrow> fuse_ino_t \<Rightarrow> string \<Rightarrow> atree \<Rightarrow> astep" where
  "a_rename p name p' name' T = in_dir T p EISDIR (\<lambda>path ch.
     case ch name of
       None \<Rightarrow> ([AErr ENOENT], [], T)
     | Some i \<Rightarrow> in_dir T p' EISDIR (\<lambda>path' ch'.
         let T1 = (case ch' name' of
                     None \<Rightarrow> T
                   | Some e \<Rightarrow> if e \<noteq> 0 \<and> adir T e \<noteq> None then amod p' (add_links 1) (amod p (add_links (- 1)) T) else T)
         in ([AErr ESUCCESS], [remote_rename (path @ name) (path' @ name')],
             amod p (del_child name) (amod p' (set_child name' i) T1))))"

text \<open>A taken name is reported and taken all the same.\<close>

definition a_link :: "fuse_ino_t \<Rightarrow> fuse_ino_t \<Rightarrow> string \<Rightarrow> atree \<Rightarrow> astep" where
  "a_link ino p' name' T = in_dir T p' EISDIR (\<lambda>path' ch'.
     if length T \<le> unat ino then ([AErr ENOENT], [], T)
     else ((case ch' name' of None \<Rightarrow> [] | Some e \<Rightarrow> if e \<noteq> 0 then [AErr EEXIST] else []) @ [AEntry ino], [],
           amod ino (add_links 1) (amod p' (set_child name' ino) T)))"

text \<open>The requests about names; the others do not touch the tree.\<close>

fun a_request :: "fuse_call \<Rightarrow> atree \<Rightarrow> astep option" where
  "a_request (call_lookup p name) T = Some (a_lookup p name T)"
| "a_request (call_mknod p name mode) T = Some (a_mknod p name mode T)"
| "a_request (call_mkdir p name) T = Some (a_mkdir p name T)"
| "a_request (call_unlink p name) T = Some (a_unlink p name T)"
| "a_request (call_rmdir p name) T = Some (a_rmdir p name T)"
| "a_request (call_symlink link p name) T = Some (a_symlink link p name T)"
| "a_request (call_rename p name p' name') T = Some (a_rename p name p' name' T)"
| "a_request (call_link ino p' name') T = Some (a_link ino p' name' T)"
| "a_request (call_create p name flags) T = Some (a_create p name T)"
| "a_request _ T = None"

lemma in_dir_cases:
  assumes "in_dir T p e k = (rs, ops, T')"
  obtains "ops = []" "T' = T" | path ch where "adir T p = Some (path, ch)" "k path ch = (rs, ops, T')"
  using assms by (auto simp: in_dir_def adir_def split: if_splits option.splits)

lemma in_dir_found: "adir T p = Some (path, ch) \<Longrightarrow> in_dir T p e k = k path ch"
  by (auto simp: in_dir_def adir_def split: if_splits)

section \<open>The abstraction of the small updates\<close>

lemma length_tree [simp]: "length (tree s) = n_inodes s"
  by (simp add: tree_def n_inodes_def)

lemma length_amod [simp]: "length (amod ino g T) = length T"
  by (simp add: amod_def)

lemma nth_tree: "unat ino < n_inodes s \<Longrightarrow> tree s ! unat ino = node_abs (inode_at s ino)"
  by (simp add: tree_def inode_at_def n_inodes_def)

lemma tree_frame [simp]:
  "tree (reply r s) = tree s" "tree (sending m s) = tree s" "tree (UpdateUsedBlocks k s) = tree s"
  "tree (s\<lparr>BlocksManager := b\<rparr>) = tree s" "tree (s\<lparr>m_reclaimingINodes := x\<rparr>) = tree s"
  "tree (s\<lparr>dirIterators := its\<rparr>) = tree s"
  "tree (s\<lparr>createFileFromThread := x\<rparr>) = tree s" "tree (s\<lparr>deleteFileFromThread := x\<rparr>) = tree s"
  "tree (s\<lparr>createDirFromThread := x\<rparr>) = tree s" "tree (s\<lparr>deleteDirFromThread := x\<rparr>) = tree s"
  "tree (s\<lparr>renameFromThread := x\<rparr>) = tree s"
  by (simp_all add: tree_def)

lemma tree_modINode:
  assumes "unat ino < n_inodes s \<Longrightarrow> node_abs (g (inode_at s ino)) = h (node_abs (inode_at s ino))"
  shows "tree (modINode ino g s) = amod ino h (tree s)"
proof (cases "unat ino < n_inodes s")
  case True
  then show ?thesis
    using assms by (simp add: tree_def amod_def modINodeAt_def map_update inode_at_def n_inodes_def)
next
  case False
  then show ?thesis
    by (simp add: tree_def amod_def modINodeAt_def n_inodes_def map_update list_update_beyond)
qed

lemma amod_id: "amod ino (\<lambda>nd. nd) T = T"
  by (simp add: amod_def)

lemma tree_modINode_same:
  "(\<And>nd. node_abs (g nd) = node_abs nd) \<Longrightarrow> tree (modINode ino g s) = tree s"
  using tree_modINode [of ino s g "\<lambda>nd. nd"] by (simp add: amod_id)

lemma node_abs_updates [simp]:
  "node_abs (Lookup nd) = node_abs nd" "node_abs (Forget k nd) = node_abs nd"
  "node_abs (AddHardLink nd) = add_links 1 (node_abs nd)"
  "node_abs (RemoveHardLink nd) = add_links (- 1) (node_abs nd)"
  "node_abs (set_File f nd) = node_abs nd"
  "node_abs (set_Directory (\<lambda>d. fst (UpdateChild name ino d)) nd) = set_child name ino (node_abs nd)"
  by (simp_all add: node_abs_def add_links_def Lookup_def Forget_def AddHardLink_def RemoveHardLink_def
      markForDeletion_def set_File_def set_Directory_def children_update_def
      UpdateChild_def map_find_assign attr_def set_attr_def Let_def split: node_class.split)

lemma node_abs_RemoveAllHardLinks [simp]: "node_abs (RemoveAllHardLinks nd) = (node_abs nd)\<lparr>alinks := 0\<rparr>"
  by (simp add: node_abs_def RemoveAllHardLinks_spec)

lemma node_abs_set_attr:
  "(\<And>a. st_nlink (h a) = st_nlink a) \<Longrightarrow> node_abs (set_attr h nd) = node_abs nd"
  by (simp add: node_abs_def)

lemma node_abs_DeleteChild:
  assumes "\<And>d. node_class nd = Directory d \<Longrightarrow> dir_ok d"
  shows "node_abs (set_Directory (\<lambda>d. fst (DeleteChild name d)) nd) = del_child name (node_abs nd)"
  using assms
  by (auto simp: node_abs_def set_Directory_def children_update_def DeleteChild_def Let_def dir_ok_def
      map_find_erase attr_def split: node_class.split)

lemma tree_counts [simp]:
  "tree (modINode ino Lookup s) = tree s" "tree (modINode ino (Forget k) s) = tree s"
  "tree (modINode ino (set_File f) s) = tree s"
  by (rule tree_modINode_same; simp)+

lemma tree_links [simp]:
  "tree (modINode ino AddHardLink s) = amod ino (add_links 1) (tree s)"
  "tree (modINode ino RemoveHardLink s) = amod ino (add_links (- 1)) (tree s)"
  "tree (modINode ino RemoveAllHardLinks s) = amod ino (\<lambda>nd. nd\<lparr>alinks := 0\<rparr>) (tree s)"
  "tree (updateChildOf ino name i s) = amod ino (set_child name i) (tree s)"
  by (rule tree_modINode; simp)+

definition set_path :: "string \<Rightarrow> anode \<Rightarrow> anode" where
  "set_path path nd = (case akind nd of ADir old ch \<Rightarrow> nd\<lparr>akind := ADir path ch\<rparr> | _ \<Rightarrow> nd)"

definition set_target :: "string \<Rightarrow> anode \<Rightarrow> anode" where
  "set_target link nd = (case akind nd of ALink old \<Rightarrow> nd\<lparr>akind := ALink link\<rparr> | _ \<Rightarrow> nd)"

lemma node_abs_header:
  "node_abs (set_Directory (\<lambda>d. setDirName path (setParent p d)) nd) = set_path path (node_abs nd)"
  "node_abs (set_SymbolicLink link nd) = set_target link (node_abs nd)"
  by (simp_all add: node_abs_def set_Directory_def set_SymbolicLink_def set_path_def set_target_def
      setDirName_def setParent_def attr_def split: node_class.split)

lemma tree_header [simp]:
  "tree (modINode ino (set_Directory (\<lambda>d. setDirName path (setParent p d))) s) = amod ino (set_path path) (tree s)"
  "tree (modINode ino (set_SymbolicLink link) s) = amod ino (set_target link) (tree s)"
  by (rule tree_modINode; simp add: node_abs_header)+

lemma tree_set_attr: "(\<And>a. st_nlink (h a) = st_nlink a) \<Longrightarrow> tree (modINode ino (set_attr h) s) = tree s"
  by (rule tree_modINode_same) (rule node_abs_set_attr)

lemma tree_deleteChildOf:
  assumes "fs_wf s"
  shows "tree (deleteChildOf p name s) = amod p (del_child name) (tree s)"
  using fs_wf_dir_ok [OF assms]
  by (intro tree_modINode node_abs_DeleteChild) (simp add: cast_iff)

lemma tree_register_in:
  "\<not> reclaiming s \<Longrightarrow> tree (register_in nd s) = tree s @ [node_abs nd]"
  by (simp add: register_in_def tree_def UpdateUsedINodes_def)

lemma amod_append: "unat ino < length T \<Longrightarrow> amod ino g (T @ U) = amod ino g T @ U"
  by (simp add: amod_def nth_append list_update_append)

lemma amod_last: "unat ino = length T \<Longrightarrow> amod ino g (T @ [nd]) = T @ [g nd]"
  by (simp add: amod_def)

lemma adir_tree:
  "adir (tree s) p = (if unat p < n_inodes s then
     map_option (\<lambda>d. (dir_name d, map_find (m_children d))) (as_Directory (inode_at s p)) else None)"
  by (auto simp: adir_def nth_tree node_abs_def as_Directory_def split: node_class.split)

text \<open>The lookup of the code, whose absent value is a number, against the partial function.\<close>

lemma tree_lookup:
  assumes "fs_wf s" and "n_inodes s < 2 ^ 31" and "is_dir s p d"
  shows "ChildINodeNumberWithName d name = -1 \<longleftrightarrow> map_find (m_children d) name = None"
    and "map_find (m_children d) name = Some i \<Longrightarrow>
      ChildINodeNumberWithName d name = i \<and> unat i < n_inodes s"
proof -
  have bound: "unat i < n_inodes s" if "map_find (m_children d) name = Some i" for i
  proof -
    have "node_wf (n_inodes s) (inode_at s p)"
      using assms(1,3) by (auto simp: fs_wf_def nodes_wf_def n_inodes_def inode_at_def is_dir_def)
    moreover have "i \<in> snd ` set (m_children d)" using map_find_in_set [OF that] by force
    ultimately show ?thesis using assms(3) by (auto simp: node_wf_def is_dir_def cast_iff)
  qed
  have "(-1 :: fuse_ino_t) \<noteq> i" if "unat i < n_inodes s" for i
    using that assms(2) by (auto simp: unsigned_minus_1_eq_mask mask_eq_exp_minus_1)
  with bound show "ChildINodeNumberWithName d name = -1 \<longleftrightarrow> map_find (m_children d) name = None"
    by (auto simp: ChildINodeNumberWithName_def split: option.split)
  show "map_find (m_children d) name = Some i \<Longrightarrow> ChildINodeNumberWithName d name = i \<and> unat i < n_inodes s"
    using bound by (simp add: ChildINodeNumberWithName_def)
qed

lemma fs_wf_e_ino: "fs_wf s \<Longrightarrow> unat i < n_inodes s \<Longrightarrow> e_ino (m_fuseEntryParam (inode_at s i)) = i"
  by (simp add: fs_wf_def nodes_wf_def n_inodes_def inode_at_def)

end
