(* ===== verification/TreeRefine.thy ===== *)
theory TreeRefine
  imports TreeModel
begin

text \<open>
  The namespace handlers implement the abstract file system: each of them, on a well-formed state
  and with the names it announces short enough for the request packets, ends in the state the
  abstract request describes, with its answers and its announcements.
\<close>

section \<open>The flags of the receiver thread\<close>

fun flag :: "RequestType \<Rightarrow> fs_state \<Rightarrow> bool" where
  "flag CREATE_FILE s = createFileFromThread s"
| "flag DELETE_FILE s = deleteFileFromThread s"
| "flag CREATE_DIR s = createDirFromThread s"
| "flag DELETE_DIR s = deleteDirFromThread s"
| "flag RENAME s = renameFromThread s"
| "flag _ s = False"

fun lower_flag :: "RequestType \<Rightarrow> fs_state \<Rightarrow> fs_state" where
  "lower_flag CREATE_FILE s = s\<lparr>createFileFromThread := False\<rparr>"
| "lower_flag DELETE_FILE s = s\<lparr>deleteFileFromThread := False\<rparr>"
| "lower_flag CREATE_DIR s = s\<lparr>createDirFromThread := False\<rparr>"
| "lower_flag DELETE_DIR s = s\<lparr>deleteDirFromThread := False\<rparr>"
| "lower_flag RENAME s = s\<lparr>renameFromThread := False\<rparr>"
| "lower_flag _ s = s"

fun op_request :: "remote_op \<Rightarrow> RequestType" where
  "op_request (remote_create name) = CREATE_FILE"
| "op_request (remote_delete name) = DELETE_FILE"
| "op_request (remote_mkdir path) = CREATE_DIR"
| "op_request (remote_rmdir path) = DELETE_DIR"
| "op_request (remote_rename old new) = RENAME"
| "op_request (remote_write ino fileSize) = WRITE"
| "op_request (remote_read ino fileSize reqSize off) = READ"

lemma flag_simps [simp]:
  "flag t (reply r s) = flag t s" "flag t (sending m s) = flag t s" "flag t (modINode ino g s) = flag t s"
  "flag t (register_in nd s) = flag t s" "flag t (s\<lparr>BlocksManager := b\<rparr>) = flag t s"
  "flag t (s\<lparr>INodeManager := ns\<rparr>) = flag t s" "flag t (s\<lparr>m_reclaimingINodes := x\<rparr>) = flag t s"
  "flag t (lower_flag u s) = (flag t s \<and> t \<noteq> u)"
  by (cases t; cases u; simp)+

lemma lower_flag_simps [simp]:
  "INodeManager (lower_flag t s) = INodeManager s" "replies (lower_flag t s) = replies s"
  "sends (lower_flag t s) = sends s" "mpiRank (lower_flag t s) = mpiRank s"
  "mpiWorldSize (lower_flag t s) = mpiWorldSize s" "tree (lower_flag t s) = tree s"
  "m_reclaimingINodes (lower_flag t s) = m_reclaimingINodes s"
  by (cases t; simp)+

lemma flag_raise [simp]: "flag t (raise_flag op s) = (flag t s \<or> t = op_request op \<and> t \<noteq> WRITE \<and> t \<noteq> READ)"
  by (cases op; cases t; simp)

section \<open>Meeting a specification\<close>

text \<open>What a handler leaves alone, whatever it does to the tree.\<close>

definition same_session :: "fs_state \<Rightarrow> fs_state \<Rightarrow> bool" where
  "same_session s t \<longleftrightarrow>
     mpiRank t = mpiRank s \<and> mpiWorldSize t = mpiWorldSize s \<and>
     DeletedINodes (INodeManager t) = DeletedINodes (INodeManager s) \<and>
     (m_reclaimingINodes t \<longrightarrow> m_reclaimingINodes s)"

lemma same_session_refl [simp]: "same_session s s"
  by (simp add: same_session_def)

lemma same_session_updates [simp]:
  "same_session s (reply r t) = same_session s t" "same_session s (sending m t) = same_session s t"
  "same_session s (modINode ino g t) = same_session s t"
  "same_session s (t\<lparr>BlocksManager := b\<rparr>) = same_session s t"
  "same_session s (lower_flag u t) = same_session s t"
  by (simp_all add: same_session_def modINodeAt_def)

lemma same_session_register [simp]: "\<not> reclaiming t \<Longrightarrow> same_session s t \<Longrightarrow> same_session s (register_in nd t)"
  by (simp add: same_session_def) (simp add: register_in_def UpdateUsedINodes_def)

text \<open>What is announced: nothing that the receiver thread has asked for.\<close>

definition own :: "fs_state \<Rightarrow> remote_op list \<Rightarrow> remote_op list" where
  "own s ops = filter (\<lambda>op. \<not> flag (op_request op) s) ops"

definition meets :: "fs_state \<Rightarrow> fs_state exec \<Rightarrow> astep \<Rightarrow> bool" where
  "meets s m st \<longleftrightarrow> (case st of (rs, ops, T) \<Rightarrow>
     (\<forall>op\<in>set (own s ops). list_all name_ok (op_names op)) \<longrightarrow>
     (\<exists>s' ps msgs. m = Inr s' \<and> tree s' = T \<and> same_session s s' \<and>
        replies s' = replies s @ ps \<and> map answer ps = rs \<and>
        announce_all (mpiRank s) (mpiWorldSize s) (own s ops) = Inr msgs \<and> sends s' = sends s @ msgs \<and>
        (\<forall>t. flag t s' = (flag t s \<and> t \<notin> op_request ` set ops))))"

definition effect :: "fs_state \<Rightarrow> fs_state \<Rightarrow> areply list \<Rightarrow> atree \<Rightarrow> bool" where
  "effect s t rs T \<longleftrightarrow> tree t = T \<and> same_session s t \<and> (\<exists>ps. replies t = replies s @ ps \<and> map answer ps = rs) \<and>
     sends t = sends s \<and> (\<forall>u. flag u t = flag u s)"

lemma meets_done: "effect s t rs T \<Longrightarrow> meets s (Inr t) (rs, [], T)"
  by (auto simp: meets_def own_def announce_all_def effect_def)

lemma meets_told:
  assumes e: "effect s t rs T"
    and "flag (op_request op) t \<Longrightarrow> m = Inr (lower_flag (op_request op) t)"
    and "\<And>msgs. \<not> flag (op_request op) t \<Longrightarrow> announce (mpiRank t) (mpiWorldSize t) op = Inr msgs \<Longrightarrow>
           \<exists>t'. m = Inr t' \<and> (t' = sending msgs t \<or> t' = lower_flag (op_request op) (sending msgs t))"
  shows "meets s m (rs, [op], T)"
proof (cases "flag (op_request op) s")
  case True
  then show ?thesis
    using assms by (auto simp: meets_def own_def announce_all_def effect_def)
next
  case False
  have ranks: "mpiRank t = mpiRank s" "mpiWorldSize t = mpiWorldSize s"
    and flags: "flag u t = flag u s" for u
    using e by (simp_all add: effect_def same_session_def)
  obtain ps where ps: "tree t = T" "same_session s t" "replies t = replies s @ ps" "map answer ps = rs" "sends t = sends s"
    using e by (auto simp: effect_def)
  have "\<exists>s' ps' msgs. m = Inr s' \<and> tree s' = T \<and> same_session s s' \<and> replies s' = replies s @ ps' \<and>
      map answer ps' = rs \<and> announce_all (mpiRank s) (mpiWorldSize s) [op] = Inr msgs \<and>
      sends s' = sends s @ msgs \<and> (\<forall>u. flag u s' = (flag u s \<and> u \<noteq> op_request op))"
    if names: "list_all name_ok (op_names op)"
  proof -
    obtain msgs where msgs: "announce (mpiRank s) (mpiWorldSize s) op = Inr msgs"
      using announced_total [OF names] by blast
    then obtain t' where t': "m = Inr t'" "t' = sending msgs t \<or> t' = lower_flag (op_request op) (sending msgs t)"
      using assms(3) flags False ranks by auto
    have "tree t' = T \<and> same_session s t' \<and> replies t' = replies s @ ps \<and> sends t' = sends s @ msgs"
      using t'(2) by (elim disjE) (simp_all add: ps)
    moreover have "flag u t' = (flag u s \<and> u \<noteq> op_request op)" for u
      using t'(2) False by (elim disjE) (auto simp: flags)
    moreover have "announce_all (mpiRank s) (mpiWorldSize s) [op] = Inr msgs"
      using msgs by (simp add: announce_all_def)
    ultimately show ?thesis using t'(1) ps(4) by blast
  qed
  with False show ?thesis by (simp add: meets_def own_def)
qed

text \<open>The closing lines of the five handlers that announce.\<close>

lemma meets_closing:
  "effect s t rs T \<Longrightarrow> meets s
     (andThen (if createFileFromThread t then Inr t
        else andThen (sendCreateFileRequest name (mpiRank t) (mpiWorldSize t)) (\<lambda>msgs. Inr (sending msgs t)))
        (\<lambda>u. Inr (u\<lparr>createFileFromThread := False\<rparr>))) (rs, [remote_create name], T)"
  "effect s t rs T \<Longrightarrow> meets s
     (andThen (if deleteFileFromThread t then Inr t
        else andThen (sendDeleteFileRequest name (mpiRank t) (mpiWorldSize t)) (\<lambda>msgs. Inr (sending msgs t)))
        (\<lambda>u. Inr (u\<lparr>deleteFileFromThread := False\<rparr>))) (rs, [remote_delete name], T)"
  "effect s t rs T \<Longrightarrow> meets s
     (andThen (if createDirFromThread t then Inr t
        else andThen (sendCreateDirectoryRequest name (mpiRank t) (mpiWorldSize t)) (\<lambda>msgs. Inr (sending msgs t)))
        (\<lambda>u. Inr (u\<lparr>createDirFromThread := False\<rparr>))) (rs, [remote_mkdir name], T)"
  "effect s t rs T \<Longrightarrow> meets s
     (andThen (if deleteDirFromThread t then Inr t
        else andThen (sendDeleteDirectoryRequest name (mpiRank t) (mpiWorldSize t)) (\<lambda>msgs. Inr (sending msgs t)))
        (\<lambda>u. Inr (u\<lparr>deleteDirFromThread := False\<rparr>))) (rs, [remote_rmdir name], T)"
  "effect s t rs T \<Longrightarrow> meets s
     (if renameFromThread t then Inr (t\<lparr>renameFromThread := False\<rparr>)
      else andThen (sendRenameRequest name name' (mpiRank t) (mpiWorldSize t)) (\<lambda>msgs. Inr (sending msgs t)))
     (rs, [remote_rename name name'], T)"
  by (rule meets_told; force)+

lemma meets_on_directory:
  assumes "n_inodes s < 2 ^ 31"
    and "\<And>d. is_dir s p d \<Longrightarrow> meets s (k d) (K (dir_name d) (map_find (m_children d)))"
  shows "meets s (on_directory p e s k) (in_dir (tree s) p e K)"
proof (cases "unat p < n_inodes s")
  case True
  show ?thesis
  proof (cases "as_Directory (inode_at s p)")
    case None
    with True show ?thesis
      by (auto simp: on_directory_other [OF assms(1)] in_dir_def adir_tree
          effect_def intro!: meets_done)
  next
    case (Some d)
    with True assms(2) [of d] show ?thesis
      by (simp add: on_directory_found [OF assms(1)] in_dir_def adir_tree is_dir_def)
  qed
next
  case False
  then show ?thesis
    by (auto simp: on_directory_absent [OF assms(1)] in_dir_def effect_def intro!: meets_done)
qed

section \<open>The handlers\<close>

text \<open>A state in which the next registration appends.\<close>

definition ready :: "fs_state \<Rightarrow> bool" where
  "ready s \<longleftrightarrow> fs_wf s \<and> n_inodes s < 2 ^ 31 \<and> \<not> reclaiming s"

lemma ready_facts:
  assumes "ready s"
  shows "fs_wf s" "n_inodes s < 2 ^ 31" "n_inodes s < 2 ^ 63" "\<not> reclaiming s"
    "unat (next_ino s) = n_inodes s" "next_ino s = fresh (tree s)"
    "RegisterINode ev type mode nlink gid uid s =
       Inr (register_in (registered_inode ev type (next_ino s) mode nlink gid uid) s, next_ino s)"
proof -
  show wf: "fs_wf s" and "n_inodes s < 2 ^ 31" and n: "n_inodes s < 2 ^ 63" and r: "\<not> reclaiming s"
    using assms by (auto simp: ready_def)
  show "unat (next_ino s) = n_inodes s" by (rule next_ino_fresh [OF n r])
  show "next_ino s = fresh (tree s)" using r by (simp add: next_ino_def fresh_def)
  show "RegisterINode ev type mode nlink gid uid s =
       Inr (register_in (registered_inode ev type (next_ino s) mode nlink gid uid) s, next_ino s)"
    by (rule RegisterINode_eq [OF wf n])
qed

lemma node_abs_registered:
  "node_abs (registered_inode ev DIRECTORY ino m nl g u) = \<lparr>akind = ADir '''' Map.empty, alinks = nl\<rparr>"
  "node_abs (registered_inode ev REGULAR_FILE ino m nl g u) = \<lparr>akind = AFile, alinks = nl\<rparr>"
  "node_abs (registered_inode ev SYMBOLIC_LINK ino m nl g u) = \<lparr>akind = ALink '''', alinks = nl\<rparr>"
  by (simp_all add: node_abs_def new_Directory_def fun_eq_iff)

lemma parent_of_new:
  assumes "ready s" and "is_dir s p d"
  shows "parent_alive p (next_ino s) = Inr ()" and "unat p < n_inodes s" and "p \<noteq> next_ino s"
  using ready_facts(5) [OF assms(1)] assms(2) by (auto simp: parent_alive_def is_dir_def)

text \<open>Opening a creation: the registration cannot fail and does not take the number of the parent.\<close>

lemma meets_registered:
  assumes "ready s" and "is_dir s p d"
    and "\<And>nd ino. nd = registered_inode ev ty ino m nl g u \<Longrightarrow> ino = fresh (tree s) \<Longrightarrow> unat ino = n_inodes s \<Longrightarrow>
       unat p < n_inodes s \<Longrightarrow> p \<noteq> ino \<Longrightarrow> tree (register_in nd s) = tree s @ [node_abs nd] \<Longrightarrow>
       n_inodes (register_in nd s) = Suc (n_inodes s) \<Longrightarrow> inode_at (register_in nd s) ino = nd \<Longrightarrow>
       meets s0 (k (register_in nd s) ino) st"
  shows "meets s0 (andThen (RegisterINode ev ty m nl g u s) (\<lambda>(s1, ino). andThen (parent_alive p ino) (\<lambda>_. k s1 ino))) st"
  using assms(3) [OF refl ready_facts(6,5) [OF assms(1)] parent_of_new(2,3) [OF assms(1,2)]]
    parent_of_new(1) [OF assms(1,2)] tree_register_in [OF ready_facts(4) [OF assms(1)]]
    inode_at_register_in [OF ready_facts(1,3) [OF assms(1)]] ready_facts(4) [OF assms(1)]
  by (simp add: ready_facts(7) [OF assms(1)] n_inodes_register_in)

lemmas new_node = effect_def amod_append amod_last node_abs_registered set_path_def set_target_def inode_at_modINode

lemma meets_mkdir:
  assumes r: "ready s"
  shows "meets s (FuseMkdir ev p name s) (a_mkdir p name (tree s))"
  unfolding FuseMkdir_def a_mkdir_def
proof (rule meets_on_directory [OF ready_facts(2) [OF r]], goal_cases)
  case (1 d)
  show ?case
    unfolding Let_def
    by (rule meets_registered [OF r 1], rule meets_closing) (simp add: ready_facts(4) [OF r] new_node)
qed

lemma meets_symlink:
  assumes r: "ready s"
  shows "meets s (FuseSymlink ev link p name s) (a_symlink link p name (tree s))"
  unfolding FuseSymlink_def a_symlink_def
proof (rule meets_on_directory [OF ready_facts(2) [OF r]], goal_cases)
  case (1 d)
  show ?case
    unfolding Let_def
    by (rule meets_registered [OF r 1], rule meets_done) (simp add: ready_facts(4) [OF r] new_node)
qed

lemma effect_truncated:
  "effect s t rs T \<Longrightarrow> effect s (if c then modINode ino (set_attr (\<lambda>a. a\<lparr>st_size := 0, st_blocks := 0\<rparr>)) t else t) rs T"
  by (simp add: effect_def tree_set_attr)

lemma effect_reply: "effect s t [] T \<Longrightarrow> rs = [answer r] \<Longrightarrow> effect s (reply r t) rs T"
  by (auto simp: effect_def)

lemma meets_error: "effect s s [] T \<Longrightarrow> meets s (Inr (reply_err e s)) ([AErr e], [], T)"
  by (rule meets_done, rule effect_reply) simp_all

lemma effect_refl: "effect s s [] (tree s)"
  by (simp add: effect_def)

lemma meets_create:
  assumes r: "ready s"
  shows "meets s (FuseCreate ev p name flags s) (a_create p name (tree s))"
  unfolding FuseCreate_def a_create_def
proof (rule meets_on_directory [OF ready_facts(2) [OF r]], goal_cases)
  case (1 d)
  show ?case
  proof (cases "length name > kMaxFilenameLength")
    case True
    then show ?thesis by (simp add: meets_error effect_refl)
  next
    case False
    show ?thesis
      unfolding Let_def if_not_P [OF False]
      apply (rule meets_registered [OF r 1], rule meets_closing, rule effect_reply, rule effect_truncated)
       apply (simp_all add: ready_facts(4) [OF r] new_node)
      done
  qed
qed

lemma ready_modINode: "ready s \<Longrightarrow> unat i < n_inodes s \<Longrightarrow> keeps_node (n_inodes s) g \<Longrightarrow> ready (modINode i g s)"
  by (simp add: ready_def fs_wf_modINode) (simp add: reclaiming_def getNumberOfDeletedINodes_def)

lemma is_dir_modINode:
  "is_dir s p d \<Longrightarrow> (\<And>nd. as_Directory (g nd) = as_Directory nd) \<Longrightarrow> is_dir (modINode p g s) p d"
  by (simp add: is_dir_def inode_at_modINode)

lemma meets_mknod:
  assumes r: "ready s"
  shows "meets s (FuseMknod ev p name mode s) (a_mknod p name mode (tree s))"
  unfolding FuseMknod_def a_mknod_def
proof (rule meets_on_directory [OF ready_facts(2) [OF r]], goal_cases)
  case (1 d)
  have "unat p < n_inodes s" using 1 by (simp add: is_dir_def)
  then have r': "ready (modINode p AddHardLink s)" and d': "is_dir (modINode p AddHardLink s) p d"
    using ready_modINode [OF r] is_dir_modINode [OF 1] by (simp_all add: keeps)
  consider "length name > kMaxFilenameLength \<or> \<not> S_ISDIR mode \<and> \<not> S_ISREG mode"
    | "\<not> length name > kMaxFilenameLength" "S_ISDIR mode"
    | "\<not> length name > kMaxFilenameLength" "\<not> S_ISDIR mode" "S_ISREG mode"
    by blast
  then show ?case
  proof cases
    case 1
    then show ?thesis by (auto simp: meets_error effect_refl)
  next
    case 2
    then show ?thesis
      unfolding Let_def
      apply (simp only: if_True if_False simp_thms prod.case)
      apply (rule meets_registered [OF r' d'], rule meets_done, rule effect_reply)
       apply (simp_all add: ready_facts(4) [OF r'] new_node fresh_def)
      done
  next
    case 3
    then show ?thesis
      unfolding Let_def
      apply (simp only: if_True if_False simp_thms prod.case)
      apply (rule meets_registered [OF r \<open>is_dir s p d\<close>], rule meets_done, rule effect_reply)
       apply (simp_all add: ready_facts(4) [OF r] new_node)
      done
  qed
qed

lemma meets_lookup:
  assumes "fs_wf s" and n: "n_inodes s < 2 ^ 31"
  shows "meets s (FuseLookup p name s) (a_lookup p name (tree s))"
  unfolding FuseLookup_def a_lookup_def
proof (rule meets_on_directory [OF n], goal_cases)
  case (1 d)
  note child = tree_lookup [OF assms 1, of name]
  show ?case
  proof (cases "map_find (m_children d) name")
    case None
    then show ?thesis using child(1) by (simp add: Let_def meets_error effect_refl)
  next
    case (Some i)
    then show ?thesis
      using child assms(1)
      by (auto simp: Let_def getINode_total inode_at_modINode effect_def fs_wf_e_ino intro!: meets_done)
  qed
qed

lemma meets_unlink:
  assumes wf: "fs_wf s" and n: "n_inodes s < 2 ^ 31"
  shows "meets s (FuseUnlink p name s) (a_unlink p name (tree s))"
  unfolding FuseUnlink_def a_unlink_def
proof (rule meets_on_directory [OF n], goal_cases)
  case (1 d)
  note child = tree_lookup [OF assms 1, of name]
  show ?case
  proof (cases "map_find (m_children d) name")
    case None
    then show ?thesis using child(1) by (simp add: Let_def meets_error effect_refl)
  next
    case (Some i)
    with child have i: "ChildINodeNumberWithName d name = i" "i \<noteq> -1" "unat i < n_inodes s" by auto
    show ?thesis
      unfolding Let_def i(1) if_not_P [OF i(2)] getINode_total [OF i(3)] Some option.case andThen.simps
      by (rule meets_closing, rule effect_reply)
        (simp_all add: effect_def tree_deleteChildOf fs_wf_modINode wf i(3) keeps)
  qed
qed

lemma no_children: "hasChildren c \<longleftrightarrow> \<not> dom (map_find (m_children c)) \<subseteq> {''.'', ''..''}"
proof -
  have "dom (map_find (m_children c)) = fst ` set (m_children c)"
    by (simp add: map_find_def dom_map_of_conv_image_fst [symmetric] dom_def)
  then show ?thesis unfolding hasChildren_iff by force
qed

lemma meets_rmdir:
  assumes wf: "fs_wf s" and n: "n_inodes s < 2 ^ 31"
  shows "meets s (FuseRmdir p name s) (a_rmdir p name (tree s))"
  unfolding FuseRmdir_def a_rmdir_def
proof (rule meets_on_directory [OF n], goal_cases)
  case (1 d)
  note child = tree_lookup [OF assms 1, of name]
  have p: "unat p < n_inodes s" using 1 by (simp add: is_dir_def)
  show ?case
  proof (cases "map_find (m_children d) name")
    case None
    then show ?thesis using child(1) by (simp add: Let_def meets_error effect_refl)
  next
    case (Some i)
    with child have i: "ChildINodeNumberWithName d name = i" "i \<noteq> -1" "unat i < n_inodes s" by auto
    note opened = Let_def i(1) if_not_P [OF i(2)] getINode_total [OF i(3)] Some option.case andThen.simps
    show ?thesis
    proof (cases "as_Directory (inode_at s i)")
      case None
      then show ?thesis unfolding opened by (simp add: adir_tree i(3) meets_error effect_refl)
    next
      case c: (Some c)
      have "effect s (reply_err ESUCCESS (deleteChildOf p name (modINode i RemoveAllHardLinks (modINode p RemoveHardLink s))))
          [AErr ESUCCESS]
          (amod p (del_child name) (amod i (\<lambda>nd. nd\<lparr>alinks := 0\<rparr>) (amod p (add_links (- 1)) (tree s))))"
        by (rule effect_reply) (simp_all add: effect_def tree_deleteChildOf fs_wf_modINode wf i(3) p keeps)
      note closing = meets_closing(4) [OF this]
      show ?thesis
        unfolding opened
        using closing by (simp add: adir_tree i(3) c no_children meets_error effect_refl)
    qed
  qed
qed

lemma as_Directory_adir:
  "unat i < n_inodes s \<Longrightarrow> as_Directory (inode_at s i) = None \<longleftrightarrow> adir (tree s) i = None"
  by (simp add: adir_tree)

lemma meets_rename:
  assumes wf: "fs_wf s" and n: "n_inodes s < 2 ^ 31"
  shows "meets s (FuseRename p name p' name' s) (a_rename p name p' name' (tree s))"
  unfolding FuseRename_def a_rename_def
proof (rule meets_on_directory [OF n], goal_cases)
  case d: (1 d)
  note child = tree_lookup [OF assms d, of name]
  have p: "unat p < n_inodes s" using d by (simp add: is_dir_def)
  show ?case
  proof (cases "map_find (m_children d) name")
    case None
    then show ?thesis using child(1) by (simp add: Let_def meets_error effect_refl)
  next
    case (Some i)
    with child have i: "ChildINodeNumberWithName d name = i" "i \<noteq> -1" "unat i < n_inodes s" by auto
    show ?thesis
      unfolding Let_def i(1) if_not_P [OF i(2)] Some option.case
    proof (rule meets_on_directory [OF n], goal_cases)
      case d': (1 d')
      note child' = tree_lookup [OF assms d', of name']
      have p': "unat p' < n_inodes s" using d' by (simp add: is_dir_def)
      let ?T = "case map_find (m_children d') name' of None \<Rightarrow> tree s
        | Some e \<Rightarrow> if e \<noteq> 0 \<and> adir (tree s) e \<noteq> None then amod p' (add_links 1) (amod p (add_links (- 1)) (tree s)) else tree s"
      obtain s1 where s1: "(if ChildINodeNumberWithName d' name' \<noteq> -1 \<and> ChildINodeNumberWithName d' name' > 0 then
          andThen (getINode s (ChildINodeNumberWithName d' name')) (\<lambda>existing.
            if as_Directory existing \<noteq> None then Inr (modINode p' AddHardLink (modINode p RemoveHardLink s)) else Inr s)
          else Inr s) = Inr s1"
        and e: "effect s s1 [] ?T" "fs_wf s1" "n_inodes s1 = n_inodes s"
      proof (cases "map_find (m_children d') name'")
        case None
        with child'(1) wf show ?thesis by (intro that [of s]) (simp_all add: effect_refl)
      next
        case (Some e)
        with child' have e: "ChildINodeNumberWithName d' name' = e" "e \<noteq> -1" "unat e < n_inodes s" by auto
        note cls = as_Directory_adir [OF e(3)]
        show ?thesis
        proof (cases "e \<noteq> 0 \<and> adir (tree s) e \<noteq> None")
          case True
          with Some e p p' wf show ?thesis
            by (intro that [of "modINode p' AddHardLink (modINode p RemoveHardLink s)"])
              (simp_all add: word_gt_0 getINode_total cls effect_def fs_wf_modINode keeps del: not_None_eq)
        next
          case False
          with Some e wf show ?thesis
            by (intro that [of s]) (auto simp: word_gt_0 getINode_total cls effect_refl simp del: not_None_eq)
        qed
      qed
      have "effect s (reply_err ESUCCESS (deleteChildOf p name (updateChildOf p' name' i s1))) [AErr ESUCCESS]
          (amod p (del_child name) (amod p' (set_child name' i) ?T))"
        using e i(3) p'
        by (intro effect_reply) (simp_all add: effect_def tree_deleteChildOf fs_wf_modINode keeps)
      note closing = meets_closing(5) [OF this]
      show ?case
        unfolding s1 andThen.simps using closing by simp
    qed
  qed
qed

lemma meets_link:
  assumes wf: "fs_wf s" and n: "n_inodes s < 2 ^ 31"
  shows "meets s (FuseLink i p' name' s) (a_link i p' name' (tree s))"
  unfolding FuseLink_def a_link_def
proof (rule meets_on_directory [OF n], goal_cases)
  case d: (1 d)
  note child = tree_lookup [OF assms d, of name']
  have p': "unat p' < n_inodes s" using d by (simp add: is_dir_def)
  show ?case
  proof (cases "unat i < n_inodes s")
    case False
    then show ?thesis by (simp add: no_such_ino_iff [OF n] meets_error effect_refl)
  next
    case i: True
    let ?x = "ChildINodeNumberWithName d name'"
    let ?rs = "case map_find (m_children d) name' of None \<Rightarrow> [] | Some e \<Rightarrow> if e \<noteq> 0 then [AErr EEXIST] else []"
    define s1 where "s1 = (if ?x \<noteq> -1 \<and> ?x > 0 then reply_err EEXIST s else s)"
    have "map answer (replies s1) = map answer (replies s) @ ?rs"
      using child by (auto simp: s1_def word_gt_0 split: option.split)
    moreover have "inode_at s1 = inode_at s" "n_inodes s1 = n_inodes s" by (auto simp: s1_def)
    moreover have "effect s s1 ?rs (tree s)"
      using child by (auto simp: s1_def effect_def word_gt_0 split: option.split)
    ultimately show ?thesis
      unfolding Let_def s1_def [symmetric]
      using i p' wf
      by (auto simp: no_such_ino_iff [OF n] getINode_total effect_def inode_at_modINode fs_wf_e_ino
          intro!: meets_done)
  qed
qed

end
