(* ===== verification/TreeRun.thy ===== *)
theory TreeRun
  imports TreeRefine
begin

text \<open>
  Runs of requests against the abstract file system: the requests that are not about names leave
  the tree, the announcements and the flags alone, and a forward simulation carries the step by step
  agreement over to runs from the mounted state.
\<close>

section \<open>The other requests\<close>

definition untouched :: "fs_state \<Rightarrow> fs_state \<Rightarrow> bool" where
  "untouched s t \<longleftrightarrow> tree t = tree s \<and> same_session s t \<and> sends t = sends s \<and> (\<forall>u. flag u t = flag u s)"

lemma untouched_refl [simp]: "untouched s s"
  by (simp add: untouched_def)

lemma UpdateUsedBlocks_rest [simp]:
  "m_reclaimingINodes (UpdateUsedBlocks k s) = m_reclaimingINodes s" "flag u (UpdateUsedBlocks k s) = flag u s"
  by (cases u; simp add: UpdateUsedBlocks_def)+

lemma untouched_updates [simp]:
  "untouched s (reply r t) = untouched s t" "untouched s (UpdateUsedBlocks k t) = untouched s t"
  "untouched s (t\<lparr>dirIterators := its\<rparr>) = untouched s t"
  "untouched s (set_buf ino b t) = untouched s t"
proof -
  have its: "flag u (t\<lparr>dirIterators := its\<rparr>) = flag u t" for u by (cases u) simp_all
  show "untouched s (t\<lparr>dirIterators := its\<rparr>) = untouched s t"
    by (simp add: untouched_def same_session_def its)
qed (simp_all add: untouched_def same_session_def set_buf_def)

lemma untouched_modINode:
  "(\<And>nd. node_abs (g nd) = node_abs nd) \<Longrightarrow> untouched s (modINode ino g t) = untouched s t"
  by (simp add: untouched_def tree_modINode_same)

lemma untouched_set_attr [simp]:
  "(\<And>a. st_nlink (h a) = st_nlink a) \<Longrightarrow> untouched s (modINode ino (set_attr h) t) = untouched s t"
  "untouched s (modINode ino (set_File f) t) = untouched s t"
  by (rule untouched_modINode; simp add: node_abs_set_attr)+

lemma untouched_SetINodeAttributes [simp]:
  "untouched s (modINode ino (SetINodeAttributes now at to_set) t) = untouched s t"
  by (rule untouched_modINode) (simp add: SetINodeAttributes_def Let_def node_abs_def)

lemma untouched_const:
  assumes "node_class nd = node_class (inode_at t ino)" and "m_fuseEntryParam nd = m_fuseEntryParam (inode_at t ino)"
  shows "untouched s (modINode ino (\<lambda>_. nd) t) = untouched s t"
proof -
  have "tree (modINode ino (\<lambda>_. nd) t) = amod ino (\<lambda>x. x) (tree t)"
    using assms by (intro tree_modINode) (simp add: node_abs_def attr_def)
  then show ?thesis by (simp add: untouched_def amod_id)
qed

definition still :: "fs_state \<Rightarrow> fs_state exec \<Rightarrow> bool" where
  "still s m \<longleftrightarrow> (\<forall>s'. m = Inr s' \<longrightarrow> untouched s s')"

lemma still_basic:
  "still s (Inl e)" "untouched s t \<Longrightarrow> still s (Inr t)"
  "(c \<Longrightarrow> still s a) \<Longrightarrow> (\<not> c \<Longrightarrow> still s b) \<Longrightarrow> still s (if c then a else b)"
  by (simp_all add: still_def)

lemma still_andThen: "(\<And>x. m = Inr x \<Longrightarrow> still s (k x)) \<Longrightarrow> still s (andThen m k)"
  by (auto simp: still_def)

lemma still_option:
  "still s a \<Longrightarrow> (\<And>y. still s (b y)) \<Longrightarrow> still s (case x of None \<Rightarrow> a | Some y \<Rightarrow> b y)"
  by (cases x) simp_all

lemma still_pair:
  "(\<And>a b. m = Inr (a, b) \<Longrightarrow> still s (h a b)) \<Longrightarrow> still s (andThen m (\<lambda>(a, b). h a b))"
  by (auto simp: still_def)

lemmas still_rules = still_option still_pair still_basic still_andThen

lemma attribute_calls_still:
  "still s (FuseGetAttr ino s)" "still s (FuseSetAttr ev ino at to_set s)"
  "still s (FuseReadLink ino s)" "still s (FuseStatfs ino s)" "still s (FuseAccess ev ino amask s)"
  "still s (FuseGetLock ino s)" "still s (FuseFsync ino s)" "still s (FuseGetXAttr ino nm sz s)"
  "still s (FuseListXAttr ev ino sz s)"
  "still s (FuseOpenDir ino s)" "still s (FuseReleaseDir ino s)" "still s (FuseFsyncDir ino s)"
  "still s (FuseReadDir esz ev ino n pos s)" "still s (FuseRelease ino s)"
  unfolding FuseGetAttr_def FuseSetAttr_def FuseReadLink_def FuseStatfs_def FuseAccess_def FuseGetLock_def
    FuseFsync_def FuseGetXAttr_def FuseListXAttr_def FuseOpenDir_def FuseReleaseDir_def FuseFsyncDir_def
    FuseReadDir_def FuseRelease_def Let_def
  by (intro still_rules; simp)+

lemma content_calls_still:
  "still s (FuseRead ev ino sz off s)" "still s (FuseWrite ev ino data off s)"
  "still s (FuseSetXAttr ev ino nm val fl s)" "still s (FuseRemoveXAttr ino nm s)"
  unfolding FuseRead_unfold FuseWrite_def FuseSetXAttr_def FuseRemoveXAttr_def Let_def
  by (auto simp: still_def getINode_iff untouched_const dest: SetXAttr_frame RemoveXAttr_frame
      split: option.splits node_class.splits if_splits prod.splits)

text \<open>\<open>forget\<close> queues at most one number and starts the reuse of numbers when more than 256 are queued.\<close>

lemma FuseForget_still:
  assumes "FuseForget ino k s = Inr s'" and "length (DeletedINodes (INodeManager s)) < 256"
  shows "tree s' = tree s \<and> sends s' = sends s \<and> (\<forall>u. flag u s' = flag u s) \<and>
    mpiRank s' = mpiRank s \<and> mpiWorldSize s' = mpiWorldSize s \<and>
    length (DeletedINodes (INodeManager s')) \<le> Suc (length (DeletedINodes (INodeManager s))) \<and>
    m_reclaimingINodes s' = m_reclaimingINodes s"
proof -
  let ?s1 = "reply Reply_none (modINode ino (Forget k) s)"
  have few: "\<not> (scast (getNumberOfDeletedINodes (DeleteINode (INodeManager ?s1) ino)) :: u64) > kINodeReclamationThreshold"
    using unat_int_count [of "length (DeletedINodes (INodeManager s) @ [ino])"] assms(2)
    by (simp add: word_less_nat_alt getNumberOfDeletedINodes_def DeleteINode_def kINodeReclamationThreshold_def
        modINodeAt_def)
  have t: "tree (?s1\<lparr>INodeManager := DeleteINode (INodeManager ?s1) ino\<rparr>) = tree s"
    using tree_counts(2) [of ino k s] by (simp add: tree_def DeleteINode_def)
  show ?thesis
    using assms(1) few t
    by (auto simp: FuseForget_def Let_def DeleteINode_def modINodeAt_def split: if_splits)
qed

lemma other_calls_still:
  assumes "a_request c T = None" and "\<forall>ino k. c \<noteq> call_forget ino k"
  shows "still s (FuseOperations esz ev c s)"
  using assms by (cases c) (simp_all add: attribute_calls_still content_calls_still)

lemma meets_request:
  assumes "fs_wf s" and "n_inodes s < 2 ^ 31" and "\<not> m_reclaimingINodes s" and "a_request c (tree s) = Some st"
  shows "meets s (FuseOperations esz ev c s) st"
proof -
  have "ready s" using assms(1-3) by (simp add: ready_def reclaiming_def)
  with assms(1,2,4) show ?thesis
    by (cases c) (auto simp: meets_lookup meets_mknod meets_mkdir meets_unlink meets_rmdir meets_symlink
        meets_rename meets_link meets_create)
qed

section \<open>The abstract machine\<close>

record amachine =
  am_tree :: atree
  am_answers :: "areply list"        \<comment> \<open>to the requests about names\<close>
  am_announced :: "remote_op list"
  am_forgets :: nat

definition am_boot :: amachine where
  "am_boot = \<lparr>am_tree = [\<lparr>akind = ASpecial, alinks = 0\<rparr>, \<lparr>akind = ADir ''/'' Map.empty, alinks = 3\<rparr>],
     am_answers = [], am_announced = [], am_forgets = 0\<rparr>"

definition am_step :: "fuse_call \<Rightarrow> amachine \<Rightarrow> amachine" where
  "am_step c A = (case a_request c (am_tree A) of
     Some (rs, ops, T) \<Rightarrow> A\<lparr>am_tree := T, am_answers := am_answers A @ rs, am_announced := am_announced A @ ops\<rparr>
   | None \<Rightarrow> (case c of call_forget ino k \<Rightarrow> A\<lparr>am_forgets := Suc (am_forgets A)\<rparr> | _ \<Rightarrow> A))"

text \<open>
  The limits of the code that the specification does not share: inode numbers that fit \<open>int\<close>,
  paths that fit the request packets, numbers not reused.
\<close>

definition within_limits :: "fuse_call \<Rightarrow> amachine \<Rightarrow> bool" where
  "within_limits c A \<longleftrightarrow> length (am_tree A) < 2 ^ 31 \<and>
     (case a_request c (am_tree A) of
        Some (rs, ops, T) \<Rightarrow> \<forall>op\<in>set ops. list_all name_ok (op_names op)
      | None \<Rightarrow> am_forgets A < 256)"

definition implements :: "nat \<Rightarrow> nat \<Rightarrow> bool \<Rightarrow> fs_state \<Rightarrow> amachine \<Rightarrow> bool" where
  "implements r w named s A \<longleftrightarrow>
     fs_wf s \<and> tree s = am_tree A \<and> mpiRank s = r \<and> mpiWorldSize s = w \<and>
     announce_all r w (am_announced A) = Inr (sends s) \<and> (\<forall>t. \<not> flag t s) \<and> \<not> m_reclaimingINodes s \<and>
     length (DeletedINodes (INodeManager s)) \<le> am_forgets A \<and>
     (named \<longrightarrow> map answer (replies s) = am_answers A)"

definition about_names :: "fuse_call \<Rightarrow> bool" where
  "about_names c \<longleftrightarrow> a_request c [] \<noteq> None"

lemma about_names_iff: "about_names c \<longleftrightarrow> a_request c T \<noteq> None"
  by (cases c) (simp_all add: about_names_def)

lemma announce_all_append:
  "announce_all r w xs = Inr ms \<Longrightarrow> announce_all r w ys = Inr ns \<Longrightarrow> announce_all r w (xs @ ys) = Inr (ms @ ns)"
  by (auto simp: announce_all_def dest: mapE_append)

lemma no_flag_own: "\<forall>t. \<not> flag t s \<Longrightarrow> own s ops = ops"
  by (simp add: own_def)

lemma named_step:
  assumes R: "implements r w named s A" and ok: "within_limits c A" and c: "a_request c (am_tree A) = Some st"
  shows "\<exists>s'. FuseOperations esz ev c s = Inr s' \<and> implements r w named s' (am_step c A)"
proof -
  obtain rs ops T where st: "st = (rs, ops, T)" by (cases st)
  have s: "fs_wf s" "n_inodes s < 2 ^ 31" "\<not> m_reclaimingINodes s" "tree s = am_tree A"
    using R ok by (auto simp: implements_def within_limits_def simp flip: length_tree)
  have "meets s (FuseOperations esz ev c s) (rs, ops, T)"
    using meets_request [OF s(1-3)] c st s(4) by simp
  moreover have flags: "\<forall>t. \<not> flag t s" using R by (simp add: implements_def)
  moreover have "\<forall>op\<in>set (own s ops). list_all name_ok (op_names op)"
    using ok c st by (simp add: within_limits_def no_flag_own [OF flags])
  ultimately obtain s' ps msgs where s': "FuseOperations esz ev c s = Inr s'" "tree s' = T" "same_session s s'"
    "replies s' = replies s @ ps" "map answer ps = rs"
    "announce_all (mpiRank s) (mpiWorldSize s) ops = Inr msgs" "sends s' = sends s @ msgs" "\<forall>t. \<not> flag t s'"
    by (auto simp: meets_def no_flag_own)
  have "fs_wf s'" using FuseOperations_grows [OF s(1,2), of esz ev c] s'(1) by (auto simp: grows_def grown_def)
  with R s' c st show ?thesis
    by (auto simp: implements_def am_step_def same_session_def announce_all_append)
qed

lemma other_step:
  assumes R: "implements r w False s A" and ok: "within_limits c A" and c: "a_request c (am_tree A) = None"
    and step: "FuseOperations esz ev c s = Inr s'"
  shows "implements r w False s' (am_step c A)"
proof -
  have s: "fs_wf s" "n_inodes s < 2 ^ 31" "am_forgets A < 256"
    using R ok c by (auto simp: implements_def within_limits_def simp flip: length_tree)
  have wf: "fs_wf s'" using FuseOperations_grows [OF s(1,2), of esz ev c] step by (auto simp: grows_def grown_def)
  show ?thesis
  proof (cases "\<exists>ino k. c = call_forget ino k")
    case True
    then obtain ino k where ck: "c = call_forget ino k" by blast
    have "length (DeletedINodes (INodeManager s)) < 256" using R s(3) by (simp add: implements_def)
    then show ?thesis
      using R wf FuseForget_still [of ino k s s'] step by (auto simp: implements_def am_step_def ck)
  next
    case False
    then have "still s (FuseOperations esz ev c s)" using other_calls_still [OF c] by blast
    then have "untouched s s'" using step by (simp add: still_def)
    moreover have "am_step c A = A" using c False by (auto simp: am_step_def split: fuse_call.split)
    ultimately show ?thesis using R wf by (auto simp: implements_def untouched_def same_session_def)
  qed
qed

interpretation requests: forward_simulation
  "\<lambda>(ev, c). FuseOperations esz ev c" "\<lambda>(ev, c). am_step c"
  "\<lambda>(ev, c) A. within_limits c A \<and> (named \<longrightarrow> about_names c)" "\<lambda>(ev, c). about_names c" "implements r w named"
  for esz named r w
proof (unfold_locales, clarsimp)
  fix s s' A ev c
  assume R: "implements r w named s A" and ok: "within_limits c A" "named \<longrightarrow> about_names c"
    and step: "FuseOperations esz ev c s = Inr s'"
  show "implements r w named s' (am_step c A)"
  proof (cases "a_request c (am_tree A)")
    case None
    then have "\<not> named" using ok(2) about_names_iff by blast
    with R ok(1) None step show ?thesis using other_step by simp
  next
    case (Some st)
    then show ?thesis using named_step [OF R ok(1) Some, of esz ev] step by auto
  qed
next
  fix s A and x :: "env \<times> fuse_call"
  assume R: "implements r w named s A" and ok: "(case x of (ev, c) \<Rightarrow> \<lambda>A. within_limits c A \<and> (named \<longrightarrow> about_names c)) A"
    and "case x of (ev, c) \<Rightarrow> about_names c"
  then show "\<exists>s'. (case x of (ev, c) \<Rightarrow> FuseOperations esz ev c) s = Inr s'"
    using named_step [OF R, of "snd x" _ esz "fst x"] by (auto simp: about_names_iff [of _ "am_tree A"])
qed

lemma implements_booted: "implements r w True (booted ev r w) am_boot"
proof -
  have "flag t (booted ev r w) = False" for t by (cases t) simp_all
  moreover have "tree (booted ev r w) = am_tree am_boot"
    by (simp add: tree_def booted_nodes am_boot_def node_abs_def fresh_root_def new_Directory_def setDirName_def fun_eq_iff)
  ultimately show ?thesis by (simp add: implements_def am_boot_def announce_all_def)
qed

section \<open>The theorems\<close>

text \<open>
  C5. Every request about a name does exactly what the abstract file system says, on every
  well-formed state of any process: the same new tree, the same answers in the same order, the same
  announcements to the other processes (none that the receiver thread has asked for, whose flag is
  taken back), and nothing else of the session changes.
\<close>

theorem request_refines_tree:
  assumes "fs_wf s" and "n_inodes s < 2 ^ 31" and "\<not> m_reclaimingINodes s"
    and "a_request c (tree s) = Some st"
  shows "meets s (FuseOperations esz ev c s) st"
  using assms by (rule meets_request)

definition demo_requests :: "fuse_call list" where
  "demo_requests = [call_mkdir 1 ''a'', call_create 2 ''b'' 0, call_rename 2 ''b'' 1 ''c'',
     call_unlink 1 ''c'', call_rmdir 1 ''a'', call_lookup 1 ''a'']"

lemmas a_defs = a_lookup_def a_mkdir_def a_create_def a_symlink_def a_mknod_def a_unlink_def a_rmdir_def
  a_rename_def a_link_def in_dir_def adir_def amod_def fresh_def children_update_def add_links_def

lemma demo_run:
  "am_answers (fold am_step demo_requests am_boot) =
     [AEntry 2, ACreate 3, AErr ESUCCESS, AErr ESUCCESS, AErr ESUCCESS, AErr ENOENT]"
  "all_steps within_limits am_step demo_requests am_boot"
  "list_all about_names demo_requests"
proof -
  have unfolded: "kMaxFilenameLength = 1024" "Suc (Suc 0) = 2" by (simp_all add: kMaxFilenameLength_def)
  show "am_answers (fold am_step demo_requests am_boot) =
      [AEntry 2, ACreate 3, AErr ESUCCESS, AErr ESUCCESS, AErr ESUCCESS, AErr ENOENT]"
    by (simp add: demo_requests_def am_boot_def am_step_def a_defs unfolded)
  show "all_steps within_limits am_step demo_requests am_boot"
    by (simp add: demo_requests_def am_boot_def am_step_def a_defs unfolded within_limits_def name_ok_def
        name_capacity_def)
  show "list_all about_names demo_requests" by (simp add: demo_requests_def about_names_def)
qed

theorem request_refines_tree_witness:
  "meets demo_tree (FuseOperations length demo_env (call_unlink 1 ''f'') demo_tree)
     ([AErr ESUCCESS], [remote_delete ''/f''],
      amod 1 (del_child ''f'') (amod 3 (add_links (- 1)) (tree demo_tree)))"
proof -
  have "adir (tree demo_tree) 1 = Some (''/'', map_find [(''d'', 2), (''f'', 3)])"
    by (simp add: adir_tree as_Directory_def)
  then have "a_request (call_unlink 1 ''f'') (tree demo_tree) = Some ([AErr ESUCCESS], [remote_delete ''/f''],
      amod 1 (del_child ''f'') (amod 3 (add_links (- 1)) (tree demo_tree)))"
    by (simp add: a_unlink_def in_dir_def)
  moreover have "\<not> m_reclaimingINodes demo_tree" by (simp add: demo_tree_def demo_fs_def)
  ultimately show ?thesis by (intro request_refines_tree) simp_all
qed

text \<open>
  C1. A mounted file system implements the abstract one over runs of any length: whatever requests
  the kernel sends, in whatever order, as long as inode numbers fit an \<open>int\<close>, announced paths
  fit the request packets and no more than 256 numbers are given back, the tree and the
  announcements at the end are those of the abstract run, and a run of requests about names always
  ends, with the answers of the abstract run.
\<close>

theorem run_refines_tree:
  fixes ev :: env and r w :: nat and esz :: "string \<Rightarrow> nat"
  assumes "all_steps within_limits am_step (map snd ops) am_boot"
  defines "run \<equiv> andThen (FuseInit ev (new_FileSystem r w)) (foldE (\<lambda>(ev, c). FuseOperations esz ev c) ops)"
  shows "(\<forall>s'. run = Inr s' \<longrightarrow>
       implements r w (list_all about_names (map snd ops)) s' (fold am_step (map snd ops) am_boot)) \<and>
     (list_all about_names (map snd ops) \<longrightarrow> (\<exists>s'. run = Inr s'))"
proof -
  let ?named = "list_all about_names (map snd ops)"
  let ?ok = "\<lambda>(ev, c) A. within_limits c A \<and> (?named \<longrightarrow> about_names c)"
  have R: "implements r w ?named (booted ev r w) am_boot"
    using implements_booted [of r w ev] by (simp add: implements_def)
  have "all_steps ?ok (\<lambda>(ev, c). am_step c) xs A"
    if "all_steps within_limits am_step (map snd xs) A" "?named \<longrightarrow> list_all about_names (map snd xs)"
    for xs :: "(env \<times> fuse_call) list" and A
    using that by (induction xs arbitrary: A) auto
  then have ok: "all_steps ?ok (\<lambda>(ev, c). am_step c) ops am_boot" using assms(1) by blast
  have eq: "fold (\<lambda>(ev :: env, c). am_step c) xs A = fold am_step (map snd xs) A" for xs A
    by (induction xs arbitrary: A) auto
  have names: "list_all (\<lambda>(ev, c). about_names c) ops \<longleftrightarrow> ?named"
    by (simp add: list_all_iff case_prod_beta)
  show ?thesis
    using requests.run_simulated [OF R ok] requests.run_ends [OF R ok] eq names
    by (simp add: run_def FuseInit_eq)
qed

theorem run_refines_tree_witness:
  "\<exists>s'. andThen (FuseInit demo_env (new_FileSystem 0 2))
      (foldE (\<lambda>(ev, c). FuseOperations length ev c) (map (Pair demo_env) demo_requests)) = Inr s' \<and>
    map answer (replies s') =
      [AEntry 2, ACreate 3, AErr ESUCCESS, AErr ESUCCESS, AErr ESUCCESS, AErr ENOENT]"
proof -
  let ?ops = "map (Pair demo_env) demo_requests"
  have calls: "map snd ?ops = demo_requests" by (simp add: comp_def)
  note run = run_refines_tree [of ?ops demo_env 0 2 length, unfolded calls, OF demo_run(2)]
  then show ?thesis using demo_run by (auto simp: implements_def)
qed

section \<open>Types of inodes\<close>

text \<open>The class an inode object has, by which every \<open>dynamic_cast\<close> on it is decided.\<close>

fun class_type :: "node_class \<Rightarrow> INodeType" where
  "class_type (File f) = REGULAR_FILE"
| "class_type (Directory d) = DIRECTORY"
| "class_type (SymbolicLink l) = SYMBOLIC_LINK"
| "class_type (SpecialINode t) = SPECIAL_INODE_TYPE_NO_BLOCK"

fun kind_type :: "akind \<Rightarrow> INodeType" where
  "kind_type AFile = REGULAR_FILE"
| "kind_type (ADir path ch) = DIRECTORY"
| "kind_type (ALink l) = SYMBOLIC_LINK"
| "kind_type ASpecial = SPECIAL_INODE_TYPE_NO_BLOCK"

lemma kind_type_abs: "kind_type (akind (node_abs nd)) = class_type (node_class nd)"
  by (simp add: node_abs_def split: node_class.split)

definition keeps_types :: "atree \<Rightarrow> atree \<Rightarrow> bool" where
  "keeps_types T T' \<longleftrightarrow> length T \<le> length T' \<and>
     (\<forall>i<length T. kind_type (akind (T' ! i)) = kind_type (akind (T ! i)))"

lemma keeps_types_refl [simp]: "keeps_types T T"
  by (simp add: keeps_types_def)

lemma keeps_types_trans: "keeps_types T U \<Longrightarrow> keeps_types U V \<Longrightarrow> keeps_types T V"
  by (simp add: keeps_types_def)

lemma keeps_types_amod [simp]:
  assumes "\<And>nd. kind_type (akind (g nd)) = kind_type (akind nd)"
  shows "keeps_types T (amod i g U) = keeps_types T U"
proof -
  have "kind_type (akind (amod i g U ! j)) = kind_type (akind (U ! j))" for j
    using assms by (cases "unat i < length U"; cases "j = unat i") (simp_all add: amod_def list_update_beyond)
  then show ?thesis by (simp add: keeps_types_def)
qed

lemma keeps_types_append [simp]: "keeps_types T U \<Longrightarrow> keeps_types T (U @ V)"
  by (auto simp: keeps_types_def nth_append)

lemma kind_type_updates [simp]:
  "kind_type (akind (children_update h nd)) = kind_type (akind nd)"
  "kind_type (akind (add_links k nd)) = kind_type (akind nd)"
  by (simp_all add: children_update_def add_links_def split: akind.split)

lemma a_request_types: "a_request c T = Some (rs, ops, T') \<Longrightarrow> keeps_types T T'"
  by (cases c) (auto simp: a_lookup_def a_mkdir_def a_create_def a_symlink_def a_mknod_def a_unlink_def a_rmdir_def
      a_rename_def a_link_def Let_def split: option.splits if_splits elim!: in_dir_cases)

lemma am_step_types: "keeps_types (am_tree A) (am_tree (am_step c A))"
proof (cases "a_request c (am_tree A)")
  case None
  then show ?thesis by (simp add: am_step_def split: fuse_call.split)
next
  case (Some st)
  then show ?thesis using a_request_types [of c "am_tree A"] by (cases st) (simp add: am_step_def)
qed

lemma am_run_types: "keeps_types (am_tree A) (am_tree (fold am_step cs A))"
  by (induction cs arbitrary: A) (auto intro: keeps_types_trans [OF am_step_types])

lemma requests_simulated:
  assumes "implements r w False s A" and "all_steps within_limits am_step (map snd ops) A"
    and "foldE (\<lambda>(ev, c). FuseOperations esz ev c) ops s = Inr s'"
  shows "implements r w False s' (fold am_step (map snd ops) A)"
proof -
  have "all_steps (\<lambda>(ev, c) A. within_limits c A \<and> (False \<longrightarrow> about_names c)) (\<lambda>(ev :: env, c). am_step c) xs A"
    if "all_steps within_limits am_step (map snd xs) A" for xs A
    using that by (induction xs arbitrary: A) auto
  moreover have "fold (\<lambda>(ev :: env, c). am_step c) xs A = fold am_step (map snd xs) A" for xs A
    by (induction xs arbitrary: A) auto
  ultimately show ?thesis
    using requests.run_simulated [OF assms(1) _ assms(3)] assms(2) by simp
qed

text \<open>
  C26. An inode never changes its type: once a number is handed out, every later state of the run has
  an object of the same class under it, so that the \<open>dynamic_cast\<close> of a handler gives the
  same answer for ever and no request turns a file into a directory, as long as numbers are not
  reused.
\<close>

theorem inode_types_fixed:
  assumes "all_steps within_limits am_step (map snd (xs @ ys)) am_boot"
    and "FuseInit ev (new_FileSystem r w) = Inr s0"
    and "foldE (\<lambda>(ev, c). FuseOperations esz ev c) xs s0 = Inr s1"
    and "foldE (\<lambda>(ev, c). FuseOperations esz ev c) ys s1 = Inr s2" and "unat i < n_inodes s1"
  shows "unat i < n_inodes s2 \<and> class_type (node_class (inode_at s2 i)) = class_type (node_class (inode_at s1 i))"
proof -
  have R: "implements r w False s0 am_boot"
    using implements_booted [of r w ev] assms(2) unfolding FuseInit_eq by (auto simp: implements_def)
  let ?A = "fold am_step (map snd xs) am_boot"
  have ok: "all_steps within_limits am_step (map snd xs) am_boot" "all_steps within_limits am_step (map snd ys) ?A"
    using assms(1) by (simp_all add: all_steps_append)
  have R1: "implements r w False s1 ?A" by (rule requests_simulated [OF R ok(1) assms(3)])
  have R2: "implements r w False s2 (fold am_step (map snd ys) ?A)" by (rule requests_simulated [OF R1 ok(2) assms(4)])
  have "keeps_types (tree s1) (tree s2)" using am_run_types [of ?A] R1 R2 by (simp add: implements_def)
  then have "unat i < n_inodes s2" "kind_type (akind (tree s2 ! unat i)) = kind_type (akind (tree s1 ! unat i))"
    using assms(5) by (simp_all add: keeps_types_def)
  then show ?thesis using assms(5) by (simp add: nth_tree kind_type_abs)
qed

theorem inode_types_fixed_witness:
  "\<exists>s1 s2. foldE (\<lambda>(ev, c). FuseOperations length ev c) (map (Pair demo_env) (take 2 demo_requests)) demo_fs = Inr s1 \<and>
     foldE (\<lambda>(ev, c). FuseOperations length ev c) (map (Pair demo_env) (drop 2 demo_requests)) s1 = Inr s2 \<and>
     class_type (node_class (inode_at s2 3)) = REGULAR_FILE"
proof -
  let ?op = "\<lambda>(ev, c). FuseOperations length ev c"
  let ?xs = "map (Pair demo_env) (take 2 demo_requests)" and ?ys = "map (Pair demo_env) (drop 2 demo_requests)"
  have init: "FuseInit demo_env (new_FileSystem 0 2) = Inr demo_fs" by (simp add: demo_fs_def FuseInit_eq)
  have calls: "map snd (?xs @ ?ys) = demo_requests" "map snd ?xs = take 2 demo_requests" by (simp_all add: comp_def)
  have ok: "all_steps (\<lambda>(ev, c) A. within_limits c A \<and> (True \<longrightarrow> about_names c)) (\<lambda>(ev :: env, c). am_step c) (?xs @ ?ys) am_boot"
    using demo_run(2,3) by (simp add: demo_requests_def)
  have R: "implements 0 2 True demo_fs am_boot" using implements_booted [of 0 2 demo_env] by (simp add: demo_fs_def)
  obtain s2 where "foldE ?op (?xs @ ?ys) demo_fs = Inr s2"
    using requests.run_ends [OF R ok, of length] demo_run(3) by (auto simp: list_all_iff demo_requests_def)
  then obtain s1 where s: "foldE ?op ?xs demo_fs = Inr s1" "foldE ?op ?ys s1 = Inr s2"
    by (auto simp: foldE_append)
  have ok1: "all_steps within_limits am_step (map snd ?xs) am_boot"
    using demo_run(2) by (simp add: demo_requests_def)
  have "implements 0 2 False demo_fs am_boot" using R by (simp add: implements_def)
  note s1 = requests_simulated [OF this ok1 s(1)]
  have "tree s1 ! 3 = \<lparr>akind = AFile, alinks = 1\<rparr>" "length (tree s1) = 4"
    using s1 unfolding implements_def calls
    by (simp_all add: demo_requests_def am_step_def am_boot_def a_defs kMaxFilenameLength_def)
  then have "n_inodes s1 = 4" "class_type (node_class (inode_at s1 3)) = REGULAR_FILE"
    using kind_type_abs [of "inode_at s1 3"] by (simp_all add: nth_tree [of 3 s1, simplified])
  moreover have "all_steps within_limits am_step (map snd (?xs @ ?ys)) am_boot"
    unfolding calls(1) by (rule demo_run(2))
  ultimately show ?thesis
    using inode_types_fixed [OF _ init s, of 3] s by auto
qed

end
