(* ===== verification/Replicas.thy ===== *)
theory Replicas
  imports TreeRun
begin

text \<open>
  The trees of the processes stay equal: a request that one kernel sends to its process is announced
  (\<^verbatim>\<open>mpi/RequestSender.cpp\<close>), every other receiver thread replays it as a call of the operating
  system (\<^verbatim>\<open>mpi/DistributedCode.cpp\<close>), the kernel there resolves the path and sends the request to
  that process, whose handler makes the same change (\<^verbatim>\<open>ramfs/FileSystem.cpp\<close>).
\<close>

section \<open>Paths\<close>

definition component :: "string \<Rightarrow> bool" where
  "component name \<longleftrightarrow> name \<noteq> '''' \<and> name \<noteq> ''.'' \<and> name \<noteq> ''..'' \<and> CHR ''/'' \<notin> set name"

fun walk :: "atree \<Rightarrow> fuse_ino_t \<Rightarrow> string list \<Rightarrow> fuse_ino_t option" where
  "walk T p [] = Some p"
| "walk T p (c # cs) = (case adir T p of None \<Rightarrow> None | Some (path, ch) \<Rightarrow>
     (case ch c of None \<Rightarrow> None | Some i \<Rightarrow> walk T i cs))"

definition dir_path :: "string list \<Rightarrow> string" where
  "dir_path cs = ''/'' @ concat (map (\<lambda>c. c @ ''/'') cs)"

text \<open>
  The invariant of a tree in which only requests that are announced were carried out: every directory
  below another one was made with the path that leads to it.
\<close>

definition edge_ok :: "atree \<Rightarrow> string \<Rightarrow> string \<Rightarrow> fuse_ino_t \<Rightarrow> bool" where
  "edge_ok T path name i \<longleftrightarrow> component name \<and> unat i < length T \<and>
     (\<forall>ipath ich. adir T i = Some (ipath, ich) \<longrightarrow> ipath = path @ name @ ''/'')"

definition tree_ok :: "atree \<Rightarrow> bool" where
  "tree_ok T \<longleftrightarrow> (\<exists>ch. adir T 1 = Some (''/'', ch)) \<and>
     (\<forall>p path ch name i. adir T p = Some (path, ch) \<longrightarrow> ch name = Some i \<longrightarrow> edge_ok T path name i)"

lemma tree_okD: "tree_ok T \<Longrightarrow> adir T p = Some (path, ch) \<Longrightarrow> ch name = Some i \<Longrightarrow> edge_ok T path name i"
  by (simp add: tree_ok_def)

lemma walk_path:
  "tree_ok T \<Longrightarrow> walk T p cs = Some q \<Longrightarrow> adir T p = Some (path, ch) \<Longrightarrow> adir T q = Some (qpath, qch) \<Longrightarrow>
     qpath = path @ concat (map (\<lambda>c. c @ ''/'') cs)"
proof (induction cs arbitrary: p path ch)
  case (Cons c cs)
  then obtain i where i: "ch c = Some i" "walk T i cs = Some q" by (auto split: option.splits)
  then obtain ipath ich where ipath: "adir T i = Some (ipath, ich)"
    using Cons.prems(4) by (cases cs) (auto split: option.splits prod.splits)
  have "ipath = path @ c @ ''/''" using tree_okD [OF Cons.prems(1,3) i(1)] ipath by (simp add: edge_ok_def)
  with Cons.IH [OF Cons.prems(1) i(2) ipath Cons.prems(4)] show ?case by simp
qed simp

lemma walk_components: "tree_ok T \<Longrightarrow> walk T p cs = Some q \<Longrightarrow> list_all component cs"
  by (induction cs arbitrary: p) (auto split: option.splits prod.splits dest!: tree_okD simp: edge_ok_def)

definition reachable :: "atree \<Rightarrow> fuse_ino_t \<Rightarrow> bool" where
  "reachable T p \<longleftrightarrow> (\<exists>cs. walk T 1 cs = Some p)"

text \<open>The path a reachable directory was made with leads to it.\<close>

lemma reachable_path:
  assumes "tree_ok T" and "reachable T p" and "adir T p = Some (path, ch)"
  obtains cs where "walk T 1 cs = Some p" "path = dir_path cs"
proof -
  obtain cs where cs: "walk T 1 cs = Some p" using assms(2) by (auto simp: reachable_def)
  obtain rch where "adir T 1 = Some (''/'', rch)" using assms(1) by (auto simp: tree_ok_def)
  from that [OF cs] walk_path [OF assms(1) cs this assms(3)] show ?thesis by (simp add: dir_path_def)
qed

section \<open>What the kernel does with a call of the receiver thread\<close>

text \<open>
  The kernel is not part of the program: a function from the call and the file system it is
  mounted on to the requests it sends to the process. The documented behaviour of path resolution
  and of \<open>mkdir\<close>, \<open>open\<close>, \<open>unlink\<close>, \<open>rmdir\<close> and \<open>rename\<close>: the path is looked up component by component
  and the request goes to the directory found, with the last component, if the name is there
  (and of the right kind) or not there as the call needs it.
\<close>

type_synonym vfs = "string \<Rightarrow> os_call \<Rightarrow> fs_state \<Rightarrow> (env \<times> fuse_call) list"

fun resolving :: "fuse_call \<Rightarrow> bool" where
  "resolving (call_lookup p name) = True"
| "resolving (call_access ino amask) = True"
| "resolving (call_release ino) = True"
| "resolving c = False"

definition requests_of :: "vfs \<Rightarrow> string \<Rightarrow> os_call \<Rightarrow> fs_state \<Rightarrow> fuse_call \<Rightarrow> bool" where
  "requests_of K mnt call s c \<longleftrightarrow> (\<exists>pre ev post. K mnt call s = pre @ (ev, c) # post \<and>
     list_all (resolving \<circ> snd) pre \<and> list_all (resolving \<circ> snd) post)"

definition resolves :: "atree \<Rightarrow> string list \<Rightarrow> fuse_ino_t \<Rightarrow> (string \<rightharpoonup> fuse_ino_t) \<Rightarrow> bool" where
  "resolves T cs p ch \<longleftrightarrow> walk T 1 cs = Some p \<and> (\<exists>path. adir T p = Some (path, ch)) \<and> list_all component cs"

definition vfs_documented :: "vfs \<Rightarrow> bool" where
  "vfs_documented K \<longleftrightarrow>
     (\<forall>mnt s cs p ch name. resolves (tree s) cs p ch \<longrightarrow> component name \<longrightarrow> ch name = None \<longrightarrow>
        requests_of K mnt (os_mkdir (mnt @ dir_path cs @ name @ ''/'') mode_0777) s (call_mkdir p name)) \<and>
     (\<forall>mnt s cs p ch name. resolves (tree s) cs p ch \<longrightarrow> component name \<longrightarrow> ch name = None \<longrightarrow>
        (\<exists>flags. requests_of K mnt (os_fopen_w (mnt @ dir_path cs @ name)) s (call_create p name flags))) \<and>
     (\<forall>mnt s cs p ch name i. resolves (tree s) cs p ch \<longrightarrow> component name \<longrightarrow> ch name = Some i \<longrightarrow>
        adir (tree s) i = None \<longrightarrow>
        requests_of K mnt (os_unlink (mnt @ dir_path cs @ name)) s (call_unlink p name)) \<and>
     (\<forall>mnt s cs p ch name i. resolves (tree s) cs p ch \<longrightarrow> component name \<longrightarrow> ch name = Some i \<longrightarrow>
        adir (tree s) i \<noteq> None \<longrightarrow>
        requests_of K mnt (os_rmdir (mnt @ dir_path cs @ name @ ''/'')) s (call_rmdir p name)) \<and>
     (\<forall>mnt s cs p ch name i cs' p' ch' name'. resolves (tree s) cs p ch \<longrightarrow> component name \<longrightarrow> ch name = Some i \<longrightarrow>
        adir (tree s) i = None \<longrightarrow> resolves (tree s) cs' p' ch' \<longrightarrow> component name' \<longrightarrow>
        (\<forall>e. ch' name' = Some e \<longrightarrow> e \<noteq> i \<and> adir (tree s) e = None) \<longrightarrow>
        requests_of K mnt (os_rename (mnt @ dir_path cs @ name) (mnt @ dir_path cs' @ name')) s
          (call_rename p name p' name'))"

section \<open>Requests that are replicated\<close>

text \<open>
  Lookups, and requests for which the kernel of another process will find what this one found: a
  directory that a path leads to, a name that is free for \<open>mkdir\<close> and \<open>create\<close>, no directory moved
  or overwritten by \<open>rename\<close>. Symbolic links, nodes and hard links are announced by nobody.
\<close>

fun replicable :: "fuse_call \<Rightarrow> atree \<Rightarrow> bool" where
  "replicable (call_lookup p name) T = True"
| "replicable (call_mkdir p name) T = (\<forall>path ch. adir T p = Some (path, ch) \<longrightarrow>
     reachable T p \<and> component name \<and> ch name = None)"
| "replicable (call_create p name flags) T = (\<forall>path ch. adir T p = Some (path, ch) \<longrightarrow>
     reachable T p \<and> component name \<and> ch name = None)"
| "replicable (call_unlink p name) T = (\<forall>path ch i. adir T p = Some (path, ch) \<longrightarrow> ch name = Some i \<longrightarrow>
     reachable T p \<and> adir T i = None)"
| "replicable (call_rmdir p name) T = (\<forall>path ch i. adir T p = Some (path, ch) \<longrightarrow> ch name = Some i \<longrightarrow>
     reachable T p)"
| "replicable (call_rename p name p' name') T = (\<forall>path ch i path' ch'. adir T p = Some (path, ch) \<longrightarrow>
     ch name = Some i \<longrightarrow> adir T p' = Some (path', ch') \<longrightarrow>
     reachable T p \<and> reachable T p' \<and> component name' \<and> adir T i = None \<and>
     (\<forall>e. ch' name' = Some e \<longrightarrow> e \<noteq> i \<and> adir T e = None))"
| "replicable _ T = False"

text \<open>The documented behaviour for the paths that the processes announce.\<close>

lemma vfs_finds:
  assumes K: "vfs_documented K" and T: "tree_ok T" "tree s = T" and p: "reachable T p" "adir T p = Some (path, ch)"
    and name: "component name"
  shows "ch name = None \<Longrightarrow> requests_of K mnt (os_mkdir (mnt @ path @ name @ ''/'') mode_0777) s (call_mkdir p name)"
    and "ch name = None \<Longrightarrow> \<exists>flags. requests_of K mnt (os_fopen_w (mnt @ path @ name)) s (call_create p name flags)"
    and "ch name = Some i \<Longrightarrow> adir T i = None \<Longrightarrow> requests_of K mnt (os_unlink (mnt @ path @ name)) s (call_unlink p name)"
    and "ch name = Some i \<Longrightarrow> adir T i \<noteq> None \<Longrightarrow>
      requests_of K mnt (os_rmdir (mnt @ path @ name @ ''/'')) s (call_rmdir p name)"
    and "ch name = Some i \<Longrightarrow> adir T i = None \<Longrightarrow> reachable T p' \<Longrightarrow> adir T p' = Some (path', ch') \<Longrightarrow>
      component name' \<Longrightarrow> (\<forall>e. ch' name' = Some e \<longrightarrow> e \<noteq> i \<and> adir T e = None) \<Longrightarrow>
      requests_of K mnt (os_rename (mnt @ path @ name) (mnt @ path' @ name')) s (call_rename p name p' name')"
proof -
  have resolved: "\<exists>cs. path = dir_path cs \<and> resolves T cs p ch" if "reachable T p" "adir T p = Some (path, ch)" for p path ch
    using reachable_path [OF T(1) that] walk_components [OF T(1)] that(2) by (metis resolves_def)
  obtain cs where cs: "path = dir_path cs" "resolves (tree s) cs p ch" using resolved [OF p] T(2) by auto
  note K1 = K [unfolded vfs_documented_def, THEN conjunct1]
    and K2 = K [unfolded vfs_documented_def, THEN conjunct2, THEN conjunct1]
    and K3 = K [unfolded vfs_documented_def, THEN conjunct2, THEN conjunct2, THEN conjunct1]
    and K4 = K [unfolded vfs_documented_def, THEN conjunct2, THEN conjunct2, THEN conjunct2, THEN conjunct1]
    and K5 = K [unfolded vfs_documented_def, THEN conjunct2, THEN conjunct2, THEN conjunct2, THEN conjunct2]
  show "ch name = None \<Longrightarrow> requests_of K mnt (os_mkdir (mnt @ path @ name @ ''/'') mode_0777) s (call_mkdir p name)"
    unfolding cs(1) using K1 cs(2) name by blast
  show "ch name = None \<Longrightarrow> \<exists>flags. requests_of K mnt (os_fopen_w (mnt @ path @ name)) s (call_create p name flags)"
    unfolding cs(1) using K2 cs(2) name by blast
  show "ch name = Some i \<Longrightarrow> adir T i = None \<Longrightarrow> requests_of K mnt (os_unlink (mnt @ path @ name)) s (call_unlink p name)"
    unfolding cs(1) using K3 cs(2) name T(2) by blast
  show "ch name = Some i \<Longrightarrow> adir T i \<noteq> None \<Longrightarrow>
      requests_of K mnt (os_rmdir (mnt @ path @ name @ ''/'')) s (call_rmdir p name)"
    unfolding cs(1) using K4 cs(2) name T(2) by blast
  assume i: "ch name = Some i" "adir T i = None" and p': "reachable T p'" "adir T p' = Some (path', ch')"
    and name': "component name'" "\<forall>e. ch' name' = Some e \<longrightarrow> e \<noteq> i \<and> adir T e = None"
  obtain cs' where cs': "path' = dir_path cs'" "resolves (tree s) cs' p' ch'" using resolved [OF p'] T(2) by auto
  show "requests_of K mnt (os_rename (mnt @ path @ name) (mnt @ path' @ name')) s (call_rename p name p' name')"
    unfolding cs(1) cs'(1)
    by (rule K5 [rule_format, OF cs(2) name i(1) i(2) [folded T(2)] cs'(2) name'(1)]) (use name'(2) T(2) in auto)
qed

definition repeats :: "vfs \<Rightarrow> atree \<Rightarrow> remote_op \<Rightarrow> areply list \<Rightarrow> atree \<Rightarrow> bool" where
  "repeats K T op rs T' \<longleftrightarrow> (\<forall>s dc src. tree s = T \<longrightarrow>
     (\<exists>c'. requests_of K (fsPath dc) (replayed dc src op) s c' \<and> a_request c' T = Some (rs, [op], T')))"

lemma repeatsI:
  assumes "\<And>s dc. tree s = T \<Longrightarrow> \<exists>flags. requests_of K (fsPath dc) (replayed dc src op) s (c' flags)"
    and "\<And>src dc. replayed dc src op = replayed dc 0 op" and "\<And>flags. a_request (c' flags) T = Some (rs, [op], T')"
  shows "repeats K T op rs T'"
  unfolding repeats_def
proof (intro allI impI)
  fix s dc src'
  assume "tree s = T"
  then obtain flags where "requests_of K (fsPath dc) (replayed dc 0 op) s (c' flags)"
    using assms(1) [of s dc] assms(2) [of dc src] by auto
  then show "\<exists>c'. requests_of K (fsPath dc) (replayed dc src' op) s c' \<and> a_request c' T = Some (rs, [op], T')"
    using assms(2) [of dc src'] assms(3) by auto
qed

text \<open>Such a request either changes nothing, or the kernel of any other process repeats it.\<close>

lemma replicable_repeats:
  assumes T: "tree_ok T" and K: "vfs_documented K" and c: "replicable c T" and a: "a_request c T = Some (rs, ops, T')"
  shows "ops = [] \<and> T' = T \<or> (\<exists>op. ops = [op] \<and> repeats K T op rs T')"
  using c a
proof (cases c)
  case (call_lookup p name)
  with a show ?thesis
    by (auto simp: a_lookup_def split: option.splits elim!: in_dir_cases)
next
  case (call_mkdir p name)
  from a have "a_mkdir p name T = (rs, ops, T')" by (simp add: call_mkdir)
  then show ?thesis
    unfolding a_mkdir_def
  proof (cases rule: in_dir_cases)
    case (2 path ch)
    with c have "reachable T p" "component name" "ch name = None" by (simp_all add: call_mkdir)
    then have "requests_of K mnt (os_mkdir (mnt @ path @ name @ ''/'') mode_0777) s c" if "tree s = T" for mnt s
      using vfs_finds(1) [OF K T that _ 2(1)] by (simp add: call_mkdir)
    then have "repeats K T (remote_mkdir (path @ name @ ''/'')) rs T'"
      using a 2(2) by (intro repeatsI [where c' = "\<lambda>_. c"]) auto
    with 2(2) show ?thesis by auto
  qed simp
next
  case (call_create p name flags)
  from a have create: "a_create p name T = (rs, ops, T')" by (simp add: call_create)
  then show ?thesis
    unfolding a_create_def
  proof (cases rule: in_dir_cases)
    case (2 path ch)
    with c have "reachable T p" "component name" "ch name = None" by (simp_all add: call_create)
    then have "\<exists>flags. requests_of K mnt (os_fopen_w (mnt @ path @ name)) s (call_create p name flags)" if "tree s = T" for mnt s
      using vfs_finds(2) [OF K T that _ 2(1)] by simp
    then have "repeats K T (remote_create (path @ name)) rs T'" if "ops = [remote_create (path @ name)]"
      using create that by (intro repeatsI [where c' = "call_create p name"]) auto
    with 2(2) show ?thesis by (auto split: if_splits)
  qed simp
next
  case (call_unlink p name)
  from a have unlink: "a_unlink p name T = (rs, ops, T')" by (simp add: call_unlink)
  then show ?thesis
    unfolding a_unlink_def
  proof (cases rule: in_dir_cases)
    case (2 path ch)
    show ?thesis
    proof (cases "ch name")
      case (Some i)
      with c 2(1) have "reachable T p" "adir T i = None" by (simp_all add: call_unlink)
      moreover have "component name" using tree_okD [OF T 2(1) Some] by (simp add: edge_ok_def)
      ultimately have "requests_of K mnt (os_unlink (mnt @ path @ name)) s c" if "tree s = T" for mnt s
        using vfs_finds(3) [OF K T that _ 2(1) _ Some] by (simp add: call_unlink)
      then have "repeats K T (remote_delete (path @ name)) rs T'"
        using a 2(2) Some by (intro repeatsI [where c' = "\<lambda>_. c"]) auto
      with 2(2) Some show ?thesis by auto
    qed (use 2(2) in simp)
  qed simp
next
  case (call_rmdir p name)
  from a have rmdir: "a_rmdir p name T = (rs, ops, T')" by (simp add: call_rmdir)
  then show ?thesis
    unfolding a_rmdir_def
  proof (cases rule: in_dir_cases)
    case (2 path ch)
    show ?thesis
    proof (cases "ch name")
      case (Some i)
      with c 2(1) have p: "reachable T p" by (simp add: call_rmdir)
      have name: "component name" using tree_okD [OF T 2(1) Some] by (simp add: edge_ok_def)
      show ?thesis
      proof (cases "adir T i")
        case (Some d)
        then obtain ipath ich where d: "adir T i = Some (ipath, ich)" by (cases d) simp
        then have "ipath = path @ name @ ''/''"
          using tree_okD [OF T 2(1) \<open>ch name = Some i\<close>] by (simp add: edge_ok_def)
        moreover have "requests_of K mnt (os_rmdir (mnt @ path @ name @ ''/'')) s c" if "tree s = T" for mnt s
          using vfs_finds(4) [OF K T that p 2(1) name \<open>ch name = Some i\<close>] d by (simp add: call_rmdir)
        ultimately have "repeats K T (remote_rmdir ipath) rs T'" if "ops = [remote_rmdir ipath]"
          using a that by (intro repeatsI [where c' = "\<lambda>_. c"]) auto
        with 2(2) \<open>ch name = Some i\<close> d show ?thesis by (auto split: if_splits)
      qed (use 2(2) Some in simp)
    qed (use 2(2) in simp)
  qed simp
next
  case (call_rename p name p' name')
  from a have rename: "a_rename p name p' name' T = (rs, ops, T')" by (simp add: call_rename)
  then show ?thesis
    unfolding a_rename_def
  proof (cases rule: in_dir_cases)
    case (2 path ch)
    show ?thesis
    proof (cases "ch name")
      case (Some i)
      have name: "component name" using tree_okD [OF T 2(1) Some] by (simp add: edge_ok_def)
      from 2(2) Some have "in_dir T p' EISDIR (\<lambda>path' ch'.
         let T1 = (case ch' name' of
                     None \<Rightarrow> T
                   | Some e \<Rightarrow> if e \<noteq> 0 \<and> adir T e \<noteq> None then amod p' (add_links 1) (amod p (add_links (- 1)) T) else T)
         in ([AErr ESUCCESS], [remote_rename (path @ name) (path' @ name')],
             amod p (del_child name) (amod p' (set_child name' i) T1))) = (rs, ops, T')" by simp
      then show ?thesis
      proof (cases rule: in_dir_cases)
        case q: (2 path' ch')
        with c 2(1) Some have r: "reachable T p" "reachable T p'" "component name'" "adir T i = None"
          "\<forall>e. ch' name' = Some e \<longrightarrow> e \<noteq> i \<and> adir T e = None"
          by (simp_all add: call_rename)
        then have "requests_of K mnt (os_rename (mnt @ path @ name) (mnt @ path' @ name')) s c" if "tree s = T" for mnt s
          using vfs_finds(5) [OF K T that r(1) 2(1) name Some r(4,2) q(1) r(3,5)] by (simp add: call_rename)
        then have "repeats K T (remote_rename (path @ name) (path' @ name')) rs T'"
          using a q(2) by (intro repeatsI [where c' = "\<lambda>_. c"]) (auto simp: Let_def)
        with q(2) show ?thesis by (auto simp: Let_def)
      qed simp
    qed (use 2(2) in simp)
  qed simp
qed simp_all

section \<open>The path invariant\<close>

lemma adir_bound: "adir T p = Some d \<Longrightarrow> unat p < length T"
  by (simp add: adir_def split: if_splits)

lemma adir_amod:
  "adir (amod i g T) q = (if q = i \<and> unat i < length T then adir [g (T ! unat i)] 0 else adir T q)"
  by (auto simp: adir_def amod_def nth_list_update word_unat_eq_iff split: akind.split)

lemma adir_single: "unat i < length T \<Longrightarrow> adir [T ! unat i] 0 = adir T i"
  by (simp add: adir_def)

lemma adir_same_kind: "(\<And>nd. akind (g nd) = akind nd) \<Longrightarrow> adir (amod i g T) = adir T"
  by (rule ext) (simp add: adir_amod, simp add: adir_def)

lemma adir_children:
  "adir (amod i (children_update h) T) q = (if q = i then map_option (apsnd h) (adir T i) else adir T q)"
  by (auto simp: adir_def amod_def nth_list_update word_unat_eq_iff children_update_def split: akind.split)

lemma adir_append:
  "adir (T @ [nd]) q = (if unat q = length T then adir [nd] 0 else adir T q)"
  by (auto simp: adir_def nth_append)

lemma edge_ok_cong:
  "length T' = length T \<Longrightarrow> map_option fst (adir T' i) = map_option fst (adir T i) \<Longrightarrow>
     edge_ok T' path name i = edge_ok T path name i"
  by (cases "adir T i"; cases "adir T' i") (auto simp: edge_ok_def)

lemma tree_ok_same_kind: "(\<And>nd. akind (g nd) = akind nd) \<Longrightarrow> tree_ok (amod i g T) = tree_ok T"
  by (simp add: tree_ok_def edge_ok_def adir_same_kind)

lemma tree_ok_children:
  assumes T: "tree_ok T" and "\<And>path ch nm j. adir T p = Some (path, ch) \<Longrightarrow> h ch nm = Some j \<Longrightarrow> edge_ok T path nm j"
  shows "tree_ok (amod p (children_update h) T)"
proof -
  have edge: "edge_ok (amod p (children_update h) T) = edge_ok T"
    by (intro ext edge_ok_cong) (simp_all add: adir_children option.map_comp comp_def)
  have "edge_ok T path nm j" if "adir (amod p (children_update h) T) q = Some (path, ch)" "ch nm = Some j" for q path ch nm j
    using that assms(2) tree_okD [OF T] by (auto simp: adir_children split: if_splits)
  moreover have "\<exists>ch. adir (amod p (children_update h) T) 1 = Some (''/'', ch)"
    using T by (auto simp: tree_ok_def adir_children)
  ultimately show ?thesis by (auto simp: tree_ok_def edge)
qed

lemma tree_ok_del: "tree_ok T \<Longrightarrow> tree_ok (amod p (del_child name) T)"
  by (rule tree_ok_children) (auto dest: tree_okD split: if_splits)

lemma tree_ok_set:
  "tree_ok T \<Longrightarrow> (\<And>path ch. adir T p = Some (path, ch) \<Longrightarrow> edge_ok T path name i) \<Longrightarrow> tree_ok (amod p (set_child name i) T)"
  by (rule tree_ok_children) (auto dest: tree_okD split: if_splits)

lemma tree_ok_append:
  assumes T: "tree_ok T" and nd: "\<And>path ch. akind nd = ADir path ch \<Longrightarrow> ch = Map.empty"
  shows "tree_ok (T @ [nd])"
proof -
  have "edge_ok (T @ [nd]) path nm j" if "edge_ok T path nm j" for path nm j
    using that by (auto simp: edge_ok_def adir_append)
  moreover have "ch = Map.empty" if "adir [nd] 0 = Some (path, ch)" for path ch
    using that nd by (auto simp: adir_def split: akind.splits)
  moreover obtain ch where "adir T 1 = Some (''/'', ch)" using T by (auto simp: tree_ok_def)
  moreover from this have "unat (1 :: fuse_ino_t) < length T" by (rule adir_bound)
  ultimately show ?thesis
    using tree_okD [OF T] by (auto simp: tree_ok_def adir_append split: if_splits)
qed

lemma unat_fresh: "length T < 2 ^ 31 \<Longrightarrow> unat (fresh T) = length T"
  by (simp add: fresh_def unat_of_nat)

text \<open>A node that is appended and entered in a directory under a free name or any other.\<close>

lemma tree_ok_enter:
  assumes T: "tree_ok T" and n: "length T < 2 ^ 31" and p: "adir T p = Some (path, ch)" and name: "component name"
    and nd: "\<And>ipath ich. akind nd = ADir ipath ich \<Longrightarrow> ich = Map.empty \<and> ipath = path @ name @ ''/''"
  shows "tree_ok (amod p (set_child name (fresh T)) T @ [nd])"
proof -
  have "edge_ok (T @ [nd]) path name (fresh T)"
    using name unat_fresh [OF n] nd by (auto simp: edge_ok_def adir_append adir_def split: akind.splits)
  moreover have "unat p < length T" using adir_bound [OF p] .
  ultimately have "tree_ok (amod p (set_child name (fresh T)) (T @ [nd]))"
    using p tree_ok_append [OF T, of nd] nd by (intro tree_ok_set) (auto simp: adir_append)
  then show ?thesis using adir_bound [OF p] by (simp add: amod_append)
qed

lemma tree_ok_step:
  assumes T: "tree_ok T" and n: "length T < 2 ^ 31" and c: "replicable c T" and a: "a_request c T = Some (rs, ops, T')"
  shows "tree_ok T'"
  using c a
proof (cases c)
  case (call_lookup p name)
  with a T show ?thesis by (auto simp: a_lookup_def split: option.splits elim!: in_dir_cases)
next
  case (call_mkdir p name)
  from a have "a_mkdir p name T = (rs, ops, T')" by (simp add: call_mkdir)
  then show ?thesis
    unfolding a_mkdir_def
  proof (cases rule: in_dir_cases)
    case (2 path ch)
    with c have "component name" by (simp add: call_mkdir)
    from tree_ok_enter [OF T n 2(1) this, of "\<lparr>akind = ADir (path @ name @ ''/'') Map.empty, alinks = 2\<rparr>"]
    have "tree_ok (amod p (add_links 1) (amod p (set_child name (fresh T)) T @
        [\<lparr>akind = ADir (path @ name @ ''/'') Map.empty, alinks = 2\<rparr>]))"
      by (simp add: tree_ok_same_kind add_links_def)
    then show ?thesis using 2 adir_bound [OF 2(1)] by (auto simp: amod_append)
  qed (use T in simp)
next
  case (call_create p name flags)
  from a have "a_create p name T = (rs, ops, T')" by (simp add: call_create)
  then show ?thesis
    unfolding a_create_def
  proof (cases rule: in_dir_cases)
    case (2 path ch)
    with c have "component name" by (simp add: call_create)
    from tree_ok_enter [OF T n 2(1) this, of "\<lparr>akind = AFile, alinks = 1\<rparr>"] 2(2) T
    show ?thesis by (auto split: if_splits)
  qed (use T in simp)
next
  case (call_unlink p name)
  from a have "a_unlink p name T = (rs, ops, T')" by (simp add: call_unlink)
  then show ?thesis
    unfolding a_unlink_def
  proof (cases rule: in_dir_cases)
    case (2 path ch)
    then show ?thesis
      using T tree_ok_del [of "amod (the (ch name)) (add_links (- 1)) T" p name]
      by (auto simp: tree_ok_same_kind add_links_def split: option.splits)
  qed (use T in simp)
next
  case (call_rmdir p name)
  from a have "a_rmdir p name T = (rs, ops, T')" by (simp add: call_rmdir)
  then show ?thesis
    unfolding a_rmdir_def
  proof (cases rule: in_dir_cases)
    case (2 path ch)
    then show ?thesis
      using T tree_ok_del [of "amod (the (ch name)) (\<lambda>nd. nd\<lparr>alinks := 0\<rparr>) (amod p (add_links (- 1)) T)" p name]
      by (auto simp: tree_ok_same_kind add_links_def split: option.splits if_splits prod.splits)
  qed (use T in simp)
next
  case (call_rename p name p' name')
  from a have "a_rename p name p' name' T = (rs, ops, T')" by (simp add: call_rename)
  then show ?thesis
    unfolding a_rename_def
  proof (cases rule: in_dir_cases)
    case (2 path ch)
    show ?thesis
    proof (cases "ch name")
      case (Some i)
      from 2(2) Some have "in_dir T p' EISDIR (\<lambda>path' ch'.
         let T1 = (case ch' name' of
                     None \<Rightarrow> T
                   | Some e \<Rightarrow> if e \<noteq> 0 \<and> adir T e \<noteq> None then amod p' (add_links 1) (amod p (add_links (- 1)) T) else T)
         in ([AErr ESUCCESS], [remote_rename (path @ name) (path' @ name')],
             amod p (del_child name) (amod p' (set_child name' i) T1))) = (rs, ops, T')" by simp
      then show ?thesis
      proof (cases rule: in_dir_cases)
        case q: (2 path' ch')
        with c 2(1) Some have r: "component name'" "adir T i = None" "\<forall>e. ch' name' = Some e \<longrightarrow> adir T e = None"
          by (simp_all add: call_rename)
        have "edge_ok T path' name' i"
          using r tree_okD [OF T 2(1) Some] by (simp add: edge_ok_def)
        then have "tree_ok (amod p (del_child name) (amod p' (set_child name' i) T))"
          using q(1) by (intro tree_ok_del tree_ok_set T) auto
        moreover have "T' = amod p (del_child name) (amod p' (set_child name' i) T)"
          using q(2) r(3) by (auto simp: Let_def split: option.splits)
        ultimately show ?thesis by simp
      qed (use T in simp)
    qed (use 2(2) T in simp)
  qed (use T in simp)
qed simp_all

section \<open>One process among the others\<close>

text \<open>
  A process between two requests: its receiver thread waits for a request, no flag is up, and its
  tree is \<open>T\<close>. \<open>F\<close> are the flags that are up.
\<close>

definition holds_tree :: "nat \<Rightarrow> nat \<Rightarrow> RequestType set \<Rightarrow> atree \<Rightarrow> fs_state \<Rightarrow> bool" where
  "holds_tree r w F T s \<longleftrightarrow> fs_wf s \<and> tree s = T \<and> mpiRank s = r \<and> mpiWorldSize s = w \<and>
     \<not> m_reclaimingINodes s \<and> (\<forall>t. flag t s \<longleftrightarrow> t \<in> F)"

lemma holds_tree_size: "holds_tree r w F T s \<Longrightarrow> n_inodes s = length T"
  by (auto simp: holds_tree_def simp flip: length_tree)

lemma holds_meets:
  assumes s: "holds_tree r w F T s" "length T < 2 ^ 31" and a: "a_request c T = Some (rs, ops, T')"
    and names: "\<forall>op\<in>set ops. op_request op \<in> F \<or> list_all name_ok (op_names op)"
  shows "\<exists>s'. FuseOperations esz ev c s = Inr s' \<and> holds_tree r w (F - op_request ` set ops) T' s' \<and>
    (\<exists>msgs. announce_all r w (filter (\<lambda>op. op_request op \<notin> F) ops) = Inr msgs \<and> sends s' = sends s @ msgs)"
proof -
  have wf: "fs_wf s" "n_inodes s < 2 ^ 31" "\<not> m_reclaimingINodes s" "tree s = T" "\<And>t. flag t s \<longleftrightarrow> t \<in> F"
    using s holds_tree_size [OF s(1)] by (auto simp: holds_tree_def)
  have m: "meets s (FuseOperations esz ev c s) (rs, ops, T')"
    using meets_request [OF wf(1-3)] a wf(4) by simp
  have own: "own s ops = filter (\<lambda>op. op_request op \<notin> F) ops" by (simp add: own_def wf(5))
  obtain s' msgs where s': "FuseOperations esz ev c s = Inr s'" "tree s' = T'" "same_session s s'"
    "announce_all (mpiRank s) (mpiWorldSize s) (own s ops) = Inr msgs" "sends s' = sends s @ msgs"
    "\<forall>t. flag t s' = (flag t s \<and> t \<notin> op_request ` set ops)"
    using m names by (fastforce simp: meets_def own)
  moreover have "fs_wf s'" using FuseOperations_grows [OF wf(1,2), of esz ev c] s'(1) by (auto simp: grows_def grown_def)
  ultimately show ?thesis
    using s(1) own by (auto simp: holds_tree_def same_session_def)
qed

lemma lookup_keeps: "\<exists>rs. a_lookup p name T = (rs, [], T)"
  by (auto simp: a_lookup_def in_dir_def split: option.split)

lemma resolving_call:
  assumes s: "holds_tree r w F T s" "length T < 2 ^ 31" and c: "resolving c"
  shows "\<exists>s'. FuseOperations esz ev c s = Inr s' \<and> holds_tree r w F T s'"
proof -
  have wf: "fs_wf s" "n_inodes s < 2 ^ 31" using s holds_tree_size [OF s(1)] by (auto simp: holds_tree_def)
  have quiet: "holds_tree r w F T s'"
    if "a_request c T = None" "\<forall>ino k. c \<noteq> call_forget ino k" "FuseOperations esz ev c s = Inr s'" for s'
  proof -
    have "untouched s s'" using other_calls_still [OF that(1,2)] that(3) by (auto simp: still_def)
    moreover have "fs_wf s'" using FuseOperations_grows [OF wf, of esz ev c] that(3) by (auto simp: grows_def grown_def)
    ultimately show ?thesis using s(1) by (auto simp: holds_tree_def untouched_def same_session_def)
  qed
  show ?thesis
  proof (cases c)
    case (call_lookup p name)
    obtain rs where "a_request c T = Some (rs, [], T)"
      using lookup_keeps [of p name T] by (auto simp: call_lookup)
    from holds_meets [OF s this, of esz ev] show ?thesis by auto
  next
    case (call_access ino amask)
    have "\<exists>s'. FuseOperations esz ev c s = Inr s'"
      using wf(2) by (auto simp: call_access FuseAccess_def no_such_ino_iff getINode_total Let_def)
    with quiet show ?thesis by (auto simp: call_access)
  next
    case (call_release ino)
    have "\<exists>s'. FuseOperations esz ev c s = Inr s'"
      using wf(2) by (auto simp: call_release FuseRelease_def no_such_ino_iff getINode_total Let_def)
    with quiet show ?thesis by (auto simp: call_release)
  qed (use c in simp_all)
qed

lemma resolving_calls:
  assumes "length T < 2 ^ 31"
  shows "holds_tree r w F T s \<Longrightarrow> list_all (resolving \<circ> snd) cs \<Longrightarrow>
    \<exists>s'. foldE (\<lambda>(ev, c). FuseOperations esz ev c) cs s = Inr s' \<and> holds_tree r w F T s'"
proof (induction cs arbitrary: s)
  case (Cons x cs)
  obtain s1 where "FuseOperations esz (fst x) (snd x) s = Inr s1" "holds_tree r w F T s1"
    using resolving_call [OF Cons.prems(1) assms, of "snd x" esz "fst x"] Cons.prems(2) by auto
  with Cons.IH [of s1] Cons.prems(2) show ?case by (auto simp: case_prod_beta)
qed simp

section \<open>All processes\<close>

text \<open>What the receiver thread's call of the operating system makes the kernel do to the file system.\<close>

definition carry_out :: "vfs \<Rightarrow> (string \<Rightarrow> nat) \<Rightarrow> string \<Rightarrow> os_call \<Rightarrow> fs_state \<Rightarrow> fs_state exec" where
  "carry_out K esz mnt call s = foldE (\<lambda>(ev, c). FuseOperations esz ev c) (K mnt call s) s"

text \<open>A process receives what was sent to it, and the calls its receiver thread makes are carried out.\<close>

definition hear :: "vfs \<Rightarrow> (string \<Rightarrow> nat) \<Rightarrow> dist_code \<Rightarrow> nat \<Rightarrow> packet list \<Rightarrow> receiver \<Rightarrow> receiver exec" where
  "hear K esz dc src pkts p =
     andThen (foldE (receive dc src) pkts p) (\<lambda>p1.
     andThen (foldE (carry_out K esz (fsPath dc)) (drop (length (rx_calls p)) (rx_calls p1)) (rx_fs p1)) (\<lambda>s.
       Inr (p1\<lparr>rx_fs := s\<rparr>)))"

text \<open>
  A request of the kernel of process \<open>src\<close>, and what the others make of it; they do not share
  anything, so their order does not matter.
\<close>

definition replicate_request ::
  "vfs \<Rightarrow> (string \<Rightarrow> nat) \<Rightarrow> string \<Rightarrow> nat \<times> env \<times> fuse_call \<Rightarrow> receiver list \<Rightarrow> receiver list exec" where
  "replicate_request K esz mnt = (\<lambda>(src, ev, c) ps.
     andThen (FuseOperations esz ev c (rx_fs (ps ! src))) (\<lambda>s.
       let msgs = drop (length (sends (rx_fs (ps ! src)))) (sends s)
       in mapE (\<lambda>i. if i = src then Inr ((ps ! i)\<lparr>rx_fs := s\<rparr>)
                    else hear K esz (new_DistributedCode i (length ps) mnt) src (arriving i msgs) (ps ! i))
            [0..<length ps]))"

definition agree :: "nat \<Rightarrow> atree \<Rightarrow> receiver list \<Rightarrow> bool" where
  "agree w T ps \<longleftrightarrow> length ps = w \<and> (\<forall>i<w. rx_running (ps ! i) \<and> rx_awaiting (ps ! i) = None \<and>
     holds_tree i w {} T (rx_fs (ps ! i)))"

lemma holds_raise:
  "holds_tree r w {} T s \<Longrightarrow> op_request op \<notin> {WRITE, READ} \<Longrightarrow> holds_tree r w {op_request op} T (raise_flag op s)"
proof -
  assume s: "holds_tree r w {} T s" and op: "op_request op \<notin> {WRITE, READ}"
  have "fs_wf (raise_flag op s) = fs_wf s" "tree (raise_flag op s) = tree s"
    "mpiRank (raise_flag op s) = mpiRank s" "mpiWorldSize (raise_flag op s) = mpiWorldSize s"
    "m_reclaimingINodes (raise_flag op s) = m_reclaimingINodes s"
    by (cases op; simp)+
  with s op show ?thesis by (auto simp: holds_tree_def)
qed

lemma announced_request: "a_request c T = Some (rs, ops, T') \<Longrightarrow> op \<in> set ops \<Longrightarrow> op_request op \<notin> {WRITE, READ}"
  by (cases c) (auto simp: a_defs Let_def split: option.splits if_splits prod.splits akind.splits)

lemma hear_repeats:
  assumes p: "rx_running p" "rx_awaiting p = None" "holds_tree i w {} T (rx_fs p)" and n: "Suc (length T) < 2 ^ 31"
    and i: "i < w" "i \<noteq> src" and names: "list_all name_ok (op_names op)"
    and msgs: "announce src w op = Inr msgs" and op: "op_request op \<notin> {WRITE, READ}"
    and rep: "repeats K T op rs T'" and len: "length T' \<le> Suc (length T)"
  shows "\<exists>p'. hear K esz (new_DistributedCode i w mnt) src (arriving i msgs) p = Inr p' \<and>
    rx_running p' \<and> rx_awaiting p' = None \<and> holds_tree i w {} T' (rx_fs p')"
proof -
  let ?dc = "new_DistributedCode i w mnt" and ?p1 = "replay (new_DistributedCode i w mnt) src op p"
  have rank: "code_rank ?dc = i" by (simp add: new_DistributedCode_def Let_def)
  have p1: "foldE (receive ?dc src) (arriving i msgs) p = Inr ?p1"
    by (rule replay_one [OF rank i names msgs p(2)])
  have s1: "holds_tree i w {op_request op} T (rx_fs ?p1)" using holds_raise [OF p(3) op] by simp
  then have "tree (rx_fs ?p1) = T" by (simp add: holds_tree_def)
  then obtain c' where K: "requests_of K (fsPath ?dc) (replayed ?dc src op) (rx_fs ?p1) c'"
    and c': "a_request c' T = Some (rs, [op], T')"
    using rep unfolding repeats_def by blast
  obtain pre ev post where K: "K (fsPath ?dc) (replayed ?dc src op) (rx_fs ?p1) = pre @ (ev, c') # post"
    "list_all (resolving \<circ> snd) pre" "list_all (resolving \<circ> snd) post"
    using K by (auto simp: requests_of_def)
  have T: "length T < 2 ^ 31" "length T' < 2 ^ 31" using n len by simp_all
  obtain s2 where s2: "foldE (\<lambda>(ev, c). FuseOperations esz ev c) pre (rx_fs ?p1) = Inr s2"
    "holds_tree i w {op_request op} T s2"
    using resolving_calls [OF T(1) s1 K(2)] by blast
  obtain s3 where s3: "FuseOperations esz ev c' s2 = Inr s3" "holds_tree i w {} T' s3"
    using holds_meets [OF s2(2) T(1) c', of esz ev] by auto
  obtain s4 where s4: "foldE (\<lambda>(ev, c). FuseOperations esz ev c) post s3 = Inr s4" "holds_tree i w {} T' s4"
    using resolving_calls [OF T(2) s3(2) K(3)] by blast
  have "carry_out K esz (fsPath ?dc) (replayed ?dc src op) (rx_fs ?p1) = Inr s4"
    unfolding carry_out_def K(1) foldE_append s2(1) using s3(1) s4(1) by simp
  then have "hear K esz ?dc src (arriving i msgs) p = Inr (?p1\<lparr>rx_fs := s4\<rparr>)"
    using p1 by (simp add: hear_def)
  then show ?thesis using p(1,2) s4(2) by simp
qed

lemma a_request_length: "a_request c T = Some (rs, ops, T') \<Longrightarrow> length T' \<le> Suc (length T)"
  by (cases c) (auto simp: a_lookup_def a_mkdir_def a_create_def a_symlink_def a_mknod_def a_unlink_def a_rmdir_def
      a_rename_def a_link_def Let_def split: option.splits if_splits elim!: in_dir_cases)

lemma replicable_named: "replicable c T \<Longrightarrow> \<exists>rs ops T'. a_request c T = Some (rs, ops, T')"
proof -
  assume "replicable c T"
  then have "a_request c T \<noteq> None" by (cases c) simp_all
  then show ?thesis by auto
qed

definition tree_step :: "fuse_call \<Rightarrow> atree \<Rightarrow> atree" where
  "tree_step c T = (case a_request c T of None \<Rightarrow> T | Some (rs, ops, T') \<Rightarrow> T')"

definition replicable_step :: "nat \<Rightarrow> nat \<times> fuse_call \<Rightarrow> atree \<Rightarrow> bool" where
  "replicable_step w = (\<lambda>(src, c) T. src < w \<and> replicable c T \<and> Suc (length T) < 2 ^ 31 \<and>
     (\<forall>rs ops T'. a_request c T = Some (rs, ops, T') \<longrightarrow> (\<forall>op\<in>set ops. list_all name_ok (op_names op))))"

lemma hear_nothing: "hear K esz dc src [] p = Inr p"
  by (simp add: hear_def)

lemma replicate_split:
  assumes "length ps = w" and "src < w" and "FuseOperations esz ev c (rx_fs (ps ! src)) = Inr s"
    and "sends s = sends (rx_fs (ps ! src)) @ msgs"
    and "\<And>i. i < w \<Longrightarrow> i \<noteq> src \<Longrightarrow>
      \<exists>p'. hear K esz (new_DistributedCode i w mnt) src (arriving i msgs) (ps ! i) = Inr p' \<and> P i p'"
  shows "\<exists>ps'. replicate_request K esz mnt (src, ev, c) ps = Inr ps' \<and> length ps' = w \<and>
    ps' ! src = (ps ! src)\<lparr>rx_fs := s\<rparr> \<and> (\<forall>i<w. i \<noteq> src \<longrightarrow> P i (ps' ! i))"
proof -
  let ?f = "\<lambda>i. if i = src then Inr ((ps ! i)\<lparr>rx_fs := s\<rparr>)
    else hear K esz (new_DistributedCode i w mnt) src (arriving i msgs) (ps ! i)"
  let ?P = "\<lambda>i p'. if i = src then p' = (ps ! src)\<lparr>rx_fs := s\<rparr> else P i p'"
  have "\<exists>ps'. mapE ?f [0..<w] = Inr ps' \<and> list_all2 ?P [0..<w] ps'"
    using assms(5) by (intro mapE_ex) simp
  then obtain ps' where ps': "mapE ?f [0..<w] = Inr ps'" "list_all2 ?P [0..<w] ps'" by blast
  have all: "length ps' = w" "?P i (ps' ! i)" if "i < w" for i
    using ps'(2) that by (auto simp: list_all2_conv_all_nth simp del: if_split)
  have "replicate_request K esz mnt (src, ev, c) ps = Inr ps'"
    using ps'(1) by (simp add: replicate_request_def Let_def assms(1,3,4) cong: if_cong)
  moreover have "ps' ! src = (ps ! src)\<lparr>rx_fs := s\<rparr>" using all(2) [OF assms(2)] by simp
  moreover have "P i (ps' ! i)" if "i < w" "i \<noteq> src" for i using all(2) [OF that(1)] that(2) by simp
  ultimately show ?thesis using all(1) [OF assms(2)] by blast
qed

text \<open>A process that hears of an operation which its own tree can repeat.\<close>

lemma hear_operation:
  assumes K: "vfs_documented K" and T: "tree_ok T" "Suc (length T) < 2 ^ 31"
    and p: "rx_running p" "rx_awaiting p = None" "holds_tree i w {} T (rx_fs p)"
    and c: "replicable c T" "a_request c T = Some (rs, [op], T')" and names: "list_all name_ok (op_names op)"
    and i: "i < w" "i \<noteq> src" and msgs: "announce src w op = Inr msgs"
  shows "\<exists>p'. hear K esz (new_DistributedCode i w mnt) src (arriving i msgs) p = Inr p' \<and>
    rx_running p' \<and> rx_awaiting p' = None \<and> holds_tree i w {} T' (rx_fs p')"
proof -
  have "repeats K T op rs T'" using replicable_repeats [OF T(1) K c] by blast
  then show ?thesis
    using hear_repeats [OF p T(2) i names msgs _ _ a_request_length [OF c(2)]] announced_request [OF c(2)] by simp
qed

lemma replicate_step:
  assumes K: "vfs_documented K" and ps: "agree w T ps" and T: "tree_ok T" and ok: "replicable_step w (src, c) T"
  shows "\<exists>ps'. replicate_request K esz mnt (src, ev, c) ps = Inr ps' \<and> agree w (tree_step c T) ps' \<and>
    tree_ok (tree_step c T)"
proof -
  have src: "src < w" and c: "replicable c T" and n: "Suc (length T) < 2 ^ 31" "length T < 2 ^ 31"
    using ok by (simp_all add: replicable_step_def)
  obtain rs ops T' where a: "a_request c T = Some (rs, ops, T')" using replicable_named [OF c] by blast
  have names: "\<forall>op\<in>set ops. list_all name_ok (op_names op)" using ok a by (simp add: replicable_step_def)
  have T': "tree_step c T = T'" by (simp add: tree_step_def a)
  have p: "rx_running (ps ! i)" "rx_awaiting (ps ! i) = None" "holds_tree i w {} T (rx_fs (ps ! i))" if "i < w" for i
    using ps that by (simp_all add: agree_def)
  obtain s msgs where s: "FuseOperations esz ev c (rx_fs (ps ! src)) = Inr s" "holds_tree src w {} T' s"
    and msgs: "announce_all src w ops = Inr msgs" "sends s = sends (rx_fs (ps ! src)) @ msgs"
    using holds_meets [OF p(3) [OF src] n(2) a, of esz ev] names by auto
  let ?P = "\<lambda>i p'. rx_running p' \<and> rx_awaiting p' = None \<and> holds_tree i w {} T' (rx_fs p')"
  have "\<exists>p'. hear K esz (new_DistributedCode i w mnt) src (arriving i msgs) (ps ! i) = Inr p' \<and> ?P i p'"
    if i: "i < w" "i \<noteq> src" for i
  proof -
    consider "ops = []" "T' = T" | op where "ops = [op]" using replicable_repeats [OF T K c a] by blast
    then show ?thesis
    proof cases
      case 1
      then have "msgs = []" using msgs(1) by (simp add: announce_all_def)
      then show ?thesis using p [OF i(1)] 1 by (simp add: arriving_def hear_nothing)
    next
      case (2 op)
      then have "announce src w op = Inr msgs" using msgs(1) by (auto simp: announce_all_def)
      then show ?thesis
        using hear_operation [OF K T n(1) p [OF i(1)] c _ _ i, of rs op T'] a names 2 by simp
    qed
  qed
  then obtain ps' where ps': "replicate_request K esz mnt (src, ev, c) ps = Inr ps'" "length ps' = w"
    "ps' ! src = (ps ! src)\<lparr>rx_fs := s\<rparr>" "\<forall>i<w. i \<noteq> src \<longrightarrow> ?P i (ps' ! i)"
    using replicate_split [OF _ src s(1) msgs(2), of K mnt ?P] ps by (auto simp: agree_def)
  have "?P i (ps' ! i)" if "i < w" for i
    using ps'(3,4) that p [OF src] s(2) by (cases "i = src") simp_all
  then show ?thesis
    using ps'(1,2) tree_ok_step [OF T n(2) c a] by (auto simp: agree_def T')
qed

interpretation replication: forward_simulation
  "replicate_request K esz mnt" "\<lambda>(src, ev, c). tree_step c"
  "\<lambda>(src, ev, c) T. replicable_step w (src, c) T \<and> vfs_documented K" "\<lambda>_. True"
  "\<lambda>ps T. agree w T ps \<and> tree_ok T"
  for K esz mnt w
proof unfold_locales
  fix x :: "nat \<times> env \<times> fuse_call" and ps ps' T
  obtain src ev c where x: "x = (src, ev, c)" by (cases x)
  assume R: "agree w T ps \<and> tree_ok T" and ok: "(case x of (src, ev, c) \<Rightarrow> \<lambda>T. replicable_step w (src, c) T \<and> vfs_documented K) T"
  then obtain ps1 where ps1: "replicate_request K esz mnt x ps = Inr ps1" "agree w (tree_step c T) ps1" "tree_ok (tree_step c T)"
    using replicate_step [of K w T ps src c esz mnt ev] by (auto simp: x)
  then show "\<exists>ps'. replicate_request K esz mnt x ps = Inr ps'" by simp
  assume "replicate_request K esz mnt x ps = Inr ps'"
  with ps1 show "agree w ((case x of (src, ev, c) \<Rightarrow> tree_step c) T) ps' \<and>
      tree_ok ((case x of (src, ev, c) \<Rightarrow> tree_step c) T)" by (simp add: x)
qed

section \<open>A kernel\<close>

text \<open>A kernel with the documented behaviour: it splits the path, walks, looks the last name up and asks.\<close>

fun split_at :: "string \<Rightarrow> string list" where
  "split_at [] = [[]]"
| "split_at (c # s) = (if c = CHR ''/'' then [] # split_at s else (c # hd (split_at s)) # tl (split_at s))"

definition path_components :: "string \<Rightarrow> string list" where
  "path_components path = filter (\<lambda>c. c \<noteq> []) (split_at path)"

definition walk_to :: "atree \<Rightarrow> string \<Rightarrow> fuse_ino_t \<times> string" where
  "walk_to T path = (let cs = path_components path in (the (walk T 1 (butlast cs)), last cs))"

definition asking :: "fuse_ino_t \<times> string \<Rightarrow> (fuse_ino_t \<Rightarrow> string \<Rightarrow> fuse_call) \<Rightarrow> (env \<times> fuse_call) list" where
  "asking = (\<lambda>(p, name) c. [(demo_env, call_lookup p name), (demo_env, c p name)])"

fun plain_vfs :: vfs where
  "plain_vfs mnt (os_mkdir path m) s = asking (walk_to (tree s) (drop (length mnt) path)) call_mkdir"
| "plain_vfs mnt (os_fopen_w path) s = asking (walk_to (tree s) (drop (length mnt) path)) (\<lambda>p name. call_create p name 0x241)"
| "plain_vfs mnt (os_unlink path) s = asking (walk_to (tree s) (drop (length mnt) path)) call_unlink"
| "plain_vfs mnt (os_rmdir path) s = asking (walk_to (tree s) (drop (length mnt) path)) call_rmdir"
| "plain_vfs mnt (os_rename old new) s =
     (let (p', name') = walk_to (tree s) (drop (length mnt) new)
      in asking (walk_to (tree s) (drop (length mnt) old)) (\<lambda>p name. call_rename p name p' name'))"
| "plain_vfs mnt call s = []"

lemma split_at_component: "CHR ''/'' \<notin> set c \<Longrightarrow> split_at (c @ CHR ''/'' # s) = c # split_at s"
  by (induction c) auto

lemma split_at_last: "CHR ''/'' \<notin> set c \<Longrightarrow> split_at c = [c]"
  by (induction c) auto

lemma path_components_dir:
  assumes "list_all component cs" and "component name"
  shows "path_components (dir_path cs @ name) = cs @ [name]" "path_components (dir_path cs @ name @ ''/'') = cs @ [name]"
proof -
  have "path_components (concat (map (\<lambda>c. c @ ''/'') cs) @ s) = cs @ path_components s" for s
    using assms(1) by (induction cs) (simp_all add: path_components_def split_at_component component_def)
  note dirs = this
  have "path_components (''/'' @ s) = path_components s" for s by (simp add: path_components_def)
  with dirs assms(2) show "path_components (dir_path cs @ name) = cs @ [name]"
    "path_components (dir_path cs @ name @ ''/'') = cs @ [name]"
    by (simp_all add: dir_path_def)
      (simp_all add: path_components_def split_at_last split_at_component component_def)
qed

lemma walk_to_dir:
  assumes "resolves T cs p ch" and "component name"
  shows "walk_to T (dir_path cs @ name) = (p, name)" "walk_to T (dir_path cs @ name @ ''/'') = (p, name)"
  using assms by (simp_all add: resolves_def walk_to_def path_components_dir)

lemma plain_vfs_documented: "vfs_documented plain_vfs"
proof -
  have asked: "\<exists>pre ev post. asking (p, name) c = pre @ (ev, c p name) # post \<and>
      list_all (resolving \<circ> snd) pre \<and> list_all (resolving \<circ> snd) post" for p name c
    by (intro exI [of _ "[(demo_env, call_lookup p name)]"] exI [of _ demo_env] exI [of _ "[]"]) (simp add: asking_def)
  show ?thesis
    unfolding vfs_documented_def requests_of_def
    using asked by (intro conjI allI impI exI [of _ "0x241"]) (simp_all add: walk_to_dir)
qed

section \<open>The trees of all processes agree\<close>

definition start_processes :: "env \<Rightarrow> nat \<Rightarrow> receiver list exec" where
  "start_processes ev w = mapE (\<lambda>r. andThen (FuseInit ev (new_FileSystem r w)) (\<lambda>s. Inr (new_receiver s))) [0..<w]"

lemma booted_agree:
  "\<exists>ps. start_processes ev w = Inr ps \<and> agree w (am_tree am_boot) ps" and tree_ok_boot: "tree_ok (am_tree am_boot)"
proof -
  have "holds_tree r w {} (am_tree am_boot) (booted ev r w)" for r
    using implements_booted [of r w ev] by (simp add: holds_tree_def implements_def)
  then show "\<exists>ps. start_processes ev w = Inr ps \<and> agree w (am_tree am_boot) ps"
    by (intro exI [of _ "map (\<lambda>r. new_receiver (booted ev r w)) [0..<w]"])
      (simp add: start_processes_def FuseInit_eq mapE_Inr agree_def new_receiver_def)
  show "tree_ok (am_tree am_boot)"
    by (auto simp: tree_ok_def am_boot_def adir_def nth_Cons split: nat.splits if_splits akind.splits)
qed

text \<open>
  C2. However many processes share the file system, and whatever kernel carries out the calls of the
  receiver threads in the documented way: after any sequence of lookups, of \<open>mkdir\<close>, \<open>create\<close>,
  \<open>unlink\<close> and \<open>rmdir\<close> and of renames of files, sent to any of the processes one after the other, all
  processes hold the same tree (the same inode numbers, names, kinds and link counts), the one the
  abstract file system gives, and no process has a flag left up or announces anything a second time.
\<close>

theorem replicas_agree:
  assumes "vfs_documented K"
    and "all_steps (replicable_step w) (\<lambda>(src, c). tree_step c) (map (\<lambda>(src, ev, c). (src, c)) reqs) (am_tree am_boot)"
  shows "\<exists>ps. andThen (start_processes ev w) (foldE (replicate_request K esz mnt) reqs) = Inr ps \<and> length ps = w \<and>
    (\<forall>i<w. tree (rx_fs (ps ! i)) = fold (\<lambda>(src, ev, c). tree_step c) reqs (am_tree am_boot) \<and>
       (\<forall>t. \<not> flag t (rx_fs (ps ! i))))"
proof -
  obtain ps0 where ps0: "start_processes ev w = Inr ps0" "agree w (am_tree am_boot) ps0"
    using booted_agree by blast
  let ?ok = "\<lambda>(src :: nat, ev :: env, c) T. replicable_step w (src, c) T \<and> vfs_documented K"
  have "all_steps ?ok (\<lambda>(src, ev, c). tree_step c) reqs T"
    if "all_steps (replicable_step w) (\<lambda>(src, c). tree_step c) (map (\<lambda>(src, ev, c). (src, c)) reqs) T" for T
    using that assms(1) by (induction reqs arbitrary: T) auto
  then have ok: "all_steps ?ok (\<lambda>(src, ev, c). tree_step c) reqs (am_tree am_boot)" using assms(2) by blast
  have R: "agree w (am_tree am_boot) ps0 \<and> tree_ok (am_tree am_boot)" using ps0(2) tree_ok_boot by simp
  obtain ps where ps: "foldE (replicate_request K esz mnt) reqs ps0 = Inr ps"
    using replication.run_ends [OF R ok, of esz mnt] by (auto simp: list_all_iff)
  then show ?thesis
    using replication.run_simulated [OF R ok ps] ps0(1) by (auto simp: agree_def holds_tree_def)
qed

definition demo_replicated :: "(nat \<times> env \<times> fuse_call) list" where
  "demo_replicated = [(0, demo_env, call_mkdir 1 ''a''), (1, demo_env, call_create 2 ''b'' 0),
     (0, demo_env, call_rename 2 ''b'' 1 ''c''), (1, demo_env, call_rmdir 1 ''a'')]"

lemma demo_replicated_ok:
  "all_steps (replicable_step 2) (\<lambda>(src, c). tree_step c) (map (\<lambda>(src, ev, c). (src, c)) demo_replicated) (am_tree am_boot)"
proof -
  have comps: "component ''a''" "component ''b''" "component ''c''" by (simp_all add: component_def)
  have reach: "reachable T 1" for T by (simp add: reachable_def exI [of _ "[]"])
  have "walk T 1 [''a''] = Some 2 \<Longrightarrow> reachable T 2" for T unfolding reachable_def by blast
  note eval = demo_replicated_def am_boot_def tree_step_def a_defs kMaxFilenameLength_def replicable_step_def name_ok_def
    name_capacity_def comps reach this
  show ?thesis by (simp add: eval)
qed

theorem replicas_agree_witness:
  "\<exists>ps. andThen (start_processes demo_env 2) (foldE (replicate_request plain_vfs length ''/mnt'') demo_replicated) = Inr ps \<and>
    tree (rx_fs (ps ! 0)) = tree (rx_fs (ps ! 1)) \<and>
    (\<exists>path ch. adir (tree (rx_fs (ps ! 1))) 1 = Some (path, ch) \<and> ch ''a'' = None \<and> ch ''c'' = Some 3)"
proof -
  have final: "\<exists>path ch. adir (fold (\<lambda>(src, ev, c). tree_step c) demo_replicated (am_tree am_boot)) 1 = Some (path, ch) \<and>
      ch ''a'' = None \<and> ch ''c'' = Some 3"
    by (simp add: demo_replicated_def am_boot_def tree_step_def a_defs kMaxFilenameLength_def)
  from replicas_agree [OF plain_vfs_documented demo_replicated_ok, of demo_env length "''/mnt''"] final
  show ?thesis by auto
qed

end
