(* ===== verification/ReplicaLimits.thy ===== *)
theory ReplicaLimits
  imports Replicas
begin

text \<open>
  Where the trees of the processes part: requests that nobody announces shift the inode numbers of
  one process (\<^verbatim>\<open>ramfs/FileSystem.cpp\<close>), files that are created on two processes at the same time get each
  other's number, and a directory that was renamed is announced by the path it was
  made with.
\<close>

section \<open>Inode numbers\<close>

lemma child_of_tree: "adir (tree s) p = Some (path, ch) \<Longrightarrow> ch nm = Some i \<Longrightarrow> child_of s p nm = i"
  by (auto simp: adir_tree child_of_def ChildINodeNumberWithName_def split: if_splits)

lemma created_child:
  assumes "a_request (call_create p name flags) T = Some (rs, [op], T')" and "length T < 2 ^ 31"
  shows "\<exists>path ch. adir T p = Some (path, ch) \<and> op = remote_create (path @ name) \<and> length T' = Suc (length T) \<and>
    (\<exists>ch'. adir T' p = Some (path, ch') \<and> ch' name = Some (fresh T))"
proof -
  from assms(1) have "a_create p name T = (rs, [op], T')" by simp
  then show ?thesis
    unfolding a_create_def
  proof (cases rule: in_dir_cases)
    case (2 path ch)
    then show ?thesis
      using adir_bound [OF 2(1)] by (auto simp: adir_append adir_children split: if_splits)
  qed simp
qed

lemma create_somewhere:
  assumes "adir T p = Some (path, ch)" and "length name \<le> kMaxFilenameLength"
  shows "\<exists>T'. a_request (call_create p name flags) T = Some ([ACreate (fresh T)], [remote_create (path @ name)], T')"
  using assms by (simp add: a_create_def in_dir_found)

text \<open>
  C19. While all trees agree, one process is asked for something that it announces to nobody (a
  symbolic link, a node): the other trees stay as they are, and from then on the same file has
  different inode numbers on different processes. A file created next on that process gets a number
  that does not exist on the others, so what a later distributed read or write of the file
  asks them for is not there.
\<close>

theorem unannounced_request_skews_numbers:
  assumes K: "vfs_documented K" and ps: "agree w T ps" and T: "tree_ok T" "length T + 2 < 2 ^ 31"
    and src: "src < w" and i: "i < w" "i \<noteq> src"
    and c: "a_request c T = Some (rs, [], T1)" "length T1 = Suc (length T)" "adir T1 p = Some (path, ch1)"
    and d: "adir T p = Some (path, ch)" "reachable T p" "component name" "ch name = None" "name_ok (path @ name)"
  shows "\<exists>ps1 ps2. replicate_request K esz mnt (src, ev, c) ps = Inr ps1 \<and>
    replicate_request K esz mnt (src, ev', call_create p name flags) ps1 = Inr ps2 \<and>
    tree (rx_fs (ps1 ! i)) = T \<and>
    child_of (rx_fs (ps2 ! src)) p name = child_of (rx_fs (ps2 ! i)) p name + 1 \<and>
    no_such_ino (rx_fs (ps2 ! i)) (child_of (rx_fs (ps2 ! src)) p name)"
proof -
  have p: "rx_running (ps ! j)" "rx_awaiting (ps ! j) = None" "holds_tree j w {} T (rx_fs (ps ! j))" if "j < w" for j
    using ps that by (simp_all add: agree_def)
  have n: "length T < 2 ^ 31" "Suc (length T) < 2 ^ 31" "length T1 < 2 ^ 31" using T(2) c(2) by simp_all
  obtain s1 where s1: "FuseOperations esz ev c (rx_fs (ps ! src)) = Inr s1" "holds_tree src w {} T1 s1"
    "sends s1 = sends (rx_fs (ps ! src))"
    using holds_meets [OF p(3) [OF src] n(1) c(1), of esz ev] by (auto simp: announce_all_def)
  obtain ps1 where ps1: "replicate_request K esz mnt (src, ev, c) ps = Inr ps1" "length ps1 = w"
    "ps1 ! src = (ps ! src)\<lparr>rx_fs := s1\<rparr>" "\<forall>j<w. j \<noteq> src \<longrightarrow> ps1 ! j = ps ! j"
    using replicate_split [where P = "\<lambda>j p'. p' = ps ! j" and msgs = "[]" and K = K and mnt = mnt, OF _ src s1(1)] ps s1(3)
    by (auto simp: agree_def arriving_def hear_nothing)
  have short: "length name \<le> kMaxFilenameLength"
    using d(5) by (simp add: name_ok_def name_capacity_def kMaxFilenameLength_def)
  let ?op = "remote_create (path @ name)"
  obtain T2 where T2: "a_request (call_create p name flags) T1 = Some ([ACreate (fresh T1)], [?op], T2)"
    using create_somewhere [OF c(3) short] by blast
  obtain T' where T': "a_request (call_create p name flags) T = Some ([ACreate (fresh T)], [?op], T')"
    using create_somewhere [OF d(1) short] by blast
  obtain s2 msgs where s2: "FuseOperations esz ev' (call_create p name flags) (rx_fs (ps1 ! src)) = Inr s2"
    "holds_tree src w {} T2 s2" "announce src w ?op = Inr msgs" "sends s2 = sends (rx_fs (ps1 ! src)) @ msgs"
    using holds_meets [of src w "{}" T1 s1 "call_create p name flags" _ "[?op]" T2 esz ev'] s1(2) n(3) T2 d(5) ps1(3)
    by (auto simp: announce_all_def)
  have c': "replicable (call_create p name flags) T" using d(1-4) by simp
  let ?P = "\<lambda>j p'. holds_tree j w {} T' (rx_fs p')"
  have heard: "\<exists>p'. hear K esz (new_DistributedCode j w mnt) src (arriving j msgs) (ps1 ! j) = Inr p' \<and> ?P j p'"
    if j: "j < w" "j \<noteq> src" for j
    using hear_operation [OF K T(1) n(2) p [OF j(1)] c' T' _ j s2(3), of esz mnt] d(5) ps1(4) j by auto
  obtain ps2 where ps2: "replicate_request K esz mnt (src, ev', call_create p name flags) ps1 = Inr ps2"
    "ps2 ! src = (ps1 ! src)\<lparr>rx_fs := s2\<rparr>" "\<forall>j<w. j \<noteq> src \<longrightarrow> ?P j (ps2 ! j)"
    using replicate_split [OF ps1(2) src s2(1,4) heard] by blast
  have i2: "tree (rx_fs (ps2 ! i)) = T'" using ps2(3) i by (simp add: holds_tree_def)
  have src2: "tree (rx_fs (ps2 ! src)) = T2" using ps2(2) s2(2) by (simp add: holds_tree_def)
  have child: "child_of (rx_fs (ps2 ! i)) p name = fresh T" "child_of (rx_fs (ps2 ! src)) p name = fresh T1"
    using created_child [OF T' n(1)] created_child [OF T2 n(3)] child_of_tree i2 src2 by metis+
  have "length T' = Suc (length T)" using created_child [OF T' n(1)] by blast
  then have size: "n_inodes (rx_fs (ps2 ! i)) = Suc (length T)" using i2 length_tree by metis
  have next1: "fresh T1 = fresh T + 1" using c(2) by (simp add: fresh_def)
  have "unat (fresh T1) = Suc (length T)" using unat_fresh [OF n(3)] c(2) by simp
  then have "no_such_ino (rx_fs (ps2 ! i)) (fresh T1)" using size n(2) by (simp add: no_such_ino_iff)
  moreover have "tree (rx_fs (ps1 ! i)) = T" using ps1(4) i p(3) [OF i(1)] by (simp add: holds_tree_def)
  ultimately show ?thesis using ps1(1) ps2(1) child next1 by (intro exI [of _ ps1] exI [of _ ps2]) simp
qed

theorem unannounced_request_skews_numbers_witness:
  "\<exists>ps ps1 ps2. start_processes demo_env 2 = Inr ps \<and>
    replicate_request plain_vfs length ''/mnt'' (0, demo_env, call_symlink ''t'' 1 ''l'') ps = Inr ps1 \<and>
    replicate_request plain_vfs length ''/mnt'' (0, demo_env, call_create 1 ''f'' 0) ps1 = Inr ps2 \<and>
    child_of (rx_fs (ps2 ! 0)) 1 ''f'' = child_of (rx_fs (ps2 ! 1)) 1 ''f'' + 1"
proof -
  let ?T = "am_tree am_boot"
  obtain ps where ps: "start_processes demo_env 2 = Inr ps" "agree 2 ?T ps" using booted_agree by blast
  obtain rs T1 where c: "a_request (call_symlink ''t'' 1 ''l'') ?T = Some (rs, [], T1)" "length T1 = Suc (length ?T)"
    "adir T1 1 = Some (''/'', [''l'' \<mapsto> 2])"
    by (simp add: am_boot_def a_defs)
  have d: "adir ?T 1 = Some (''/'', Map.empty)" "reachable ?T 1" "component ''f''" "name_ok (''/'' @ ''f'')" "length ?T + 2 < 2 ^ 31"
    by (simp_all add: am_boot_def adir_def reachable_def exI [of _ "[]"] component_def name_ok_def name_capacity_def)
  have "(0 :: nat) < 2" "(1 :: nat) < 2" "(1 :: nat) \<noteq> 0" by simp_all
  from unannounced_request_skews_numbers [OF plain_vfs_documented ps(2) tree_ok_boot d(5) this c d(1-3) _ d(4),
      of length "''/mnt''" demo_env demo_env 0] ps(1)
  show ?thesis by auto
qed

section \<open>Files created at the same time\<close>

text \<open>Entries are never lost by a \<open>create\<close>, so every path leads where it led.\<close>

lemma walk_more:
  assumes "\<And>a path ch. adir T a = Some (path, ch) \<Longrightarrow> \<exists>ch1. adir T1 a = Some (path, ch1) \<and> ch \<subseteq>\<^sub>m ch1"
  shows "walk T a cs = Some b \<Longrightarrow> walk T1 a cs = Some b"
proof (induction cs arbitrary: a)
  case (Cons c cs)
  then obtain path ch i where a: "adir T a = Some (path, ch)" "ch c = Some i" "walk T i cs = Some b"
    by (auto split: option.splits prod.splits)
  obtain ch1 where "adir T1 a = Some (path, ch1)" "ch \<subseteq>\<^sub>m ch1" using assms [OF a(1)] by blast
  moreover have "ch1 c = Some i" using a(2) \<open>ch \<subseteq>\<^sub>m ch1\<close> by (auto simp: map_le_def dom_def)
  ultimately show ?case using Cons.IH [OF a(3)] by simp
qed simp

lemma create_extends:
  assumes d: "adir T p = Some (path, ch)" "ch x = None" and len: "length x \<le> kMaxFilenameLength"
    and T: "length T < 2 ^ 31"
  shows "\<exists>T1. a_request (call_create p x flags) T = Some ([ACreate (fresh T)], [remote_create (path @ x)], T1) \<and>
    length T1 = Suc (length T) \<and> adir T1 p = Some (path, ch(x \<mapsto> fresh T)) \<and>
    (\<forall>a. a \<noteq> p \<longrightarrow> adir T a \<noteq> None \<longrightarrow> adir T1 a = adir T a) \<and> (\<forall>q. reachable T q \<longrightarrow> reachable T1 q)"
proof -
  let ?T1 = "amod p (set_child x (fresh T)) T @ [\<lparr>akind = AFile, alinks = 1\<rparr>]"
  have p: "adir ?T1 p = Some (path, ch(x \<mapsto> fresh T))"
    using d(1) adir_bound [OF d(1)] by (simp add: adir_append adir_children)
  have other: "adir ?T1 a = adir T a" if "a \<noteq> p" "adir T a \<noteq> None" for a
    using that adir_bound [of T a] d(1) adir_bound [OF d(1)] by (auto simp: adir_append adir_children)
  have "\<exists>ch1. adir ?T1 a = Some (path', ch1) \<and> ch' \<subseteq>\<^sub>m ch1" if "adir T a = Some (path', ch')" for a path' ch'
    using that p other [of a] d by (cases "a = p") (auto simp: map_le_def)
  then have "reachable ?T1 q" if "reachable T q" for q
    using walk_more [of T ?T1 1 _ q] that unfolding reachable_def by blast
  then show ?thesis
    using p other d(1) len by (auto simp: a_create_def in_dir_found amod_def intro!: exI [of _ ?T1])
qed

text \<open>One process creates \<open>x\<close>, and hears only then of the file \<open>y\<close> that process \<open>j\<close> created meanwhile.\<close>

lemma create_then_hear:
  assumes K: "vfs_documented K" and ps: "agree w T ps" and T: "tree_ok T" "length T + 2 < 2 ^ 31" and i: "i < w" "i \<noteq> j"
    and x: "adir T p = Some (path, ch)" "reachable T p" "component x" "ch x = None" "name_ok (path @ x)"
    and y: "adir T q = Some (qpath, qch)" "reachable T q" "component y" "qch y = None" "name_ok (qpath @ y)"
    and differ: "p \<noteq> q \<or> x \<noteq> y" and msgs: "announce j w (remote_create (qpath @ y)) = Inr mj"
  shows "\<exists>si mi pi. FuseOperations esz ev (call_create p x fl) (rx_fs (ps ! i)) = Inr si \<and>
    announce i w (remote_create (path @ x)) = Inr mi \<and> sends si = sends (rx_fs (ps ! i)) @ mi \<and>
    hear K esz (new_DistributedCode i w mnt) j (arriving i mj) ((ps ! i)\<lparr>rx_fs := si\<rparr>) = Inr pi \<and>
    child_of (rx_fs pi) p x = fresh T \<and> child_of (rx_fs pi) q y = fresh T + 1"
proof -
  have short: "length x \<le> kMaxFilenameLength" "length y \<le> kMaxFilenameLength"
    using x(5) y(5) by (simp_all add: name_ok_def name_capacity_def kMaxFilenameLength_def)
  have n: "length T < 2 ^ 31" using T(2) by simp
  obtain T1 where T1: "a_request (call_create p x fl) T = Some ([ACreate (fresh T)], [remote_create (path @ x)], T1)"
    "length T1 = Suc (length T)" "adir T1 p = Some (path, ch(x \<mapsto> fresh T))"
    "\<And>a. a \<noteq> p \<Longrightarrow> adir T a \<noteq> None \<Longrightarrow> adir T1 a = adir T a" "\<And>a. reachable T a \<Longrightarrow> reachable T1 a"
    using create_extends [OF x(1,4) short(1) n, of fl] by auto
  have n1: "length T1 < 2 ^ 31" "Suc (length T1) < 2 ^ 31" using T1(2) T(2) by simp_all
  have ok1: "tree_ok T1" using tree_ok_step [OF T(1) n _ T1(1)] x by simp
  obtain qch1 where q1: "adir T1 q = Some (qpath, qch1)" "qch1 y = None"
    using T1(3) T1(4) [of q] x(1) y(1,4) differ by (cases "p = q") auto
  obtain T2 where T2: "a_request (call_create q y fl) T1 = Some ([ACreate (fresh T1)], [remote_create (qpath @ y)], T2)"
    "adir T2 q = Some (qpath, qch1(y \<mapsto> fresh T1))" "\<And>a. a \<noteq> q \<Longrightarrow> adir T1 a \<noteq> None \<Longrightarrow> adir T2 a = adir T1 a"
    using create_extends [OF q1 short(2) n1(1), of fl] by auto
  have pi: "rx_running (ps ! i)" "rx_awaiting (ps ! i) = None" "holds_tree i w {} T (rx_fs (ps ! i))"
    using ps i(1) by (simp_all add: agree_def)
  obtain si mi where si: "FuseOperations esz ev (call_create p x fl) (rx_fs (ps ! i)) = Inr si" "holds_tree i w {} T1 si"
    "announce i w (remote_create (path @ x)) = Inr mi" "sends si = sends (rx_fs (ps ! i)) @ mi"
    using holds_meets [OF pi(3) n T1(1), of esz ev] x(5) by (auto simp: announce_all_def)
  let ?p = "(ps ! i)\<lparr>rx_fs := si\<rparr>"
  have p: "rx_running ?p" "rx_awaiting ?p = None" "holds_tree i w {} T1 (rx_fs ?p)" using pi(1,2) si(2) by simp_all
  have rep: "replicable (call_create q y fl) T1" using q1 y(3) T1(5) [OF y(2)] by simp
  obtain p' where p': "hear K esz (new_DistributedCode i w mnt) j (arriving i mj) ?p = Inr p'" "holds_tree i w {} T2 (rx_fs p')"
    using hear_operation [OF K ok1 n1(2) p rep T2(1) _ i msgs, of esz mnt] y(5) by auto
  have tree: "tree (rx_fs p') = T2" using p'(2) by (simp add: holds_tree_def)
  have "\<exists>ch'. adir T2 p = Some (path, ch') \<and> ch' x = Some (fresh T)"
  proof (cases "p = q")
    case True
    then show ?thesis using T1(3) T2(2) q1(1) differ by auto
  next
    case False
    then show ?thesis using T1(3) T2(3) [of p] by auto
  qed
  then have "child_of (rx_fs p') p x = fresh T" using child_of_tree [of "rx_fs p'" p] tree by auto
  moreover have "child_of (rx_fs p') q y = fresh T1" using child_of_tree [of "rx_fs p'" q] tree T2(2) by auto
  moreover have "fresh T1 = fresh T + 1" using T1(2) by (simp add: fresh_def)
  ultimately show ?thesis using si p'(1) by auto
qed

text \<open>
  C17. Two processes that create a file at the same time, each before it hears of the other's, end with
  the same names and with the two inode numbers exchanged: the number that means the one file on one
  process means the other file on the other, and the distributed operations name files by number.
\<close>

theorem concurrent_creates_swap_numbers:
  assumes K: "vfs_documented K" and ps: "agree w T ps" and T: "tree_ok T" "length T + 2 < 2 ^ 31"
    and ij: "i < w" "j < w" "i \<noteq> j"
    and x: "adir T p = Some (path, ch)" "reachable T p" "component x" "ch x = None" "name_ok (path @ x)"
    and y: "adir T q = Some (qpath, qch)" "reachable T q" "component y" "qch y = None" "name_ok (qpath @ y)"
    and differ: "p \<noteq> q \<or> x \<noteq> y"
  shows "\<exists>si sj mi mj pi pj.
    FuseOperations esz ev (call_create p x fl) (rx_fs (ps ! i)) = Inr si \<and> sends si = sends (rx_fs (ps ! i)) @ mi \<and>
    FuseOperations esz ev' (call_create q y fl') (rx_fs (ps ! j)) = Inr sj \<and> sends sj = sends (rx_fs (ps ! j)) @ mj \<and>
    hear K esz (new_DistributedCode i w mnt) j (arriving i mj) ((ps ! i)\<lparr>rx_fs := si\<rparr>) = Inr pi \<and>
    hear K esz (new_DistributedCode j w mnt) i (arriving j mi) ((ps ! j)\<lparr>rx_fs := sj\<rparr>) = Inr pj \<and>
    child_of (rx_fs pi) p x = child_of (rx_fs pj) q y \<and> child_of (rx_fs pi) q y = child_of (rx_fs pj) p x \<and>
    child_of (rx_fs pi) p x \<noteq> child_of (rx_fs pj) p x"
proof -
  obtain mi mj where m: "announce i w (remote_create (path @ x)) = Inr mi" "announce j w (remote_create (qpath @ y)) = Inr mj"
    using x(5) y(5) announced_total [of "remote_create (path @ x)" i w] announced_total [of "remote_create (qpath @ y)" j w]
    by auto
  have sym: "j \<noteq> i" "q \<noteq> p \<or> y \<noteq> x" using differ ij(3) by auto
  obtain si pi where i: "FuseOperations esz ev (call_create p x fl) (rx_fs (ps ! i)) = Inr si"
    "sends si = sends (rx_fs (ps ! i)) @ mi"
    "hear K esz (new_DistributedCode i w mnt) j (arriving i mj) ((ps ! i)\<lparr>rx_fs := si\<rparr>) = Inr pi"
    "child_of (rx_fs pi) p x = fresh T" "child_of (rx_fs pi) q y = fresh T + 1"
    using create_then_hear [OF K ps T ij(1,3) x y differ m(2), of esz ev fl mnt] m(1) by auto
  obtain sj pj where j: "FuseOperations esz ev' (call_create q y fl') (rx_fs (ps ! j)) = Inr sj"
    "sends sj = sends (rx_fs (ps ! j)) @ mj"
    "hear K esz (new_DistributedCode j w mnt) i (arriving j mi) ((ps ! j)\<lparr>rx_fs := sj\<rparr>) = Inr pj"
    "child_of (rx_fs pj) q y = fresh T" "child_of (rx_fs pj) p x = fresh T + 1"
    using create_then_hear [OF K ps T ij(2) sym(1) y x sym(2) m(1), of esz ev' fl' mnt] m(2) by auto
  have "fresh T \<noteq> fresh T + 1" by simp
  then have "child_of (rx_fs pi) p x = child_of (rx_fs pj) q y \<and> child_of (rx_fs pi) q y = child_of (rx_fs pj) p x \<and>
      child_of (rx_fs pi) p x \<noteq> child_of (rx_fs pj) p x"
    using i(4,5) j(4,5) by simp
  with i(1-3) j(1-3) show ?thesis by blast
qed

theorem concurrent_creates_swap_numbers_witness:
  "\<exists>ps si sj mi mj pi pj. start_processes demo_env 2 = Inr ps \<and>
    FuseOperations length demo_env (call_create 1 ''a'' 0) (rx_fs (ps ! 0)) = Inr si \<and> sends si = sends (rx_fs (ps ! 0)) @ mi \<and>
    FuseOperations length demo_env (call_create 1 ''b'' 0) (rx_fs (ps ! 1)) = Inr sj \<and> sends sj = sends (rx_fs (ps ! 1)) @ mj \<and>
    hear plain_vfs length (new_DistributedCode 0 2 ''/mnt'') 1 (arriving 0 mj) ((ps ! 0)\<lparr>rx_fs := si\<rparr>) = Inr pi \<and>
    hear plain_vfs length (new_DistributedCode 1 2 ''/mnt'') 0 (arriving 1 mi) ((ps ! 1)\<lparr>rx_fs := sj\<rparr>) = Inr pj \<and>
    child_of (rx_fs pi) 1 ''a'' = child_of (rx_fs pj) 1 ''b'' \<and> child_of (rx_fs pi) 1 ''a'' \<noteq> child_of (rx_fs pj) 1 ''a''"
proof -
  let ?T = "am_tree am_boot"
  obtain ps where ps: "start_processes demo_env 2 = Inr ps" "agree 2 ?T ps" using booted_agree by blast
  have d: "adir ?T 1 = Some (''/'', Map.empty)" "reachable ?T 1" "length ?T + 2 < 2 ^ 31"
    by (simp_all add: am_boot_def adir_def reachable_def exI [of _ "[]"])
  have a: "component ''a''" "name_ok (''/'' @ ''a'')" and b: "component ''b''" "name_ok (''/'' @ ''b'')"
    by (simp_all add: component_def name_ok_def name_capacity_def)
  have differ: "(1 :: fuse_ino_t) \<noteq> 1 \<or> ''a'' \<noteq> ''b''" and ij: "(0 :: nat) < 2" "(1 :: nat) < 2" "(0 :: nat) \<noteq> 1" by simp_all
  show ?thesis
    using concurrent_creates_swap_numbers [OF plain_vfs_documented ps(2) tree_ok_boot d(3) ij d(1,2) a(1) _ a(2) d(1,2) b(1) _ b(2)
        differ, of length demo_env 0 demo_env 0 "''/mnt''"] ps(1) by blast
qed

section \<open>Renamed directories\<close>

lemma holds_own:
  assumes "fs_wf s" and "\<not> m_reclaimingINodes s" and "\<forall>t. \<not> flag t s"
  shows "holds_tree (mpiRank s) (mpiWorldSize s) {} (tree s) s"
  using assms by (simp add: holds_tree_def)

lemma tree_child:
  assumes "is_dir s p d" and "child_of s p name \<noteq> -1"
  shows "adir (tree s) p = Some (dir_name d, map_find (m_children d))"
    and "map_find (m_children d) name = Some (child_of s p name)"
proof -
  show "adir (tree s) p = Some (dir_name d, map_find (m_children d))" using assms(1) by (simp add: adir_tree is_dir_def)
  show "map_find (m_children d) name = Some (child_of s p name)"
    using assms(2) by (auto simp: child_ofI [OF assms(1)] ChildINodeNumberWithName_def split: option.splits)
qed

text \<open>
  C20. A directory goes on announcing what is made in it by the path it was made with: after it was
  renamed, which the other processes are told, the next \<open>mkdir\<close> in it is announced under the old path.
\<close>

theorem renamed_directory_announces_old_path:
  fixes ev :: env
  assumes wf: "fs_wf s" and n: "Suc (n_inodes s) < 2 ^ 31" and idle: "\<not> m_reclaimingINodes s" "\<forall>t. \<not> flag t s"
    and d: "is_dir s p d" "child_of s p name = i" "i \<noteq> -1" and di: "is_dir s i di" and d': "is_dir s p' d'"
    and names: "name_ok (dir_name d @ name)" "name_ok (dir_name d' @ name')" "name_ok (dir_name di @ x @ ''/'')"
  defines "r \<equiv> mpiRank s" and "w \<equiv> mpiWorldSize s"
  shows "\<exists>s1 s2 m1 m2. FuseRename p name p' name' s = Inr s1 \<and> FuseMkdir ev i x s1 = Inr s2 \<and>
    announce r w (remote_rename (dir_name d @ name) (dir_name d' @ name')) = Inr m1 \<and>
    announce r w (remote_mkdir (dir_name di @ x @ ''/'')) = Inr m2 \<and> sends s2 = sends s @ m1 @ m2"
proof -
  let ?T = "tree s"
  have T: "length ?T < 2 ^ 31" using n by simp
  note dirs = tree_child [OF d(1), of name, unfolded d(2), OF d(3)]
  have e: "adir ?T p' = Some (dir_name d', map_find (m_children d'))" "adir ?T i = Some (dir_name di, map_find (m_children di))"
    using di d' by (simp_all add: adir_tree is_dir_def)
  obtain T1 where T1: "a_request (call_rename p name p' name') ?T =
      Some ([AErr ESUCCESS], [remote_rename (dir_name d @ name) (dir_name d' @ name')], T1)"
    by (simp add: a_rename_def in_dir_found [OF dirs(1)] in_dir_found [OF e(1)] dirs(2) Let_def)
  have "map_option fst (adir T1 q) = map_option fst (adir ?T q)" for q
    using T1 by (auto simp: a_rename_def in_dir_found [OF dirs(1)] in_dir_found [OF e(1)] dirs(2) Let_def adir_children
        adir_same_kind add_links_def option.map_comp comp_def split: option.splits if_splits)
  from this [of i] obtain ich where i1: "adir T1 i = Some (dir_name di, ich)" using e(2) by auto
  have len1: "length T1 < 2 ^ 31" using a_request_length [OF T1] n by simp
  obtain T2 where T2: "a_request (call_mkdir i x) T1 = Some ([AEntry (fresh T1)], [remote_mkdir (dir_name di @ x @ ''/'')], T2)"
    by (simp add: a_mkdir_def in_dir_found [OF i1])
  obtain s1 m1 where s1: "FuseRename p name p' name' s = Inr s1" "holds_tree r w {} T1 s1" "sends s1 = sends s @ m1"
    "announce r w (remote_rename (dir_name d @ name) (dir_name d' @ name')) = Inr m1"
    using holds_meets [OF holds_own [OF wf idle] T T1, of length ev] names by (auto simp: announce_all_def r_def w_def)
  obtain s2 m2 where "FuseMkdir ev i x s1 = Inr s2" "sends s2 = sends s1 @ m2"
    "announce r w (remote_mkdir (dir_name di @ x @ ''/'')) = Inr m2"
    using holds_meets [OF s1(2) len1 T2, of length ev] names by (auto simp: announce_all_def)
  with s1 show ?thesis by auto
qed

theorem renamed_directory_announces_old_path_witness:
  "\<exists>s1 s2 m1 m2. FuseRename 1 ''d'' 1 ''e'' demo_tree = Inr s1 \<and> FuseMkdir demo_env 2 ''x'' s1 = Inr s2 \<and>
    announce 0 2 (remote_rename ''/d'' ''/e'') = Inr m1 \<and> announce 0 2 (remote_mkdir ''/d/x/'') = Inr m2 \<and>
    sends s2 = m1 @ m2"
proof -
  have idle: "\<not> m_reclaimingINodes demo_tree" "\<forall>t. \<not> flag t demo_tree" "mpiRank demo_tree = 0" "mpiWorldSize demo_tree = 2"
  proof -
    show "\<forall>t. \<not> flag t demo_tree"
    proof
      fix t show "\<not> flag t demo_tree" by (cases t) (simp_all add: demo_tree_def demo_fs_def)
    qed
  qed (simp_all add: demo_tree_def demo_fs_def)
  show ?thesis
    using renamed_directory_announces_old_path [OF fs_wf_demo_tree _ idle(1,2) demo_root_dir, of "''d''" 2, OF _ _ _ demo_d_dir demo_root_dir,
        of "''e''" "''x''" demo_env] idle(3,4)
    by (simp add: demo_entries name_ok_def name_capacity_def)
qed

end
