(* ===== verification/FsAttrSpec.thy ===== *)
theory FsAttrSpec
  imports FsBoot FsAttributes
begin

text \<open>
  What the handlers of extended attributes and directory streams do on a well-formed state: what a
  value reads back as after it was set, and what the pages of a directory listing contain.
\<close>

section \<open>Extended attributes\<close>

definition xattr_value :: "inode \<Rightarrow> string \<Rightarrow> cell list" where
  "xattr_value nd name = (case map_find (m_xattr nd) name of None \<Rightarrow> [] | Some v \<Rightarrow> v)"

lemma SetXAttr_stores:
  assumes "\<not> has_flag flags XATTR_CREATE" and "\<not> has_flag flags XATTR_REPLACE" and "length val < 2 ^ 64"
  shows "SetXAttr True nd name val flags 0 =
    Inr (nd\<lparr>m_xattr := map_assign (map_assign (m_xattr nd) name (xattr_value nd name)) name
      (val @ drop (length val) (xattr_value nd name))\<rparr>, ESUCCESS)"
  using assms
  by (auto simp: SetXAttr_def xattr_value_def memcpy_to_def realloc_def buffer_cells_def Let_def exec_simps)

lemma GetXAttr_replies:
  assumes "n_inodes s < 2 ^ 31" and "unat ino < n_inodes s"
    and "map_find (m_xattr (inode_at s ino)) name = Some v" and "length v < 2 ^ 64"
  shows "FuseGetXAttr ino name sz s = Inr (reply
    (if sz = 0 then Reply_xattr (of_nat (length v))
     else if unat sz \<le> length v then Reply_buf (take (unat sz) v) else Reply_err ERANGE) s)"
proof -
  have "unat (of_nat (length v) :: u64) = length v" using assms(4) by (simp add: unat_of_nat take_bit_nat_eq_self_iff)
  then have "(of_nat (length v) < sz) = (length v < unat sz)" by (simp add: word_less_nat_alt)
  then show ?thesis
    using assms
    by (auto simp: FuseGetXAttr_def no_such_ino_iff getINode_total GetXAttr_def read_from_def exec_simps
        Let_def unat_eq_0)
qed

text \<open>
  C35. Setting an extended attribute, new or not, with no flags: the request is answered with
  success, the value reads back, and no other attribute of the inode and no other inode changes. An
  older value that is longer keeps its end behind the new one. Reading with a buffer that is
  larger than the value is answered with \<open>ERANGE\<close>, reading with a smaller one returns a part of it.
\<close>

theorem FuseSetXAttr_then_get:
  assumes wf: "n_inodes s < 2 ^ 31" "unat ino < n_inodes s" and "alloc_ok ev"
    and "\<not> has_flag flags XATTR_CREATE" and "\<not> has_flag flags XATTR_REPLACE"
    and "length val < 2 ^ 64" and "length (xattr_value (inode_at s ino) name) < 2 ^ 64"
  defines "stored \<equiv> val @ drop (length val) (xattr_value (inode_at s ino) name)"
  shows "\<exists>s'. FuseSetXAttr ev ino name val flags s = Inr s' \<and> replies s' = replies s @ [Reply_err ESUCCESS] \<and>
    (\<forall>sz. FuseGetXAttr ino name sz s' = Inr (reply
       (if sz = 0 then Reply_xattr (of_nat (length stored))
        else if unat sz \<le> length stored then Reply_buf (take (unat sz) stored) else Reply_err ERANGE) s')) \<and>
    (\<forall>other. other \<noteq> name \<longrightarrow>
       map_find (m_xattr (inode_at s' ino)) other = map_find (m_xattr (inode_at s ino)) other) \<and>
    (\<forall>j. j \<noteq> ino \<longrightarrow> inode_at s' j = inode_at s j) \<and> attr (inode_at s' ino) = attr (inode_at s ino)"
proof -
  let ?nd = "inode_at s ino" and ?set = "\<lambda>nd. nd\<lparr>m_xattr := map_assign (map_assign (m_xattr nd) name (xattr_value nd name)) name stored\<rparr>"
  define s' where "s' = reply_err ESUCCESS (modINode ino (\<lambda>_. ?set ?nd) s)"
  have eq: "FuseSetXAttr ev ino name val flags s = Inr s'"
    using assms(1-6)
    by (simp add: FuseSetXAttr_def no_such_ino_iff getINode_total SetXAttr_stores exec_simps s'_def stored_def)
  have at: "inode_at s' j = (if j = ino then ?set ?nd else inode_at s j)" for j
    using wf(2) by (simp add: s'_def inode_at_modINode)
  have small: "length stored < 2 ^ 64" using assms(6,7) by (simp add: stored_def)
  have n: "n_inodes s' = n_inodes s" by (simp add: s'_def n_inodes_def)
  have get: "FuseGetXAttr ino name sz s' = Inr (reply
       (if sz = 0 then Reply_xattr (of_nat (length stored))
        else if unat sz \<le> length stored then Reply_buf (take (unat sz) stored) else Reply_err ERANGE) s')" for sz
    using wf small by (intro GetXAttr_replies) (simp_all add: n at map_find_assign)
  show ?thesis
    using eq get by (intro exI [of _ s'] conjI allI impI) (simp_all add: at map_find_assign attr_def, simp add: s'_def)
qed

theorem FuseSetXAttr_then_get_witness:
  "\<exists>s'. FuseSetXAttr demo_env 3 ''user.k'' [Byte 1, Byte 2] 0 demo_tree = Inr s' \<and>
     FuseGetXAttr 3 ''user.k'' 2 s' = Inr (reply (Reply_buf [Byte 1, Byte 2]) s') \<and>
     FuseGetXAttr 3 ''user.k'' 3 s' = Inr (reply (Reply_err ERANGE) s')"
proof -
  have none: "xattr_value (inode_at demo_tree 3) ''user.k'' = []"
    by (simp add: xattr_value_def demo_file_def Lookup_def registered_inode_def InitializeINode_def createEmptyINode_def
        new_INode_def set_attr_def Let_def)
  obtain s' where "FuseSetXAttr demo_env 3 ''user.k'' [Byte 1, Byte 2] 0 demo_tree = Inr s'"
    and "\<forall>sz. FuseGetXAttr 3 ''user.k'' sz s' = Inr (reply
       (if sz = 0 then Reply_xattr (of_nat (length [Byte 1, Byte 2]))
        else if unat sz \<le> length [Byte 1, Byte 2] then Reply_buf (take (unat sz) [Byte 1, Byte 2]) else Reply_err ERANGE) s')"
    using FuseSetXAttr_then_get [of demo_tree 3 demo_env 0 "[Byte 1, Byte 2]" "''user.k''"] none
    by (auto simp: demo_env_def has_flag_def)
  moreover from this(2) [rule_format, of 2] this(2) [rule_format, of 3]
  have "FuseGetXAttr 3 ''user.k'' 2 s' = Inr (reply (Reply_buf [Byte 1, Byte 2]) s')"
    "FuseGetXAttr 3 ''user.k'' 3 s' = Inr (reply (Reply_err ERANGE) s')"
    by simp_all
  ultimately show ?thesis by blast
qed

section \<open>Directory streams\<close>

definition page_size :: "nat \<Rightarrow> nat" where
  "page_size sz = (if kReadDirBufSize < sz then kReadDirBufSize else sz)"

lemma readdir_loop_fits:
  "bytes + sum_list (map (\<lambda>(name, _). esz name) es) \<le> bufSize \<Longrightarrow> n + length es \<le> kReadDirEntriesPerResponse \<Longrightarrow>
     readdir_loop esz bufSize bytes n acc prev es = Inr (acc @ es, None)"
  by (induction es arbitrary: bytes n acc prev) auto

lemma iter_split_begin:
  "iter_split m (map_option fst (case m of [] \<Rightarrow> None | e # _ \<Rightarrow> Some e)) = Inr ([], m)"
  by (cases m) (auto simp: iter_split_def)

text \<open>
  C36. A directory whose records fit one page of 384 bytes and 255 entries is listed completely by the
  first call: itself, its parent, then its children in the order of their names; the call that
  follows, with the offset the entries carry, answers that there are no more.
\<close>

theorem FuseReadDir_lists:
  assumes "n_inodes s < 2 ^ 31" and "is_dir s ino d" and "alloc_ok ev"
    and "esz ''.'' + esz ''..'' + sum_list (map (\<lambda>(name, _). esz name) (m_children d)) \<le> page_size sz"
    and "length (m_children d) + 2 \<le> kReadDirEntriesPerResponse"
  shows "\<exists>s' s''. FuseReadDir esz ev ino sz 0 s = Inr s' \<and>
    FuseReadDir esz ev ino sz (Suc (length (dirIterators s))) s' = Inr s'' \<and>
    replies s'' = replies s @ [Reply_dirents ([(''.'', ino), (''..'', ino)] @ m_children d), Reply_buf []] \<and>
    INodeManager s'' = INodeManager s"
proof -
  have dir: "\<not> no_such_ino s ino" "getINode s ino = Inr (inode_at s ino)" "as_Directory (inode_at s ino) = Some d"
    using assms(1,2) by (auto simp: is_dir_def no_such_ino_iff getINode_total)
  let ?s' = "reply (Reply_dirents ([(''.'', ino), (''..'', ino)] @ m_children d)) (s\<lparr>dirIterators := dirIterators s @ [None]\<rparr>)"
  have first: "FuseReadDir esz ev ino sz 0 s = Inr ?s'"
    using dir assms(3-5)
    by (simp add: FuseReadDir_def exec_simps Let_def nth_append iter_split_begin readdir_loop_fits page_size_def)
  have "\<not> no_such_ino ?s' ino" "getINode ?s' ino = Inr (inode_at s ino)"
    using dir(1,2) by (simp_all add: no_such_ino_def getINode_def)
  then have "FuseReadDir esz ev ino sz (Suc (length (dirIterators s))) ?s' = Inr (reply (Reply_buf []) ?s')"
    using dir(3) by (simp add: FuseReadDir_def exec_simps Let_def nth_append)
  with first show ?thesis by (intro exI [of _ ?s'] exI [of _ "reply (Reply_buf []) ?s'"]) simp
qed

theorem FuseReadDir_lists_witness:
  "\<exists>s' s''. FuseReadDir (\<lambda>_. 32) demo_env 1 4096 0 demo_tree = Inr s' \<and>
     FuseReadDir (\<lambda>_. 32) demo_env 1 4096 (Suc (length (dirIterators demo_tree))) s' = Inr s'' \<and>
     replies s'' = [Reply_dirents [(''.'', 1), (''..'', 1), (''d'', 2), (''f'', 3)], Reply_buf []]"
proof -
  have dir: "is_dir demo_tree 1 \<lparr>dir_name = ''/'', parentDir = None, m_children = [(''d'', 2), (''f'', 3)]\<rparr>"
    by (simp add: is_dir_def as_Directory_def)
  show ?thesis
    using FuseReadDir_lists [OF _ dir, of demo_env "\<lambda>_. 32" 4096]
    by (auto simp: demo_env_def page_size_def kReadDirBufSize_def kReadDirEntriesPerResponse_def)
qed

text \<open>A call that stands before an entry whose successor does not fit the page with it.\<close>

lemma readdir_stays:
  assumes "\<not> no_such_ino s ino" and "getINode s ino = Inr nd" and "as_Directory nd = Some d" and "alloc_ok ev"
    and "m_children d = (p, i) # (q, j) # es" and "esz p \<le> page_size sz" and "page_size sz < esz p + esz q"
    and "length (dirIterators s) = Suc k" and "dirIterators s ! k = Some p"
  shows "FuseReadDir esz ev ino sz (Suc k) s = Inr (reply (Reply_dirents [(p, i)]) s)"
proof -
  have same: "(dirIterators s)[k := Some p] = dirIterators s" using assms(9) by (metis list_update_id)
  have "iter_split (m_children d) (Some p) = Inr ([], m_children d)"
    using assms(5) by (simp add: iter_split_def)
  then show ?thesis
    using assms same
    by (simp add: FuseReadDir_def exec_simps Let_def page_size_def kReadDirEntriesPerResponse_def)
qed

text \<open>
  C37. When the record of the second entry of a directory does not fit a page together with that of the
  first, the iterator is moved back behind it in every call: after the first page each further call
  lists the first entry once more, and the second is never listed.
\<close>

theorem FuseReadDir_never_ends:
  assumes "n_inodes s < 2 ^ 31" and "is_dir s ino d" and "alloc_ok ev"
    and "m_children d = (p, i) # (q, j) # es"
    and "esz ''.'' + esz ''..'' + esz p \<le> page_size sz" and "page_size sz < esz p + esz q"
  shows "\<exists>s'. FuseReadDir esz ev ino sz 0 s = Inr s' \<and>
    (\<forall>n. \<exists>s''. foldE (\<lambda>_. FuseReadDir esz ev ino sz (Suc (length (dirIterators s)))) [0..<n] s' = Inr s'' \<and>
       replies s'' = replies s @ Reply_dirents [(''.'', ino), (''..'', ino), (p, i)] # replicate n (Reply_dirents [(p, i)]))"
proof -
  have dir: "\<not> no_such_ino s ino" "getINode s ino = Inr (inode_at s ino)" "as_Directory (inode_at s ino) = Some d"
    using assms(1,2) by (auto simp: is_dir_def no_such_ino_iff getINode_total)
  let ?k = "length (dirIterators s)"
  let ?s' = "reply (Reply_dirents [(''.'', ino), (''..'', ino), (p, i)]) (s\<lparr>dirIterators := dirIterators s @ [Some p]\<rparr>)"
  have first: "FuseReadDir esz ev ino sz 0 s = Inr ?s'"
    using dir assms(3-6)
    by (simp add: FuseReadDir_def exec_simps Let_def nth_append iter_split_def page_size_def kReadDirEntriesPerResponse_def)
  have "foldE (\<lambda>_. FuseReadDir esz ev ino sz (Suc ?k)) [0..<n] ?s' =
      Inr (?s'\<lparr>replies := replies ?s' @ replicate n (Reply_dirents [(p, i)])\<rparr>)" for n
  proof (induction n)
    case (Suc n)
    let ?t = "?s'\<lparr>replies := replies ?s' @ replicate n (Reply_dirents [(p, i)])\<rparr>"
    have "FuseReadDir esz ev ino sz (Suc ?k) ?t = Inr (reply (Reply_dirents [(p, i)]) ?t)"
      using dir assms(3-6)
      by (intro readdir_stays [where d = d and q = q and j = j and es = es]) (simp_all add: no_such_ino_def getINode_def nth_append)
    with Suc show ?case by (simp add: foldE_append reply_def replicate_append_same exec_simps)
  qed simp
  with first show ?thesis by (intro exI [of _ ?s']) simp
qed

text \<open>Names of 170 characters, and the record size of libfuse: 24 bytes and the name, rounded up to 8.\<close>

definition long_name :: "char \<Rightarrow> string" where
  "long_name c = replicate 170 c"

definition direntry_size :: "string \<Rightarrow> nat" where
  "direntry_size name = (24 + length name + 7) div 8 * 8"

definition demo_listing :: fs_state where
  "demo_listing = modINode 1 (set_Directory (\<lambda>d. d\<lparr>m_children := [(long_name CHR ''a'', 2), (long_name CHR ''b'', 3)]\<rparr>)) demo_tree"

theorem FuseReadDir_never_ends_witness:
  "\<exists>s'. FuseReadDir direntry_size demo_env 1 4096 0 demo_listing = Inr s' \<and>
    (\<exists>s''. foldE (\<lambda>_. FuseReadDir direntry_size demo_env 1 4096 1) [0..<1000] s' = Inr s'' \<and>
       length (replies s'') = 1001 \<and> last (replies s'') = Reply_dirents [(long_name CHR ''a'', 2)])"
proof -
  let ?d = "\<lparr>dir_name = ''/'', parentDir = None, m_children = [(long_name CHR ''a'', 2), (long_name CHR ''b'', 3)]\<rparr>"
  have dir: "is_dir demo_listing 1 ?d" and n: "n_inodes demo_listing < 2 ^ 31"
    and fresh: "dirIterators demo_listing = []" "replies demo_listing = []"
    by (simp_all add: demo_listing_def is_dir_def inode_at_modINode as_Directory_def set_Directory_def)
      (simp_all add: demo_tree_def demo_fs_def)
  have sizes: "direntry_size ''.'' + direntry_size ''..'' + direntry_size (long_name CHR ''a'') \<le> page_size 4096"
    "page_size 4096 < direntry_size (long_name CHR ''a'') + direntry_size (long_name CHR ''b'')"
    by (simp_all add: direntry_size_def long_name_def page_size_def kReadDirBufSize_def)
  obtain s' where "FuseReadDir direntry_size demo_env 1 4096 0 demo_listing = Inr s'"
    and "\<forall>n. \<exists>s''. foldE (\<lambda>_. FuseReadDir direntry_size demo_env 1 4096 1) [0..<n] s' = Inr s'' \<and>
      replies s'' = Reply_dirents [(''.'', 1), (''..'', 1), (long_name CHR ''a'', 2)] #
        replicate n (Reply_dirents [(long_name CHR ''a'', 2)])"
    using FuseReadDir_never_ends [OF n dir, of demo_env "long_name CHR ''a''" 2 "long_name CHR ''b''" 3 "[]" direntry_size 4096] sizes fresh
    by (auto simp: demo_env_def)
  from this(1) this(2) [rule_format, of 1000] show ?thesis by fastforce
qed

end
