(* ===== verification/ClientServerFiles.thy ===== *)
theory ClientServerFiles
  imports SharedFiles ClientServerProps
begin

text \<open>
  Files of the client-server version: the requests that the master's kernel makes about the contents of
  any files, interleaved in any way, against a specification with one list of bytes per file
  (\<^verbatim>\<open>client-server/include/ramfs/FileSystem.cpp\<close>, \<^verbatim>\<open>mpi/MasterProcessCode.cpp\<close>).
\<close>

section \<open>Bytes and blocks of 128 KiB\<close>

definition cs_blocks_for :: "nat \<Rightarrow> nat" where
  "cs_blocks_for n = n div CS_SINGLE_BLOCK_SIZE + (if n mod CS_SINGLE_BLOCK_SIZE \<noteq> 0 then 1 else 0)"

abbreviation cs_capacity :: "nat \<Rightarrow> nat" where
  "cs_capacity n \<equiv> CS_SINGLE_BLOCK_SIZE * cs_blocks_for n"

abbreviation cs_pad :: "cell list \<Rightarrow> cell list" where
  "cs_pad bytes \<equiv> fill (cs_capacity (length bytes)) bytes"

lemma cs_blocks_for_covers: "n \<le> cs_capacity n" "cs_capacity n < n + CS_SINGLE_BLOCK_SIZE"
  unfolding cs_blocks_for_def by (rule round_up, simp)+

lemma cs_blocks_for_least:
  assumes "n \<le> CS_SINGLE_BLOCK_SIZE * k"
  shows "cs_blocks_for n \<le> k"
proof -
  have "CS_SINGLE_BLOCK_SIZE * cs_blocks_for n < CS_SINGLE_BLOCK_SIZE * Suc k"
    using cs_blocks_for_covers(2) [of n] assms by simp
  then show ?thesis by (simp only: mult_less_cancel1 less_Suc_eq_le)
qed

lemma cs_blocks_for_0 [simp]: "cs_blocks_for 0 = 0"
  by (simp add: cs_blocks_for_def)

lemma cs_blocks_for_le: "cs_blocks_for n \<le> n"
  by (rule cs_blocks_for_least) (simp add: CS_SINGLE_BLOCK_SIZE_def)

lemma blocks_of_size_for: "blocks_of_size k = cs_blocks_for (unat k)"
  by (simp add: blocks_of_size_def cs_blocks_for_def)

lemma cs_blocks_for_max:
  "cs_blocks_for (max n m) = (if cs_capacity n < m then cs_blocks_for m else cs_blocks_for n)"
proof (cases "cs_capacity n < m")
  case True
  then have "n \<le> m" using cs_blocks_for_covers(1) [of n] by linarith
  then show ?thesis using True by (simp add: max_def)
next
  case False
  then have "cs_blocks_for m \<le> cs_blocks_for n" by (intro cs_blocks_for_least) simp
  moreover have "cs_blocks_for n \<le> cs_blocks_for (max n m)"
    using cs_blocks_for_covers(1) [of "max n m"] by (intro cs_blocks_for_least) simp
  ultimately show ?thesis using False by (cases "n \<le> m") simp_all
qed

section \<open>write\<close>

definition cs_small_file :: "cell list \<Rightarrow> bool" where
  "cs_small_file bytes \<longleftrightarrow> length bytes < 2 ^ 31 - CS_SINGLE_BLOCK_SIZE"

definition cs_node_holds :: "cell list \<Rightarrow> buffer \<Rightarrow> bool \<Rightarrow> inode \<Rightarrow> bool" where
  "cs_node_holds bytes buf dirty nd \<longleftrightarrow> node_class nd = File \<lparr>m_buf = buf, isWaitingForDistributedWrite = dirty\<rparr> \<and>
     st_size (attr nd) = of_nat (length bytes) \<and> st_blocks (attr nd) = of_nat (cs_blocks_for (length bytes))"

abbreviation cs_open_node :: "cell list \<Rightarrow> bool \<Rightarrow> inode \<Rightarrow> bool" where
  "cs_open_node bytes \<equiv> cs_node_holds bytes (if bytes = [] then None else Some (cs_pad bytes))"

lemma cs_small_capacity: "length bytes < 2 ^ 31 - CS_SINGLE_BLOCK_SIZE \<Longrightarrow> cs_capacity (length bytes) < 2 ^ 31"
  using cs_blocks_for_covers(2) [of "length bytes"] by (simp add: CS_SINGLE_BLOCK_SIZE_def)

lemma cs_new_blocks:
  assumes "unat k < 2 ^ 31 - CS_SINGLE_BLOCK_SIZE"
  shows "k div cs_INodeBufBlockSize + (if k mod cs_INodeBufBlockSize \<noteq> 0 then 1 else 0) = of_nat (cs_blocks_for (unat k))"
proof -
  have e: "unat cs_INodeBufBlockSize = CS_SINGLE_BLOCK_SIZE"
    by (simp add: cs_INodeBufBlockSize_def unat_of_nat CS_SINGLE_BLOCK_SIZE_def)
  have "k mod cs_INodeBufBlockSize = 0 \<longleftrightarrow> unat k mod CS_SINGLE_BLOCK_SIZE = 0"
    by (simp add: unat_eq_0 [symmetric] unat_mod e del: unat_eq_0)
  moreover have "k div cs_INodeBufBlockSize = of_nat (unat k div CS_SINGLE_BLOCK_SIZE)"
    using of_nat_unat_id [of "k div cs_INodeBufBlockSize"] by (simp add: unat_div e)
  ultimately show ?thesis by (simp add: cs_blocks_for_def)
qed

text \<open>The master's state after a write to an open file, without the reply.\<close>

definition cs_wrote :: "env \<Rightarrow> fuse_ino_t \<Rightarrow> cell list \<Rightarrow> cell list \<Rightarrow> u64 \<Rightarrow> fs_state \<Rightarrow> fs_state" where
  "cs_wrote ev ino bytes data off s =
     (let nd = inode_at s ino; new = unat off + length data;
          s1 = (if \<exists>f. node_class nd = File f \<and> isWaitingForDistributedWrite f then s
                else modINode ino (set_File (\<lambda>f. f\<lparr>isWaitingForDistributedWrite := True\<rparr>)) s);
          s2 = (if cs_capacity (length bytes) < new
                then modINode ino (set_attr (\<lambda>a. a\<lparr>st_blocks := of_nat (cs_blocks_for new)\<rparr>))
                       (UpdateUsedBlocks (of_nat (cs_blocks_for new) - st_blocks (attr nd)) s1) else s1);
          s3 = set_buf ino (Some (cs_pad (patch (unat off) data bytes))) s2;
          s4 = (if length bytes < new then modINode ino (set_attr (\<lambda>a. a\<lparr>st_size := of_nat new\<rparr>)) s3 else s3)
      in modINode ino (set_attr (\<lambda>a. a\<lparr>st_ctim := env_now ev, st_mtim := env_now ev\<rparr>)) s4)"

lemma cs_write_copy:
  fixes off :: nat
  assumes data: "data \<noteq> []" and buf: "buf = (if bytes = [] then None else Some (cs_pad bytes))"
  defines "new \<equiv> off + length data"
  shows "memcpy_to (if cs_capacity (length bytes) < new then Some (realloc buf (cs_capacity new)) else buf) off data =
    Inr (Some (cs_pad (patch off data bytes)))"
proof -
  let ?c = "cs_capacity (length bytes)"
  have cells: "buffer_cells buf = cs_pad bytes" by (simp add: buf buffer_cells_def fill_def)
  have c: "length bytes \<le> ?c" by (rule cs_blocks_for_covers(1))
  show ?thesis
  proof (cases "?c < new")
    case True
    then have max: "max (length bytes) new = new" using c by simp
    have "memcpy_to (Some (realloc buf (cs_capacity new))) off data =
        Inr (Some (overlay (cs_pad bytes) off data (cs_capacity new)))"
      using cs_blocks_for_covers(1) [of new] data
      by (simp add: memcpy_to_def overlay_def Let_def realloc_def cells new_def)
    also have "?c \<le> cs_capacity new" using True cs_blocks_for_covers(1) [of new] by linarith
    then have "overlay (cs_pad bytes) off data (cs_capacity new) = fill (cs_capacity new) (patch off data bytes)"
      using c cs_blocks_for_covers(1) [of new] by (intro overlay_fill) (simp_all add: new_def)
    finally show ?thesis using True max by (simp add: new_def)
  next
    case False
    then have b: "buf = Some (cs_pad bytes)" using data by (auto simp: buf new_def)
    have max: "cs_blocks_for (max (length bytes) new) = cs_blocks_for (length bytes)"
      using False by (simp add: cs_blocks_for_max)
    have "memcpy_to buf off data = Inr (Some (overlay (cs_pad bytes) off data ?c))"
      using False data c by (simp add: b memcpy_to_def overlay_def Let_def length_fill new_def)
    also have "overlay (cs_pad bytes) off data ?c = fill ?c (patch off data bytes)"
      using c False by (intro overlay_fill) (simp_all add: new_def)
    finally show ?thesis using False max by (simp add: new_def)
  qed
qed

lemma cs_open_node_word:
  assumes "cs_open_node bytes d nd" and "cs_small_file bytes"
  shows "unat (st_size (attr nd)) = length bytes" and "unat (cs_INodeBufBlockSize * st_blocks (attr nd)) = cs_capacity (length bytes)"
proof -
  have len: "length bytes < 2 ^ 31 - CS_SINGLE_BLOCK_SIZE" using assms(2) by (simp add: cs_small_file_def)
  then have len31: "length bytes < 2 ^ 31" by simp
  show "unat (st_size (attr nd)) = length bytes" using assms(1) len31 by (simp add: cs_node_holds_def unat_of_nat)
  have "cs_INodeBufBlockSize * st_blocks (attr nd) = of_nat (cs_capacity (length bytes))"
    using assms(1) by (simp add: cs_node_holds_def cs_INodeBufBlockSize_def)
  then show "unat (cs_INodeBufBlockSize * st_blocks (attr nd)) = cs_capacity (length bytes)"
    using cs_small_capacity [OF len] by (simp add: unat_of_nat del: of_nat_mult)
qed

lemma cs_FuseWrite_eq:
  assumes n: "n_inodes s < 2 ^ 31" and ino: "unat ino < n_inodes s"
    and node: "cs_open_node bytes d (inode_at s ino)" and sm: "cs_small_file bytes" "cs_small_file (patch (unat off) data bytes)"
    and data: "data \<noteq> []" and alloc: "alloc_ok ev"
  shows "cs_FuseWrite ev ino (Some data) off s =
    Inr (reply (Reply_write (of_nat (length data))) (cs_wrote ev ino bytes data off s))"
proof -
  define nd where "nd = inode_at s ino"
  define k where "k = off + (of_nat (length data) :: u64)"
  define nb where "nb = k div cs_INodeBufBlockSize + (if k mod cs_INodeBufBlockSize \<noteq> 0 then 1 else 0)"
  let ?new = "unat off + length data" and ?c = "cs_capacity (length bytes)" and ?blocks0 = "st_blocks (attr nd)"
  let ?buf = "if bytes = [] then None else Some (cs_pad bytes)"
  have isfile: "node_class nd = File \<lparr>m_buf = ?buf, isWaitingForDistributedWrite = d\<rparr>"
    using node by (simp add: cs_node_holds_def nd_def)
  have new: "?new < 2 ^ 31 - CS_SINGLE_BLOCK_SIZE" using sm(2) by (simp add: cs_small_file_def)
  then have k: "unat k = ?new" by (simp add: unat_sum k_def)
  have nb: "nb = of_nat (cs_blocks_for ?new)" using cs_new_blocks [of k] new by (simp add: nb_def k)
  have "cs_capacity ?new < 2 ^ 31"
    using cs_blocks_for_covers(2) [of ?new] new by (simp add: CS_SINGLE_BLOCK_SIZE_def)
  moreover have "nb * cs_INodeBufBlockSize = of_nat (cs_capacity ?new)"
    by (simp add: nb cs_INodeBufBlockSize_def mult.commute)
  ultimately have bytes: "unat (nb * cs_INodeBufBlockSize) = cs_capacity ?new"
    by (simp add: unat_of_nat del: of_nat_mult)
  have words: "unat (st_size (attr nd)) = length bytes" "unat (cs_INodeBufBlockSize * ?blocks0) = ?c"
    using cs_open_node_word [OF node sm(1)] by (simp_all add: nd_def)
  have grows: "cs_INodeBufBlockSize * ?blocks0 < k \<longleftrightarrow> ?c < ?new" by (simp add: word_less_nat_alt k words)
  have larger: "st_size (attr nd) < k \<longleftrightarrow> length bytes < ?new" by (simp add: word_less_nat_alt k words)
  have k': "k = of_nat ?new" by (simp add: k_def)
  have open_file: "\<not> no_such_ino s ino" "getINode s ino = Inr nd"
    using n ino by (simp_all add: no_such_ino_iff getINode_total nd_def)
  note copy = cs_write_copy [OF data refl, of bytes "unat off"]
  show ?thesis
    unfolding cs_FuseWrite_def option.case Let_def open_file(2) isfile node_class.case andThen.simps
      k_def [symmetric] nb_def [symmetric]
    using copy alloc
    by (cases "?c < ?new")
      (simp_all add: open_file grows larger bytes cs_wrote_def Let_def nd_def [symmetric] isfile
        k' [symmetric] nb [symmetric] del: andThen_Inr_iff of_nat_add)
qed

lemma cs_wrote_frame:
  "n_inodes (cs_wrote ev ino bytes data off s) = n_inodes s"
  "BlocksManager (cs_wrote ev ino bytes data off s) = BlocksManager s"
  "replies (cs_wrote ev ino bytes data off s) = replies s"
  by (simp_all add: cs_wrote_def Let_def set_buf_def)

lemma cs_wrote_same: "unat ino < n_inodes s \<Longrightarrow> same_outside {ino} s (cs_wrote ev ino bytes data off s)"
  by (simp add: same_outside_def cs_wrote_def Let_def set_buf_def inode_at_modINode)

lemma cs_wrote_node:
  fixes ev
  assumes ino: "unat ino < n_inodes s" and node: "cs_open_node bytes d (inode_at s ino)" and data: "data \<noteq> []"
  shows "cs_open_node (patch (unat off) data bytes) True (inode_at (cs_wrote ev ino bytes data off s) ino)"
proof -
  let ?new = "unat off + length data" and ?len = "length bytes" and ?nd' = "inode_at (cs_wrote ev ino bytes data off s) ino"
  have node': "st_size (attr (inode_at s ino)) = of_nat ?len" "st_blocks (attr (inode_at s ino)) = of_nat (cs_blocks_for ?len)"
    and isfile: "node_class (inode_at s ino) = File \<lparr>m_buf = if bytes = [] then None else Some (cs_pad bytes), isWaitingForDistributedWrite = d\<rparr>"
    using node by (simp_all add: cs_node_holds_def)
  have cls: "node_class ?nd' = File \<lparr>m_buf = Some (cs_pad (patch (unat off) data bytes)), isWaitingForDistributedWrite = True\<rparr>"
    using ino isfile by (simp add: cs_wrote_def Let_def set_buf_def inode_at_modINode)
  have size: "st_size (attr ?nd') = of_nat (max ?len ?new)"
    using ino node' by (simp add: cs_wrote_def Let_def set_buf_def inode_at_modINode max_def)
  have blocks: "st_blocks (attr ?nd') = (if cs_capacity ?len < ?new then of_nat (cs_blocks_for ?new) else of_nat (cs_blocks_for ?len))"
    using ino node' by (simp add: cs_wrote_def Let_def set_buf_def inode_at_modINode)
  have "cs_blocks_for (max ?len ?new) = (if cs_capacity ?len < ?new then cs_blocks_for ?new else cs_blocks_for ?len)"
    by (rule cs_blocks_for_max)
  then have "st_blocks (attr ?nd') = of_nat (cs_blocks_for (max ?len ?new))" by (simp add: blocks)
  moreover have "patch (unat off) data bytes \<noteq> []" using data by (auto simp: patch_def)
  ultimately show ?thesis using cls size by (simp add: cs_node_holds_def)
qed

section \<open>Files and requests\<close>

text \<open>
  The specification: a file is closed with its bytes, or open with the bytes of its buffer, which may
  be newer than what is stored.
\<close>

datatype a_file = Closed "cell list" | Opened "cell list" bool

fun a_bytes :: "a_file \<Rightarrow> cell list" where
  "a_bytes (Closed bytes) = bytes"
| "a_bytes (Opened bytes dirty) = bytes"

fun a_request :: "cs_request \<Rightarrow> a_file \<Rightarrow> a_file \<times> reply" where
  "a_request (Cs_open ino flags) f = (Opened (if truncating flags then [] else a_bytes f) False, Reply_open)"
| "a_request (Cs_call (call_read ino sz off)) f = (f, Reply_buf (take (unat sz) (drop (unat off) (a_bytes f))))"
| "a_request (Cs_call (call_write ino (Some data) off)) f =
     (Opened (patch (unat off) data (a_bytes f)) True, Reply_write (of_nat (length data)))"
| "a_request (Cs_flush ino) f = (Closed (a_bytes f), Reply_err ESUCCESS)"
| "a_request q f = (f, Reply_err ESUCCESS)"

text \<open>
  The requests about contents and when the kernel makes them: open a closed file, read inside and write to
  an open one, flush at any time, release when all is flushed.
\<close>

fun a_request_ok :: "cs_request \<Rightarrow> a_file \<Rightarrow> bool" where
  "a_request_ok (Cs_open ino flags) f = (\<exists>bytes. f = Closed bytes)"
| "a_request_ok (Cs_call (call_read ino sz off)) f =
     (\<exists>bytes d. f = Opened bytes d \<and> unat off \<le> length bytes \<and> unat sz < 2 ^ 62)"
| "a_request_ok (Cs_call (call_write ino (Some data) off)) f =
     (\<exists>bytes d. f = Opened bytes d \<and> data \<noteq> [] \<and> cs_small_file (patch (unat off) data bytes))"
| "a_request_ok (Cs_flush ino) f = True"
| "a_request_ok (Cs_call (call_release ino)) f = (\<exists>bytes. f = Closed bytes)"
| "a_request_ok q f = False"

fun request_file :: "cs_request \<Rightarrow> fuse_ino_t" where
  "request_file (Cs_open ino flags) = ino"
| "request_file (Cs_flush ino) = ino"
| "request_file (Cs_call (call_read ino sz off)) = ino"
| "request_file (Cs_call (call_write ino buf off)) = ino"
| "request_file (Cs_call (call_release ino)) = ino"
| "request_file q = 0"

type_synonym a_files = "(fuse_ino_t \<rightharpoonup> a_file) \<times> reply list"

definition a_handle :: "env \<times> cs_request \<Rightarrow> a_files \<Rightarrow> a_files" where
  "a_handle = (\<lambda>(ev, q) (F, log). let (f, rp) = a_request q (the (F (request_file q))) in (F(request_file q \<mapsto> f), log @ [rp]))"

definition a_handle_ok :: "env \<times> cs_request \<Rightarrow> a_files \<Rightarrow> bool" where
  "a_handle_ok = (\<lambda>(ev, q) (F, log). alloc_ok ev \<and>
     (case F (request_file q) of None \<Rightarrow> False | Some f \<Rightarrow> a_request_ok q f))"

section \<open>A file of the master\<close>

definition file_in :: "cs_system \<Rightarrow> fuse_ino_t \<Rightarrow> cell list \<Rightarrow> buffer \<Rightarrow> bool \<Rightarrow> bool" where
  "file_in C ino bytes buf dirty \<longleftrightarrow> n_inodes (master_fs C) < 2 ^ 31 \<and> unat ino < n_inodes (master_fs C) \<and>
     cs_ready ino C \<and> cs_small_file bytes \<and> cs_node_holds bytes buf dirty (cs_file C ino) \<and>
     (\<not> dirty \<longrightarrow> bytes \<noteq> [] \<longrightarrow> cs_holds C ino (of_nat (length bytes), cs_pad bytes))"

fun file_as :: "cs_system \<Rightarrow> fuse_ino_t \<Rightarrow> a_file \<Rightarrow> bool" where
  "file_as C ino (Closed bytes) \<longleftrightarrow> file_in C ino bytes None False"
| "file_as C ino (Opened bytes dirty) \<longleftrightarrow>
     file_in C ino bytes (if bytes = [] then None else Some (cs_pad bytes)) dirty \<and> (dirty \<longrightarrow> bytes \<noteq> [])"

text \<open>What a request on \<open>ino\<close> does to the rest.\<close>

definition cs_leaves :: "fuse_ino_t \<Rightarrow> cs_system \<Rightarrow> cs_system \<Rightarrow> bool" where
  "cs_leaves ino C C' \<longleftrightarrow> n_inodes (master_fs C') = n_inodes (master_fs C) \<and>
     (\<forall>j. j \<noteq> ino \<longrightarrow> unat j < n_inodes (master_fs C) \<longrightarrow> cs_file C' j = cs_file C j) \<and>
     (\<forall>j. j \<noteq> ino \<longrightarrow> cs_ready j C' = cs_ready j C) \<and> (\<forall>j v. j \<noteq> ino \<longrightarrow> cs_holds C j v \<longrightarrow> cs_holds C' j v)"

lemma file_as_other: "cs_leaves ino C C' \<Longrightarrow> j \<noteq> ino \<Longrightarrow> file_as C j f \<Longrightarrow> file_as C' j f"
  by (cases f) (auto simp: cs_leaves_def file_in_def)

text \<open>Requests that leave the blocks alone.\<close>

definition same_blocks :: "cs_system \<Rightarrow> cs_system \<Rightarrow> bool" where
  "same_blocks C C' \<longleftrightarrow> master_heap C' = master_heap C \<and> cs_nodes C' = cs_nodes C \<and>
     (\<forall>j. block_list (BlocksManager (master_fs C')) j = block_list (BlocksManager (master_fs C)) j)"

lemma same_blocks_holds:
  "same_blocks C C' \<Longrightarrow> cs_holds C' j v = cs_holds C j v" "same_blocks C C' \<Longrightarrow> cs_ready j C' = cs_ready j C"
  by (simp_all add: same_blocks_def cs_holds_def cs_stored_def master_addresses_def cs_heap_def mpi_world_size_def cs_ready_def)

lemma same_blocks_leaves:
  "same_blocks C C' \<Longrightarrow> n_inodes (master_fs C') = n_inodes (master_fs C) \<Longrightarrow>
     same_outside {ino} (master_fs C) (master_fs C') \<Longrightarrow> cs_leaves ino C C'"
  by (simp add: cs_leaves_def same_blocks_holds same_outside_def cs_file_def)

lemma file_in_same:
  assumes "file_in C ino bytes buf d" and "same_blocks C C'" and "n_inodes (master_fs C') = n_inodes (master_fs C)"
    and "cs_small_file bytes'" and "cs_node_holds bytes' buf' d' (cs_file C' ino)"
    and "\<not> d' \<Longrightarrow> bytes' \<noteq> [] \<Longrightarrow> bytes' = bytes \<and> \<not> d"
  shows "file_in C' ino bytes' buf' d'"
  using assms by (auto simp: file_in_def same_blocks_holds)

text \<open>One request, seen from the file it is about.\<close>

definition follows :: "cs_request \<Rightarrow> a_file \<Rightarrow> cs_system \<Rightarrow> cs_system \<Rightarrow> bool" where
  "follows q f C C' \<longleftrightarrow> (let ino = request_file q; (f', rp) = a_request q f
     in file_as C' ino f' \<and> cs_leaves ino C C' \<and> replies (master_fs C') = replies (master_fs C) @ [rp])"

lemma in_range:
  "file_in C ino bytes buf d \<Longrightarrow> \<not> no_such_ino (master_fs C) ino \<and> getINode (master_fs C) ino = Inr (cs_file C ino) \<and>
     unat ino < n_inodes (master_fs C)"
  by (simp add: file_in_def no_such_ino_iff getINode_total cs_file_def)

lemma master_step:
  assumes h: "h (master_fs C) = Inr s'"
    and frame: "n_inodes s' = n_inodes (master_fs C)" "same_outside {ino} (master_fs C) s'" "BlocksManager s' = BlocksManager (master_fs C)"
  shows "at_master h C = Inr (C\<lparr>master_fs := s'\<rparr>)" and "cs_leaves ino C (C\<lparr>master_fs := s'\<rparr>)"
    and "same_blocks C (C\<lparr>master_fs := s'\<rparr>)"
proof -
  show "same_blocks C (C\<lparr>master_fs := s'\<rparr>)" using frame(3) by (simp add: same_blocks_def)
  then show "cs_leaves ino C (C\<lparr>master_fs := s'\<rparr>)" using frame(1,2) by (intro same_blocks_leaves) simp_all
qed (simp add: at_master_def h)

lemma request_writes:
  assumes f: "file_as C ino f" and ok: "a_request_ok (Cs_call (call_write ino buf off)) f" and alloc: "alloc_ok ev"
  shows "\<exists>C'. cs_handle m esz (ev, Cs_call (call_write ino buf off)) C = Inr C' \<and> follows (Cs_call (call_write ino buf off)) f C C'"
proof -
  obtain data bytes d where buf: "buf = Some data" and fo: "f = Opened bytes d" and data: "data \<noteq> []"
    and sm: "cs_small_file (patch (unat off) data bytes)"
    using ok by (cases buf) auto
  let ?s = "master_fs C" and ?bytes = "patch (unat off) data bytes"
  have fin: "file_in C ino bytes (if bytes = [] then None else Some (cs_pad bytes)) d" using f by (simp add: fo)
  then have nd: "cs_open_node bytes d (inode_at ?s ino)" "cs_small_file bytes" "n_inodes ?s < 2 ^ 31" "unat ino < n_inodes ?s"
    by (simp_all add: file_in_def cs_file_def)
  let ?s' = "reply (Reply_write (of_nat (length data))) (cs_wrote ev ino bytes data off ?s)"
  have step: "cs_FuseWrite ev ino (Some data) off ?s = Inr ?s'"
    using cs_FuseWrite_eq [OF nd(3,4,1,2) sm data alloc] .
  have frame: "n_inodes ?s' = n_inodes ?s" "same_outside {ino} ?s ?s'" "BlocksManager ?s' = BlocksManager ?s"
    using cs_wrote_same [OF nd(4), of ev bytes data off] by (simp_all add: cs_wrote_frame same_outside_def)
  note C' = master_step [where h = "cs_FuseWrite ev ino (Some data) off", OF step frame]
  have ne: "?bytes \<noteq> []" using data by (auto simp: patch_def)
  have "file_in (C\<lparr>master_fs := ?s'\<rparr>) ino ?bytes (Some (cs_pad ?bytes)) True"
    using cs_wrote_node [OF nd(4,1) data, of off ev] ne frame(1)
    by (intro file_in_same [OF fin C'(3) _ sm]) (simp_all add: cs_file_def)
  then show ?thesis
    using C'(1,2) ne by (simp add: buf fo follows_def Let_def cs_wrote_frame)
qed

lemma cs_read_bytes:
  assumes n: "n_inodes s < 2 ^ 31" "unat ino < n_inodes s" and node: "cs_open_node bytes d (inode_at s ino)"
    and sm: "cs_small_file bytes" and off: "unat off \<le> length bytes" and sz: "unat sz < 2 ^ 62"
  shows "cs_FuseRead ev ino sz off s = Inr (reply (Reply_buf (take (unat sz) (drop (unat off) bytes)))
    (modINode ino (set_attr (\<lambda>a. a\<lparr>st_atim := env_now ev\<rparr>)) s))"
proof (cases "bytes = []")
  case True
  then have "off = 0" "st_size (attr (inode_at s ino)) = 0" using off node by (simp_all add: unat_eq_0 cs_node_holds_def)
  moreover have "node_class (inode_at s ino) = File \<lparr>m_buf = None, isWaitingForDistributedWrite = d\<rparr>"
    using node True by (simp add: cs_node_holds_def)
  ultimately show ?thesis
    using n True by (simp add: cs_FuseRead_def FuseRead_unfold no_such_ino_iff getINode_total Let_def read_from_def word_gt_0)
next
  case False
  have isfile: "node_class (inode_at s ino) = File \<lparr>m_buf = Some (cs_pad bytes), isWaitingForDistributedWrite = d\<rparr>"
    using node False by (simp add: cs_node_holds_def)
  have len: "length bytes < 2 ^ 31 - CS_SINGLE_BLOCK_SIZE" using sm by (simp add: cs_small_file_def)
  have pad: "length (cs_pad bytes) = cs_capacity (length bytes)" by (rule length_fill) (rule cs_blocks_for_covers(1))
  have size: "unat (st_size (attr (inode_at s ino))) = length bytes" by (rule cs_open_node_word(1) [OF node sm])
  then have "file_bytes (inode_at s ino) = bytes" by (simp add: file_bytes_def cells_of_def isfile buffer_cells_def)
  then show ?thesis
    using FuseRead_eq [OF n isfile, of "cs_pad bytes" off sz ev] off sz size cs_small_capacity [OF len]
      cs_blocks_for_covers(1) [of "length bytes"]
    by (simp add: cs_FuseRead_def pad)
qed

lemma request_reads:
  assumes f: "file_as C ino f" and ok: "a_request_ok (Cs_call (call_read ino sz off)) f"
  shows "\<exists>C'. cs_handle m esz (ev, Cs_call (call_read ino sz off)) C = Inr C' \<and> follows (Cs_call (call_read ino sz off)) f C C'"
proof -
  obtain bytes d where fo: "f = Opened bytes d" and off: "unat off \<le> length bytes" "unat sz < 2 ^ 62" using ok by auto
  let ?s = "master_fs C"
  have fin: "file_in C ino bytes (if bytes = [] then None else Some (cs_pad bytes)) d" using f by (simp add: fo)
  then have nd: "n_inodes ?s < 2 ^ 31" "unat ino < n_inodes ?s" "cs_open_node bytes d (inode_at ?s ino)" "cs_small_file bytes"
    by (simp_all add: file_in_def cs_file_def)
  let ?s' = "reply (Reply_buf (take (unat sz) (drop (unat off) bytes))) (modINode ino (set_attr (\<lambda>a. a\<lparr>st_atim := env_now ev\<rparr>)) ?s)"
  have frame: "n_inodes ?s' = n_inodes ?s" "same_outside {ino} ?s ?s'" "BlocksManager ?s' = BlocksManager ?s"
    using nd(2) by (simp_all add: same_outside_def inode_at_modINode)
  note C' = master_step [where h = "cs_FuseRead ev ino sz off", OF cs_read_bytes [OF nd off] frame]
  have "file_in (C\<lparr>master_fs := ?s'\<rparr>) ino bytes (if bytes = [] then None else Some (cs_pad bytes)) d"
    using nd(2-4) frame(1)
    by (intro file_in_same [OF fin C'(3)]) (simp_all add: cs_file_def inode_at_modINode cs_node_holds_def)
  then show ?thesis
    using C'(1,2) f by (simp add: fo follows_def Let_def)
qed

lemma request_releases:
  assumes f: "file_as C ino f" and ok: "a_request_ok (Cs_call (call_release ino)) f"
  shows "\<exists>C'. cs_handle m esz (ev, Cs_call (call_release ino)) C = Inr C' \<and> follows (Cs_call (call_release ino)) f C C'"
proof -
  obtain bytes where fo: "f = Closed bytes" using ok by auto
  let ?s = "master_fs C" and ?s' = "reply_err ESUCCESS (set_buf ino None (master_fs C))"
  have fin: "file_in C ino bytes None False" using f by (simp add: fo)
  then have nd: "n_inodes ?s < 2 ^ 31" "unat ino < n_inodes ?s" "cs_node_holds bytes None False (inode_at ?s ino)" "cs_small_file bytes"
    by (simp_all add: file_in_def cs_file_def)
  have step: "cs_FuseRelease ino ?s = Inr ?s'"
    using FuseRelease_closed [OF nd(1,2)] nd(3) by (simp add: cs_FuseRelease_def cs_node_holds_def)
  have frame: "n_inodes ?s' = n_inodes ?s" "same_outside {ino} ?s ?s'" "BlocksManager ?s' = BlocksManager ?s"
    using nd(2) by (simp_all add: set_buf_def same_outside_def inode_at_modINode)
  note C' = master_step [where h = "cs_FuseRelease ino", OF step frame]
  have "file_in (C\<lparr>master_fs := ?s'\<rparr>) ino bytes None False"
    using nd(2-4) frame(1)
    by (intro file_in_same [OF fin C'(3)]) (simp_all add: cs_file_def set_buf_def inode_at_modINode cs_node_holds_def)
  then show ?thesis
    using C'(1,2) by (simp add: fo follows_def Let_def set_buf_def)
qed

lemma cs_fits_pad:
  assumes "cs_small_file bytes"
  shows "unat (of_nat (length bytes) :: u64) = length bytes" and "cs_fits (of_nat (length bytes), cs_pad bytes)"
proof -
  have len: "length bytes < 2 ^ 31 - CS_SINGLE_BLOCK_SIZE" using assms by (simp add: cs_small_file_def)
  then have "length bytes < 2 ^ 31" by simp
  then show un: "unat (of_nat (length bytes) :: u64) = length bytes" by (simp add: unat_of_nat)
  show "cs_fits (of_nat (length bytes), cs_pad bytes)"
    using cs_small_capacity [OF len] length_fill [OF cs_blocks_for_covers(1), of bytes]
    by (simp add: cs_fits_def blocks_of_size_for un mult.commute)
qed

lemma request_opens:
  assumes mpi: "mpi_documented m" and f: "file_as C ino f" and ok: "a_request_ok (Cs_open ino flags) f" and alloc: "alloc_ok ev"
  shows "\<exists>C'. cs_handle m esz (ev, Cs_open ino flags) C = Inr C' \<and> follows (Cs_open ino flags) f C C'"
proof -
  obtain bytes where fo: "f = Closed bytes" using ok by auto
  let ?s = "master_fs C" and ?n = "of_nat (length bytes) :: u64"
  have fin: "file_in C ino bytes None False" using f by (simp add: fo)
  then have nd: "cs_node_holds bytes None False (cs_file C ino)" "cs_small_file bytes" by (simp_all add: file_in_def)
  note range = in_range [OF fin]
  have isfile: "node_class (cs_file C ino) = File \<lparr>m_buf = None, isWaitingForDistributedWrite = False\<rparr>"
    and size: "st_size (attr (cs_file C ino)) = ?n"
    using nd(1) by (simp_all add: cs_node_holds_def)
  have casts: "as_Directory (cs_file C ino) = None" "as_File (cs_file C ino) = Some \<lparr>m_buf = None, isWaitingForDistributedWrite = False\<rparr>"
    using isfile by (simp_all add: as_Directory_def as_File_def)
  show ?thesis
  proof (cases "truncating flags")
    case True
    let ?g = "\<lambda>s. reply Reply_open (modINode ino (set_attr (\<lambda>a. a\<lparr>st_size := 0, st_blocks := 0\<rparr>)) s)"
    let ?C' = "mod_master ?g C"
    have "cs_FuseOpen m ev ino flags C = Inr ?C'"
      using range casts True by (simp add: cs_FuseOpen_def Let_def truncating_def)
    moreover have same: "same_blocks C ?C'" by (simp add: same_blocks_def mod_master_def)
    moreover have "n_inodes (master_fs ?C') = n_inodes ?s" "same_outside {ino} ?s (master_fs ?C')"
      using range by (simp_all add: mod_master_def same_outside_def inode_at_modINode)
    moreover from this have "file_in ?C' ino [] None False"
      using range isfile by (intro file_in_same [OF fin same])
        (simp_all add: cs_small_file_def CS_SINGLE_BLOCK_SIZE_def cs_node_holds_def cs_file_def mod_master_def inode_at_modINode)
    ultimately show ?thesis
      using True by (simp add: follows_def fo same_blocks_leaves mod_master_def)
  next
    case False
    let ?buf = "if bytes = [] then None else Some (cs_pad bytes)"
    have un: "unat ?n = length bytes" and fits: "cs_fits (?n, cs_pad bytes)" using cs_fits_pad [OF nd(2)] .
    obtain C1 where C1: "master_DAGonFS_Read m True ino ?n ?n 0 (cs_sendReadRequest C) = Inr (C1, ?buf)"
      "same_blocks C C1" "inode_at (master_fs C1) = inode_at ?s" "n_inodes (master_fs C1) = n_inodes ?s"
      "replies (master_fs C1) = replies ?s"
    proof (cases "bytes = []")
      case True
      then show ?thesis
        by (intro that [of "mpi_calling [Bcast_io \<lparr>io_inode = ino, io_fileSize = ?n, io_reqSize = Some ?n, io_offset = Some 0\<rparr>] (cs_sendReadRequest C)"])
          (simp_all add: master_DAGonFS_Read_def Let_def same_blocks_def cs_sendReadRequest_def)
    next
      case False
      then have "?n \<noteq> 0" using un by auto
      moreover have "same_blocks C (cs_sendReadRequest C)" by (simp add: same_blocks_def cs_sendReadRequest_def)
      then have "cs_holds (cs_sendReadRequest C) ino (?n, cs_pad bytes)"
        using fin False same_blocks_holds(1) by (simp add: file_in_def)
      moreover have "take (blocks_of_size ?n * CS_SINGLE_BLOCK_SIZE) (cs_pad bytes) = cs_pad bytes"
        using length_fill [OF cs_blocks_for_covers(1), of bytes] by (simp add: blocks_of_size_for un mult.commute)
      ultimately have "master_DAGonFS_Read m True ino ?n ?n 0 (cs_sendReadRequest C) =
          Inr (cs_read_system ino ?n ?n 0 (cs_sendReadRequest C), ?buf)"
        using master_read_held [OF mpi _ fits, of "cs_sendReadRequest C" ino 0] False by simp
      moreover have "block_list (fst (getDataBlockListOfInode b ino)) j = block_list b j" for b j
        using getDataBlockListOfInode_block_list [of b ino] by (metis prod.collapse)
      ultimately show ?thesis
        by (intro that [of "cs_read_system ino ?n ?n 0 (cs_sendReadRequest C)"])
          (simp_all add: cs_read_system_def same_blocks_def cs_sendReadRequest_def)
    qed
    let ?C' = "mod_master (\<lambda>s. reply Reply_open (set_buf ino ?buf s)) C1"
    have "cs_FuseOpen m ev ino flags C = Inr ?C'"
      using range casts False alloc C1(1) size by (simp add: cs_FuseOpen_def Let_def truncating_def)
    moreover have same: "same_blocks C ?C'" using C1(2) by (simp add: same_blocks_def mod_master_def set_buf_def)
    moreover have frame: "n_inodes (master_fs ?C') = n_inodes ?s" "same_outside {ino} ?s (master_fs ?C')"
      using range C1(3,4) by (simp_all add: mod_master_def same_outside_def set_buf_def inode_at_modINode)
    moreover from this have "file_in ?C' ino bytes ?buf False"
      using range nd C1(3,4) by (intro file_in_same [OF fin same])
        (simp_all add: cs_node_holds_def cs_file_def mod_master_def set_buf_def inode_at_modINode)
    ultimately show ?thesis
      using False C1(5) by (simp add: follows_def fo same_blocks_leaves mod_master_def set_buf_def)
  qed
qed

lemma cs_flushed_leaves:
  assumes "unat ino < n_inodes (master_fs C)"
  shows "cs_leaves ino C (cs_flushed ino v C)"
    and "st_size (attr (cs_file (cs_flushed ino v C) ino)) = st_size (attr (cs_file C ino))"
    and "st_blocks (attr (cs_file (cs_flushed ino v C) ino)) = st_blocks (attr (cs_file C ino))"
proof -
  let ?C1 = "cs_sendWriteRequest C"
  let ?C2 = "cs_written ino (fst v) (cs_blocks v) ?C1"
  have same: "same_blocks C ?C1" "same_blocks ?C2 (cs_flushed ino v C)"
    by (simp_all add: same_blocks_def cs_flushed_def cs_sendWriteRequest_def mod_master_def set_buf_def)
  have "cs_holds (cs_flushed ino v C) j u" if "j \<noteq> ino" "cs_holds C j u" for j u
    using that same same_blocks_holds(1) by (simp add: cs_holds_def cs_stored_other)
  moreover have "cs_ready j (cs_flushed ino v C) = cs_ready j C" if "j \<noteq> ino" for j
    using that same_blocks_holds(2) [OF same(2), of j] same_blocks_holds(2) [OF same(1), of j]
    by (simp add: cs_ready_def block_list_cs_written)
  ultimately show "cs_leaves ino C (cs_flushed ino v C)"
    using assms by (simp add: cs_leaves_def cs_flushed_def mod_master_def set_buf_def cs_written_def cs_installed_def
        cs_sendWriteRequest_def cs_file_def inode_at_modINode)
  show "st_size (attr (cs_file (cs_flushed ino v C) ino)) = st_size (attr (cs_file C ino))"
    "st_blocks (attr (cs_file (cs_flushed ino v C) ino)) = st_blocks (attr (cs_file C ino))"
    using assms by (simp_all add: cs_flushed_def mod_master_def set_buf_def cs_written_def cs_installed_def
        cs_sendWriteRequest_def cs_file_def inode_at_modINode)
qed

lemma request_flushes:
  assumes mpi: "mpi_documented m" and f: "file_as C ino f"
  shows "\<exists>C'. cs_handle m esz (ev, Cs_flush ino) C = Inr C' \<and> follows (Cs_flush ino) f C C'"
proof -
  obtain bytes buf d where fin: "file_in C ino bytes buf d" and b: "a_bytes f = bytes" "d \<Longrightarrow> bytes \<noteq> [] \<and> buf = Some (cs_pad bytes)"
    using f by (cases f) auto
  let ?s = "master_fs C" and ?n = "of_nat (length bytes) :: u64"
  have nd: "cs_node_holds bytes buf d (cs_file C ino)" "cs_small_file bytes" "cs_ready ino C" using fin by (simp_all add: file_in_def)
  note range = in_range [OF fin]
  have isfile: "node_class (cs_file C ino) = File \<lparr>m_buf = buf, isWaitingForDistributedWrite = d\<rparr>"
    and size: "st_size (attr (cs_file C ino)) = ?n"
    using nd(1) by (simp_all add: cs_node_holds_def)
  show ?thesis
  proof (cases d)
    case False
    let ?C' = "mod_master (\<lambda>s. reply_err ESUCCESS (if buf = None then s else set_buf ino None s)) C"
    have "cs_FuseFlush m ino C = Inr ?C'"
      using range isfile False by (cases buf) (simp_all add: cs_FuseFlush_def Let_def as_File_def)
    moreover have same: "same_blocks C ?C'" by (simp add: same_blocks_def mod_master_def set_buf_def)
    moreover have frame: "n_inodes (master_fs ?C') = n_inodes ?s" "same_outside {ino} ?s (master_fs ?C')"
      using range by (simp_all add: mod_master_def same_outside_def set_buf_def inode_at_modINode)
    moreover from this have "file_in ?C' ino bytes None False"
      using range nd(1,2) False by (intro file_in_same [OF fin same])
        (simp_all add: cs_node_holds_def cs_file_def mod_master_def set_buf_def inode_at_modINode)
    ultimately show ?thesis
      by (simp add: follows_def b(1) same_blocks_leaves mod_master_def set_buf_def)
  next
    case True
    then have buf: "buf = Some (cs_pad bytes)" using b(2) by blast
    have fits: "cs_fits (?n, cs_pad bytes)" by (rule cs_fits_pad(2) [OF nd(2)])
    have has: "cs_has_file C ino \<lparr>m_buf = buf, isWaitingForDistributedWrite = True\<rparr>"
      using fin isfile True by (simp add: cs_has_file_def file_in_def)
    let ?C' = "cs_flushed ino (?n, cs_pad bytes) C"
    have step: "cs_FuseFlush m ino C = Inr ?C'"
      using cs_FuseFlush_eq [OF mpi has _ _ nd(3), of "cs_pad bytes"] fits buf by (simp add: size)
    note facts = cs_flushed_facts [OF has fits] and others = cs_flushed_leaves [where v = "(?n, cs_pad bytes)", of ino C]
    have "cs_ready ino ?C'"
    proof -
      have "length (cs_blocks (?n, cs_pad bytes)) < 2 ^ 31"
        using cs_blocks_facts(2) [OF fits] fits cs_small by (simp add: cs_fits_def)
      then show ?thesis
        using nd(3) by (simp add: cs_ready_def cs_flushed_def mod_master_def set_buf_def block_list_cs_written
            length_cs_addresses cs_sendWriteRequest_def)
    qed
    moreover have "cs_node_holds bytes None False (cs_file ?C' ino)"
      using nd(1) others(2,3) range facts(1) isfile by (simp add: cs_node_holds_def)
    ultimately have "file_in ?C' ino bytes None False"
      using fin facts(3,4) by (simp add: file_in_def)
    then show ?thesis
      using step others(1) range facts(2) by (simp add: follows_def b(1))
  qed
qed

section \<open>Runs\<close>

lemma request_followed:
  assumes mpi: "mpi_documented m" and f: "file_as C (request_file q) f" and ok: "a_request_ok q f" and alloc: "alloc_ok ev"
  shows "\<exists>C'. cs_handle m esz (ev, q) C = Inr C' \<and> follows q f C C'"
proof (cases q)
  case (Cs_open ino flags)
  then show ?thesis using request_opens [OF mpi _ _ alloc] f ok by simp
next
  case (Cs_flush ino)
  then show ?thesis using request_flushes [OF mpi] f by simp
next
  case (Cs_call c)
  then show ?thesis
    using f ok request_reads request_writes [OF _ _ alloc] request_releases by (cases c) auto
qed

definition files_in :: "cs_system \<Rightarrow> a_files \<Rightarrow> bool" where
  "files_in C = (\<lambda>(F, log). replies (master_fs C) = log \<and> (\<forall>ino f. F ino = Some f \<longrightarrow> file_as C ino f))"

lemma handled:
  assumes mpi: "mpi_documented m" and R: "files_in C A" and ok: "a_handle_ok x A"
  shows "\<exists>C'. cs_handle m esz x C = Inr C' \<and> files_in C' (a_handle x A)"
proof -
  obtain ev q F log where x: "x = (ev, q)" "A = (F, log)" by (cases x, cases A)
  obtain f where f: "F (request_file q) = Some f" "a_request_ok q f" "alloc_ok ev"
    using ok by (auto simp: a_handle_ok_def x split: option.splits)
  obtain f' rp where a: "a_request q f = (f', rp)" by (cases "a_request q f")
  obtain C' where C': "cs_handle m esz (ev, q) C = Inr C'" "file_as C' (request_file q) f'" "cs_leaves (request_file q) C C'"
    "replies (master_fs C') = replies (master_fs C) @ [rp]"
    using request_followed [OF mpi _ f(2,3)] R f(1) a by (fastforce simp: files_in_def x follows_def Let_def)
  then have "files_in C' (a_handle x A)"
    using R file_as_other [OF C'(3)] f(1) a by (auto simp: files_in_def x a_handle_def split: if_splits)
  then show ?thesis using C'(1) by (auto simp: x)
qed

interpretation master_files: forward_simulation
  "cs_handle m esz" a_handle "\<lambda>x A. a_handle_ok x A \<and> mpi_documented m" "\<lambda>_. True" files_in
  for m esz
proof unfold_locales
  fix C x C' A
  assume R: "files_in C A" "a_handle_ok x A \<and> mpi_documented m"
  then have step: "\<exists>C'. cs_handle m esz x C = Inr C' \<and> files_in C' (a_handle x A)" using handled by blast
  then show "\<exists>C'. cs_handle m esz x C = Inr C'" by blast
  assume "cs_handle m esz x C = Inr C'"
  with step show "files_in C' (a_handle x A)" by simp
qed

text \<open>
  C12. Files of the client-server version: whatever the master's kernel asks for about the contents of any
  files, interleaved in any way - open, with or without emptying the file, reads inside an open file
  and non-empty writes to it, flush at any time, release once flushed - every request ends and is answered
  once, reads with the bytes that the specification with one list of bytes per file holds at that moment;
  and in the end every file is in the state the specification gives, its contents on the nodes when it
  is flushed. A file that shrinks or grows in between is no exception, unlike in the peer-to-peer version.
\<close>

theorem master_serves_files:
  assumes mpi: "mpi_documented m" and start: "\<forall>ino f. F ino = Some f \<longrightarrow> file_as C ino f"
    and ok: "all_steps a_handle_ok a_handle qs (F, replies (master_fs C))"
  shows "\<exists>C'. foldE (cs_handle m esz) qs C = Inr C' \<and>
    (let (F', log) = fold a_handle qs (F, replies (master_fs C))
     in replies (master_fs C') = log \<and> (\<forall>ino f. F' ino = Some f \<longrightarrow> file_as C' ino f))"
proof -
  let ?A = "(F, replies (master_fs C))"
  have R: "files_in C ?A" using start by (simp add: files_in_def)
  have steps: "all_steps (\<lambda>x A. a_handle_ok x A \<and> mpi_documented m) a_handle qs ?A" using ok mpi by simp
  obtain C' where C': "foldE (cs_handle m esz) qs C = Inr C'"
    using master_files.run_ends [OF R steps] by (auto simp: list_all_iff)
  then have "files_in C' (fold a_handle qs ?A)" using master_files.run_simulated [OF R steps] by blast
  with C' show ?thesis by (auto simp: files_in_def Let_def split: prod.splits)
qed

lemma demo_system_file: "file_as demo_system 3 (Closed [])"
proof -
  have "at_rest demo_world 3 []" by (rule demo_world_at_rest)
  moreover have "(0 :: nat) < length demo_world" by (simp add: demo_world_def)
  ultimately have "closed_node [] (inode_at demo_tree 3)" "n_inodes demo_tree < 2 ^ 31" "unat (3 :: fuse_ino_t) < n_inodes demo_tree"
    using known_everywhereD [of 3 demo_world 0] by (auto simp: at_rest_def demo_world_def)
  then show ?thesis
    by (simp add: file_in_def cs_file_def demo_system_def cs_node_holds_def node_holds_def cs_small_file_def CS_SINGLE_BLOCK_SIZE_def
        demo_system_ready [unfolded demo_system_def])
qed

theorem master_serves_files_witness:
  "\<exists>C'. foldE (cs_handle plain_mpi length)
      [(demo_env, Cs_open 3 0), (demo_env, Cs_call (call_write 3 (Some [Byte 1, Byte 2]) 0)), (demo_env, Cs_flush 3),
       (demo_env, Cs_call (call_release 3)), (demo_env, Cs_open 3 0), (demo_env, Cs_call (call_read 3 9 1)),
       (demo_env, Cs_flush 3), (demo_env, Cs_open 3 O_WRONLY), (demo_env, Cs_call (call_write 3 (Some [Byte 7]) 0)),
       (demo_env, Cs_flush 3), (demo_env, Cs_open 3 0), (demo_env, Cs_call (call_read 3 9 0))] demo_system = Inr C' \<and>
    file_as C' 3 (Opened [Byte 7] False) \<and> last (replies (master_fs C')) = Reply_buf [Byte 7] \<and>
    Reply_buf [Byte 2] \<in> set (replies (master_fs C'))"
proof -
  let ?qs = "[(demo_env, Cs_open 3 0), (demo_env, Cs_call (call_write 3 (Some [Byte 1, Byte 2]) 0)), (demo_env, Cs_flush 3),
       (demo_env, Cs_call (call_release 3)), (demo_env, Cs_open 3 0), (demo_env, Cs_call (call_read 3 9 1)),
       (demo_env, Cs_flush 3), (demo_env, Cs_open 3 O_WRONLY), (demo_env, Cs_call (call_write 3 (Some [Byte 7]) 0)),
       (demo_env, Cs_flush 3), (demo_env, Cs_open 3 0), (demo_env, Cs_call (call_read 3 9 0))] :: (env \<times> cs_request) list"
  let ?F = "[3 \<mapsto> Closed []] :: fuse_ino_t \<rightharpoonup> a_file"
  have start: "\<forall>ino f. ?F ino = Some f \<longrightarrow> file_as demo_system ino f" using demo_system_file by simp
  have flags: "\<not> truncating 0" "truncating O_WRONLY" by (simp_all add: truncating_def has_flag_def)
  have none: "replies (master_fs demo_system) = []" by (simp add: demo_system_def demo_tree_def demo_fs_def new_FileSystem_def)
  have ok: "all_steps a_handle_ok a_handle ?qs (?F, replies (master_fs demo_system))"
    by (simp add: a_handle_ok_def a_handle_def flags demo_env_def patch_def cs_small_file_def CS_SINGLE_BLOCK_SIZE_def) blast
  let ?A = "fold a_handle ?qs (?F, replies (master_fs demo_system))"
  have spec: "fst ?A 3 = Some (Opened [Byte 7] False)" "last (snd ?A) = Reply_buf [Byte 7]" "Reply_buf [Byte 2] \<in> set (snd ?A)"
    by (simp_all add: a_handle_def flags patch_def none)
  obtain C' where C': "foldE (cs_handle plain_mpi length) ?qs demo_system = Inr C'" "replies (master_fs C') = snd ?A"
    "\<forall>ino f. fst ?A ino = Some f \<longrightarrow> file_as C' ino f"
    using master_serves_files [OF plain_mpi_documented start ok] unfolding Let_def split_beta by blast
  then have "file_as C' 3 (Opened [Byte 7] False)" using spec(1) by blast
  then show ?thesis using C'(1,2) spec(2,3) by auto
qed

end
