(* ===== verification/ClientServerEquiv.thy ===== *)
theory ClientServerEquiv
  imports ClientServerFs
begin

text \<open>
  The two versions of the file system compared: what one process of the peer-to-peer version does with
  the requests of its kernel, the master of the client-server version does as well, once directory
  names, announcement flags, outgoing messages, the rank and the block size are left out.
\<close>

section \<open>Leaving out what only one version has\<close>

definition to_cs_blksize :: "u64 \<Rightarrow> u64" where
  "to_cs_blksize k = (if k = INodeBufBlockSize then cs_INodeBufBlockSize else k)"

definition to_cs_stat :: "stat \<Rightarrow> stat" where
  "to_cs_stat a = a\<lparr>st_blksize := to_cs_blksize (st_blksize a)\<rparr>"

definition to_cs_entry :: "entry_param \<Rightarrow> entry_param" where
  "to_cs_entry e = e\<lparr>e_attr := to_cs_stat (e_attr e)\<rparr>"

definition to_cs_dir :: "directory \<Rightarrow> directory" where
  "to_cs_dir d = d\<lparr>dir_name := '''', parentDir := None\<rparr>"

definition to_cs_class :: "node_class \<Rightarrow> node_class" where
  "to_cs_class c = (case c of Directory d \<Rightarrow> Directory (to_cs_dir d) | _ \<Rightarrow> c)"

definition to_cs_inode :: "inode \<Rightarrow> inode" where
  "to_cs_inode nd = nd\<lparr>m_fuseEntryParam := to_cs_entry (m_fuseEntryParam nd), node_class := to_cs_class (node_class nd)\<rparr>"

definition to_cs_statvfs :: "statvfs \<Rightarrow> statvfs" where
  "to_cs_statvfs v = v\<lparr>f_bsize := to_cs_blksize (f_bsize v), f_frsize := to_cs_blksize (f_frsize v)\<rparr>"

fun to_cs_reply :: "reply \<Rightarrow> reply" where
  "to_cs_reply (Reply_attr a) = Reply_attr (to_cs_stat a)"
| "to_cs_reply (Reply_entry e) = Reply_entry (to_cs_entry e)"
| "to_cs_reply (Reply_create e) = Reply_create (to_cs_entry e)"
| "to_cs_reply (Reply_statfs v) = Reply_statfs (to_cs_statvfs v)"
| "to_cs_reply r = r"

definition to_cs_nodes :: "nodes \<Rightarrow> nodes" where
  "to_cs_nodes ns = ns\<lparr>INodes := map to_cs_inode (INodes ns)\<rparr>"

definition to_cs :: "fs_state \<Rightarrow> fs_state" where
  "to_cs s = s\<lparr>INodeManager := to_cs_nodes (INodeManager s), m_stbuf := to_cs_statvfs (m_stbuf s),
     createFileFromThread := False, deleteFileFromThread := False, createDirFromThread := False,
     deleteDirFromThread := False, renameFromThread := False, unmountFromThread := False,
     mpiRank := 0, mpiWorldSize := 0, replies := map to_cs_reply (replies s), sends := []\<rparr>"

section \<open>What it commutes with\<close>

lemma to_cs_fields [simp]:
  "BlocksManager (to_cs s) = BlocksManager s" "m_reclaimingINodes (to_cs s) = m_reclaimingINodes s"
  "dirIterators (to_cs s) = dirIterators s" "n_inodes (to_cs s) = n_inodes s"
  "DeletedINodes (INodeManager (to_cs s)) = DeletedINodes (INodeManager s)"
  "m_stbuf (to_cs s) = to_cs_statvfs (m_stbuf s)"
  "INodeManager (to_cs s) = to_cs_nodes (INodeManager s)"
  by (simp_all add: to_cs_def to_cs_nodes_def n_inodes_def)

lemma to_cs_updates [simp]:
  "to_cs (reply r s) = reply (to_cs_reply r) (to_cs s)"
  "to_cs (sending ms s) = to_cs s"
  "to_cs (s\<lparr>createFileFromThread := x\<rparr>) = to_cs s" "to_cs (s\<lparr>deleteFileFromThread := x\<rparr>) = to_cs s"
  "to_cs (s\<lparr>createDirFromThread := x\<rparr>) = to_cs s" "to_cs (s\<lparr>deleteDirFromThread := x\<rparr>) = to_cs s"
  "to_cs (s\<lparr>renameFromThread := x\<rparr>) = to_cs s"
  "to_cs (s\<lparr>BlocksManager := b\<rparr>) = (to_cs s)\<lparr>BlocksManager := b\<rparr>"
  "to_cs (s\<lparr>m_reclaimingINodes := y\<rparr>) = (to_cs s)\<lparr>m_reclaimingINodes := y\<rparr>"
  "to_cs (s\<lparr>dirIterators := its\<rparr>) = (to_cs s)\<lparr>dirIterators := its\<rparr>"
  "to_cs (s\<lparr>INodeManager := ns\<rparr>) = (to_cs s)\<lparr>INodeManager := to_cs_nodes ns\<rparr>"
  "to_cs (UpdateUsedBlocks k s) = UpdateUsedBlocks k (to_cs s)"
  "to_cs (UpdateUsedINodes k s) = UpdateUsedINodes k (to_cs s)"
  by (simp_all add: to_cs_def reply_def sending_def UpdateUsedBlocks_def UpdateUsedINodes_def to_cs_statvfs_def)

lemma to_cs_nodes_simps [simp]:
  "getNumberOfINodes (to_cs_nodes ns) = getNumberOfINodes ns" "DeletedINodes (to_cs_nodes ns) = DeletedINodes ns"
  "getNumberOfDeletedINodes (to_cs_nodes ns) = getNumberOfDeletedINodes ns"
  "past_end (to_cs_nodes ns) ino = past_end ns ino"
  "to_cs_nodes (DeleteINode ns ino) = DeleteINode (to_cs_nodes ns) ino"
  by (simp_all add: to_cs_nodes_def getNumberOfINodes_def getNumberOfDeletedINodes_def past_end_def DeleteINode_def)

lemma to_cs_no_such_ino [simp]: "no_such_ino (to_cs s) ino = no_such_ino s ino"
  by (simp add: no_such_ino_def)

lemma to_cs_inode_at: "unat ino < n_inodes s \<Longrightarrow> inode_at (to_cs s) ino = to_cs_inode (inode_at s ino)"
  by (simp add: inode_at_def to_cs_nodes_def n_inodes_def)

lemma to_cs_inode_simps [simp]:
  "attr (to_cs_inode nd) = to_cs_stat (attr nd)" "m_nlookup (to_cs_inode nd) = m_nlookup nd"
  "m_xattr (to_cs_inode nd) = m_xattr nd" "GetXAttr (to_cs_inode nd) = GetXAttr nd"
  "m_fuseEntryParam (to_cs_inode nd) = to_cs_entry (m_fuseEntryParam nd)"
  "isDeleted (to_cs_inode nd) = isDeleted nd" "HasNoLinks (to_cs_inode nd) = HasNoLinks nd"
  "Forgotten (to_cs_inode nd) = Forgotten nd" "UsedBlocks (to_cs_inode nd) = UsedBlocks nd"
  "as_Directory (to_cs_inode nd) = map_option to_cs_dir (as_Directory nd)"
  "as_File (to_cs_inode nd) = as_File nd" "as_SymbolicLink (to_cs_inode nd) = as_SymbolicLink nd"
  "node_class (to_cs_inode nd) = to_cs_class (node_class nd)"
  by (simp_all add: to_cs_inode_def attr_def to_cs_entry_def GetXAttr_def isDeleted_def HasNoLinks_def Forgotten_def
      UsedBlocks_def as_Directory_def as_File_def as_SymbolicLink_def to_cs_class_def to_cs_stat_def split: node_class.split)

lemma to_cs_stat_simps [simp]:
  "st_mode (to_cs_stat a) = st_mode a" "st_size (to_cs_stat a) = st_size a" "st_nlink (to_cs_stat a) = st_nlink a"
  "st_gid (to_cs_stat a) = st_gid a" "st_uid (to_cs_stat a) = st_uid a" "st_blocks (to_cs_stat a) = st_blocks a"
  by (simp_all add: to_cs_stat_def)

lemma to_cs_dir_simps [simp]:
  "m_children (to_cs_dir d) = m_children d"
  "ChildINodeNumberWithName (to_cs_dir d) name = ChildINodeNumberWithName d name"
  "hasChildren (to_cs_dir d) = hasChildren d"
  by (simp_all add: to_cs_dir_def ChildINodeNumberWithName_def hasChildren_def)

text \<open>Updates of an inode in one version and the other.\<close>

definition mirrors :: "(inode \<Rightarrow> inode) \<Rightarrow> (inode \<Rightarrow> inode) \<Rightarrow> bool" where
  "mirrors g g' \<longleftrightarrow> (\<forall>nd. to_cs_inode (g nd) = g' (to_cs_inode nd))"

lemma to_cs_modINode:
  assumes "mirrors g g'"
  shows "to_cs (modINode ino g s) = modINode ino g' (to_cs s)"
proof -
  have "map to_cs_inode (INodes (modINodeAt (INodeManager s) ino g)) =
      INodes (modINodeAt (to_cs_nodes (INodeManager s)) ino g')"
    using assms
    by (cases "unat ino < length (INodes (INodeManager s))")
      (simp_all add: modINodeAt_def to_cs_nodes_def map_update mirrors_def list_update_beyond)
  then show ?thesis by (simp add: modINode_def to_cs_nodes_def modINodeAt_def)
qed

lemma mirrors_attr:
  "(\<And>a. to_cs_stat (g a) = g' (to_cs_stat a)) \<Longrightarrow> mirrors (set_attr g) (set_attr g')"
  by (simp add: mirrors_def to_cs_inode_def set_attr_def to_cs_entry_def)

lemma mirrors_ops [simp]:
  "mirrors Lookup Lookup" "mirrors (Forget n) (Forget n)" "mirrors AddHardLink AddHardLink"
  "mirrors (set_File f) (set_File f)" "mirrors (set_SymbolicLink l) (set_SymbolicLink l)"
  "mirrors (\<lambda>_. nd) (\<lambda>_. to_cs_inode nd)"
  "mirrors (set_Directory (\<lambda>d. fst (UpdateChild name ino d))) (set_Directory (\<lambda>d. fst (UpdateChild name ino d)))"
  "mirrors (set_Directory (\<lambda>d. fst (DeleteChild name d))) (set_Directory (\<lambda>d. fst (DeleteChild name d)))"
  "mirrors (set_attr (\<lambda>a. a\<lparr>st_size := x, st_blocks := y\<rparr>)) (set_attr (\<lambda>a. a\<lparr>st_size := x, st_blocks := y\<rparr>))"
  "mirrors (set_attr (\<lambda>a. a\<lparr>st_atim := t\<rparr>)) (set_attr (\<lambda>a. a\<lparr>st_atim := t\<rparr>))"
  by (auto simp: mirrors_def to_cs_inode_def Lookup_def Forget_def AddHardLink_def set_File_def set_SymbolicLink_def
      set_Directory_def UpdateChild_def DeleteChild_def Let_def to_cs_class_def to_cs_dir_def set_attr_def
      to_cs_entry_def to_cs_stat_def split: node_class.split)

lemma mirrors_RemoveHardLink [simp]: "mirrors RemoveHardLink RemoveHardLink"
proof -
  have "to_cs_inode (set_attr (\<lambda>a. a\<lparr>st_nlink := st_nlink a - 1\<rparr>) nd) = set_attr (\<lambda>a. a\<lparr>st_nlink := st_nlink a - 1\<rparr>) (to_cs_inode nd)" for nd
    by (simp add: to_cs_inode_def set_attr_def to_cs_entry_def to_cs_stat_def)
  moreover have "to_cs_inode (markForDeletion nd) = markForDeletion (to_cs_inode nd)" for nd
    by (simp add: to_cs_inode_def markForDeletion_def)
  ultimately show ?thesis by (simp add: mirrors_def RemoveHardLink_def Let_def)
qed

lemma mirrors_RemoveAllHardLinks [simp]: "mirrors RemoveAllHardLinks RemoveAllHardLinks"
proof -
  have "to_cs_inode (RemoveAllHardLinks nd) = RemoveAllHardLinks (to_cs_inode nd)" for nd
  proof (induction nd rule: RemoveAllHardLinks.induct)
    case (1 nd)
    then show ?case
      using mirrors_RemoveHardLink
      by (cases "HasNoLinks nd") (simp_all add: mirrors_def RemoveAllHardLinks.simps [of nd] RemoveAllHardLinks.simps [of "to_cs_inode nd"])
  qed
  then show ?thesis by (simp add: mirrors_def)
qed

lemma mirrors_SetINodeAttributes [simp]: "mirrors (SetINodeAttributes ts at k) (SetINodeAttributes ts at k)"
  unfolding mirrors_def SetINodeAttributes_def Let_def
  by (simp add: to_cs_inode_def set_attr_def to_cs_entry_def to_cs_stat_def attr_def)

lemma mirrors_InitializeINode [simp]:
  "mirrors (InitializeINode ts ino mode nl g u) (cs_InitializeINode ts ino mode nl g u)"
  by (simp add: mirrors_def to_cs_inode_def InitializeINode_def cs_InitializeINode_def to_cs_entry_def to_cs_stat_def
      to_cs_blksize_def)

lemma to_cs_naming [simp]:
  "to_cs (modINode ino (set_Directory (\<lambda>d. setDirName nm (setParent p d))) s) = to_cs s"
  "to_cs (modINode ino (set_Directory (setDirName nm)) s) = to_cs s"
proof -
  have same: "to_cs (modINode ino g s) = to_cs s" if "\<And>nd. to_cs_inode (g nd) = to_cs_inode nd" for g
  proof -
    have "to_cs (modINode ino g s) = modINode ino id (to_cs s)" by (rule to_cs_modINode) (simp add: mirrors_def that)
    then show ?thesis by (simp add: modINode_def modINodeAt_def)
  qed
  show "to_cs (modINode ino (set_Directory (\<lambda>d. setDirName nm (setParent p d))) s) = to_cs s"
    "to_cs (modINode ino (set_Directory (setDirName nm)) s) = to_cs s"
    by (rule same; auto simp: to_cs_inode_def set_Directory_def to_cs_class_def to_cs_dir_def setDirName_def setParent_def
        split: node_class.split)+
qed

lemmas to_cs_mod [simp] = mirrors_ops [THEN to_cs_modINode] mirrors_RemoveHardLink [THEN to_cs_modINode]
  mirrors_RemoveAllHardLinks [THEN to_cs_modINode] mirrors_SetINodeAttributes [THEN to_cs_modINode]
  mirrors_InitializeINode [THEN to_cs_modINode]

lemma to_cs_set_buf [simp]: "to_cs (set_buf ino b s) = set_buf ino b (to_cs s)"
  by (simp add: set_buf_def)

section \<open>Agreement of two computations\<close>

definition agrees :: "fs_state exec \<Rightarrow> fs_state exec \<Rightarrow> bool" where
  "agrees m m' \<longleftrightarrow> (\<forall>s'. m = Inr s' \<longrightarrow> m' = Inr (to_cs s'))"

lemma agrees_basic:
  "agrees (Inl e) m'" "t' = to_cs t \<Longrightarrow> agrees (Inr t) (Inr t')"
  "(c \<Longrightarrow> agrees a a') \<Longrightarrow> (\<not> c \<Longrightarrow> agrees b b') \<Longrightarrow> agrees (if c then a else b) (if c then a' else b')"
  by (simp_all add: agrees_def)

lemma to_cs_getINode:
  "getINode (to_cs s) ino = map_sum id to_cs_inode (getINode s ino)"
  by (simp add: getINode_def getINodeByINodeNumber_def to_cs_nodes_def)

lemma agrees_getINode:
  "(unat ino < n_inodes t \<Longrightarrow> agrees (k (inode_at t ino)) (k' (to_cs_inode (inode_at t ino)))) \<Longrightarrow>
     agrees (andThen (getINode t ino) k) (andThen (getINode (to_cs t) ino) k')"
  by (cases "unat ino < n_inodes t")
    (auto simp: agrees_def to_cs_getINode getINode_total getINode_iff)

lemma agrees_on_directory:
  assumes "\<And>d. unat parent < n_inodes s \<Longrightarrow> as_Directory (inode_at s parent) = Some d \<Longrightarrow> agrees (k d) (k' (to_cs_dir d))"
  shows "agrees (on_directory parent e s k) (on_directory parent e (to_cs s) k')"
  using assms
  by (auto simp: on_directory_def intro!: agrees_basic agrees_getINode split: option.split)

lemma agrees_option:
  "(x = None \<Longrightarrow> agrees a a') \<Longrightarrow> (\<And>y. x = Some y \<Longrightarrow> agrees (b y) (b' y)) \<Longrightarrow>
     agrees (case x of None \<Rightarrow> a | Some y \<Rightarrow> b y) (case x of None \<Rightarrow> a' | Some y \<Rightarrow> b' y)"
  by (cases x) simp_all

text \<open>A value that both compute, and a state that both compute.\<close>

lemma agrees_value:
  "(\<And>x. m = Inr x \<Longrightarrow> agrees (k x) (k' x)) \<Longrightarrow> agrees (andThen m k) (andThen m k')"
  by (auto simp: agrees_def)

lemma agrees_then:
  "agrees m m' \<Longrightarrow> (\<And>t. m = Inr t \<Longrightarrow> agrees (k t) (k' (to_cs t))) \<Longrightarrow> agrees (andThen m k) (andThen m' k')"
  by (auto simp: agrees_def)

lemma agrees_announce:
  assumes "\<And>u. to_cs u = to_cs t \<Longrightarrow> agrees (k u) m'"
  shows "agrees (andThen (if c then Inr t else andThen x (\<lambda>msgs. Inr (sending msgs t))) k) m'"
proof (cases c)
  case True
  then show ?thesis using assms [of t] by simp
next
  case False
  have "agrees (k (sending msgs t)) m'" for msgs by (rule assms) simp
  then show ?thesis using False by (auto simp: agrees_def)
qed

lemma agrees_announced:
  assumes "\<And>u. to_cs u = to_cs t \<Longrightarrow> agrees (k u) m'"
  shows "agrees (andThen (andThen x (\<lambda>msgs. Inr (sending msgs t))) k) m'"
proof -
  have "agrees (k (sending msgs t)) m'" for msgs by (rule assms) simp
  then show ?thesis by (auto simp: agrees_def)
qed

lemma agrees_sent: "t' = to_cs t \<Longrightarrow> agrees (andThen x (\<lambda>msgs. Inr (sending msgs t))) (Inr t')"
  by (auto simp: agrees_def)

text \<open>Registering an inode.\<close>

lemma to_cs_createEmptyINode [simp]: "to_cs_inode (createEmptyINode ty) = createEmptyINode ty"
proof -
  have "to_cs_blksize 0 = 0" by (simp add: to_cs_blksize_def INodeBufBlockSize_def FILE_SYSTEM_SINGLE_BLOCK_SIZE_def)
  then have "to_cs_entry zero_entry_param = zero_entry_param"
    by (simp add: to_cs_entry_def zero_entry_param_def zero_stat_def to_cs_stat_def)
  then show ?thesis
    by (cases ty) (simp_all add: createEmptyINode_def new_INode_def to_cs_inode_def to_cs_class_def to_cs_dir_def new_Directory_def)
qed

lemma register_agrees:
  assumes "RegisterINode ev ty mode nl g u s = Inr (t, ino)"
  shows "cs_RegisterINode ev ty mode nl g u (to_cs s) = Inr (to_cs t, ino)"
proof -
  let ?s1 = "if getNumberOfDeletedINodes (INodeManager s) = 0 then s\<lparr>m_reclaimingINodes := False\<rparr> else s"
  have s1: "(if getNumberOfDeletedINodes (INodeManager (to_cs s)) = 0
      then (to_cs s)\<lparr>m_reclaimingINodes := False\<rparr> else to_cs s) = to_cs ?s1" by simp
  have reclaim: "reclaimINode (to_cs_nodes ns) = map_sum id (\<lambda>(i, ns1). (i, to_cs_nodes ns1)) (reclaimINode ns)" for ns
    by (simp add: reclaimINode_def to_cs_nodes_def split: list.split)
  have get: "getINodeByINodeNumber (to_cs_nodes ns) i = map_sum id to_cs_inode (getINodeByINodeNumber ns i)" for ns i
    by (simp add: getINodeByINodeNumber_def to_cs_nodes_def)
  have set: "setINodeAt (to_cs_nodes ns) i (createEmptyINode ty) = map_sum id to_cs_nodes (setINodeAt ns i (createEmptyINode ty))" for ns i
    by (simp add: setINodeAt_def to_cs_nodes_def map_update)
  have add: "AddINode (to_cs_nodes ns) (createEmptyINode ty) = (let (ns1, i) = AddINode ns (createEmptyINode ty) in (to_cs_nodes ns1, i))" for ns
    by (simp add: AddINode_def to_cs_nodes_def Let_def)
  show ?thesis
    using assms unfolding RegisterINode_def cs_RegisterINode_def s1 Let_def
    by (cases "m_reclaimingINodes ?s1") (auto simp: reclaim get set add Let_def split: prod.splits)
qed

lemma agrees_register:
  assumes "fs_wf s" and "grown s t" and "n_inodes t = n_inodes s" and "n_inodes s < 2 ^ 31"
    and "\<And>t1 ino. unat ino < n_inodes t1 \<Longrightarrow> n_inodes s \<le> n_inodes t1 \<Longrightarrow> agrees (k t1 ino) (k' (to_cs t1) ino)"
  shows "agrees (andThen (RegisterINode ev ty m nl g u t) (\<lambda>(t1, ino). k t1 ino))
    (andThen (cs_RegisterINode ev ty m nl g u (to_cs t)) (\<lambda>(t1, ino). k' t1 ino))"
  using assms(5) grown_register [OF assms(1-4)] register_agrees by (fastforce simp: agrees_def)

section \<open>The handlers\<close>

lemmas agrees_rules = agrees_announce agrees_announced agrees_getINode agrees_on_directory agrees_basic agrees_value

lemma entry_ops [simp]:
  "m_fuseEntryParam (Lookup nd) = m_fuseEntryParam nd" "m_fuseEntryParam (Forget k nd) = m_fuseEntryParam nd"
  by (simp_all add: Lookup_def Forget_def)

lemma forget_simps [simp]:
  "Forgotten (Forget k (to_cs_inode nd)) = Forgotten (Forget k nd)"
  "HasNoLinks (Forget k (to_cs_inode nd)) = HasNoLinks (Forget k nd)"
  "getNumberOfDeletedINodes (DeleteINode (modINodeAt ns ino g) ino) = getNumberOfDeletedINodes (DeleteINode ns ino)"
  "getNumberOfDeletedINodes (DeleteINode (to_cs_nodes ns) ino) = getNumberOfDeletedINodes (DeleteINode ns ino)"
  by (simp_all add: Forgotten_def HasNoLinks_def DeleteINode_def getNumberOfDeletedINodes_def to_cs_nodes_def)

lemma to_cs_nodes_Forget [simp]:
  "to_cs_nodes (modINodeAt (INodeManager s) ino (Forget k)) = modINodeAt (to_cs_nodes (INodeManager s)) ino (Forget k)"
  for s :: fs_state
proof -
  have "INodeManager (to_cs (modINode ino (Forget k) s)) = INodeManager (modINode ino (Forget k) (to_cs s))" by simp
  then show ?thesis by (simp add: modINode_def)
qed

lemma attributes_simps [simp]:
  "attr (SetINodeAttributes ts at fl (to_cs_inode nd)) = to_cs_stat (attr (SetINodeAttributes ts at fl nd))"
  "getINode (reply r s) ino = getINode s ino"
proof -
  have "to_cs_inode (SetINodeAttributes ts at fl nd) = SetINodeAttributes ts at fl (to_cs_inode nd)"
    using mirrors_SetINodeAttributes by (simp add: mirrors_def)
  then show "attr (SetINodeAttributes ts at fl (to_cs_inode nd)) = to_cs_stat (attr (SetINodeAttributes ts at fl nd))"
    using to_cs_inode_simps(1) by metis
qed (simp add: getINode_def)

lemma same_text_agrees:
  "agrees (FuseLookup p nm s) (FuseLookup p nm (to_cs s))"
  "agrees (FuseForget ino k s) (FuseForget ino k (to_cs s))"
  "agrees (FuseGetAttr ino s) (FuseGetAttr ino (to_cs s))"
  "agrees (FuseSetAttr ev ino at fl s) (FuseSetAttr ev ino at fl (to_cs s))"
  "agrees (FuseReadLink ino s) (FuseReadLink ino (to_cs s))"
  "agrees (FuseStatfs ino s) (FuseStatfs ino (to_cs s))"
  "agrees (FuseAccess ev ino m s) (FuseAccess ev ino m (to_cs s))"
  "agrees (FuseGetLock ino s) (FuseGetLock ino (to_cs s))"
  "agrees (FuseFsync ino s) (FuseFsync ino (to_cs s))"
  "agrees (FuseFsyncDir ino s) (FuseFsyncDir ino (to_cs s))"
  "agrees (FuseOpenDir ino s) (FuseOpenDir ino (to_cs s))"
  "agrees (FuseReleaseDir ino s) (FuseReleaseDir ino (to_cs s))"
  "agrees (FuseRelease ino s) (FuseRelease ino (to_cs s))"
  unfolding FuseLookup_def FuseForget_def FuseGetAttr_def FuseSetAttr_def FuseReadLink_def FuseStatfs_def FuseAccess_def
    FuseGetLock_def FuseFsync_def FuseFsyncDir_def FuseOpenDir_def FuseReleaseDir_def FuseRelease_def Let_def
  by (auto intro!: agrees_rules agrees_option simp: inode_at_modINode to_cs_inode_at)

text \<open>The entry parameters depend on the attributes only.\<close>

lemma entry_of_updates:
  "m_fuseEntryParam (set_attr g (set_Directory h nd)) = m_fuseEntryParam (set_attr g nd)"
  "m_fuseEntryParam (set_attr g (set_SymbolicLink l nd)) = m_fuseEntryParam (set_attr g nd)"
  "m_fuseEntryParam (set_attr g (Lookup nd)) = m_fuseEntryParam (set_attr g nd)"
  "m_fuseEntryParam (AddHardLink (set_Directory h nd)) = m_fuseEntryParam (AddHardLink nd)"
  "m_fuseEntryParam (AddHardLink (to_cs_inode nd)) = to_cs_entry (m_fuseEntryParam (AddHardLink nd))"
  "m_fuseEntryParam (set_attr (\<lambda>a. a\<lparr>st_size := x, st_blocks := y\<rparr>) (to_cs_inode nd)) =
     to_cs_entry (m_fuseEntryParam (set_attr (\<lambda>a. a\<lparr>st_size := x, st_blocks := y\<rparr>) nd))"
  by (simp_all add: set_attr_def Lookup_def AddHardLink_def to_cs_entry_def to_cs_stat_def)

lemma cast_of_updates:
  "as_File (Lookup nd) = as_File nd" "as_File (set_Directory h nd) = as_File nd"
  by (auto simp: as_File_def set_Directory_def split: node_class.split)

lemmas entry_updates = inode_at_modINode to_cs_inode_at entry_of_updates cast_of_updates

lemma xattr_ops_mirror:
  "SetXAttr ok (to_cs_inode nd) nm val fl pos = map_sum id (map_prod to_cs_inode id) (SetXAttr ok nd nm val fl pos)"
  "RemoveXAttr (to_cs_inode nd) nm = map_prod to_cs_inode id (RemoveXAttr nd nm)"
proof -
  have xattr: "to_cs_inode (nd\<lparr>m_xattr := x\<rparr>) = (to_cs_inode nd)\<lparr>m_xattr := x\<rparr>" for x
    by (simp add: to_cs_inode_def)
  show "RemoveXAttr (to_cs_inode nd) nm = map_prod to_cs_inode id (RemoveXAttr nd nm)"
    by (simp add: RemoveXAttr_def xattr)
  have bind: "map_sum id f (andThen m k) = andThen m (\<lambda>x. map_sum id f (k x))" for f k and m :: "buffer exec"
    by (cases m) simp_all
  show "SetXAttr ok (to_cs_inode nd) nm val fl pos = map_sum id (map_prod to_cs_inode id) (SetXAttr ok nd nm val fl pos)"
    by (simp add: SetXAttr_def Let_def bind xattr)
qed

lemma agrees_map_sum:
  "(\<And>x. m = Inr x \<Longrightarrow> agrees (k x) (k' (f x))) \<Longrightarrow> agrees (andThen m k) (andThen (map_sum id f m) k')"
  by (cases m) (simp_all add: agrees_def)

lemma xattr_calls_agree:
  "agrees (FuseSetXAttr ev ino nm val fl s) (FuseSetXAttr ev ino nm val fl (to_cs s))"
  "agrees (FuseGetXAttr ino nm sz s) (FuseGetXAttr ino nm sz (to_cs s))"
  "agrees (FuseListXAttr ev ino sz s) (FuseListXAttr ev ino sz (to_cs s))"
  "agrees (FuseRemoveXAttr ino nm s) (FuseRemoveXAttr ino nm (to_cs s))"
  unfolding FuseSetXAttr_def FuseGetXAttr_def FuseListXAttr_def FuseRemoveXAttr_def Let_def
  by (auto intro!: agrees_map_sum agrees_rules agrees_option simp: xattr_ops_mirror split: prod.split)

lemma FuseReadDir_agrees: "agrees (FuseReadDir esz ev ino sz off s) (FuseReadDir esz ev ino sz off (to_cs s))"
  unfolding FuseReadDir_def Let_def
  by (auto intro!: agrees_option agrees_rules simp: comp_def split: prod.split)

lemma FuseRead_agrees: "agrees (FuseRead ev ino sz off s) (FuseRead ev ino sz off (to_cs s))"
  unfolding FuseRead_unfold Let_def
  by (auto intro!: agrees_rules simp: to_cs_class_def split: node_class.split)

lemma FuseLink_agrees: "agrees (FuseLink ino p nm s) (FuseLink ino p nm (to_cs s))"
  unfolding FuseLink_def Let_def
  by (auto intro!: agrees_rules simp: entry_updates)

lemma FuseUnlink_agrees: "agrees (FuseUnlink p nm s) (cs_FuseUnlink p nm (to_cs s))"
  unfolding FuseUnlink_def cs_FuseUnlink_def Let_def
  by (auto intro!: agrees_rules)

lemma FuseRmdir_agrees: "agrees (FuseRmdir p nm s) (cs_FuseRmdir p nm (to_cs s))"
  unfolding FuseRmdir_def cs_FuseRmdir_def Let_def
  by (auto intro!: agrees_option agrees_rules simp: comp_def)

lemma FuseRename_agrees: "agrees (FuseRename p nm q nm' s) (cs_FuseRename p nm q nm' (to_cs s))"
  unfolding FuseRename_def cs_FuseRename_def Let_def
  by (auto intro!: agrees_then agrees_sent agrees_rules)

lemma creating_calls_agree:
  assumes wf: "fs_wf s" and small: "n_inodes s < 2 ^ 31"
  shows "agrees (FuseMkdir ev p nm s) (cs_FuseMkdir ev p nm (to_cs s))"
    and "agrees (FuseSymlink ev link p nm s) (cs_FuseSymlink ev link p nm (to_cs s))"
    and "agrees (FuseCreate ev p nm fl s) (cs_FuseCreate ev p nm fl (to_cs s))"
  unfolding FuseMkdir_def cs_FuseMkdir_def FuseSymlink_def cs_FuseSymlink_def FuseCreate_def cs_FuseCreate_def Let_def
  using small
  by (auto intro!: agrees_register [OF wf] agrees_rules simp: wf grown_refl entry_updates)

lemma FuseMknod_agrees:
  assumes wf: "fs_wf s" and small: "n_inodes s < 2 ^ 31"
  shows "agrees (FuseMknod ev p nm mode s) (cs_FuseMknod ev p nm mode (to_cs s))"
proof -
  have register: "agrees (andThen (RegisterINode ev ty m nl g u (modINode p AddHardLink s)) (\<lambda>(t1, ino). k t1 ino))
      (andThen (cs_RegisterINode ev ty m nl g u (modINode p AddHardLink (to_cs s))) (\<lambda>(t1, ino). k' t1 ino))"
    if "unat p < n_inodes s" and "\<And>t1 ino. unat ino < n_inodes t1 \<Longrightarrow> n_inodes s \<le> n_inodes t1 \<Longrightarrow> agrees (k t1 ino) (k' (to_cs t1) ino)"
    for ty m nl g u k k'
    using agrees_register [OF wf _ _ small, of "modINode p AddHardLink s" k k' ev ty m nl g u] that
    by (simp add: grown_refl wf grown_modINode keeps)
  show ?thesis
    unfolding FuseMknod_def cs_FuseMknod_def Let_def
    using small
    by (cases "S_ISDIR mode"; simp only: if_True if_False prod.case;
        auto intro!: register agrees_register [OF wf] agrees_rules simp: wf grown_refl entry_updates)
qed

section \<open>Runs\<close>

fun is_write :: "fuse_call \<Rightarrow> bool" where
  "is_write (call_write ino buf off) = True"
| "is_write _ = False"

lemma calls_agree:
  assumes "fs_wf s" and "n_inodes s < 2 ^ 31" and "\<not> is_write c"
  shows "agrees (FuseOperations esz ev c s) (cs_FuseOperations esz ev c (to_cs s))"
  using assms
  by (cases c) (simp_all add: cs_same_text same_text_agrees xattr_calls_agree FuseReadDir_agrees FuseRead_agrees FuseLink_agrees
      FuseUnlink_agrees FuseRmdir_agrees FuseRename_agrees creating_calls_agree FuseMknod_agrees)

lemma runs_agree:
  assumes "fs_wf s" and "n_inodes s + length cs \<le> 2 ^ 31" and "\<forall>(ev, c)\<in>set cs. \<not> is_write c"
    and "foldE (\<lambda>(ev, c). FuseOperations esz ev c) cs s = Inr s'"
  shows "foldE (\<lambda>(ev, c). cs_FuseOperations esz ev c) cs (to_cs s) = Inr (to_cs s')"
  using assms
proof (induction cs arbitrary: s)
  case (Cons x cs)
  obtain ev c where x: "x = (ev, c)" by (cases x)
  obtain s1 where s1: "FuseOperations esz ev c s = Inr s1" "foldE (\<lambda>(ev, c). FuseOperations esz ev c) cs s1 = Inr s'"
    using Cons.prems(4) by (auto simp: x)
  have small: "n_inodes s < 2 ^ 31" using Cons.prems(2) by simp
  have "grown s s1" using FuseOperations_grows [OF Cons.prems(1) small] s1(1) by (auto simp: grows_def)
  then have "fs_wf s1" "n_inodes s1 + length cs \<le> 2 ^ 31" using Cons.prems(2) by (auto simp: grown_def)
  then have "foldE (\<lambda>(ev, c). cs_FuseOperations esz ev c) cs (to_cs s1) = Inr (to_cs s')"
    using Cons.IH Cons.prems(3) s1(2) by simp
  moreover have "cs_FuseOperations esz ev c (to_cs s) = Inr (to_cs s1)"
    using calls_agree [OF Cons.prems(1) small] Cons.prems(3) s1(1) by (simp add: x agrees_def)
  ultimately show ?case by (simp add: x)
qed simp

lemma to_cs_new_FileSystem: "to_cs (new_FileSystem r w) = cs_new_FileSystem"
  by (simp add: to_cs_def new_FileSystem_def cs_new_FileSystem_def new_Nodes_def to_cs_nodes_def to_cs_statvfs_def
      to_cs_blksize_def)

lemma init_agrees: "agrees (FuseInit ev s) (cs_init_master ev (to_cs s))"
proof -
  let ?s1 = "s\<lparr>m_reclaimingINodes := False, m_stbuf := (m_stbuf s)\<lparr>f_bfree := f_blocks (m_stbuf s),
    f_bavail := f_blocks (m_stbuf s), f_ffree := f_files (m_stbuf s), f_favail := f_files (m_stbuf s), f_flag := 0x1FF\<rparr>\<rparr>"
  have "(to_cs s)\<lparr>m_reclaimingINodes := False, m_stbuf := (m_stbuf (to_cs s))\<lparr>f_bfree := f_blocks (m_stbuf (to_cs s)),
      f_bavail := f_blocks (m_stbuf (to_cs s)), f_ffree := f_files (m_stbuf (to_cs s)),
      f_favail := f_files (m_stbuf (to_cs s)), f_flag := 0x1FF\<rparr>\<rparr> = to_cs ?s1"
    by (simp add: to_cs_def to_cs_statvfs_def)
  then show ?thesis
    unfolding FuseInit_def cs_init_master_def Let_def
    by (auto simp: agrees_def dest!: register_agrees split: option.split_asm)
qed

lemma handle_calls:
  "foldE (\<lambda>(ev, c). cs_FuseOperations esz ev c) cs (master_fs C) = Inr s' \<Longrightarrow>
     foldE (cs_handle m esz) (map (\<lambda>(ev, c). (ev, Cs_call c)) cs) C = Inr (C\<lparr>master_fs := s'\<rparr>)"
proof (induction cs arbitrary: C)
  case (Cons x cs)
  obtain ev c where x: "x = (ev, c)" by (cases x)
  obtain s1 where s1: "cs_FuseOperations esz ev c (master_fs C) = Inr s1"
      "foldE (\<lambda>(ev, c). cs_FuseOperations esz ev c) cs s1 = Inr s'"
    using Cons.prems by (auto simp: x)
  then show ?case using Cons.IH [of "C\<lparr>master_fs := s1\<rparr>"] by (simp add: x at_master_def)
qed simp

text \<open>
  C10. The two versions of the program are the same file system to their users: every sequence of
  requests other than writes, open and flush that a freshly mounted process of the peer-to-peer
  version gets through, the master of the client-server version gets through as well, with the same
  replies up to the block size that they report, and they end in the same inodes, entries, link and
  reference counts, reusable numbers and block lists.
\<close>

theorem versions_agree:
  assumes "length cs + 2 \<le> 2 ^ 31" and "\<forall>(ev, c)\<in>set cs. \<not> is_write c"
    and "andThen (FuseInit ev (new_FileSystem r w)) (foldE (\<lambda>(ev, c). FuseOperations esz ev c) cs) = Inr s"
  shows "\<exists>C. andThen (cs_FuseInit ev (cs_start n)) (foldE (cs_handle m esz) (map (\<lambda>(ev, c). (ev, Cs_call c)) cs)) = Inr C \<and>
    master_fs C = to_cs s \<and> replies (master_fs C) = map to_cs_reply (replies s) \<and>
    BlocksManager (master_fs C) = BlocksManager s \<and>
    DeletedINodes (INodeManager (master_fs C)) = DeletedINodes (INodeManager s) \<and>
    (\<forall>ino. unat ino < n_inodes s \<longrightarrow> st_nlink (attr (inode_at (master_fs C) ino)) = st_nlink (attr (inode_at s ino)) \<and>
       m_nlookup (inode_at (master_fs C) ino) = m_nlookup (inode_at s ino) \<and>
       (\<forall>d. as_Directory (inode_at s ino) = Some d \<longrightarrow>
          map_option m_children (as_Directory (inode_at (master_fs C) ino)) = Some (m_children d)))"
proof -
  have run: "foldE (\<lambda>(ev, c). FuseOperations esz ev c) cs (booted ev r w) = Inr s"
    using assms(3) by (simp add: FuseInit_eq)
  let ?C0 = "cs_sendChangedir ((cs_start n)\<lparr>master_fs := to_cs (booted ev r w)\<rparr>)"
  have "cs_init_master ev (to_cs (new_FileSystem r w)) = Inr (to_cs (booted ev r w))"
    using init_agrees by (simp add: agrees_def FuseInit_eq)
  then have init: "cs_FuseInit ev (cs_start n) = Inr ?C0"
    by (simp add: cs_FuseInit_def at_master_def cs_start_def to_cs_new_FileSystem)
  have "foldE (\<lambda>(ev, c). cs_FuseOperations esz ev c) cs (to_cs (booted ev r w)) = Inr (to_cs s)"
    using assms(1) by (intro runs_agree [OF _ _ assms(2) run]) simp_all
  then have "foldE (cs_handle m esz) (map (\<lambda>(ev, c). (ev, Cs_call c)) cs) ?C0 = Inr (?C0\<lparr>master_fs := to_cs s\<rparr>)"
    by (intro handle_calls) (simp add: cs_sendChangedir_def mpi_calling_def)
  moreover have "replies (to_cs s) = map to_cs_reply (replies s)" by (simp add: to_cs_def)
  ultimately show ?thesis using init by (auto simp: to_cs_inode_at)
qed

theorem versions_agree_witness:
  "\<exists>s C. andThen (FuseInit demo_env (new_FileSystem 1 4)) (foldE (\<lambda>(ev, c). FuseOperations length ev c)
       [(demo_env, call_mkdir 1 ''a''), (demo_env, call_statfs 1)]) = Inr s \<and>
     andThen (cs_FuseInit demo_env (cs_start 3)) (foldE (cs_handle plain_mpi length)
       [(demo_env, Cs_call (call_mkdir 1 ''a'')), (demo_env, Cs_call (call_statfs 1))]) = Inr C \<and>
     replies (master_fs C) = map to_cs_reply (replies s)"
proof -
  let ?cs = "[(demo_env, call_mkdir 1 ''a''), (demo_env, call_statfs 1)]"
  have "\<exists>s. FuseMkdir demo_env 1 ''a'' (booted demo_env 1 4) = Inr s"
    using FuseMkdir_eq [OF fs_wf_booted _ is_dir_booted, of demo_env 1 4 "''a''" demo_env]
    by (simp add: name_capacity_def)
  then obtain s where s: "andThen (FuseInit demo_env (new_FileSystem 1 4)) (foldE (\<lambda>(ev, c). FuseOperations length ev c) ?cs) = Inr s"
    by (auto simp: FuseInit_eq FuseStatfs_def)
  have "\<exists>C. andThen (cs_FuseInit demo_env (cs_start 3)) (foldE (cs_handle plain_mpi length)
      (map (\<lambda>(ev, c). (ev, Cs_call c)) ?cs)) = Inr C \<and> replies (master_fs C) = map to_cs_reply (replies s)"
    using versions_agree [OF _ _ s, of 3 plain_mpi] by auto
  with s show ?thesis by auto
qed

end
