(* ===== verification/ClientServerTree.thy ===== *)
theory ClientServerTree
  imports TreeRun ClientServerEquiv
begin

text \<open>
  The master of the client-server version against the abstract file system of \<open>TreeModel\<close>: the same
  specification as for the peer-to-peer version, without the paths that its directories do not keep.
\<close>

section \<open>Trees without paths\<close>

definition pathless :: "anode \<Rightarrow> anode" where
  "pathless nd = (case akind nd of ADir path ch \<Rightarrow> nd\<lparr>akind := ADir '''' ch\<rparr> | _ \<Rightarrow> nd)"

lemma node_abs_to_cs: "node_abs (to_cs_inode nd) = pathless (node_abs nd)"
  by (simp add: node_abs_def pathless_def to_cs_inode_def to_cs_class_def to_cs_dir_def to_cs_entry_def to_cs_stat_def
      attr_def split: node_class.split)

lemma tree_to_cs: "tree (to_cs s) = map pathless (tree s)"
  by (simp add: tree_def to_cs_nodes_def node_abs_to_cs)

lemma answer_to_cs: "answer (to_cs_reply rp) = answer rp"
  by (cases rp) (simp_all add: to_cs_entry_def)

lemma about_names_no_write: "about_names c \<Longrightarrow> \<not> is_write c"
  by (cases c) (simp_all add: about_names_def)

section \<open>The master\<close>

text \<open>
  C11. The master implements the same abstract file system: whatever requests about names it is sent
  from the start on, the run ends, the tree is the one of the abstract run but for the paths of
  directories, the answers are the abstract ones, and the nodes are told nothing but the change of
  their directory at the start.
\<close>

theorem master_implements_tree:
  assumes "all_steps within_limits am_step (map snd cs) am_boot"
    and names: "list_all about_names (map snd cs)" and len: "length cs + 2 \<le> 2 ^ 31"
  shows "\<exists>C. andThen (cs_FuseInit ev (cs_start n)) (foldE (cs_handle m esz) (map (\<lambda>(ev, c). (ev, Cs_call c)) cs)) = Inr C \<and>
    (let A = fold am_step (map snd cs) am_boot
     in tree (master_fs C) = map pathless (am_tree A) \<and> map answer (replies (master_fs C)) = am_answers A) \<and>
    mpi_calls C = mpi_calls (cs_sendChangedir (cs_start n))"
proof -
  let ?A = "fold am_step (map snd cs) am_boot" and ?s0 = "booted ev 0 1"
  let ?ok = "\<lambda>(ev, c) A. within_limits c A \<and> (True \<longrightarrow> about_names c)"
  have ok: "all_steps ?ok (\<lambda>(ev, c). am_step c) xs A"
    if "all_steps within_limits am_step (map snd xs) A" "list_all about_names (map snd xs)" for xs :: "(env \<times> fuse_call) list" and A
    using that by (induction xs arbitrary: A) auto
  have eq: "fold (\<lambda>(ev :: env, c). am_step c) xs A = fold am_step (map snd xs) A" for xs A
    by (induction xs arbitrary: A) auto
  have sure: "list_all (\<lambda>(ev, c). about_names c) cs" using names by (simp add: list_all_iff case_prod_beta)
  obtain s where s: "foldE (\<lambda>(ev, c). FuseOperations esz ev c) cs ?s0 = Inr s"
    using requests.run_ends [OF implements_booted ok [OF assms(1,2)] sure] by blast
  have R: "implements 0 1 True s ?A"
    using requests.run_simulated [OF implements_booted ok [OF assms(1,2)] s] by (simp only: eq)
  have no_write: "\<forall>(ev, c)\<in>set cs. \<not> is_write c"
    using names about_names_no_write by (force simp: list_all_iff)
  have run: "foldE (\<lambda>(ev, c). cs_FuseOperations esz ev c) cs (to_cs ?s0) = Inr (to_cs s)"
    using len by (intro runs_agree [OF _ _ no_write s]) simp_all
  let ?C0 = "cs_sendChangedir ((cs_start n)\<lparr>master_fs := to_cs ?s0\<rparr>)"
  have "cs_init_master ev (to_cs (new_FileSystem 0 1)) = Inr (to_cs ?s0)"
    using init_agrees by (simp add: agrees_def FuseInit_eq)
  then have init: "cs_FuseInit ev (cs_start n) = Inr ?C0"
    by (simp add: cs_FuseInit_def at_master_def cs_start_def to_cs_new_FileSystem)
  have "foldE (cs_handle m esz) (map (\<lambda>(ev, c). (ev, Cs_call c)) cs) ?C0 = Inr (?C0\<lparr>master_fs := to_cs s\<rparr>)"
    using run by (intro handle_calls) (simp add: cs_sendChangedir_def mpi_calling_def)
  moreover have "map answer (replies (to_cs s)) = am_answers ?A"
    using R by (simp add: implements_def to_cs_def answer_to_cs comp_def)
  moreover have "tree (to_cs s) = map pathless (am_tree ?A)"
    using R by (simp add: implements_def tree_to_cs)
  ultimately show ?thesis
    using init by (simp add: Let_def cs_sendChangedir_def mpi_calling_def)
qed

theorem master_implements_tree_witness:
  "\<exists>C. andThen (cs_FuseInit demo_env (cs_start 3)) (foldE (cs_handle plain_mpi length)
      (map (\<lambda>c. (demo_env, Cs_call c)) demo_requests)) = Inr C \<and>
    map answer (replies (master_fs C)) = [AEntry 2, ACreate 3, AErr ESUCCESS, AErr ESUCCESS, AErr ESUCCESS, AErr ENOENT]"
proof -
  let ?cs = "map (Pair demo_env) demo_requests"
  have cs: "map snd ?cs = demo_requests" by (simp add: comp_def)
  have len: "length ?cs + 2 \<le> 2 ^ 31" by (simp add: demo_requests_def)
  obtain C where C: "andThen (cs_FuseInit demo_env (cs_start 3)) (foldE (cs_handle plain_mpi length)
      (map (\<lambda>(ev, c). (ev, Cs_call c)) ?cs)) = Inr C"
    "map answer (replies (master_fs C)) = am_answers (fold am_step (map snd ?cs) am_boot)"
    using master_implements_tree [of ?cs demo_env 3 plain_mpi length, OF _ _ len, unfolded cs Let_def, OF demo_run(2,3)]
    unfolding cs by blast
  have "map (\<lambda>(ev, c). (ev, Cs_call c)) ?cs = map (\<lambda>c. (demo_env, Cs_call c)) demo_requests" by simp
  with C show ?thesis unfolding cs demo_run(1) by metis
qed

end
