(* ===== verification/Spec2Isabelle.thy ===== *)
theory Spec2Isabelle
  imports NodeDump FileLimits InterleavedFiles Collectives Races ReplicaLimits FsAttrSpec ClientServerFiles ClientServerTree
begin

text \<open>
  DAGonFS: a file system in the memory of the processes of an MPI program.

  The repository (\<^verbatim>\<open>src/src/\<close>) has two versions of the same program and a launcher. In the
  peer-to-peer version (\<^verbatim>\<open>peer-to-peer/\<close>) every process mounts the file system through libfuse, keeps all
  inodes, and tells the others about each change of the tree; a receiver thread replays the changes of
  the others by calling the operating system below the process's own mount point, with a flag that
  keeps its handlers from announcing the change again. In the client-server version
  (\<^verbatim>\<open>client-server/\<close>) one master mounts it and the other processes, the nodes, only hold blocks. In
  both the contents of a file are spread over the processes in blocks, written on \<open>flush\<close> and fetched
  on \<open>open\<close> by collective operations of MPI; in between \<open>read\<close> and \<open>write\<close> work on one buffer. The
  launcher (\<^verbatim>\<open>DAGonFS_Launcher.cpp\<close>) reads a configuration file and runs \<open>mpirun\<close>.

  \<^bold>\<open>Conventions.\<close> An operation that can reach undefined behaviour of C++ or an uncaught exception has
  the type \<open>'a exec\<close>, a sum of \<open>fault\<close> and its result (Prelude); sequencing is \<open>andThen\<close>, a loop over a list
  is \<open>foldE\<close> or \<open>mapE\<close>. A handler is a function from the state to the state, and its replies to libfuse and
  the messages it sends are logged in the state. Machine integers are words of their width. Names
  are those of the source. A buffer is a list of byte cells that can be indeterminate; addresses of
  blocks are positions in the heap of the process, which only grows because no block is ever freed, so
  addresses on different processes can coincide; properties rest on an address only on the process
  that has allocated it, or say that there is nothing at it.

  \<^bold>\<open>Foundations.\<close>
  \<^item> \<open>Prelude\<close>: faults, sequencing, loops, decimal numbers, the collections \<open>exec_simps\<close>, \<open>fs_defs\<close> and
    \<open>handler_frames\<close>; the locale \<open>forward_simulation\<close> (runs of a machine that can fault against runs of a
    specification that cannot), interpreted below as \<open>requests\<close>, \<open>replication\<close>, \<open>sessions\<close>,
    \<open>interleaved\<close> and \<open>master_files\<close>.
  \<^item> \<open>OrderedMap\<close>: \<open>std::map\<close> as a sorted association list; locale \<open>std_map\<close> with its interpretation \<open>om\<close>.
  \<^item> \<open>CMem\<close>: byte cells, buffers, \<open>memcpy\<close>, \<open>realloc\<close>, heaps.

  \<^bold>\<open>Inodes and state.\<close>
  \<^item> \<open>INodeObjects\<close> (\<^verbatim>\<open>nodes/INode.cpp\<close>, \<^verbatim>\<open>Directory.cpp\<close>, \<^verbatim>\<open>File.cpp\<close>, \<^verbatim>\<open>SymbolicLink.hpp\<close>): the inode as a
    record whose class is a datatype; locale \<open>child_table\<close>, interpreted by the directory operations.
  \<^item> \<open>Nodes\<close> (\<^verbatim>\<open>nodes/Nodes.cpp\<close>): the vector of inodes and the queue of reusable numbers.
  \<^item> \<open>DataBlocks\<close> (\<^verbatim>\<open>blocks/\<close>, \<^verbatim>\<open>mpi/DataBlockManager.cpp\<close>): block metadata and block lists.
  \<^item> \<open>Requests\<close> (\<^verbatim>\<open>mpi/mpi_data.hpp\<close>, \<^verbatim>\<open>utils/RequestSender.cpp\<close>): the packets and who gets which.
  \<^item> \<open>FileSystemState\<close> (\<^verbatim>\<open>ramfs/FileSystem.hpp\<close>, \<^verbatim>\<open>ramfs/FileSystem.cpp\<close>): the statics of \<open>FileSystem\<close> as the
    record \<open>fs_state\<close>, \<open>RegisterINode\<close>, \<open>FuseInit\<close>, the counters.

  \<^bold>\<open>Handlers\<close> (\<^verbatim>\<open>ramfs/FileSystem.cpp\<close>).
  \<^item> \<open>FsNamespace\<close>: lookup, forget, mknod, mkdir, create, unlink, rmdir, symlink, rename, link.
  \<^item> \<open>FsAttributes\<close>: attributes, extended attributes, access, directory streams, statfs.
  \<^item> \<open>FsData\<close>: read, write, release. \<open>DistIO\<close>: open and flush, which involve all processes.
  \<^item> \<open>FsInvariant\<close>, \<open>FsBoot\<close>: the invariant \<open>fs_wf\<close> (slot \<open>i\<close> of the vector holds inode \<open>i\<close>, directory
    entries are sorted and point into the vector, the free inode counter is the total less the inodes),
    which updates keep it, and the state after \<open>FuseInit\<close>.
  \<^item> \<open>FsNamespaceSpec\<close>, \<open>FsTreeSpec\<close>: what each handler does to entries, link and reference counts, replies
    and messages, on success and on failure. \<open>FsAttrSpec\<close>: what extended attributes read back as and what
    the pages of a directory listing contain.
  \<^item> \<open>FsMachine\<close>: the operation table, for the requests that concern one process; the locale
    \<open>budgeted_machine\<close> (an invariant that survives every run as long as the number of inodes fits \<open>int\<close>).
  \<^item> \<open>WorldMachine\<close>: the whole table, open and flush included, as events of the system of all processes;
    the same locale interpreted on it, and how often each request is answered.

  \<^bold>\<open>An abstract file system.\<close>
  \<^item> \<open>TreeModel\<close>: the specification of the tree, without counters, times, owners, buffers or references:
    nodes with links and children, each request about a name as a function to the new tree, the answers
    and what the others are told. \<open>tree\<close> reads it off the state of a process.
  \<^item> \<open>TreeRefine\<close>: each handler does what the specification says, flags of the receiver thread included
    (\<open>meets\<close>). \<open>TreeRun\<close>: the other requests leave the tree alone; runs of any length from \<open>FuseInit\<close> on
    simulate runs of the specification; inodes keep their class.
  \<^item> \<open>Replicas\<close>: all processes together. A request on one process, what it announces, the system calls of
    the other receivers, carried out by a kernel that is a parameter (\<open>vfs\<close>, documented behaviour
    \<open>vfs_documented\<close>, instance \<open>plain_vfs\<close>), and the requests these calls cause: after any such sequence all
    processes hold the abstract tree. \<open>ReplicaLimits\<close>: the requests for which they do not.
  \<^item> \<open>ClientServerTree\<close>: the master of the client-server version implements the same specification.

  \<^bold>\<open>Contents.\<close>
  \<^item> \<open>Distribution\<close>: shares of the blocks, counts and displacements, the collectives of MPI as a parameter
    (record \<open>mpi\<close>) with their documented behaviour (\<open>mpi_documented\<close>; \<open>plain_mpi\<close> is an instance).
  \<^item> \<open>DistIO\<close> (\<^verbatim>\<open>mpi/DistributedCode.cpp\<close>): \<open>DAGonFS_Write\<close> and \<open>DAGonFS_Read\<close> of all processes together.
  \<^item> \<open>DistSpec\<close>, \<open>DistProps\<close>: what they promise, and the contract of a store with last-write-wins reads as the
    locale \<open>replicated_store\<close>, interpreted here and by the client-server version.
  \<^item> \<open>DistLimits\<close>: the partition, the file size where \<open>int\<close> ends, the recorded ranks, reads of another size.
  \<^item> \<open>FileContents\<close>: write, read, flush and open on the buffer of a file, up to the sharing of a file between
    two processes.
  \<^item> \<open>SharedFiles\<close>: sessions of open, reads, writes, flush and release, one after the other on any processes,
    against one shared copy of every file (\<open>a_session\<close>; \<open>at_rest\<close> relates it to the blocks, sizes and buffers
    of all processes). \<open>InterleavedFiles\<close>: the same request by request, the sessions of different files
    overlapping in any way (\<open>p_file\<close>, \<open>p_step\<close>). \<open>FileLimits\<close>: what goes wrong when sessions overlap, on two processes or on one, or when
    a file shrinks.

  \<^bold>\<open>Processes.\<close>
  \<^item> \<open>Receiver\<close> (\<^verbatim>\<open>mpi/DistributedCode.cpp\<close>): the receive loop as a step relation on queues of messages per
    source, its replay of announcements, termination, and what two senders at once can do to it.
    \<open>Races\<close>: a local request between a replayed system call and the request it causes.
  \<^item> \<open>Collectives\<close>: the handler and the receiver thread of every process as two threads that enter the collective
    calls of MPI one by one (\<open>io_step\<close>; the matching of the calls is a parameter, \<open>synchronising\<close> its strictest
    behaviour). A distributed operation that no other overlaps ends with every process having joined it once,
    the reason why \<open>DistIO\<close> takes it as one step; two at once can wait for each other for ever.
  \<^item> \<open>Session\<close> (\<^verbatim>\<open>main.cpp\<close>, \<open>FileSystem::start\<close> of both versions, \<^verbatim>\<open>utils/ArgumentParser.cpp\<close>): start and end
    of a process as the sequence of its calls, to the destructor of \<open>FileSystem\<close>; libfuse and the host are
    parameters.
  \<^item> \<open>Launcher\<close> (\<^verbatim>\<open>DAGonFS_Launcher.cpp\<close>): the configuration file and the command.

  \<^bold>\<open>Client-server version\<close> (\<^verbatim>\<open>client-server/include/\<close>).
  \<^item> \<open>ClientServerIO\<close>, \<open>ClientServerSpec\<close>, \<open>ClientServerProps\<close> (\<^verbatim>\<open>mpi/MasterProcessCode.cpp\<close>,
    \<^verbatim>\<open>mpi/NodeProcessCode.cpp\<close>): the distributed operations of master and nodes, their contract, what
    they leak. \<open>NodeDump\<close>: a node writes its blocks to files, which hold all that was written to it.
  \<^item> \<open>ClientServerNodes\<close>: the receive loop of the nodes. The master records its collective calls with the
    pieces they move (\<open>mpi_calls\<close>); the input of a node is that record as its rank sees it
    (\<open>node_inputs\<close>), so the two sides can be seen to disagree, and are shown not to.
  \<^item> \<open>ClientServerFs\<close>, \<open>ClientServerEquiv\<close> (\<^verbatim>\<open>ramfs/FileSystem.cpp\<close>): the handlers, written out where their
    text differs from the peer-to-peer version, and the equivalence of both versions.
  \<^item> \<open>ClientServerFiles\<close>: the requests about contents that the master's kernel makes, those of different
    files interleaved, against a specification with one list of bytes per file (\<open>a_file\<close>, \<open>a_handle\<close>).

  \<^bold>\<open>Bounds.\<close> The number of inodes is returned as \<open>int\<close>, so runs are followed as long as inodes and requests
  stay within \<open>2 ^ 31\<close>; distributed operations need counts that fit \<open>int\<close> (\<open>dist_fits\<close>, \<open>cs_fits\<close>). Runs follow
  the abstract tree as long as announced paths fit the arrays of the request packets (\<open>name_ok\<close>) and no more
  than 256 numbers were given back, the threshold above which numbers are reused (\<open>within_limits\<close>);
  replication is stated for requests that follow one another, sessions for files below 2 GiB. The loops are
  structural or have a measure; no fuel is used. The receive loop of a peer need not end and is a
  relation; the loop of a node is a function of the finite input it has been given.

  \<^bold>\<open>Not modelled.\<close> Log output and timing statistics; the contents of \<^verbatim>\<open>fuse_conn_info\<close>; data races between
  the receiver thread and the handlers inside one operation (each handler and each receive is one
  step, except in \<open>Collectives\<close>, where the threads meet at the collective calls); what a child of
  \<open>fuse_daemonize\<close> does without the receiver thread (\<open>ses_forked\<close> records the fork, and the properties about
  the end of \<open>main\<close> are about processes in the foreground); around a replayed system call, the \<open>flush\<close>
  when its file is closed and later \<open>forget\<close>s of the kernel (\<open>vfs_documented\<close>); the kernel itself,
  which turns a replayed system call into requests, MPI, libfuse and the operating system, which are
  parameters. Headers that only declare, and the copies of classes that the
  client-server version shares word for word, have no definitions of their own.
\<close>

end
